(* ===== verification/Prelude.thy ===== *)
theory Prelude
  imports Main "HOL-Library.AList"
begin

text \<open>
  Shared vocabulary of the development: the exceptions a Python call of the repository
  can raise, computations that thread a state and may raise (the state survives the
  exception, as a committed database write does), Python dictionaries as association
  lists in insertion order, and the string operations the sources use.

  A Python \<^theory_text>\<open>str\<close> is a HOL \<^typ>\<open>string\<close> whose characters are the code points
  U+0000 to U+00FF; texts with larger code points are outside the model.
\<close>

named_theorems act_simps \<open>unfolding of the state operations, one rule per outcome\<close>
named_theorems resp_simps \<open>reading fields of a response dictionary\<close>
named_theorems inv_intros \<open>preservation of the invariants, one rule per operation\<close>

section \<open>Exceptions\<close>

text \<open>
  One constructor per exception class the modelled code raises or lets through, the exceptions
  of third-party libraries in one, by their text. \<open>NoReturn\<close>
  is the result of a loop that has not finished within the fuel of the model.
\<close>

datatype exn =
    SessionNotFoundError
  | StackFull string nat nat
  | SkippedPredecessor string string
  | KeyError string
  | IndexError string
  | TypeError string
  | ValueError string
  | AssertionError string
  | IntegrityError
  | RuntimeError string
  | UnknownServer string "string list"
  | RegexError string
  | ModuleNotFoundError string
  | RecordFormatError string
  | JSONDecodeError string
  | AttributeError string
  | OSError string
  | SystemExit int
  | RegistryLoadError string
  | LibraryError string
  | NoReturn

section \<open>Computations over a state\<close>

type_synonym ('s, 'a) act = "'s \<Rightarrow> (exn + 'a) \<times> 's"

definition retE :: "'a \<Rightarrow> ('s, 'a) act" where
  "retE x s = (Inr x, s)"

definition raiseE :: "exn \<Rightarrow> ('s, 'a) act" where
  "raiseE e s = (Inl e, s)"

definition bindE :: "('s, 'a) act \<Rightarrow> ('a \<Rightarrow> ('s, 'b) act) \<Rightarrow> ('s, 'b) act" where
  "bindE m f s = (case m s of (Inl e, s') \<Rightarrow> (Inl e, s') | (Inr x, s') \<Rightarrow> f x s')"

definition seqE :: "('s, unit) act \<Rightarrow> ('s, 'b) act \<Rightarrow> ('s, 'b) act" where
  "seqE m k = bindE m (\<lambda>_. k)"

text \<open>A read of the state, and a lifted pure computation that may raise.\<close>

definition getE :: "('s \<Rightarrow> 'a) \<Rightarrow> ('s, 'a) act" where
  "getE f s = (Inr (f s), s)"

definition liftE :: "exn + 'a \<Rightarrow> ('s, 'a) act" where
  "liftE r s = (r, s)"

text \<open>\<open>try: m except h\<close>: the handler sees the exception and the state it left.\<close>

definition catchE :: "('s, 'a) act \<Rightarrow> (exn \<Rightarrow> ('s, 'a) act) \<Rightarrow> ('s, 'a) act" where
  "catchE m h s = (case m s of (Inl e, s') \<Rightarrow> h e s' | (Inr x, s') \<Rightarrow> (Inr x, s'))"

text \<open>\<open>try: x = m except h else: k(x)\<close>: exceptions of \<open>k\<close> are not handled.\<close>

definition eitherE ::
  "('s, 'a) act \<Rightarrow> (exn \<Rightarrow> ('s, 'b) act) \<Rightarrow> ('a \<Rightarrow> ('s, 'b) act) \<Rightarrow> ('s, 'b) act" where
  "eitherE m h k s = (case m s of (Inl e, s') \<Rightarrow> h e s' | (Inr x, s') \<Rightarrow> k x s')"

text \<open>
  \<open>db.transaction\<close>: the body runs between BEGIN IMMEDIATE and COMMIT; an exception
  rolls back, so the state is the one before the body.
\<close>

definition transaction :: "('s, 'a) act \<Rightarrow> ('s, 'a) act" where
  "transaction m s = (case m s of (Inl e, _) \<Rightarrow> (Inl e, s) | (Inr x, s') \<Rightarrow> (Inr x, s'))"

lemma transaction_err: "fst (transaction m s) = Inl e \<Longrightarrow> snd (transaction m s) = s"
  by (auto simp: transaction_def split: prod.splits sum.splits)

lemma retE_apply [simp]: "retE x s = (Inr x, s)"
  by (simp add: retE_def)

lemma raiseE_apply [simp]: "raiseE e s = (Inl e, s)"
  by (simp add: raiseE_def)

lemma getE_apply [simp]: "getE f s = (Inr (f s), s)"
  by (simp add: getE_def)

lemma liftE_apply [simp]: "liftE r s = (r, s)"
  by (simp add: liftE_def)

lemma bindE_ok [simp]: "m s = (Inr x, s') \<Longrightarrow> bindE m f s = f x s'"
  by (simp add: bindE_def)

lemma bindE_err [simp]: "m s = (Inl e, s') \<Longrightarrow> bindE m f s = (Inl e, s')"
  by (simp add: bindE_def)

lemma seqE_ok [simp]: "m s = (Inr (), s') \<Longrightarrow> seqE m k s = k s'"
  by (simp add: seqE_def)

lemma seqE_err [simp]: "m s = (Inl e, s') \<Longrightarrow> seqE m k s = (Inl e, s')"
  by (simp add: seqE_def)

lemma catchE_ok [simp]: "m s = (Inr x, s') \<Longrightarrow> catchE m h s = (Inr x, s')"
  by (simp add: catchE_def)

lemma catchE_err [simp]: "m s = (Inl e, s') \<Longrightarrow> catchE m h s = h e s'"
  by (simp add: catchE_def)

lemma eitherE_ok [simp]: "m s = (Inr x, s') \<Longrightarrow> eitherE m h k s = k x s'"
  by (simp add: eitherE_def)

lemma eitherE_err [simp]: "m s = (Inl e, s') \<Longrightarrow> eitherE m h k s = h e s'"
  by (simp add: eitherE_def)

lemma bindE_retE [simp]: "bindE (retE x) f = f x"
  by (simp add: fun_eq_iff)

lemma bindE_getE [simp]: "bindE (getE g) f s = f (g s) s"
  by simp

lemma bindE_raiseE [simp]: "bindE (raiseE e) f = raiseE e"
  by (simp add: fun_eq_iff)

lemma bindE_liftE_Inr [simp]: "bindE (liftE (Inr x)) f = f x"
  by (simp add: fun_eq_iff)

lemma bindE_liftE_Inl [simp]: "bindE (liftE (Inl e)) f = raiseE e"
  by (simp add: fun_eq_iff)

text \<open>
  A computation keeps a predicate of the state, whatever its outcome: the rules below
  reduce a handler to its operations.
\<close>

definition keeps :: "('s \<Rightarrow> bool) \<Rightarrow> ('s, 'a) act \<Rightarrow> bool" where
  "keeps P m \<longleftrightarrow> (\<forall>s. P s \<longrightarrow> P (snd (m s)))"

lemma keepsI: "(\<And>s. P s \<Longrightarrow> P (snd (m s))) \<Longrightarrow> keeps P m"
  by (simp add: keeps_def)

lemma keepsD: "keeps P m \<Longrightarrow> P s \<Longrightarrow> m s = (r, s') \<Longrightarrow> P s'"
  by (metis keeps_def snd_conv)

lemma keeps_retE [inv_intros]: "keeps P (retE x)"
  by (simp add: keeps_def)

lemma keeps_raiseE [inv_intros]: "keeps P (raiseE e)"
  by (simp add: keeps_def)

lemma keeps_getE [inv_intros]: "keeps P (getE f)"
  by (simp add: keeps_def)

lemma keeps_liftE [inv_intros]: "keeps P (liftE r)"
  by (simp add: keeps_def)

lemma keeps_bindE [inv_intros]:
  "keeps P m \<Longrightarrow> (\<And>x. keeps P (f x)) \<Longrightarrow> keeps P (bindE m f)"
  by (auto simp: keeps_def bindE_def split: prod.splits sum.splits)

lemma keeps_seqE [inv_intros]: "keeps P m \<Longrightarrow> keeps P k \<Longrightarrow> keeps P (seqE m k)"
  unfolding seqE_def by (rule keeps_bindE)

lemma keeps_catchE [inv_intros]:
  "keeps P m \<Longrightarrow> (\<And>e. keeps P (h e)) \<Longrightarrow> keeps P (catchE m h)"
  by (auto simp: keeps_def catchE_def split: prod.splits sum.splits)

lemma keeps_eitherE [inv_intros]:
  "keeps P m \<Longrightarrow> (\<And>e. keeps P (h e)) \<Longrightarrow> (\<And>x. keeps P (k x)) \<Longrightarrow> keeps P (eitherE m h k)"
  by (auto simp: keeps_def eitherE_def split: prod.splits sum.splits)

lemma keeps_transaction [inv_intros]: "keeps P m \<Longrightarrow> keeps P (transaction m)"
  by (auto simp: keeps_def transaction_def split: prod.splits sum.splits)

lemma keeps_if [inv_intros]: "keeps P m \<Longrightarrow> keeps P k \<Longrightarrow> keeps P (if b then m else k)"
  by simp

lemma keeps_case_option [inv_intros]:
  "(x = None \<Longrightarrow> keeps P m) \<Longrightarrow> (\<And>y. x = Some y \<Longrightarrow> keeps P (f y)) \<Longrightarrow>
   keeps P (case x of None \<Rightarrow> m | Some y \<Rightarrow> f y)"
  by (simp split: option.splits)

lemma keeps_case_sum [inv_intros]:
  "(\<And>a. x = Inl a \<Longrightarrow> keeps P (f a)) \<Longrightarrow> (\<And>b. x = Inr b \<Longrightarrow> keeps P (g b)) \<Longrightarrow>
   keeps P (case x of Inl a \<Rightarrow> f a | Inr b \<Rightarrow> g b)"
  by (simp split: sum.splits)

lemma keeps_case_prod [inv_intros]:
  "(\<And>a b. x = (a, b) \<Longrightarrow> keeps P (f a b)) \<Longrightarrow> keeps P (case x of (a, b) \<Rightarrow> f a b)"
  by (simp split: prod.splits)

lemma keeps_case_exn [inv_intros]:
  "(\<And>a b. x = SkippedPredecessor a b \<Longrightarrow> keeps P (f a b)) \<Longrightarrow> keeps P m \<Longrightarrow>
   keeps P (case x of SkippedPredecessor a b \<Rightarrow> f a b | _ \<Rightarrow> m)"
  by (simp split: exn.splits)

lemma keeps_case_full [inv_intros]:
  "(\<And>a b c. x = StackFull a b c \<Longrightarrow> keeps P (f a b c)) \<Longrightarrow> keeps P m \<Longrightarrow>
   keeps P (case x of StackFull a b c \<Rightarrow> f a b c | _ \<Rightarrow> m)"
  by (simp split: exn.splits)

lemma keeps_Let [inv_intros]: "keeps P (f x) \<Longrightarrow> keeps P (let y = x in f y)"
  by simp

text \<open>Pure computations that may raise, in sequence.\<close>

definition andThen :: "exn + 'a \<Rightarrow> ('a \<Rightarrow> exn + 'b) \<Rightarrow> exn + 'b" where
  "andThen r f = (case r of Inl x \<Rightarrow> Inl x | Inr a \<Rightarrow> f a)"

lemma andThen_simps [simp]: "andThen (Inl x) f = Inl x" "andThen (Inr a) f = f a"
  by (simp_all add: andThen_def)

section \<open>Python dictionaries\<close>

text \<open>
  A dictionary keeps its keys in insertion order: \<open>d[k] = v\<close> is \<^const>\<open>AList.update\<close> (in
  place when the key is there, at the end otherwise), \<open>d.pop(k, None)\<close> is
  \<^const>\<open>AList.delete\<close>, \<open>d.get(k)\<close> is \<^const>\<open>map_of\<close>.
\<close>

type_synonym ('k, 'v) dict = "('k \<times> 'v) list"

abbreviation dget :: "('k, 'v) dict \<Rightarrow> 'k \<Rightarrow> 'v option" where
  "dget d k \<equiv> map_of d k"

definition dget_or :: "('k, 'v) dict \<Rightarrow> 'k \<Rightarrow> 'v \<Rightarrow> 'v" where
  "dget_or d k v = (case map_of d k of None \<Rightarrow> v | Some w \<Rightarrow> w)"

definition dhas :: "('k, 'v) dict \<Rightarrow> 'k \<Rightarrow> bool" where
  "dhas d k \<longleftrightarrow> map_of d k \<noteq> None"

abbreviation dput :: "'k \<Rightarrow> 'v \<Rightarrow> ('k, 'v) dict \<Rightarrow> ('k, 'v) dict" where
  "dput \<equiv> AList.update"

abbreviation ddel :: "'k \<Rightarrow> ('k, 'v) dict \<Rightarrow> ('k, 'v) dict" where
  "ddel \<equiv> AList.delete"

lemma set_dput: "set (dput k v d) \<subseteq> insert (k, v) (set d)"
  by (induction d) auto

lemma dget_dput [simp]: "dget (dput k v d) k' = (if k' = k then Some v else dget d k')"
  by (simp add: update_conv')

lemma dget_ddel [simp]: "dget (ddel k d) k' = (if k' = k then None else dget d k')"
  by (simp add: delete_conv')

lemma dput_fresh: "map_of d k = None \<Longrightarrow> dput k v d = d @ [(k, v)]"
  by (induction d) auto

lemma dhas_dput [simp]: "dhas (dput k v d) k' \<longleftrightarrow> k' = k \<or> dhas d k'"
  by (auto simp: dhas_def)

lemma dhas_ddel [simp]: "dhas (ddel k d) k' \<longleftrightarrow> k' \<noteq> k \<and> dhas d k'"
  by (auto simp: dhas_def)

lemma dhas_Nil [simp]: "\<not> dhas [] k"
  by (simp add: dhas_def)

lemma dget_or_dput_same [simp]: "dget_or (dput k v d) k w = v"
  by (simp add: dget_or_def)

lemma dget_or_dput_other [simp]: "k' \<noteq> k \<Longrightarrow> dget_or (dput k v d) k' w = dget_or d k' w"
  by (simp add: dget_or_def)

text \<open>Removing several keys, one \<open>pop\<close> after another.\<close>

fun ddels :: "'k list \<Rightarrow> ('k, 'v) dict \<Rightarrow> ('k, 'v) dict" where
  "ddels [] d = d"
| "ddels (k # ks) d = ddels ks (ddel k d)"

lemma dget_ddels [simp]: "dget (ddels ks d) k = (if k \<in> set ks then None else dget d k)"
  by (induction ks arbitrary: d) auto

lemma dhas_ddels [simp]: "dhas (ddels ks d) k \<longleftrightarrow> k \<notin> set ks \<and> dhas d k"
  by (simp add: dhas_def)

section \<open>Strings\<close>

definition digit_char :: "nat \<Rightarrow> char" where
  "digit_char d = char_of (48 + d)"

fun str_nat :: "nat \<Rightarrow> string" where
  "str_nat n = (if n < 10 then [digit_char n] else str_nat (n div 10) @ [digit_char (n mod 10)])"

declare str_nat.simps [simp del]

definition str_int :: "int \<Rightarrow> string" where
  "str_int i = (if i < 0 then ''-'' @ str_nat (nat (- i)) else str_nat (nat i))"

fun join :: "string \<Rightarrow> string list \<Rightarrow> string" where
  "join sep [] = []"
| "join sep [x] = x"
| "join sep (x # y # xs) = x @ sep @ join sep (y # xs)"

text \<open>\<open>s.split(c)\<close> for a one-character separator: at least one part, possibly empty.\<close>

fun split_on :: "char \<Rightarrow> string \<Rightarrow> string list" where
  "split_on c [] = [[]]"
| "split_on c (x # xs) =
     (if x = c then [] # split_on c xs
      else (case split_on c xs of [] \<Rightarrow> [[x]] | p # ps \<Rightarrow> (x # p) # ps))"

lemma split_on_ne [simp]: "split_on c s \<noteq> []"
  by (induction s) (auto split: list.splits)

fun starts_with :: "string \<Rightarrow> string \<Rightarrow> bool" where
  "starts_with s [] = True"
| "starts_with [] (p # ps) = False"
| "starts_with (x # xs) (p # ps) = (x = p \<and> starts_with xs ps)"

definition ends_with :: "string \<Rightarrow> string \<Rightarrow> bool" where
  "ends_with s p = starts_with (rev s) (rev p)"

text \<open>\<open>p in s\<close> on strings.\<close>

fun contains :: "string \<Rightarrow> string \<Rightarrow> bool" where
  "contains [] p = (p = [])"
| "contains (x # xs) p = (starts_with (x # xs) p \<or> contains xs p)"

text \<open>\<open>len(s.encode("utf-8"))\<close>: one byte below U+0080, two up to U+00FF.\<close>

fun utf8_len :: "string \<Rightarrow> nat" where
  "utf8_len [] = 0"
| "utf8_len (c # cs) = (if of_char c < (128 :: nat) then 1 else 2) + utf8_len cs"

lemma utf8_len_ge: "length s \<le> utf8_len s"
  by (induction s) auto

lemma utf8_len_append: "utf8_len (s @ t) = utf8_len s + utf8_len t"
  by (induction s) auto

section \<open>Runs of a machine and their invariants\<close>

text \<open>
  Several components of the repository are a state that calls change: a step relation, whose
  reachable states are its reflexive transitive closure, or a step function driven by a
  sequence of calls. An invariant of the step is an invariant of every run.
\<close>

locale step_invariant =
  fixes step :: "'s \<Rightarrow> 's \<Rightarrow> bool"
    and inv :: "'s \<Rightarrow> bool"
  assumes step_inv: "step s s' \<Longrightarrow> inv s \<Longrightarrow> inv s'"
begin

lemma reach_inv:
  assumes "step\<^sup>*\<^sup>* s s'" and "inv s"
  shows "inv s'"
  using assms by (induction rule: rtranclp_induct) (auto intro: step_inv)

end

definition run :: "('s \<Rightarrow> 'e \<Rightarrow> 's) \<Rightarrow> 's \<Rightarrow> 'e list \<Rightarrow> 's" where
  "run f s es = foldl f s es"

lemma run_Nil [simp]: "run f s [] = s"
  by (simp add: run_def)

lemma run_Cons [simp]: "run f s (e # es) = run f (f s e) es"
  by (simp add: run_def)

lemma run_append: "run f s (es @ fs) = run f (run f s es) fs"
  by (simp add: run_def)

definition stepped :: "('s \<Rightarrow> 'e \<Rightarrow> 's) \<Rightarrow> 's \<Rightarrow> 's \<Rightarrow> bool" where
  "stepped f s s' \<longleftrightarrow> (\<exists>e. s' = f s e)"

lemma run_reachable: "(stepped f)\<^sup>*\<^sup>* s (run f s es)"
proof (induction es arbitrary: s)
  case (Cons e es)
  have "stepped f s (f s e)" by (auto simp: stepped_def)
  with Cons show ?case by (auto intro: converse_rtranclp_into_rtranclp)
qed simp

locale invariant_machine =
  fixes f :: "'s \<Rightarrow> 'e \<Rightarrow> 's"
    and inv :: "'s \<Rightarrow> bool"
  assumes fun_inv: "inv s \<Longrightarrow> inv (f s e)"

sublocale invariant_machine \<subseteq> step_invariant "stepped f" inv
  by unfold_locales (auto simp: stepped_def fun_inv)

context invariant_machine
begin

lemma run_inv: "inv s \<Longrightarrow> inv (run f s es)"
  by (rule reach_inv [OF run_reachable])

end

end
