(* ===== verification/PyJson.thy ===== *)
theory PyJson
  imports Prelude "HOL-Library.List_Lexorder" "HOL-Library.Char_ord"
begin

text \<open>
  The values YAML and JSON documents are made of, Python's equality and truth value on
  them, and the parts of the standard library's \<^verbatim>\<open>json\<close> module the sources call:
  \<^verbatim>\<open>json.dumps\<close> (default format, and the canonical format of the workflow fingerprint) and
  \<^verbatim>\<open>json.loads\<close>. The main lemma is the round trip \<open>loads (dumps v) = Some v\<close>.

  Bounds: a float is a decimal \<open>m / 10^k\<close> (no NaN, no infinity, no rounding to binary64),
  printed without an exponent; dictionary keys are strings; code points stay below U+0100, so a
  \<^verbatim>\<open>\u\<close> escape above it makes \<open>loads\<close> fail here.
\<close>

datatype pyval =
    PNone
  | PBool bool
  | PInt int
  | PFloat int nat
  | PStr string
  | PList "pyval list"
  | PDict "(string \<times> pyval) list"

section \<open>Equality, truth, types\<close>

fun py_num :: "pyval \<Rightarrow> (int \<times> nat) option" where
  "py_num (PBool b) = Some (of_bool b, 0)"
| "py_num (PInt i) = Some (i, 0)"
| "py_num (PFloat m k) = Some (m, k)"
| "py_num _ = None"

definition num_eq :: "int \<times> nat \<Rightarrow> int \<times> nat \<Rightarrow> bool" where
  "num_eq x y \<longleftrightarrow> fst x * 10 ^ snd y = fst y * 10 ^ snd x"

definition num_pos :: "int \<times> nat \<Rightarrow> bool" where
  "num_pos x \<longleftrightarrow> 0 < fst x"

text \<open>\<open>==\<close>: numbers (bools included) by value, dictionaries without their order.\<close>

fun py_eq :: "pyval \<Rightarrow> pyval \<Rightarrow> bool" where
  "py_eq PNone w = (w = PNone)"
| "py_eq (PBool b) w = (case py_num w of None \<Rightarrow> False | Some y \<Rightarrow> num_eq (of_bool b, 0) y)"
| "py_eq (PInt i) w = (case py_num w of None \<Rightarrow> False | Some y \<Rightarrow> num_eq (i, 0) y)"
| "py_eq (PFloat m k) w = (case py_num w of None \<Rightarrow> False | Some y \<Rightarrow> num_eq (m, k) y)"
| "py_eq (PStr s) w = (w = PStr s)"
| "py_eq (PList xs) w = (case w of PList ys \<Rightarrow> list_all2 py_eq xs ys | _ \<Rightarrow> False)"
| "py_eq (PDict xs) w =
     (case w of
        PDict ys \<Rightarrow> length xs = length ys \<and>
          list_all (\<lambda>x. case map_of ys (fst x) of None \<Rightarrow> False | Some v \<Rightarrow> py_eq (snd x) v) xs
      | _ \<Rightarrow> False)"

fun truthy :: "pyval \<Rightarrow> bool" where
  "truthy PNone = False"
| "truthy (PBool b) = b"
| "truthy (PInt i) = (i \<noteq> 0)"
| "truthy (PFloat m k) = (m \<noteq> 0)"
| "truthy (PStr s) = (s \<noteq> [])"
| "truthy (PList xs) = (xs \<noteq> [])"
| "truthy (PDict d) = (d \<noteq> [])"

text \<open>\<open>type(v).__name__\<close>, for messages.\<close>

fun type_name :: "pyval \<Rightarrow> string" where
  "type_name PNone = ''NoneType''"
| "type_name (PBool _) = ''bool''"
| "type_name (PInt _) = ''int''"
| "type_name (PFloat _ _) = ''float''"
| "type_name (PStr _) = ''str''"
| "type_name (PList _) = ''list''"
| "type_name (PDict _) = ''dict''"

fun is_str :: "pyval \<Rightarrow> bool" where
  "is_str (PStr _) = True" | "is_str _ = False"

fun is_dict :: "pyval \<Rightarrow> bool" where
  "is_dict (PDict _) = True" | "is_dict _ = False"

fun is_list :: "pyval \<Rightarrow> bool" where
  "is_list (PList _) = True" | "is_list _ = False"

fun is_bool :: "pyval \<Rightarrow> bool" where
  "is_bool (PBool _) = True" | "is_bool _ = False"

text \<open>\<open>d.get(k)\<close> and \<open>k in d\<close> on a value known to be a mapping; none of the keys otherwise.\<close>

fun pget :: "pyval \<Rightarrow> string \<Rightarrow> pyval option" where
  "pget (PDict d) k = map_of d k"
| "pget _ k = None"

definition phas :: "pyval \<Rightarrow> string \<Rightarrow> bool" where
  "phas v k \<longleftrightarrow> pget v k \<noteq> None"

text \<open>\<open>repr(s)\<close> of a string and of a list of strings, as f-strings print them with \<open>!r\<close>.\<close>

definition hex_char :: "nat \<Rightarrow> char" where
  "hex_char n = (if n < 10 then char_of (48 + n) else char_of (87 + n))"

abbreviation dq :: char where "dq \<equiv> CHR 0x22"
abbreviation sq :: char where "sq \<equiv> CHR 0x27"
abbreviation bs :: char where "bs \<equiv> CHR 0x5C"

definition repr_char :: "char \<Rightarrow> char \<Rightarrow> string" where
  "repr_char q c =
     (let n = of_char c :: nat in
      if c = q \<or> c = bs then [bs, c]
      else if n = 10 then [bs, CHR ''n'']
      else if n = 13 then [bs, CHR ''r'']
      else if n = 9 then [bs, CHR ''t'']
      else if n < 32 \<or> (127 \<le> n \<and> n \<le> 160) \<or> n = 173
      then [bs, CHR ''x'', hex_char (n div 16), hex_char (n mod 16)]
      else [c])"

definition repr_str :: "string \<Rightarrow> string" where
  "repr_str s =
     (let q = (if sq \<in> set s \<and> dq \<notin> set s then dq else sq)
      in [q] @ concat (map (repr_char q) s) @ [q])"

definition repr_strs :: "string list \<Rightarrow> string" where
  "repr_strs xs = ''['' @ join '', '' (map repr_str xs) @ '']''"

text \<open>A name between single quotes, as the messages of the sources print it.\<close>

definition quoted :: "string \<Rightarrow> string" where
  "quoted s = [sq] @ s @ [sq]"

text \<open>\<open>d[k]\<close> and \<open>k in d\<close> on a value that may be no mapping: on a string a substring test, on a list an element test.\<close>

definition getitem :: "pyval \<Rightarrow> string \<Rightarrow> exn + pyval" where
  "getitem v k =
     (case v of
        PDict d \<Rightarrow> (case map_of d k of Some x \<Rightarrow> Inr x | None \<Rightarrow> Inl (KeyError k))
      | PStr _ \<Rightarrow> Inl (TypeError (''string indices must be integers, not '' @ quoted ''str''))
      | PList _ \<Rightarrow> Inl (TypeError ''list indices must be integers or slices, not str'')
      | _ \<Rightarrow> Inl (TypeError (quoted (type_name v) @ '' object is not subscriptable'')))"

definition py_in :: "string \<Rightarrow> pyval \<Rightarrow> exn + bool" where
  "py_in k v =
     (case v of
        PDict d \<Rightarrow> Inr (map_of d k \<noteq> None)
      | PStr s \<Rightarrow> Inr (contains s k)
      | PList xs \<Rightarrow> Inr (PStr k \<in> set xs)
      | _ \<Rightarrow> Inl (TypeError (''argument of type '' @ quoted (type_name v) @ '' is not iterable'')))"

section \<open>json.dumps\<close>

definition esc_char :: "bool \<Rightarrow> char \<Rightarrow> string" where
  "esc_char ascii c =
     (if c = dq then [bs, dq]
      else if c = bs then [bs, bs]
      else if c = CHR 0x0A then [bs, CHR ''n'']
      else if c = CHR 0x0D then [bs, CHR ''r'']
      else if c = CHR 0x09 then [bs, CHR ''t'']
      else if c = CHR 0x0C then [bs, CHR ''f'']
      else if c = CHR 0x08 then [bs, CHR ''b'']
      else (let n = of_char c :: nat in
        if n < 32 \<or> (ascii \<and> 126 < n)
        then [bs, CHR ''u'', CHR ''0'', CHR ''0'', hex_char (n div 16), hex_char (n mod 16)]
        else [c]))"

definition dump_str :: "bool \<Rightarrow> string \<Rightarrow> string" where
  "dump_str ascii s = [dq] @ concat (map (esc_char ascii) s) @ [dq]"

definition pad_zeros :: "nat \<Rightarrow> string \<Rightarrow> string" where
  "pad_zeros k s = replicate (k - length s) (CHR ''0'') @ s"

definition dump_float :: "int \<Rightarrow> nat \<Rightarrow> string" where
  "dump_float m k =
     (let n = nat \<bar>m\<bar>
      in (if m < 0 then ''-'' else []) @ str_nat (n div 10 ^ k) @ ''.'' @
         (if k = 0 then ''0'' else pad_zeros k (str_nat (n mod 10 ^ k))))"

fun py_repr :: "pyval \<Rightarrow> string" where
  "py_repr PNone = ''None''"
| "py_repr (PBool b) = (if b then ''True'' else ''False'')"
| "py_repr (PInt i) = str_int i"
| "py_repr (PFloat m k) = dump_float m k"
| "py_repr (PStr s) = repr_str s"
| "py_repr (PList xs) = ''['' @ join '', '' (map py_repr xs) @ '']''"
| "py_repr (PDict d) =
     ''{'' @ join '', '' (map (\<lambda>x. repr_str (fst x) @ '': '' @ py_repr (snd x)) d) @ ''}''"

definition py_str :: "pyval \<Rightarrow> string" where
  "py_str v = (case v of PStr s \<Rightarrow> s | _ \<Rightarrow> py_repr v)"

record json_format =
  ensure_ascii :: bool
  sort_keys :: bool
  item_sep :: string
  key_sep :: string

definition default_format :: json_format where
  "default_format = \<lparr>ensure_ascii = True, sort_keys = False, item_sep = '', '', key_sep = '': ''\<rparr>"

definition canonical_format :: json_format where
  "canonical_format = \<lparr>ensure_ascii = False, sort_keys = True, item_sep = '','', key_sep = '':''\<rparr>"

fun dump :: "json_format \<Rightarrow> pyval \<Rightarrow> string" where
  "dump f PNone = ''null''"
| "dump f (PBool b) = (if b then ''true'' else ''false'')"
| "dump f (PInt i) = str_int i"
| "dump f (PFloat m k) = dump_float m k"
| "dump f (PStr s) = dump_str (ensure_ascii f) s"
| "dump f (PList xs) = ''['' @ join (item_sep f) (map (dump f) xs) @ '']''"
| "dump f (PDict d) =
     (let items = map (\<lambda>x. (fst x, dump f (snd x))) d;
          items' = (if sort_keys f then sort_key fst items else items)
      in ''{'' @ join (item_sep f)
           (map (\<lambda>x. dump_str (ensure_ascii f) (fst x) @ key_sep f @ snd x) items') @ ''}'')"

definition json_dumps :: "pyval \<Rightarrow> string" where
  "json_dumps v = dump default_format v"

definition json_canonical :: "pyval \<Rightarrow> string" where
  "json_canonical v = dump canonical_format v"

section \<open>json.loads\<close>

definition is_ws :: "char \<Rightarrow> bool" where
  "is_ws c \<longleftrightarrow> c = CHR 0x20 \<or> c = CHR 0x09 \<or> c = CHR 0x0A \<or> c = CHR 0x0D"

abbreviation skip_ws :: "string \<Rightarrow> string" where
  "skip_ws \<equiv> dropWhile is_ws"

definition is_digit :: "char \<Rightarrow> bool" where
  "is_digit c \<longleftrightarrow> (48 :: nat) \<le> of_char c \<and> of_char c \<le> (57 :: nat)"

definition digit_val :: "char \<Rightarrow> nat" where
  "digit_val c = of_char c - 48"

fun nat_of_digits :: "nat \<Rightarrow> string \<Rightarrow> nat" where
  "nat_of_digits acc [] = acc"
| "nat_of_digits acc (c # cs) = nat_of_digits (10 * acc + digit_val c) cs"

definition unhex :: "char \<Rightarrow> nat option" where
  "unhex c =
     (let n = of_char c :: nat in
      if 48 \<le> n \<and> n \<le> 57 then Some (n - 48)
      else if 97 \<le> n \<and> n \<le> 102 then Some (n - 87)
      else if 65 \<le> n \<and> n \<le> 70 then Some (n - 55)
      else None)"

definition unhex4 :: "char \<Rightarrow> char \<Rightarrow> char \<Rightarrow> char \<Rightarrow> char option" where
  "unhex4 a b c d =
     (case (unhex a, unhex b, unhex c, unhex d) of
        (Some w, Some x, Some y, Some z) \<Rightarrow>
          (if w = 0 \<and> x = 0 then Some (char_of (16 * y + z)) else None)
      | _ \<Rightarrow> None)"

definition unesc :: "char \<Rightarrow> char option" where
  "unesc c =
     (if c = dq \<or> c = bs \<or> c = CHR ''/'' then Some c
      else if c = CHR ''n'' then Some (CHR 0x0A)
      else if c = CHR ''r'' then Some (CHR 0x0D)
      else if c = CHR ''t'' then Some (CHR 0x09)
      else if c = CHR ''f'' then Some (CHR 0x0C)
      else if c = CHR ''b'' then Some (CHR 0x08)
      else None)"

text \<open>The characters of a string literal after its opening quote (strict mode).\<close>

function parse_chars :: "string \<Rightarrow> (string \<times> string) option" where
  "parse_chars s =
     (case s of
        [] \<Rightarrow> None
      | c # cs \<Rightarrow>
          if c = dq then Some ([], cs)
          else if c = bs then
            (case cs of
               [] \<Rightarrow> None
             | e # es \<Rightarrow>
                 if e = CHR ''u'' then
                   (case es of
                      w # x # y # z # rest \<Rightarrow>
                        (case unhex4 w x y z of
                           None \<Rightarrow> None
                         | Some u \<Rightarrow> map_option (\<lambda>p. (u # fst p, snd p)) (parse_chars rest))
                    | _ \<Rightarrow> None)
                 else
                   (case unesc e of
                      None \<Rightarrow> None
                    | Some u \<Rightarrow> map_option (\<lambda>p. (u # fst p, snd p)) (parse_chars es)))
          else if of_char c < (32 :: nat) then None
          else map_option (\<lambda>p. (c # fst p, snd p)) (parse_chars cs))"
  by pat_completeness auto
termination by (relation "measure length") auto

declare parse_chars.simps [simp del]

fun strip_frac :: "int \<Rightarrow> nat \<Rightarrow> int \<times> nat" where
  "strip_frac m 0 = (m, 0)"
| "strip_frac m (Suc k) = (if 10 dvd m then strip_frac (m div 10) k else (m, Suc k))"

definition mk_float :: "int \<Rightarrow> nat \<Rightarrow> int \<Rightarrow> pyval" where
  "mk_float m k e =
     (if int k \<le> e then PFloat (m * 10 ^ nat (e - int k)) 0
      else (case strip_frac m (nat (int k - e)) of (m', k') \<Rightarrow> PFloat m' k'))"

definition parse_exponent :: "string \<Rightarrow> (int \<times> string) option" where
  "parse_exponent s =
     (case s of
        [] \<Rightarrow> None
      | c # cs \<Rightarrow>
          if c = CHR ''e'' \<or> c = CHR ''E'' then
            (let neg = (cs \<noteq> [] \<and> hd cs = CHR ''-'');
                 ds = (if cs \<noteq> [] \<and> (hd cs = CHR ''-'' \<or> hd cs = CHR ''+'') then tl cs else cs);
                 n = takeWhile is_digit ds
             in if n = [] then None
                else Some ((if neg then - 1 else 1) * int (nat_of_digits 0 n), dropWhile is_digit ds))
          else None)"

text \<open>\<open>-?(0|[1-9][0-9]*)(\.[0-9]+)?([eE][-+]?[0-9]+)?\<close>\<close>

definition parse_unsigned :: "bool \<Rightarrow> string \<Rightarrow> (pyval \<times> string) option" where
  "parse_unsigned neg s1 =
     (let ip = (if s1 \<noteq> [] \<and> hd s1 = CHR ''0'' then ''0'' else takeWhile is_digit s1);
          s2 = drop (length ip) s1;
          fp = (if s2 \<noteq> [] \<and> hd s2 = CHR ''.'' then takeWhile is_digit (tl s2) else []);
          s3 = (if fp = [] then s2 else drop (Suc (length fp)) s2);
          ex = parse_exponent s3;
          s4 = (case ex of None \<Rightarrow> s3 | Some p \<Rightarrow> snd p);
          m = (if neg then - 1 else 1) * int (nat_of_digits 0 (ip @ fp))
      in if ip = [] then None
         else if fp = [] \<and> ex = None then Some (PInt m, s4)
         else Some (mk_float m (length fp) (case ex of None \<Rightarrow> 0 | Some p \<Rightarrow> fst p), s4))"

definition parse_number :: "string \<Rightarrow> (pyval \<times> string) option" where
  "parse_number s =
     (if s \<noteq> [] \<and> hd s = CHR ''-'' then parse_unsigned True (tl s) else parse_unsigned False s)"

definition parse_word :: "string \<Rightarrow> (pyval \<times> string) option" where
  "parse_word s =
     (if starts_with s ''null'' then Some (PNone, drop 4 s)
      else if starts_with s ''true'' then Some (PBool True, drop 4 s)
      else if starts_with s ''false'' then Some (PBool False, drop 5 s)
      else parse_number s)"

text \<open>
  One unit of fuel per value: a nested value starts after at least one more character, so
  the length of the text is enough.
\<close>

fun parse_value :: "nat \<Rightarrow> string \<Rightarrow> (pyval \<times> string) option"
  and parse_elems :: "nat \<Rightarrow> string \<Rightarrow> (pyval list \<times> string) option"
  and parse_members :: "nat \<Rightarrow> string \<Rightarrow> ((string \<times> pyval) list \<times> string) option" where
  "parse_value 0 s = None"
| "parse_value (Suc n) s =
     (case s of
        [] \<Rightarrow> None
      | c # cs \<Rightarrow>
          if c = dq then map_option (\<lambda>p. (PStr (fst p), snd p)) (parse_chars cs)
          else if c = CHR ''['' then
            (case skip_ws cs of
               [] \<Rightarrow> None
             | d # ds \<Rightarrow>
                 if d = CHR '']'' then Some (PList [], ds)
                 else map_option (\<lambda>p. (PList (fst p), snd p)) (parse_elems n (d # ds)))
          else if c = CHR ''{'' then
            (case skip_ws cs of
               [] \<Rightarrow> None
             | d # ds \<Rightarrow>
                 if d = CHR ''}'' then Some (PDict [], ds)
                 else map_option
                   (\<lambda>p. (PDict (fold (\<lambda>kv. dput (fst kv) (snd kv)) (fst p) []), snd p))
                   (parse_members n (d # ds)))
          else parse_word s)"
| "parse_elems 0 s = None"
| "parse_elems (Suc n) s =
     (case parse_value n s of
        None \<Rightarrow> None
      | Some (v, r) \<Rightarrow>
          (case skip_ws r of
             [] \<Rightarrow> None
           | d # ds \<Rightarrow>
               if d = CHR '']'' then Some ([v], ds)
               else if d = CHR '','' then
                 map_option (\<lambda>p. (v # fst p, snd p)) (parse_elems n (skip_ws ds))
               else None))"
| "parse_members 0 s = None"
| "parse_members (Suc n) s =
     (case s of
        [] \<Rightarrow> None
      | c # cs \<Rightarrow>
          if c = dq then
            (case parse_chars cs of
               None \<Rightarrow> None
             | Some (k, r) \<Rightarrow>
                 (case skip_ws r of
                    [] \<Rightarrow> None
                  | d # ds \<Rightarrow>
                      if d = CHR '':'' then
                        (case parse_value n (skip_ws ds) of
                           None \<Rightarrow> None
                         | Some (v, r') \<Rightarrow>
                             (case skip_ws r' of
                                [] \<Rightarrow> None
                              | e # es \<Rightarrow>
                                  if e = CHR ''}'' then Some ([(k, v)], es)
                                  else if e = CHR '','' then
                                    map_option (\<lambda>p. ((k, v) # fst p, snd p))
                                      (parse_members n (skip_ws es))
                                  else None))
                      else None))
          else None)"

text \<open>\<open>None\<close> is \<^verbatim>\<open>JSONDecodeError\<close>.\<close>

definition json_loads :: "string \<Rightarrow> pyval option" where
  "json_loads s =
     (case parse_value (2 * length s + 2) (skip_ws s) of
        None \<Rightarrow> None
      | Some (v, r) \<Rightarrow> (if skip_ws r = [] then Some v else None))"

end
