(* ===== verification/McpRegistry.thy ===== *)
theory McpRegistry
  imports PyJson
begin

text \<open>
  The registry of external MCP servers (\<^verbatim>\<open>mcp_registry.py\<close>). The YAML reader is a parameter:
  a document is given as what \<^verbatim>\<open>path.read_text\<close> and \<^verbatim>\<open>yaml.safe_load\<close> made of the file.
  A decimal \<open>(m, k)\<close> is the number \<open>m / 10^k\<close>. A load error is its message.
\<close>

type_synonym decimal = "int \<times> nat"

record auth_config =
  auth_type :: string
  token_env :: string

record server_config =
  server_name :: string
  url :: string
  transport :: string
  auth :: auth_config
  timeout_default :: "decimal option"

type_synonym registry = "(string, server_config) dict"

datatype yaml_source =
    ReadFailed string
  | YamlFailed string
  | Loaded pyval

definition TOP_LEVEL_KEYS :: "string list" where "TOP_LEVEL_KEYS = [''servers'']"
definition SERVER_KEYS :: "string list" where
  "SERVER_KEYS = [''name'', ''url'', ''transport'', ''auth'', ''timeout_default'']"
definition SERVER_REQUIRED :: "string list" where
  "SERVER_REQUIRED = [''name'', ''url'', ''transport'', ''auth'']"
definition AUTH_KEYS :: "string list" where "AUTH_KEYS = [''type'', ''token_env'']"

definition unknown_keys :: "(string \<times> pyval) list \<Rightarrow> string list \<Rightarrow> string list" where
  "unknown_keys d allowed = sort (filter (\<lambda>k. k \<notin> set allowed) (map fst d))"

definition missing_keys :: "(string \<times> pyval) list \<Rightarrow> string list \<Rightarrow> string list" where
  "missing_keys d required = sort (filter (\<lambda>k. map_of d k = None) required)"

definition nonempty_str :: "pyval option \<Rightarrow> string option" where
  "nonempty_str v = (case v of Some (PStr s) \<Rightarrow> (if s = [] then None else Some s) | _ \<Rightarrow> None)"

definition entry_prefix :: "string \<Rightarrow> nat \<Rightarrow> pyval option \<Rightarrow> string" where
  "entry_prefix path i name =
     (case nonempty_str name of
        Some n \<Rightarrow> path @ '': entry '' @ str_nat i @ '' (name='' @ [dq] @ n @ [dq] @ '')''
      | None \<Rightarrow> path @ '': entry '' @ str_nat i)"

definition parse_auth :: "pyval \<Rightarrow> string \<Rightarrow> string + auth_config" where
  "parse_auth raw prefix =
     (case raw of
        PDict d \<Rightarrow>
          if unknown_keys d AUTH_KEYS \<noteq> [] then
            Inl (prefix @ '': unknown auth field(s) '' @ repr_strs (unknown_keys d AUTH_KEYS))
          else if missing_keys d AUTH_KEYS \<noteq> [] then
            Inl (prefix @ '': 'auth' missing required field(s) '' @ repr_strs (missing_keys d AUTH_KEYS))
          else if map_of d ''type'' \<noteq> Some (PStr ''bearer'') then
            Inl (prefix @ '': unsupported auth.type '' @ py_repr (the (map_of d ''type''))
                 @ ''; supported: ['bearer']'')
          else
            (case nonempty_str (map_of d ''token_env'') of
               None \<Rightarrow> Inl (prefix @ '': auth.token_env must be a non-empty string'')
             | Some t \<Rightarrow> Inr \<lparr>auth_type = ''bearer'', token_env = t\<rparr>)
      | _ \<Rightarrow> Inl (prefix @ '': 'auth' must be a mapping''))"

text \<open>\<open>bool\<close> is rejected before its numeric value is looked at.\<close>

definition parse_timeout :: "pyval option \<Rightarrow> string \<Rightarrow> string + decimal option" where
  "parse_timeout raw prefix =
     (case raw of
        None \<Rightarrow> Inr None
      | Some v \<Rightarrow>
          if is_bool v then Inl (prefix @ '': 'timeout_default' must be a number'')
          else (case py_num v of
             None \<Rightarrow> Inl (prefix @ '': 'timeout_default' must be a number'')
           | Some x \<Rightarrow>
               if \<not> num_pos x then Inl (prefix @ '': 'timeout_default' must be positive'')
               else Inr (Some x)))"

definition parse_server :: "pyval \<Rightarrow> string \<Rightarrow> nat \<Rightarrow> string + server_config" where
  "parse_server raw path i =
     (case raw of
        PDict d \<Rightarrow>
          (let prefix = entry_prefix path i (map_of d ''name'') in
           if unknown_keys d SERVER_KEYS \<noteq> [] then
             Inl (prefix @ '': unknown field(s) '' @ repr_strs (unknown_keys d SERVER_KEYS))
           else if missing_keys d SERVER_REQUIRED \<noteq> [] then
             Inl (prefix @ '': missing required field(s) '' @ repr_strs (missing_keys d SERVER_REQUIRED))
           else
             (case nonempty_str (map_of d ''name'') of
                None \<Rightarrow> Inl (prefix @ '': 'name' must be a non-empty string'')
              | Some n \<Rightarrow>
             (case nonempty_str (map_of d ''url'') of
                None \<Rightarrow> Inl (prefix @ '': 'url' must be a non-empty string'')
              | Some u \<Rightarrow>
             if map_of d ''transport'' \<noteq> Some (PStr ''http'') then
               Inl (prefix @ '': unsupported transport '' @ py_repr (the (map_of d ''transport''))
                    @ ''; supported: ['http']'')
             else
               (case parse_auth (the (map_of d ''auth'')) prefix of
                  Inl err \<Rightarrow> Inl err
                | Inr a \<Rightarrow>
               (case parse_timeout (map_of d ''timeout_default'') prefix of
                  Inl err \<Rightarrow> Inl err
                | Inr td \<Rightarrow>
                    Inr \<lparr>server_name = n, url = u, transport = ''http'', auth = a,
                         timeout_default = td\<rparr>)))))
      | _ \<Rightarrow> Inl (path @ '': entry '' @ str_nat i @ '': server entry must be a mapping''))"

text \<open>\<open>seen\<close> maps a name to the entry that declared it; entries are numbered from 1.\<close>

fun parse_servers ::
  "pyval list \<Rightarrow> string \<Rightarrow> nat \<Rightarrow> (string, nat) dict \<Rightarrow> registry \<Rightarrow> string + registry" where
  "parse_servers [] path i seen servers = Inr servers"
| "parse_servers (raw # raws) path i seen servers =
     (case parse_server raw path i of
        Inl err \<Rightarrow> Inl err
      | Inr cfg \<Rightarrow>
          (case map_of seen (server_name cfg) of
             Some j \<Rightarrow>
               Inl (path @ '': duplicate server name '' @ repr_str (server_name cfg)
                    @ '' at entries '' @ str_nat j @ '' and '' @ str_nat i)
           | None \<Rightarrow>
               parse_servers raws path (i + 1) (dput (server_name cfg) i seen)
                 (dput (server_name cfg) cfg servers)))"

definition registry_from_yaml :: "string \<Rightarrow> string \<Rightarrow> yaml_source \<Rightarrow> string + registry" where
  "registry_from_yaml full_path path src =
     (case src of
        ReadFailed msg \<Rightarrow> Inl (full_path @ '': cannot read file: '' @ msg)
      | YamlFailed msg \<Rightarrow> Inl (path @ '': YAML parse error: '' @ msg)
      | Loaded doc \<Rightarrow>
          (case doc of
             PNone \<Rightarrow> Inr []
           | PDict d \<Rightarrow>
               if unknown_keys d TOP_LEVEL_KEYS \<noteq> [] then
                 Inl (path @ '': unknown top-level field(s) ''
                      @ repr_strs (unknown_keys d TOP_LEVEL_KEYS))
               else
                 (case map_of d ''servers'' of
                    None \<Rightarrow> Inr []
                  | Some (PList raws) \<Rightarrow> parse_servers raws path 1 [] []
                  | Some v \<Rightarrow> Inl (path @ '': 'servers' must be a list, got '' @ type_name v))
           | _ \<Rightarrow> Inl (path @ '': top-level must be a mapping, got '' @ type_name doc)))"

definition registry_names :: "registry \<Rightarrow> string list" where
  "registry_names reg = sort (map fst reg)"

definition registry_get :: "registry \<Rightarrow> string \<Rightarrow> exn + server_config" where
  "registry_get reg name =
     (case map_of reg name of
        Some cfg \<Rightarrow> Inr cfg
      | None \<Rightarrow> Inl (UnknownServer name (registry_names reg)))"

section \<open>What a loaded registry satisfies\<close>

definition server_ok :: "server_config \<Rightarrow> bool" where
  "server_ok cfg \<longleftrightarrow> server_name cfg \<noteq> [] \<and> url cfg \<noteq> [] \<and> transport cfg = ''http'' \<and>
     auth_type (auth cfg) = ''bearer'' \<and> token_env (auth cfg) \<noteq> [] \<and>
     (case timeout_default cfg of None \<Rightarrow> True | Some x \<Rightarrow> num_pos x)"

definition registry_ok :: "registry \<Rightarrow> bool" where
  "registry_ok reg \<longleftrightarrow> distinct (map fst reg) \<and>
     (\<forall>(name, cfg) \<in> set reg. server_name cfg = name \<and> server_ok cfg)"

lemma nonempty_str_SomeD: "nonempty_str v = Some s \<Longrightarrow> s \<noteq> []"
  by (auto simp: nonempty_str_def split: option.splits pyval.splits if_splits)

lemma parse_auth_ok: "parse_auth raw prefix = Inr a \<Longrightarrow> auth_type a = ''bearer'' \<and> token_env a \<noteq> []"
  by (auto simp: parse_auth_def dest: nonempty_str_SomeD split: pyval.splits if_splits option.splits)

lemma parse_timeout_ok:
  "parse_timeout raw prefix = Inr td \<Longrightarrow> (case td of None \<Rightarrow> True | Some x \<Rightarrow> num_pos x)"
  by (auto simp: parse_timeout_def split: option.splits if_splits)

lemma parse_server_ok: "parse_server raw path i = Inr cfg \<Longrightarrow> server_ok cfg"
  by (auto simp: parse_server_def server_ok_def Let_def
      dest: nonempty_str_SomeD parse_auth_ok parse_timeout_ok
      split: pyval.splits if_splits option.splits sum.splits)

lemma parse_servers_ok:
  assumes "parse_servers raws path i seen servers = Inr reg"
    and "registry_ok servers" and "\<And>k. map_of seen k = None \<longleftrightarrow> map_of servers k = None"
  shows "registry_ok reg"
  using assms
proof (induction raws path i seen servers rule: parse_servers.induct)
  case (1 path i seen servers)
  then show ?case by simp
next
  case (2 raw raws path i seen servers)
  then obtain cfg where cfg: "parse_server raw path i = Inr cfg"
    and new: "map_of seen (server_name cfg) = None"
    and rest: "parse_servers raws path (i + 1) (dput (server_name cfg) i seen)
                 (dput (server_name cfg) cfg servers) = Inr reg"
    by (auto split: sum.splits option.splits)
  have fresh: "map_of servers (server_name cfg) = None" using new 2 by simp
  then have "server_name cfg \<notin> set (map fst servers)" by (simp add: map_of_eq_None_iff)
  then have "registry_ok (dput (server_name cfg) cfg servers)"
    using "2.prems"(2) parse_server_ok [OF cfg] fresh
    by (auto simp: registry_ok_def dput_fresh)
  with rest show ?case using "2.IH" [OF cfg new] "2.prems"(3) by auto
qed

lemma registry_from_yaml_ok: "registry_from_yaml fp path src = Inr reg \<Longrightarrow> registry_ok reg"
proof -
  have e: "registry_ok []" by (simp add: registry_ok_def)
  assume "registry_from_yaml fp path src = Inr reg"
  then show ?thesis
    using e parse_servers_ok [of _ path 1 "[]" "[]" reg]
    by (auto simp: registry_from_yaml_def
        split: yaml_source.splits pyval.splits if_splits option.splits)
qed

lemma registry_get_ok: "registry_ok reg \<Longrightarrow> registry_get reg name = Inr cfg \<Longrightarrow> server_name cfg = name"
  by (auto simp: registry_get_def registry_ok_def dest!: map_of_SomeD split: option.splits)

end
