(* ===== verification/SessionBase.thy ===== *)
theory SessionBase
  imports PyJson
begin

text \<open>
  The vocabulary below the session store: the canonical form of a session id
  (\<^verbatim>\<open>session_canon.py\<close>), caller and owner identities (\<^verbatim>\<open>identity.py\<close>), the error envelope
  and the size caps (\<^verbatim>\<open>errors.py\<close>), and the part of the environment they read.

  NFC leaves every string below U+0300 alone, so \<open>normalize_session_id\<close> is casefold and
  strip here; U+00B5, which casefolds out of the alphabet of the model, is kept.
\<close>

section \<open>Canonical session ids (session\_canon.py)\<close>

definition fold_char :: "char \<Rightarrow> string" where
  "fold_char c =
     (let n = of_char c :: nat in
      if 65 \<le> n \<and> n \<le> 90 then [char_of (n + 32)]
      else if 192 \<le> n \<and> n \<le> 222 \<and> n \<noteq> 215 then [char_of (n + 32)]
      else if n = 223 then ''ss''
      else [c])"

definition casefold :: "string \<Rightarrow> string" where
  "casefold s = concat (map fold_char s)"

definition py_space :: "char \<Rightarrow> bool" where
  "py_space c =
     (let n = of_char c :: nat in
      (9 \<le> n \<and> n \<le> 13) \<or> (28 \<le> n \<and> n \<le> 32) \<or> n = 133 \<or> n = 160)"

definition py_strip :: "string \<Rightarrow> string" where
  "py_strip s = rev (dropWhile py_space (rev (dropWhile py_space s)))"

definition normalize_session_id :: "string \<Rightarrow> string" where
  "normalize_session_id sid = py_strip (casefold sid)"

text \<open>A character that \<open>casefold\<close> leaves alone.\<close>

definition folded :: "char \<Rightarrow> bool" where
  "folded c \<longleftrightarrow> fold_char c = [c]"

lemma folded_shift:
  assumes "(n::nat) < 224" and "65 \<le> n \<and> n \<le> 90 \<or> 192 \<le> n \<and> n \<le> 222"
  shows "folded (char_of (n + 32))"
proof -
  have "(of_char (char_of (n + 32) :: char) :: nat) = n + 32"
    using assms by (simp add: of_char_of)
  then show ?thesis using assms by (auto simp: folded_def fold_char_def Let_def)
qed

lemma fold_char_folded: "d \<in> set (fold_char c) \<Longrightarrow> folded d"
proof (cases "fold_char c = [c]")
  case True
  then show "d \<in> set (fold_char c) \<Longrightarrow> folded d" by (simp add: folded_def)
next
  case False
  have s: "folded (CHR ''s'')" by (simp add: folded_def fold_char_def)
  assume "d \<in> set (fold_char c)"
  with False s show "folded d"
    by (auto simp: fold_char_def Let_def intro!: folded_shift split: if_splits)
qed

lemma casefold_folded: "d \<in> set (casefold s) \<Longrightarrow> folded d"
  by (auto simp: casefold_def dest: fold_char_folded)

lemma casefold_id: "(\<And>c. c \<in> set s \<Longrightarrow> folded c) \<Longrightarrow> casefold s = s"
  unfolding casefold_def by (induction s) (auto simp: folded_def)

lemma set_py_strip: "set (py_strip s) \<subseteq> set s"
  unfolding py_strip_def by (auto dest!: set_dropWhileD)

lemma py_strip_ends:
  assumes "py_strip s \<noteq> []"
  shows "\<not> py_space (hd (py_strip s))" and "\<not> py_space (last (py_strip s))"
proof -
  let ?t = "dropWhile py_space s"
  let ?u = "dropWhile py_space (rev ?t)"
  have u: "py_strip s = rev ?u" and ne: "?u \<noteq> []" using assms by (auto simp: py_strip_def)
  have "\<not> py_space (hd ?u)" using ne by (rule hd_dropWhile)
  then show "\<not> py_space (last (py_strip s))" using ne by (simp add: u last_rev)
  obtain p where "rev ?t = p @ ?u" by (metis takeWhile_dropWhile_id)
  then have t: "?t = rev ?u @ rev p" by (metis rev_append rev_rev_ident)
  have "?t \<noteq> []" using ne by (metis dropWhile.simps(1) rev.simps(1))
  then have "\<not> py_space (hd ?t)" by (rule hd_dropWhile)
  moreover have "hd ?t = hd (rev ?u)" using t ne by (metis hd_append2 rev_is_Nil_conv)
  ultimately show "\<not> py_space (hd (py_strip s))" unfolding u by metis
qed

lemma dropWhile_hd: "s \<noteq> [] \<Longrightarrow> \<not> P (hd s) \<Longrightarrow> dropWhile P s = s"
  by (cases s) auto

lemma py_strip_idem [simp]: "py_strip (py_strip s) = py_strip s"
proof (cases "py_strip s = []")
  case True
  then show ?thesis by (simp only: True) (simp add: py_strip_def)
next
  case False
  let ?u = "py_strip s"
  have "dropWhile py_space ?u = ?u" and "dropWhile py_space (rev ?u) = rev ?u"
    using False py_strip_ends [OF False] by (auto simp: dropWhile_hd hd_rev)
  then show ?thesis by (simp add: py_strip_def [of ?u])
qed

lemma normalize_idem [simp]:
  "normalize_session_id (normalize_session_id s) = normalize_session_id s"
proof -
  have "casefold (normalize_session_id s) = normalize_session_id s"
    using set_py_strip casefold_folded unfolding normalize_session_id_def
    by (intro casefold_id) blast
  then show ?thesis by (simp add: normalize_session_id_def)
qed

section \<open>Identities (identity.py)\<close>

datatype identity = Anonymous | Bearer string

abbreviation ANONYMOUS_IDENTITY :: identity where
  "ANONYMOUS_IDENTITY \<equiv> Anonymous"

section \<open>Errors (errors.py)\<close>

definition CONTENT_MAX :: nat where "CONTENT_MAX = 262144"
definition ARTIFACT_MAX :: nat where "ARTIFACT_MAX = 1048576"
definition YAML_MAX :: nat where "YAML_MAX = 512000"

definition error_response :: "string \<Rightarrow> string \<Rightarrow> (string \<times> pyval) list \<Rightarrow> pyval" where
  "error_response code err fs =
     PDict ([(''status'', PStr ''error''), (''code'', PStr code), (''error'', PStr err)] @ fs)"

text \<open>Reading a response: its status and its error code.\<close>

definition resp_status :: "pyval \<Rightarrow> string option" where
  "resp_status r = (case pget r ''status'' of Some (PStr s) \<Rightarrow> Some s | _ \<Rightarrow> None)"

definition resp_code :: "pyval \<Rightarrow> string option" where
  "resp_code r = (case pget r ''code'' of Some (PStr s) \<Rightarrow> Some s | _ \<Rightarrow> None)"

lemma resp_status_error [simp]: "resp_status (error_response code err fs) = Some ''error''"
  by (simp add: resp_status_def error_response_def)

lemma resp_code_error [simp]: "resp_code (error_response code err fs) = Some code"
  by (simp add: resp_code_def error_response_def)

section \<open>The environment of a process\<close>

text \<open>
  \<open>sha256_hex s\<close> is \<^verbatim>\<open>hashlib.sha256(s.encode()).hexdigest()\<close>; \<open>session_cap\<close> is the current
  value of \<^verbatim>\<open>MEGALOS_SESSION_CAP\<close>.
\<close>

record base_env =
  sha256_hex :: "string \<Rightarrow> string"
  session_cap :: int

definition compute_fingerprint :: "'e base_env_scheme \<Rightarrow> string \<Rightarrow> string" where
  "compute_fingerprint e session_id = take 12 (sha256_hex e session_id)"

end
