(* ===== verification/McpClient.thy ===== *)
theory McpClient
  imports McpRegistry SessionBase
begin

text \<open>
  The synchronous MCP client (\<^verbatim>\<open>mcp_client.py\<close>): outcome taxonomy, schema cache, argument
  validation, one call, and the bounded retry loop. The FastMCP transport is a parameter:
  \<open>net_list\<close> and \<open>net_call\<close> give the answer to the n-th network operation of the process,
  which may be an exception of the transport, and the n-th answer is free. The validator
  library is a parameter too. Durations and log lines are left out: nothing reads them.
\<close>

section \<open>Outcomes and what the transport can do\<close>

datatype call_outcome =
    Ok string
  | ToolExecutionError string
  | TransportError string
  | ProtocolError string
  | SchemaValidationError string
  | TimeoutError

text \<open>
  Exceptions below the client, with their \<open>str\<close>. \<open>HttpxOtherTimeout\<close> stands for the timeout
  classes of httpx that are neither a read nor a connect timeout, \<open>HttpxHTTPError\<close> for every
  other \<open>httpx.HTTPError\<close>; a \<open>RuntimeErrorExc\<close> carries its message and its \<open>__cause__\<close>,
  a \<open>OtherExc\<close> its \<open>repr\<close>.
\<close>

datatype net_exn =
    AsyncioTimeout string
  | HttpxReadTimeout string
  | HttpxConnectTimeout string
  | HttpxOtherTimeout string
  | HttpxConnectError string
  | HttpxHTTPError string
  | RuntimeErrorExc string "net_exn option"
  | McpErrorExc "int option" string string
  | ToolErrorExc string
  | OtherExc string

text \<open>A listed tool is its name and inputSchema; a content block that is not text is \<open>None\<close>.\<close>

type_synonym tool_info = "string \<times> pyval"

record tool_result =
  is_error :: bool
  content_blocks :: "string option list"

record net_env = base_env +
  getenv :: "string \<Rightarrow> string option"
  net_list :: "nat \<Rightarrow> server_config \<Rightarrow> string \<Rightarrow> decimal \<Rightarrow> net_exn + tool_info list"
  net_call :: "nat \<Rightarrow> server_config \<Rightarrow> string \<Rightarrow> decimal \<Rightarrow> string \<Rightarrow> pyval \<Rightarrow> net_exn + tool_result"
  draft7_compile :: "pyval \<Rightarrow> string option"
  draft7_validate :: "pyval \<Rightarrow> pyval \<Rightarrow> (string \<times> string) option"

text \<open>The process-wide schema cache, and how many network operations were made.\<close>

record client =
  validator_cache :: "(string \<times> string, pyval) dict"
  net_ops :: nat

fun is_http_error :: "net_exn \<Rightarrow> bool" where
  "is_http_error (HttpxReadTimeout _) = True"
| "is_http_error (HttpxConnectTimeout _) = True"
| "is_http_error (HttpxOtherTimeout _) = True"
| "is_http_error (HttpxConnectError _) = True"
| "is_http_error (HttpxHTTPError _) = True"
| "is_http_error _ = False"

fun exn_str :: "net_exn \<Rightarrow> string" where
  "exn_str (AsyncioTimeout s) = s"
| "exn_str (HttpxReadTimeout s) = s"
| "exn_str (HttpxConnectTimeout s) = s"
| "exn_str (HttpxOtherTimeout s) = s"
| "exn_str (HttpxConnectError s) = s"
| "exn_str (HttpxHTTPError s) = s"
| "exn_str (RuntimeErrorExc s _) = s"
| "exn_str (McpErrorExc _ _ s) = s"
| "exn_str (ToolErrorExc s) = s"
| "exn_str (OtherExc s) = s"

fun exn_repr :: "net_exn \<Rightarrow> string" where
  "exn_repr (RuntimeErrorExc s _) = ''RuntimeError('' @ repr_str s @ '')''"
| "exn_repr e = exn_str e"

text \<open>\<open>s.lower()\<close>, as far as the search for ASCII words needs it.\<close>

definition lower_ascii :: "string \<Rightarrow> string" where
  "lower_ascii s = map (\<lambda>c. if 65 \<le> (of_char c :: nat) \<and> of_char c \<le> (90 :: nat)
     then char_of ((of_char c :: nat) + 32) else c) s"

definition connect_message :: "string \<Rightarrow> bool" where
  "connect_message msg \<longleftrightarrow> contains (lower_ascii msg) ''failed to connect''
     \<or> contains (lower_ascii msg) ''connection''"

definition str_opt_int :: "int option \<Rightarrow> string" where
  "str_opt_int c = (case c of None \<Rightarrow> ''None'' | Some i \<Rightarrow> str_int i)"

definition INVALID_PARAMS :: int where "INVALID_PARAMS = - 32602"

section \<open>Classifying one call\<close>

definition flatten_text_blocks :: "string option list \<Rightarrow> string option" where
  "flatten_text_blocks blocks =
     (let parts = List.map_filter id blocks in if parts = [] then None else Some (concat parts))"

definition classify_result :: "tool_result \<Rightarrow> call_outcome" where
  "classify_result r =
     (if is_error r then
        (case flatten_text_blocks (content_blocks r) of
           None \<Rightarrow> ToolExecutionError ''tool returned isError with no text content''
         | Some t \<Rightarrow> ToolExecutionError t)
      else if None \<in> set (content_blocks r) then ProtocolError ''v1 supports text content only''
      else
        (case flatten_text_blocks (content_blocks r) of
           None \<Rightarrow> Ok []
         | Some t \<Rightarrow> Ok t))"

fun classify_call_exn :: "string \<Rightarrow> net_exn \<Rightarrow> net_exn + call_outcome" where
  "classify_call_exn u (AsyncioTimeout s) = Inr TimeoutError"
| "classify_call_exn u (HttpxReadTimeout s) = Inr TimeoutError"
| "classify_call_exn u (HttpxConnectTimeout s) = Inr (TransportError (''connect timeout to '' @ u))"
| "classify_call_exn u (HttpxConnectError s) =
     Inr (TransportError (''connect error to '' @ u @ '': '' @ s))"
| "classify_call_exn u (HttpxOtherTimeout s) =
     Inr (TransportError (''http error to '' @ u @ '': '' @ s))"
| "classify_call_exn u (HttpxHTTPError s) =
     Inr (TransportError (''http error to '' @ u @ '': '' @ s))"
| "classify_call_exn u (RuntimeErrorExc msg cause) =
     (case cause of
        Some (HttpxConnectTimeout _) \<Rightarrow> Inr TimeoutError
      | Some (HttpxReadTimeout _) \<Rightarrow> Inr TimeoutError
      | _ \<Rightarrow>
          (if (case cause of Some c \<Rightarrow> is_http_error c | None \<Rightarrow> False) then
             Inr (TransportError (''connect error to '' @ u @ '': '' @ exn_str (the cause)))
           else if connect_message msg then
             Inr (TransportError (''connect error to '' @ u @ '': '' @ msg))
           else Inr (ProtocolError (exn_repr (RuntimeErrorExc msg cause)))))"
| "classify_call_exn u (McpErrorExc code msg s) =
     (if code = Some INVALID_PARAMS then Inr (SchemaValidationError msg)
      else Inr (ProtocolError (''mcp error code='' @ str_opt_int code @ '': '' @ msg)))"
| "classify_call_exn u (ToolErrorExc s) = Inr (ToolExecutionError s)"
| "classify_call_exn u (OtherExc r) = Inl (OtherExc r)"

definition call_async ::
  "'e net_env_scheme \<Rightarrow> server_config \<Rightarrow> string \<Rightarrow> pyval \<Rightarrow> decimal \<Rightarrow> client
   \<Rightarrow> (net_exn + call_outcome) \<times> client" where
  "call_async e cfg tool args timeout_s c =
     (case getenv e (token_env (auth cfg)) of
        None \<Rightarrow> (Inr (TransportError (''auth env var $'' @ token_env (auth cfg) @ '' not set'')), c)
      | Some token \<Rightarrow>
          (let c' = c\<lparr>net_ops := Suc (net_ops c)\<rparr> in
           case net_call e (net_ops c) cfg token timeout_s tool args of
             Inl x \<Rightarrow> (classify_call_exn (url cfg) x, c')
           | Inr r \<Rightarrow> (Inr (classify_result r), c')))"

section \<open>The schema cache\<close>

datatype fetch_error =
    FetchTransport string
  | FetchProtocol string
  | FetchRaised net_exn

fun classify_fetch_exn :: "string \<Rightarrow> net_exn \<Rightarrow> fetch_error" where
  "classify_fetch_exn u (AsyncioTimeout s) =
     FetchTransport (''tools/list timed out for '' @ u @ '': '' @ s)"
| "classify_fetch_exn u (HttpxReadTimeout s) =
     FetchTransport (''tools/list timed out for '' @ u @ '': '' @ s)"
| "classify_fetch_exn u (HttpxConnectTimeout s) =
     FetchTransport (''tools/list timed out for '' @ u @ '': '' @ s)"
| "classify_fetch_exn u (HttpxOtherTimeout s) =
     FetchTransport (''tools/list timed out for '' @ u @ '': '' @ s)"
| "classify_fetch_exn u (HttpxConnectError s) =
     FetchTransport (''tools/list http error for '' @ u @ '': '' @ s)"
| "classify_fetch_exn u (HttpxHTTPError s) =
     FetchTransport (''tools/list http error for '' @ u @ '': '' @ s)"
| "classify_fetch_exn u (RuntimeErrorExc msg cause) =
     (if (case cause of Some c \<Rightarrow> is_http_error c \<or> (case c of AsyncioTimeout _ \<Rightarrow> True | _ \<Rightarrow> False)
          | None \<Rightarrow> False)
      then FetchTransport (''tools/list connect error for '' @ u @ '': '' @ exn_str (the cause))
      else if connect_message msg
      then FetchTransport (''tools/list connect error for '' @ u @ '': '' @ msg)
      else FetchRaised (RuntimeErrorExc msg cause))"
| "classify_fetch_exn u (McpErrorExc code msg s) =
     FetchProtocol (''server inputSchema invalid: mcp error '' @ s)"
| "classify_fetch_exn u (ToolErrorExc s) = FetchRaised (ToolErrorExc s)"
| "classify_fetch_exn u (OtherExc r) = FetchRaised (OtherExc r)"

definition find_input_schema :: "string \<Rightarrow> tool_info list \<Rightarrow> fetch_error + pyval" where
  "find_input_schema tool tools =
     (case find (\<lambda>t. fst t = tool) tools of
        None \<Rightarrow> Inl (FetchProtocol (''server inputSchema invalid: tool '' @ repr_str tool @ '' not listed''))
      | Some t \<Rightarrow>
          (if is_dict (snd t) \<and> phas (snd t) ''type'' then Inr (snd t)
           else Inl (FetchProtocol (''server inputSchema invalid: not a dict with 'type' (got ''
                  @ type_name (snd t) @ '')''))))"

definition fetch_input_schema ::
  "'e net_env_scheme \<Rightarrow> server_config \<Rightarrow> string \<Rightarrow> decimal \<Rightarrow> client
   \<Rightarrow> (fetch_error + pyval) \<times> client" where
  "fetch_input_schema e cfg tool timeout_s c =
     (case getenv e (token_env (auth cfg)) of
        None \<Rightarrow> (Inl (FetchTransport (''auth env var $'' @ token_env (auth cfg) @ '' not set'')), c)
      | Some token \<Rightarrow>
          (let c' = c\<lparr>net_ops := Suc (net_ops c)\<rparr> in
           case net_list e (net_ops c) cfg token timeout_s of
             Inl x \<Rightarrow> (Inl (classify_fetch_exn (url cfg) x), c')
           | Inr tools \<Rightarrow> (find_input_schema tool tools, c')))"

definition validate_args :: "'e net_env_scheme \<Rightarrow> pyval \<Rightarrow> pyval \<Rightarrow> string option" where
  "validate_args e schema args =
     map_option (\<lambda>p. fst p @ '': '' @ snd p) (draft7_validate e schema args)"

text \<open>What follows once the validator is known: check the arguments, then call.\<close>

definition validated_call ::
  "'e net_env_scheme \<Rightarrow> pyval \<Rightarrow> server_config \<Rightarrow> string \<Rightarrow> pyval \<Rightarrow> decimal \<Rightarrow> client
   \<Rightarrow> (net_exn + call_outcome) \<times> client" where
  "validated_call e schema cfg tool args timeout_s c =
     (case validate_args e schema args of
        Some msg \<Rightarrow> (Inr (SchemaValidationError msg), c)
      | None \<Rightarrow> call_async e cfg tool args timeout_s c)"

definition call_with_validation_async ::
  "'e net_env_scheme \<Rightarrow> string \<Rightarrow> server_config \<Rightarrow> string \<Rightarrow> pyval \<Rightarrow> decimal \<Rightarrow> client
   \<Rightarrow> (net_exn + call_outcome) \<times> client" where
  "call_with_validation_async e server cfg tool args timeout_s c =
     (case map_of (validator_cache c) (server, tool) of
        Some schema \<Rightarrow> validated_call e schema cfg tool args timeout_s c
      | None \<Rightarrow>
          (case fetch_input_schema e cfg tool timeout_s c of
             (Inl (FetchTransport msg), c') \<Rightarrow> (Inr (TransportError msg), c')
           | (Inl (FetchProtocol msg), c') \<Rightarrow> (Inr (ProtocolError msg), c')
           | (Inl (FetchRaised x), c') \<Rightarrow> (Inl x, c')
           | (Inr schema, c') \<Rightarrow>
               (case draft7_compile e schema of
                  Some msg \<Rightarrow> (Inr (ProtocolError (''server inputSchema invalid: '' @ msg)), c')
                | None \<Rightarrow> validated_call e schema cfg tool args timeout_s
                    (c'\<lparr>validator_cache := dput (server, tool) schema (validator_cache c')\<rparr>))))"

section \<open>Retries\<close>

definition RETRY_MAX_ATTEMPTS :: nat where "RETRY_MAX_ATTEMPTS = 3"
definition DEFAULT_TIMEOUT_S :: decimal where "DEFAULT_TIMEOUT_S = (30, 0)"

fun retriable :: "call_outcome \<Rightarrow> bool" where
  "retriable (TransportError _) = True"
| "retriable TimeoutError = True"
| "retriable _ = False"

text \<open>\<open>for attempt in range(attempt, RETRY_MAX_ATTEMPTS + 1)\<close>, over one attempt \<open>once\<close>.\<close>

function retry_loop ::
  "('s \<Rightarrow> (net_exn + call_outcome) \<times> 's) \<Rightarrow> nat \<Rightarrow> 's \<Rightarrow> (net_exn + call_outcome \<times> nat) \<times> 's" where
  "retry_loop once attempt s =
     (case once s of
        (Inl x, s') \<Rightarrow> (Inl x, s')
      | (Inr out, s') \<Rightarrow>
          if \<not> retriable out then (Inr (out, attempt), s')
          else if RETRY_MAX_ATTEMPTS \<le> attempt then (Inr (out, attempt), s')
          else retry_loop once (Suc attempt) s')"
  by pat_completeness auto
termination
  by (relation "measure (\<lambda>(once, attempt, s). RETRY_MAX_ATTEMPTS - attempt)") auto

declare retry_loop.simps [simp del]

definition call_with_retry_async ::
  "'e net_env_scheme \<Rightarrow> string \<Rightarrow> server_config \<Rightarrow> string \<Rightarrow> pyval \<Rightarrow> decimal \<Rightarrow> client
   \<Rightarrow> (net_exn + call_outcome \<times> nat) \<times> client" where
  "call_with_retry_async e server cfg tool args timeout_s =
     retry_loop (call_with_validation_async e server cfg tool args timeout_s) 1"

definition client_timeout :: "decimal option \<Rightarrow> server_config \<Rightarrow> decimal" where
  "client_timeout timeout cfg =
     (case timeout of
        Some t \<Rightarrow> t
      | None \<Rightarrow> (case timeout_default cfg of Some t \<Rightarrow> t | None \<Rightarrow> DEFAULT_TIMEOUT_S))"

text \<open>\<open>call\<close>: an unexpected exception becomes a \<open>ProtocolError\<close>; only \<open>UnknownServer\<close> escapes.\<close>

definition mcp_call ::
  "'e net_env_scheme \<Rightarrow> string \<Rightarrow> string \<Rightarrow> pyval \<Rightarrow> registry \<Rightarrow> decimal option
   \<Rightarrow> (client, call_outcome) act" where
  "mcp_call e server tool args reg timeout c =
     (case registry_get reg server of
        Inl x \<Rightarrow> (Inl x, c)
      | Inr cfg \<Rightarrow>
          (case call_with_retry_async e server cfg tool args (client_timeout timeout cfg) c of
             (Inl x, c') \<Rightarrow> (Inr (ProtocolError (exn_repr x)), c')
           | (Inr (out, attempts), c') \<Rightarrow> (Inr out, c')))"

section \<open>Facts about one attempt and about the loop\<close>

text \<open>
  The contract of a bounded retry: an attempt costs at most \<open>step\<close> units of a counter, and
  the loop makes at most \<open>RETRY_MAX_ATTEMPTS\<close> of them.
\<close>

locale metered_attempt =
  fixes once :: "'s \<Rightarrow> (net_exn + call_outcome) \<times> 's"
    and meter :: "'s \<Rightarrow> nat"
    and cost :: nat
  assumes meter_mono: "meter s \<le> meter (snd (once s))"
    and meter_cost: "meter (snd (once s)) \<le> meter s + cost"
begin

lemma retry_meter:
  "attempt \<le> RETRY_MAX_ATTEMPTS \<Longrightarrow>
   meter (snd (retry_loop once attempt s)) \<le> meter s + (Suc RETRY_MAX_ATTEMPTS - attempt) * cost"
proof (induction "RETRY_MAX_ATTEMPTS - attempt" arbitrary: attempt s)
  case 0
  then have "snd (retry_loop once attempt s) = snd (once s)"
    by (subst retry_loop.simps) (auto split: prod.splits sum.splits)
  moreover have "Suc RETRY_MAX_ATTEMPTS - attempt = 1" using 0 by simp
  ultimately show ?case using meter_cost [of s] by simp
next
  case (Suc n)
  obtain r s' where o: "once s = (r, s')" by fastforce
  have c: "meter s' \<le> meter s + cost" using meter_cost [of s] o by simp
  have m: "(Suc RETRY_MAX_ATTEMPTS - attempt) * cost = cost + (RETRY_MAX_ATTEMPTS - attempt) * cost"
    using Suc.prems by (simp add: Suc_diff_le)
  show ?case
  proof (cases "\<exists>out. r = Inr out \<and> retriable out")
    case True
    then have "retry_loop once attempt s = retry_loop once (Suc attempt) s'"
      using o Suc.hyps(2) by (subst retry_loop.simps) auto
    moreover have "meter (snd (retry_loop once (Suc attempt) s'))
        \<le> meter s' + (Suc RETRY_MAX_ATTEMPTS - Suc attempt) * cost"
      using Suc.hyps by (intro Suc.hyps(1)) auto
    ultimately show ?thesis using c m by simp
  next
    case False
    then have "snd (retry_loop once attempt s) = s'"
      using o by (subst retry_loop.simps) (auto split: sum.splits)
    then show ?thesis using c m by simp
  qed
qed

lemma retry_mono: "meter s \<le> meter (snd (retry_loop once attempt s))"
proof (induction "RETRY_MAX_ATTEMPTS - attempt" arbitrary: attempt s rule: less_induct)
  case less
  obtain r s' where o: "once s = (r, s')" by fastforce
  have m: "meter s \<le> meter s'" using meter_mono [of s] o by simp
  show ?case
  proof (cases "\<exists>out. r = Inr out \<and> retriable out \<and> \<not> RETRY_MAX_ATTEMPTS \<le> attempt")
    case True
    then have "retry_loop once attempt s = retry_loop once (Suc attempt) s'"
      using o by (subst retry_loop.simps) auto
    moreover have "RETRY_MAX_ATTEMPTS - Suc attempt < RETRY_MAX_ATTEMPTS - attempt"
      using True by auto
    ultimately show ?thesis using less [of "Suc attempt" s'] m by simp
  next
    case False
    then have "snd (retry_loop once attempt s) = s'"
      using o by (subst retry_loop.simps) (auto split: sum.splits)
    then show ?thesis using m by simp
  qed
qed

text \<open>The loop ends early only on an outcome that a retry would not change.\<close>

lemma retry_attempts:
  "attempt \<le> RETRY_MAX_ATTEMPTS \<Longrightarrow> retry_loop once attempt s = (Inr (out, n), s') \<Longrightarrow>
   attempt \<le> n \<and> n \<le> RETRY_MAX_ATTEMPTS \<and> (n < RETRY_MAX_ATTEMPTS \<longrightarrow> \<not> retriable out)"
proof (induction "RETRY_MAX_ATTEMPTS - attempt" arbitrary: attempt s)
  case 0
  then show ?case by (subst (asm) retry_loop.simps) (auto split: prod.splits sum.splits if_splits)
next
  case (Suc k)
  obtain r t where o: "once s = (r, t)" by fastforce
  show ?case
  proof (cases "\<exists>out. r = Inr out \<and> retriable out")
    case True
    then have "retry_loop once (Suc attempt) t = (Inr (out, n), s')"
      using o Suc.hyps(2) Suc.prems(2) by (subst (asm) retry_loop.simps) (auto split: if_splits)
    moreover have "k = RETRY_MAX_ATTEMPTS - Suc attempt" and "Suc attempt \<le> RETRY_MAX_ATTEMPTS"
      using Suc.hyps(2) by arith+
    ultimately show ?thesis using Suc.hyps(1) [of "Suc attempt" t] by simp
  next
    case False
    then show ?thesis
      using o Suc.prems by (subst (asm) retry_loop.simps) (auto split: sum.splits)
  qed
qed

end

lemma fetch_meter:
  "fetch_input_schema e cfg tool t c = (r, c') \<Longrightarrow> net_ops c \<le> net_ops c' \<and> net_ops c' \<le> Suc (net_ops c)"
  by (auto simp: fetch_input_schema_def Let_def split: option.splits sum.splits)

lemma call_async_meter:
  "call_async e cfg tool args t c = (r, c') \<Longrightarrow> net_ops c \<le> net_ops c' \<and> net_ops c' \<le> Suc (net_ops c)"
  by (auto simp: call_async_def Let_def split: option.splits sum.splits)

lemma validated_meter:
  "validated_call e schema cfg tool args t c = (r, c')
   \<Longrightarrow> net_ops c \<le> net_ops c' \<and> net_ops c' \<le> Suc (net_ops c)"
  by (auto simp: validated_call_def dest: call_async_meter split: option.splits)

lemma attempt_meter:
  "call_with_validation_async e server cfg tool args t c = (r, c')
   \<Longrightarrow> net_ops c \<le> net_ops c' \<and> net_ops c' \<le> net_ops c + 2"
  by (fastforce simp: call_with_validation_async_def dest!: fetch_meter validated_meter
      split: option.splits prod.splits sum.splits fetch_error.splits)

interpretation mcp_attempt: metered_attempt
  "call_with_validation_async e server cfg tool args t" net_ops 2
  for e server cfg tool args t
proof
  fix s :: client
  show "net_ops s \<le> net_ops (snd (call_with_validation_async e server cfg tool args t s))"
    and "net_ops (snd (call_with_validation_async e server cfg tool args t s)) \<le> net_ops s + 2"
    by (metis attempt_meter prod.collapse)+
qed

end
