(* ===== verification/SessionStore.thy ===== *)
theory SessionStore
  imports SessionBase "HOL-Library.Product_Lexorder"
begin

text \<open>
  The SQLite session store (\<^verbatim>\<open>state.py\<close>, tables of \<^verbatim>\<open>db.py\<close>): the \<open>sessions\<close> and
  \<open>session_stack\<close> tables as lists of rows in insertion order, one definition per function
  of the module, each a computation over the database. A JSON column is the dictionary it
  encodes. Time is the clock of the database, in microseconds; the clock does not advance
  inside an operation. Rows with equal sort keys come out in insertion order.
\<close>

abbreviation COMPLETE :: string where "COMPLETE \<equiv> ''__complete__''"
abbreviation WORKFLOW_CHANGED :: string where "WORKFLOW_CHANGED \<equiv> ''__workflow_changed__''"

section \<open>Tables\<close>

record session_core =
  session_id :: string
  workflow_type :: string
  current_step :: string
  step_data :: "(string, string) dict"
  retry_counts :: "(string, nat) dict"
  step_visit_counts :: "(string, nat) dict"
  escalation :: "(string \<times> string) option"
  artifact_checkpoints :: "(string, (string, string) dict) dict"
  created_at :: nat
  updated_at :: nat
  called_session :: "string option"
  parent_session_id :: "string option"
  workflow_fingerprint :: string

text \<open>A row of the table, and the detached dictionary \<^verbatim>\<open>_row_to_session\<close> makes of it.\<close>

record session_row = session_core +
  completed_at :: "nat option"

record session = session_core +
  fingerprint :: string
  owner_identity :: identity

datatype frame_type = Call | Digression

record frame =
  frame_session_id :: string
  root_session_id :: string
  depth :: nat
  frame_type :: frame_type
  call_step_id :: "string option"
  frame_created_at :: nat

record db =
  sessions :: "session_row list"
  session_stack :: "frame list"
  clock :: nat

text \<open>The queries the operations share.\<close>

definition find_row :: "string \<Rightarrow> 'a db_scheme \<Rightarrow> session_row option" where
  "find_row sid d = find (\<lambda>r. session_id r = sid) (sessions d)"

definition find_frame :: "string \<Rightarrow> 'a db_scheme \<Rightarrow> frame option" where
  "find_frame sid d = find (\<lambda>f. frame_session_id f = sid) (session_stack d)"

definition frame_at :: "string \<Rightarrow> nat \<Rightarrow> 'a db_scheme \<Rightarrow> frame option" where
  "frame_at root n d = find (\<lambda>f. root_session_id f = root \<and> depth f = n) (session_stack d)"

definition frames_of :: "string \<Rightarrow> 'a db_scheme \<Rightarrow> frame list" where
  "frames_of root d = filter (\<lambda>f. root_session_id f = root) (session_stack d)"

definition upd_row :: "string \<Rightarrow> (session_row \<Rightarrow> session_row) \<Rightarrow> 'a db_scheme \<Rightarrow> 'a db_scheme" where
  "upd_row sid g d = d\<lparr>sessions := map (\<lambda>r. if session_id r = sid then g r else r) (sessions d)\<rparr>"

definition del_rows :: "string list \<Rightarrow> 'a db_scheme \<Rightarrow> 'a db_scheme" where
  "del_rows sids d =
     d\<lparr>sessions := filter (\<lambda>r. session_id r \<notin> set sids) (sessions d),
       session_stack := filter (\<lambda>f. frame_session_id f \<notin> set sids) (session_stack d)\<rparr>"

text \<open>
  The read-modify-write shape of the update functions: raise when the row is absent, else
  write the changed row, stamped with the time of the write.
\<close>

definition rmw :: "string \<Rightarrow> (session_row \<Rightarrow> session_row \<times> 'b) \<Rightarrow> ('a db_scheme, 'b) act" where
  "rmw sid g = transaction (\<lambda>d.
     case find_row sid d of
       None \<Rightarrow> (Inl SessionNotFoundError, d)
     | Some r \<Rightarrow>
         (Inr (snd (g r)), upd_row sid (\<lambda>_. (fst (g r))\<lparr>updated_at := clock d\<rparr>) d))"

section \<open>Sessions\<close>

definition row_to_session :: "'e base_env_scheme \<Rightarrow> session_row \<Rightarrow> session" where
  "row_to_session e r =
     session_core.extend (session_core.truncate r)
       (session.fields (compute_fingerprint e (session_id r)) ANONYMOUS_IDENTITY)"

definition eviction_key :: "session_row \<Rightarrow> nat \<times> nat" where
  "eviction_key r =
     (if current_step r = COMPLETE then 0 else 1,
      case completed_at r of Some t \<Rightarrow> t | None \<Rightarrow> updated_at r)"

definition evict_over_cap :: "int \<Rightarrow> 'a db_scheme \<Rightarrow> 'a db_scheme" where
  "evict_over_cap cap d =
     (let n = int (length (sessions d)) in
      if cap \<le> n
      then del_rows (map session_id (take (nat (n - (cap - 1))) (sort_key eviction_key (sessions d)))) d
      else d)"

definition new_row ::
  "string \<Rightarrow> string \<Rightarrow> string \<Rightarrow> string option \<Rightarrow> string \<Rightarrow> nat \<Rightarrow> session_row" where
  "new_row sid wft cur parent fp now =
     \<lparr>session_id = sid, workflow_type = wft, current_step = cur, step_data = [],
      retry_counts = [], step_visit_counts = [], escalation = None, artifact_checkpoints = [],
      created_at = now, updated_at = now, called_session = None, parent_session_id = parent,
      workflow_fingerprint = fp, completed_at = None\<rparr>"

text \<open>Root and depth of a frame pushed above \<open>parent\<close>.\<close>

definition child_position :: "string \<Rightarrow> 'a db_scheme \<Rightarrow> string \<times> nat" where
  "child_position parent d =
     (case find_frame parent d of
        None \<Rightarrow> (parent, 1)
      | Some f \<Rightarrow> (root_session_id f, depth f + 1))"

definition insert_frame ::
  "string \<Rightarrow> string \<Rightarrow> frame_type \<Rightarrow> string option \<Rightarrow> nat option \<Rightarrow> ('a db_scheme, unit) act" where
  "insert_frame sid parent ft csid max_depth d =
     (let (root, n) = child_position parent d;
          current = length (frames_of root d) in
      case max_depth of
        Some m \<Rightarrow>
          if m \<le> current then (Inl (StackFull root current m), d)
          else if find_frame sid d \<noteq> None then (Inl IntegrityError, d)
          else (Inr (), d\<lparr>session_stack := session_stack d @ [\<lparr>frame_session_id = sid,
                  root_session_id = root, depth = n, frame_type = ft, call_step_id = csid,
                  frame_created_at = clock d\<rparr>]\<rparr>)
      | None \<Rightarrow>
          if find_frame sid d \<noteq> None then (Inl IntegrityError, d)
          else (Inr (), d\<lparr>session_stack := session_stack d @ [\<lparr>frame_session_id = sid,
                  root_session_id = root, depth = n, frame_type = ft, call_step_id = csid,
                  frame_created_at = clock d\<rparr>]\<rparr>))"

text \<open>\<open>token\<close> is the fresh \<^verbatim>\<open>secrets.token_urlsafe(32)\<close>.\<close>

definition create_session ::
  "'e base_env_scheme \<Rightarrow> string \<Rightarrow> string \<Rightarrow> string \<Rightarrow> string option \<Rightarrow> frame_type \<Rightarrow>
   string option \<Rightarrow> nat option \<Rightarrow> string \<Rightarrow> ('a db_scheme, string) act" where
  "create_session e token wft cur parent ft csid max_depth fp =
     (let parent' = map_option normalize_session_id parent;
          sid = normalize_session_id token in
      transaction (\<lambda>d.
        let d1 = evict_over_cap (session_cap e) d in
        if find_row sid d1 \<noteq> None then (Inl IntegrityError, d1)
        else
          let d2 = d1\<lparr>sessions := sessions d1 @ [new_row sid wft cur parent' fp (clock d1)]\<rparr> in
          case parent' of
            None \<Rightarrow> (Inr sid, d2)
          | Some p \<Rightarrow> seqE (insert_frame sid p ft csid max_depth) (retE sid) d2))"

definition get_session :: "'e base_env_scheme \<Rightarrow> string \<Rightarrow> ('a db_scheme, session) act" where
  "get_session e sid d =
     (case find_row (normalize_session_id sid) d of
        None \<Rightarrow> (Inl SessionNotFoundError, d)
      | Some r \<Rightarrow> (Inr (row_to_session e r), d))"

text \<open>\<open>update_session(sid, current_step=..., step_data=...)\<close>; \<open>None\<close> for an absent keyword.\<close>

definition update_session ::
  "string \<Rightarrow> string option \<Rightarrow> (string, string) dict option \<Rightarrow> ('a db_scheme, unit) act" where
  "update_session sid cur data = transaction (\<lambda>d.
     let sid' = normalize_session_id sid;
         set_cur = (\<lambda>r. case cur of None \<Rightarrow> r | Some c \<Rightarrow>
           (if c = COMPLETE then r\<lparr>current_step := c, completed_at := Some (clock d)\<rparr>
            else r\<lparr>current_step := c\<rparr>));
         set_data = (\<lambda>r. case data of None \<Rightarrow> r | Some x \<Rightarrow> r\<lparr>step_data := x\<rparr>) in
     if find_row sid' d = None then (Inl SessionNotFoundError, d)
     else (Inr (), upd_row sid' (\<lambda>r. (set_data (set_cur r))\<lparr>updated_at := clock d\<rparr>) d))"

definition session_status :: "string \<Rightarrow> string" where
  "session_status cur =
     (if cur = COMPLETE then ''completed''
      else if cur = WORKFLOW_CHANGED then ''workflow_changed''
      else ''active'')"

record listed_session =
  ls_session_id :: string
  ls_fingerprint :: string
  ls_owner_identity :: identity
  ls_workflow_type :: string
  ls_current_step :: string
  ls_status :: string
  ls_created_at :: nat
  ls_updated_at :: nat
  ls_parent_session_id :: "string option"
  ls_stack_depth :: nat
  ls_under_session_id :: "string option"

definition list_sessions :: "'e base_env_scheme \<Rightarrow> 'a db_scheme \<Rightarrow> listed_session list" where
  "list_sessions e d = map (\<lambda>r.
     \<lparr>ls_session_id = session_id r,
      ls_fingerprint = compute_fingerprint e (session_id r),
      ls_owner_identity = ANONYMOUS_IDENTITY,
      ls_workflow_type = workflow_type r,
      ls_current_step = current_step r,
      ls_status = session_status (current_step r),
      ls_created_at = created_at r,
      ls_updated_at = updated_at r,
      ls_parent_session_id = parent_session_id r,
      ls_stack_depth = (case find_frame (session_id r) d of None \<Rightarrow> 0 | Some f \<Rightarrow> depth f),
      ls_under_session_id = map_option root_session_id (find_frame (session_id r) d)\<rparr>)
     (sessions d)"

definition clear_sessions :: "('a db_scheme, unit) act" where
  "clear_sessions = transaction (\<lambda>d. (Inr (), d\<lparr>sessions := [], session_stack := []\<rparr>))"

definition invalidate_steps_after :: "string \<Rightarrow> string list \<Rightarrow> ('a db_scheme, unit) act" where
  "invalidate_steps_after sid step_ids =
     rmw (normalize_session_id sid) (\<lambda>r. (r\<lparr>step_data := ddels step_ids (step_data r)\<rparr>, ()))"

definition clear_step_data_key :: "string \<Rightarrow> string \<Rightarrow> ('a db_scheme, unit) act" where
  "clear_step_data_key sid key =
     rmw (normalize_session_id sid) (\<lambda>r. (r\<lparr>step_data := ddel key (step_data r)\<rparr>, ()))"

definition increment_retry :: "string \<Rightarrow> string \<Rightarrow> ('a db_scheme, nat) act" where
  "increment_retry sid step_id =
     rmw (normalize_session_id sid) (\<lambda>r.
       let count = dget_or (retry_counts r) step_id 0 + 1
       in (r\<lparr>retry_counts := dput step_id count (retry_counts r)\<rparr>, count))"

definition increment_visit :: "string \<Rightarrow> string \<Rightarrow> ('a db_scheme, nat) act" where
  "increment_visit sid step_id =
     rmw (normalize_session_id sid) (\<lambda>r.
       let count = dget_or (step_visit_counts r) step_id 0 + 1
       in (r\<lparr>step_visit_counts := dput step_id count (step_visit_counts r)\<rparr>, count))"

definition set_escalation :: "string \<Rightarrow> string \<Rightarrow> string \<Rightarrow> ('a db_scheme, unit) act" where
  "set_escalation sid guardrail_id message =
     rmw (normalize_session_id sid) (\<lambda>r. (r\<lparr>escalation := Some (guardrail_id, message)\<rparr>, ()))"

definition set_called_session ::
  "string \<Rightarrow> string option \<Rightarrow> string option \<Rightarrow> ('a db_scheme, unit) act" where
  "set_called_session parent child csid =
     (let p = normalize_session_id parent; c = map_option normalize_session_id child in
      transaction (\<lambda>d.
        if find_row p d = None then (Inl SessionNotFoundError, d)
        else
          let d1 = upd_row p (\<lambda>r. r\<lparr>called_session := c, updated_at := clock d\<rparr>) d in
          case c of
            Some c' \<Rightarrow>
              (case csid of
                 None \<Rightarrow> (Inr (), d1)
               | Some _ \<Rightarrow>
                   (Inr (), d1\<lparr>session_stack := map (\<lambda>f. if frame_session_id f = c'
                      then f\<lparr>call_step_id := csid\<rparr> else f) (session_stack d1)\<rparr>))
          | None \<Rightarrow>
              (let (root, n) = child_position p d1 in
               (Inr (), d1\<lparr>session_stack :=
                  filter (\<lambda>f. \<not> (root_session_id f = root \<and> depth f = n)) (session_stack d1)\<rparr>))))"

section \<open>The frame stack\<close>

definition push_frame ::
  "string \<Rightarrow> string \<Rightarrow> frame_type \<Rightarrow> string option \<Rightarrow> ('a db_scheme, nat) act" where
  "push_frame root sid ft csid =
     (let root' = normalize_session_id root; sid' = normalize_session_id sid in
      transaction (\<lambda>d.
        let n = foldr max (map depth (frames_of root' d)) 0 + 1 in
        if find_frame sid' d \<noteq> None then (Inl IntegrityError, d)
        else (Inr n, d\<lparr>session_stack := session_stack d @ [\<lparr>frame_session_id = sid',
                root_session_id = root', depth = n, frame_type = ft, call_step_id = csid,
                frame_created_at = clock d\<rparr>]\<rparr>)))"

definition pop_frame :: "string \<Rightarrow> ('a db_scheme, frame option) act" where
  "pop_frame sid =
     (let sid' = normalize_session_id sid in
      transaction (\<lambda>d.
        case find_frame sid' d of
          None \<Rightarrow> (Inr None, d)
        | Some f \<Rightarrow> (Inr (Some f),
            d\<lparr>session_stack := filter (\<lambda>g. frame_session_id g \<noteq> sid') (session_stack d)\<rparr>)))"

definition peek_frame :: "string \<Rightarrow> 'a db_scheme \<Rightarrow> frame option" where
  "peek_frame root d =
     (case frames_of (normalize_session_id root) d of
        [] \<Rightarrow> None
      | f # fs \<Rightarrow> Some (last (sort_key depth (f # fs))))"

definition stack_depth :: "string \<Rightarrow> 'a db_scheme \<Rightarrow> nat" where
  "stack_depth root d = length (frames_of (normalize_session_id root) d)"

definition top_frame_for :: "string \<Rightarrow> 'a db_scheme \<Rightarrow> frame option" where
  "top_frame_for sid d =
     (let (root, n) = child_position (normalize_session_id sid) d in frame_at root n d)"

definition own_frame :: "string \<Rightarrow> 'a db_scheme \<Rightarrow> frame option" where
  "own_frame sid d = find_frame (normalize_session_id sid) d"

definition parent_of :: "string \<Rightarrow> 'a db_scheme \<Rightarrow> string option" where
  "parent_of sid d =
     (case find_frame (normalize_session_id sid) d of
        None \<Rightarrow> None
      | Some f \<Rightarrow>
          if depth f = 1 then Some (root_session_id f)
          else map_option frame_session_id (frame_at (root_session_id f) (depth f - 1) d))"

definition depth_breakdown :: "'a db_scheme \<Rightarrow> (string \<times> nat) list" where
  "depth_breakdown d =
     sort_key (\<lambda>x. (- int (snd x), fst x))
       (map (\<lambda>r. (session_id r, length (frames_of (session_id r) d)))
          (filter (\<lambda>r. find_frame (session_id r) d = None) (sessions d)))"

record stack_entry =
  se_depth :: nat
  se_frame_type :: frame_type
  se_session_id :: string
  se_paused_at_step :: "string option"
  se_call_step_id :: "string option"

definition full_stack :: "string \<Rightarrow> 'a db_scheme \<Rightarrow> stack_entry list" where
  "full_stack root d =
     (let root' = normalize_session_id root in
      \<lparr>se_depth = 0, se_frame_type = Digression, se_session_id = root',
       se_paused_at_step = None, se_call_step_id = None\<rparr> #
      map (\<lambda>f. \<lparr>se_depth = depth f, se_frame_type = frame_type f,
                se_session_id = frame_session_id f,
                se_paused_at_step = (if frame_type f = Digression then call_step_id f else None),
                se_call_step_id = (if frame_type f = Digression then None else call_step_id f)\<rparr>)
        (sort_key depth (frames_of root' d)))"

definition count_active :: "'a db_scheme \<Rightarrow> nat" where
  "count_active d = length (filter (\<lambda>r. current_step r \<noteq> COMPLETE) (sessions d))"

definition expired :: "int \<Rightarrow> session_row \<Rightarrow> bool" where
  "expired cutoff r \<longleftrightarrow>
     (current_step r = COMPLETE \<and> (case completed_at r of None \<Rightarrow> False | Some t \<Rightarrow> int t < cutoff)) \<or>
     (current_step r \<noteq> COMPLETE \<and> int (updated_at r) < cutoff)"

definition hour :: int where "hour = 3600000000"

definition expire_sessions :: "int \<Rightarrow> ('a db_scheme, string list) act" where
  "expire_sessions ttl_hours = transaction (\<lambda>d.
     let sids = map session_id (filter (expired (int (clock d) - ttl_hours * hour)) (sessions d))
     in (Inr sids, if sids = [] then d else del_rows sids d))"

definition store_artifact ::
  "string \<Rightarrow> string \<Rightarrow> string \<Rightarrow> string \<Rightarrow> ('a db_scheme, unit) act" where
  "store_artifact sid step_id artifact_id content =
     rmw (normalize_session_id sid) (\<lambda>r. (r\<lparr>artifact_checkpoints :=
       dput step_id (dput artifact_id content (dget_or (artifact_checkpoints r) step_id []))
         (artifact_checkpoints r)\<rparr>, ()))"

definition get_artifacts :: "string \<Rightarrow> string \<Rightarrow> ('a db_scheme, (string, string) dict) act" where
  "get_artifacts sid step_id d =
     (case find_row (normalize_session_id sid) d of
        None \<Rightarrow> (Inl SessionNotFoundError, d)
      | Some r \<Rightarrow> (Inr (dget_or (artifact_checkpoints r) step_id []), d))"

definition delete_session :: "'e base_env_scheme \<Rightarrow> string \<Rightarrow> ('a db_scheme, session) act" where
  "delete_session e sid =
     (let sid' = normalize_session_id sid in
      transaction (\<lambda>d.
        case find_row sid' d of
          None \<Rightarrow> (Inl SessionNotFoundError, d)
        | Some r \<Rightarrow> (Inr (row_to_session e r), del_rows [sid'] d)))"

end
