(* ===== verification/Workflow.thy ===== *)
theory Workflow
  imports McpClient SessionStore
begin

text \<open>
  Workflows as the tools see them after loading, and the pure functions of \<^verbatim>\<open>tools.py\<close> on
  them: step lookup, ref-paths, preconditions, the skip loop, output validation, guardrails,
  context assembly. A workflow is a document the validator accepted, read into records; an
  absent optional key is \<open>None\<close> (or the empty list where the code only tests its truth).
\<close>

section \<open>Loaded workflows\<close>

datatype precondition = WhenEquals string pyval | WhenPresent string

record branch =
  br_next :: string
  br_condition :: string

record inject =
  ic_from :: string
  ic_fields :: "string list"
  ic_summary :: bool

record artifact_def =
  art_id :: string
  art_schema :: pyval
  art_checkpoint :: bool

record step =
  st_id :: string
  st_title :: pyval
  st_action :: "string option"
  st_directive_template :: "pyval option"
  st_gates :: "pyval option"
  st_anti_patterns :: "pyval option"
  st_output_schema :: "pyval option"
  st_max_retries :: "int option"
  st_validation_hint :: "string option"
  st_inject_context :: "inject list"
  st_branches :: "branch list"
  st_default_branch :: "string option"
  st_precondition :: "precondition option"
  st_call :: "string option"
  st_call_context_from :: "string option"
  st_directives :: "pyval option"
  st_intermediate_artifacts :: "artifact_def list"
  st_output_from :: "string option"
  st_server :: "string option"
  st_tool :: "string option"
  st_args :: "pyval option"
  st_timeout :: "decimal option"

datatype trigger =
    KeywordMatch "string list"
  | StepCount int
  | StepRevisit int
  | OutputLength int

datatype guard_action = Warn | ForceBranch | Escalate

record guardrail =
  gr_id :: string
  gr_trigger :: trigger
  gr_action :: guard_action
  gr_message :: string
  gr_target_step :: "string option"

record workflow =
  wf_name :: string
  wf_description :: pyval
  wf_category :: string
  wf_steps :: "step list"
  wf_guardrails :: "guardrail list"
  wf_conversation_repair :: "(string \<times> pyval) list"
  wf_doc :: pyval

text \<open>
  What the tools read of the environment besides the network: the JSON Schema validator
  (\<open>schema_errors schema value\<close> lists \<open>(json_path, message)\<close>), regular-expression search
  (\<open>None\<close>: the pattern does not compile), the text of a JSON decode error, timestamps as
  \<open>isoformat\<close> prints them, and the fuel of the loops that may not end.
\<close>

record tool_env = net_env +
  schema_errors :: "pyval \<Rightarrow> pyval \<Rightarrow> (string \<times> string) list"
  re_search :: "string \<Rightarrow> string \<Rightarrow> bool option"
  loads_error :: "string \<Rightarrow> string"
  isoformat :: "nat \<Rightarrow> string"
  fuel :: nat

section \<open>Steps\<close>

definition find_step :: "workflow \<Rightarrow> string \<Rightarrow> (nat \<times> step) option" where
  "find_step w sid = find (\<lambda>x. st_id (snd x) = sid) (List.enumerate 0 (wf_steps w))"

text \<open>\<open>_COMPLETE if idx == len(steps) - 1 else steps[idx + 1]["id"]\<close>\<close>

definition linear_next :: "workflow \<Rightarrow> nat \<Rightarrow> string" where
  "linear_next w idx =
     (if idx + 1 < length (wf_steps w) then st_id (wf_steps w ! (idx + 1)) else COMPLETE)"

definition step_ids :: "workflow \<Rightarrow> string list" where
  "step_ids w = map st_id (wf_steps w)"

section \<open>Ref-paths and preconditions\<close>

fun walk :: "pyval \<Rightarrow> string list \<Rightarrow> pyval option" where
  "walk v [] = Some v"
| "walk v (seg # segs) = (case pget v seg of None \<Rightarrow> None | Some w \<Rightarrow> walk w segs)"

text \<open>\<open>Inr None\<close> is \<open>_REF_ABSENT\<close>.\<close>

definition resolve_ref ::
  "string \<Rightarrow> (string, string) dict \<Rightarrow> string list \<Rightarrow> string \<Rightarrow> exn + pyval option" where
  "resolve_ref ref data skipped referencing =
     (case split_on (CHR ''.'') ref of
        _ # sid # segs \<Rightarrow>
          if sid \<in> set skipped then Inl (SkippedPredecessor sid referencing)
          else (case dget data sid of
             None \<Rightarrow> Inr None
           | Some raw \<Rightarrow>
               if segs = [] then Inr (Some (PStr raw))
               else (case json_loads raw of
                  None \<Rightarrow> Inr None
                | Some v \<Rightarrow> Inr (walk v segs)))
      | _ \<Rightarrow> Inl (IndexError ''list index out of range''))"

fun evaluate_precondition ::
  "precondition \<Rightarrow> (string, string) dict \<Rightarrow> string list \<Rightarrow> string \<Rightarrow> exn + bool" where
  "evaluate_precondition (WhenEquals ref v) data skipped referencing =
     (case resolve_ref ref data skipped referencing of
        Inl x \<Rightarrow> Inl x
      | Inr None \<Rightarrow> Inr False
      | Inr (Some r) \<Rightarrow> Inr (py_eq r v))"
| "evaluate_precondition (WhenPresent ref) data skipped referencing =
     (case split_on (CHR ''.'') ref of
        _ # sid # _ \<Rightarrow>
          if sid \<in> set skipped then Inl (SkippedPredecessor sid referencing)
          else Inr (dhas data sid)
      | _ \<Rightarrow> Inl (IndexError ''list index out of range''))"

text \<open>The walk over the step list; \<open>acc\<close> is \<open>skipped\<close> and, as a set, \<open>skipped_set\<close>.\<close>

fun skipped_walk ::
  "step list \<Rightarrow> (string, string) dict \<Rightarrow> string list \<Rightarrow> exn + string list" where
  "skipped_walk [] data acc = Inr acc"
| "skipped_walk (s # ss) data acc =
     (if dhas data (st_id s) then skipped_walk ss data acc
      else (case st_precondition s of
         None \<Rightarrow> skipped_walk ss data acc
       | Some pc \<Rightarrow>
           (case evaluate_precondition pc data acc (st_id s) of
              Inl (SkippedPredecessor _ _) \<Rightarrow> skipped_walk ss data (acc @ [st_id s])
            | Inl x \<Rightarrow> Inl x
            | Inr runs \<Rightarrow>
                skipped_walk ss data (if runs then acc else acc @ [st_id s]))))"

definition compute_skipped_steps :: "workflow \<Rightarrow> (string, string) dict \<Rightarrow> exn + string list" where
  "compute_skipped_steps w data = skipped_walk (wf_steps w) data []"

text \<open>Phase 2 of \<open>_apply_skip_loop\<close>: one unit of fuel per turn of the loop.\<close>

fun skip_loop ::
  "nat \<Rightarrow> workflow \<Rightarrow> (string, string) dict \<Rightarrow> string list \<Rightarrow> string \<Rightarrow> string list
   \<Rightarrow> exn + string \<times> string list" where
  "skip_loop 0 w data skipped_set nxt skipped = Inl NoReturn"
| "skip_loop (Suc n) w data skipped_set nxt skipped =
     (if nxt = COMPLETE then Inr (nxt, skipped)
      else (case find_step w nxt of
         None \<Rightarrow> Inr (nxt, skipped)
       | Some (idx, s) \<Rightarrow>
           (case st_precondition s of
              None \<Rightarrow> Inr (nxt, skipped)
            | Some pc \<Rightarrow>
                (case evaluate_precondition pc data skipped_set nxt of
                   Inl x \<Rightarrow> Inl x
                 | Inr True \<Rightarrow> Inr (nxt, skipped)
                 | Inr False \<Rightarrow>
                     skip_loop n w data (nxt # skipped_set) (linear_next w idx) (skipped @ [nxt])))))"

definition apply_skip_loop ::
  "nat \<Rightarrow> string \<Rightarrow> workflow \<Rightarrow> (string, string) dict \<Rightarrow> bool \<Rightarrow> exn + string \<times> string list" where
  "apply_skip_loop n nxt w data force_branched =
     (if force_branched then Inr (nxt, [])
      else (case compute_skipped_steps w data of
         Inl x \<Rightarrow> Inl x
       | Inr sk \<Rightarrow> skip_loop n w data sk nxt []))"

section \<open>Output validation\<close>

definition format_validation_error :: "string \<times> string \<Rightarrow> string" where
  "format_validation_error err =
     (let path = fst err in
      if path = ''$'' then snd err
      else (if starts_with path ''$.'' then drop 2 path else path) @ '': '' @ snd err)"

definition not_json :: "'e tool_env_scheme \<Rightarrow> string \<Rightarrow> string" where
  "not_json e content = ''Content is not valid JSON: '' @ loads_error e content"

definition validate_output :: "'e tool_env_scheme \<Rightarrow> string \<Rightarrow> step \<Rightarrow> string list option" where
  "validate_output e content s =
     (case st_output_schema s of
        None \<Rightarrow> None
      | Some schema \<Rightarrow>
          if \<not> truthy schema then None
          else (case json_loads content of
             None \<Rightarrow> Some [not_json e content]
           | Some parsed \<Rightarrow>
               (let errs = map format_validation_error (schema_errors e schema parsed)
                in if errs = [] then None else Some errs)))"

section \<open>Context assembly\<close>

definition SUMMARY_LIMIT :: nat where "SUMMARY_LIMIT = 500"

definition context_item :: "inject \<Rightarrow> (string, string) dict \<Rightarrow> pyval" where
  "context_item entry data =
     (case dget data (ic_from entry) of
        None \<Rightarrow> PDict [(''from'', PStr (ic_from entry)), (''content'', PNone)]
      | Some raw \<Rightarrow>
          (case (ic_fields entry, json_loads raw) of
             (f # fs, Some (PDict d)) \<Rightarrow>
               PDict [(''from'', PStr (ic_from entry)),
                 (''fields'', PDict (fold (\<lambda>k. dput k (dget_or d k PNone)) (f # fs) []))]
           | _ \<Rightarrow>
               PDict [(''from'', PStr (ic_from entry)),
                 (''content'', PStr (if ic_summary entry \<and> SUMMARY_LIMIT < length raw
                    then take SUMMARY_LIMIT raw @ ''[truncated]'' else raw))]))"

definition assemble_context :: "inject list \<Rightarrow> (string, string) dict \<Rightarrow> pyval" where
  "assemble_context entries data = PList (map (\<lambda>x. context_item x data) entries)"

section \<open>Guardrails\<close>

fun any_pattern :: "'e tool_env_scheme \<Rightarrow> string list \<Rightarrow> string \<Rightarrow> exn + bool" where
  "any_pattern e [] content = Inr False"
| "any_pattern e (p # ps) content =
     (case re_search e p content of
        None \<Rightarrow> Inl (RegexError p)
      | Some True \<Rightarrow> Inr True
      | Some False \<Rightarrow> any_pattern e ps content)"

text \<open>\<open>data\<close> and \<open>visits\<close> are the session's \<open>step_data\<close> and \<open>step_visit_counts\<close>.\<close>

definition guard_fires ::
  "'e tool_env_scheme \<Rightarrow> trigger \<Rightarrow> string \<Rightarrow> (string, string) dict \<Rightarrow> (string, nat) dict
   \<Rightarrow> string \<Rightarrow> exn + bool" where
  "guard_fires e t content data visits step_id =
     (case t of
        KeywordMatch patterns \<Rightarrow> any_pattern e patterns content
      | StepCount m \<Rightarrow> Inr (m \<le> int (length data))
      | StepRevisit m \<Rightarrow> Inr (m \<le> int (dget_or visits step_id 0))
      | OutputLength m \<Rightarrow> Inr (m < int (length content)))"

fun evaluate_guardrails ::
  "'e tool_env_scheme \<Rightarrow> guardrail list \<Rightarrow> string \<Rightarrow> (string, string) dict \<Rightarrow> (string, nat) dict
   \<Rightarrow> string \<Rightarrow> exn + guardrail option" where
  "evaluate_guardrails e [] content data visits step_id = Inr None"
| "evaluate_guardrails e (g # gs) content data visits step_id =
     (case guard_fires e (gr_trigger g) content data visits step_id of
        Inl x \<Rightarrow> Inl x
      | Inr True \<Rightarrow> Inr (Some g)
      | Inr False \<Rightarrow> evaluate_guardrails e gs content data visits step_id)"

end
