(* ===== verification/McpExecutor.thy ===== *)
theory McpExecutor
  imports Workflow
begin

text \<open>
  The executor of \<open>mcp_tool_call\<close> steps (\<^verbatim>\<open>mcp_executor.py\<close>): argument resolution, the
  check for unresolved refs, the timeout, the call, and the envelope the step leaves in
  \<open>step_data\<close>. An argument tree may hold the sentinel \<open>_REF_ABSENT\<close>: \<open>AAbsent\<close>.
\<close>

section \<open>Argument trees\<close>

datatype argv =
    AAbsent
  | AVal pyval
  | AList "argv list"
  | ADict "(string \<times> argv) list"

text \<open>The first exception of a list of results, or all their values.\<close>

fun collect :: "('x + 'a) list \<Rightarrow> 'x + 'a list" where
  "collect [] = Inr []"
| "collect (Inl x # rs) = Inl x"
| "collect (Inr a # rs) = (case collect rs of Inl x \<Rightarrow> Inl x | Inr as \<Rightarrow> Inr (a # as))"

definition is_ref_string :: "string \<Rightarrow> bool" where
  "is_ref_string s \<longleftrightarrow> starts_with s ''${'' \<and> ends_with s ''}'' \<and> contains s ''step_data.''"

fun resolve_args ::
  "pyval \<Rightarrow> (string, string) dict \<Rightarrow> string list \<Rightarrow> string \<Rightarrow> exn + argv" where
  "resolve_args (PDict d) data skipped referencing =
     (case collect (map (\<lambda>x. resolve_args (snd x) data skipped referencing) d) of
        Inl x \<Rightarrow> Inl x
      | Inr vs \<Rightarrow> Inr (ADict (zip (map fst d) vs)))"
| "resolve_args (PList xs) data skipped referencing =
     (case collect (map (\<lambda>x. resolve_args x data skipped referencing) xs) of
        Inl x \<Rightarrow> Inl x
      | Inr vs \<Rightarrow> Inr (AList vs))"
| "resolve_args (PStr s) data skipped referencing =
     (if is_ref_string s then
        (case resolve_ref (butlast (drop 2 s)) data skipped referencing of
           Inl x \<Rightarrow> Inl x
         | Inr None \<Rightarrow> Inr AAbsent
         | Inr (Some v) \<Rightarrow> Inr (AVal v))
      else Inr (AVal (PStr s)))"
| "resolve_args v data skipped referencing = Inr (AVal v)"

fun find_absent :: "argv \<Rightarrow> string \<Rightarrow> string option"
  and find_absent_list :: "argv list \<Rightarrow> nat \<Rightarrow> string \<Rightarrow> string option"
  and find_absent_dict :: "(string \<times> argv) list \<Rightarrow> string \<Rightarrow> string option" where
  "find_absent AAbsent path = Some (if path = [] then ''<root>'' else path)"
| "find_absent (AVal v) path = None"
| "find_absent (AList xs) path = find_absent_list xs 0 path"
| "find_absent (ADict d) path = find_absent_dict d path"
| "find_absent_list [] i path = None"
| "find_absent_list (x # xs) i path =
     (case find_absent x (path @ ''['' @ str_nat i @ '']'') of
        Some p \<Rightarrow> Some p
      | None \<Rightarrow> find_absent_list xs (Suc i) path)"
| "find_absent_dict [] path = None"
| "find_absent_dict ((k, v) # d) path =
     (case find_absent v (if path = [] then k else path @ ''.'' @ k) of
        Some p \<Rightarrow> Some p
      | None \<Rightarrow> find_absent_dict d path)"

text \<open>The Python value of a tree without sentinels.\<close>

fun argv_value :: "argv \<Rightarrow> pyval" where
  "argv_value AAbsent = PNone"
| "argv_value (AVal v) = v"
| "argv_value (AList xs) = PList (map argv_value xs)"
| "argv_value (ADict d) = PDict (map (\<lambda>x. (fst x, argv_value (snd x))) d)"

section \<open>Envelopes\<close>

definition ok_envelope :: "string \<Rightarrow> pyval" where
  "ok_envelope v = PDict [(''ok'', PBool True), (''value'', PStr v)]"

definition error_envelope :: "string \<Rightarrow> pyval" where
  "error_envelope msg =
     PDict [(''ok'', PBool False), (''error'', PDict [(''message'', PStr msg)])]"

fun map_outcome_to_envelope :: "call_outcome \<Rightarrow> pyval" where
  "map_outcome_to_envelope (Ok v) = ok_envelope v"
| "map_outcome_to_envelope (ToolExecutionError m) = error_envelope m"
| "map_outcome_to_envelope (TransportError d) = error_envelope (''transport error: '' @ d)"
| "map_outcome_to_envelope (ProtocolError d) = error_envelope (''protocol error: '' @ d)"
| "map_outcome_to_envelope (SchemaValidationError d) = error_envelope (''schema error: '' @ d)"
| "map_outcome_to_envelope TimeoutError = error_envelope ''timeout''"

section \<open>One step\<close>

definition effective_timeout :: "step \<Rightarrow> string \<Rightarrow> registry \<Rightarrow> exn + decimal" where
  "effective_timeout s server reg =
     (case st_timeout s of
        Some t \<Rightarrow> Inr t
      | None \<Rightarrow>
          (case registry_get reg server of
             Inl x \<Rightarrow> Inl x
           | Inr cfg \<Rightarrow> Inr (case timeout_default cfg of Some t \<Rightarrow> t | None \<Rightarrow> DEFAULT_TIMEOUT_S)))"

definition step_key :: "string \<Rightarrow> 'a option \<Rightarrow> exn + 'a" where
  "step_key k v = (case v of None \<Rightarrow> Inl (KeyError k) | Some x \<Rightarrow> Inr x)"

definition dispatch_call ::
  "'e net_env_scheme \<Rightarrow> step \<Rightarrow> pyval \<Rightarrow> registry \<Rightarrow> (client, pyval) act" where
  "dispatch_call e s resolved reg =
     bindE (liftE (step_key ''server'' (st_server s))) (\<lambda>server.
     bindE (liftE (effective_timeout s server reg)) (\<lambda>timeout.
     bindE (liftE (step_key ''tool'' (st_tool s))) (\<lambda>tool.
     bindE (mcp_call e server tool resolved reg (Some timeout)) (\<lambda>outcome.
     retE (map_outcome_to_envelope outcome)))))"

definition execute_mcp_tool_call_step ::
  "'e net_env_scheme \<Rightarrow> step \<Rightarrow> (string, string) dict \<Rightarrow> string list \<Rightarrow> registry option
   \<Rightarrow> (client, pyval) act" where
  "execute_mcp_tool_call_step e s data skipped reg_opt =
     (case reg_opt of
        None \<Rightarrow> raiseE (RuntimeError ''registry required for mcp_tool_call execution'')
      | Some reg \<Rightarrow>
          bindE (liftE (step_key ''args'' (st_args s))) (\<lambda>raw.
          bindE (liftE (resolve_args raw data skipped (st_id s))) (\<lambda>resolved.
            case find_absent resolved [] of
              Some path \<Rightarrow>
                retE (error_envelope (''unresolved arg ref: ${step_data.'' @ path @ ''}''))
            | None \<Rightarrow> dispatch_call e s (argv_value resolved) reg)))"

end
