(* ===== verification/ToolsCore.thy ===== *)
theory ToolsCore
  imports McpExecutor
begin

text \<open>
  The helpers every tool goes through (\<^verbatim>\<open>tools.py\<close>): argument checks, error trapping, the
  session funnel with its identity and fingerprint checks, in-line execution of
  \<open>mcp_tool_call\<close> steps, and what happens when a framed session completes or fails.
  The world is the database and the MCP client of the process; a response is the
  dictionary the tool returns.
\<close>

record world = db +
  client_state :: client

record app =
  app_workflows :: "(string, workflow) dict"
  app_fingerprints :: "(string, string) dict"
  app_registry :: "registry option"
  app_caller :: identity

definition on_client :: "(client, 'a) act \<Rightarrow> (world, 'a) act" where
  "on_client m s = (case m (client_state s) of (r, c) \<Rightarrow> (r, s\<lparr>client_state := c\<rparr>))"

definition DEFAULT_MAX_RETRIES :: int where "DEFAULT_MAX_RETRIES = 3"
definition max_stack_depth :: nat where "max_stack_depth = 3"
definition ACTIVE_CAP :: nat where "ACTIVE_CAP = 5"

definition DO_NOT_RULES :: pyval where
  "DO_NOT_RULES = PList (map PStr [
     ''Do NOT skip ahead to later steps.'',
     ''Do NOT produce final artifacts yet.'',
     ''Do NOT ask multiple questions at once.'',
     ''Do NOT proceed until all gates for this step are satisfied.'',
     ''Do NOT submit a step without showing your work to the user and waiting for their confirmation. Each step is a conversation, not a task you complete silently.'',
     ''Do NOT submit multiple steps in a single response. Complete ONE step, present it, wait for the user to respond, then move to the next.'',
     ''Do NOT reveal step names, step numbers, or internal workflow mechanics to the user. The workflow should feel like a natural conversation, not a numbered checklist. Never say things like 'Step 2: Decompose and Structure' or 'we are now in the plan phase'.''])"

definition CONVERSATION_REPAIR_DEFAULTS :: "(string \<times> pyval) list" where
  "CONVERSATION_REPAIR_DEFAULTS = [
     (''on_go_back'', PStr ''Guide the user to use revise_step''),
     (''on_cancel'', PStr ''Confirm cancellation, then use delete_session''),
     (''on_digression'', PStr ''Acknowledge, then redirect to current step''),
     (''on_clarification'', PStr ''Re-explain the current step's directive more simply'')]"

definition repair_for :: "workflow \<Rightarrow> pyval" where
  "repair_for w =
     PDict (fold (\<lambda>kv. dput (fst kv) (snd kv)) (wf_conversation_repair w) CONVERSATION_REPAIR_DEFAULTS)"

definition py_opt_str :: "string option \<Rightarrow> pyval" where
  "py_opt_str s = (case s of None \<Rightarrow> PNone | Some x \<Rightarrow> PStr x)"

fun frame_type_py :: "frame_type \<Rightarrow> pyval" where
  "frame_type_py Call = PStr ''call''"
| "frame_type_py Digression = PStr ''digression''"

section \<open>Argument checks and error trapping\<close>

definition check_str :: "pyval \<Rightarrow> string \<Rightarrow> bool \<Rightarrow> pyval option" where
  "check_str v name required =
     (case v of
        PStr s \<Rightarrow>
          if required \<and> s = [] then
            Some (error_response ''invalid_argument'' (name @ '' must not be empty'') [(''field'', PStr name)])
          else None
      | _ \<Rightarrow>
          Some (error_response ''invalid_argument''
            (name @ '' must be a string, got '' @ type_name v) [(''field'', PStr name)]))"

text \<open>\<open>a or b or ...\<close> over optional error responses.\<close>

fun first_err :: "pyval option list \<Rightarrow> pyval option" where
  "first_err [] = None"
| "first_err (None # es) = first_err es"
| "first_err (Some err # es) = Some err"

definition guard_args :: "pyval option list \<Rightarrow> (world, pyval) act \<Rightarrow> (world, pyval) act" where
  "guard_args checks m = (case first_err checks of Some err \<Rightarrow> retE err | None \<Rightarrow> m)"

text \<open>
  The decorator. \<open>sid\<close> is the \<open>session_id\<close> keyword of the call, when it has one; exceptions
  other than the three caught ones leave the tool.
\<close>

definition trap_errors ::
  "'e base_env_scheme \<Rightarrow> string \<Rightarrow> string option \<Rightarrow> (world, pyval) act \<Rightarrow> (world, pyval) act" where
  "trap_errors e field sid m s =
     (case m s of
        (Inr r, s') \<Rightarrow> (Inr r, s')
      | (Inl x, s') \<Rightarrow>
          (case x of
             SessionNotFoundError \<Rightarrow>
               (Inr (error_response ''session_not_found'' ''session not found''
                  [(''session_fingerprint'', case sid of
                      None \<Rightarrow> PNone
                    | Some i \<Rightarrow> (if i = [] then PNone else PStr (compute_fingerprint e i)))]), s')
           | TypeError msg \<Rightarrow>
               (Inr (error_response ''invalid_argument'' msg [(''field'', PStr field)]), s')
           | ValueError msg \<Rightarrow>
               (Inr (error_response ''invalid_argument'' msg [(''field'', PStr field)]), s')
           | _ \<Rightarrow> (Inl x, s')))"

section \<open>The session funnel\<close>

definition workflow_changed_envelope :: "session \<Rightarrow> string \<Rightarrow> pyval" where
  "workflow_changed_envelope ses current_fp =
     error_response ''workflow_changed''
       (''Workflow '' @ quoted (workflow_type ses) @ '' has changed since this session was started. '' @
        ''The session is terminal; start a new one.'')
       [(''session_fingerprint'', PStr (fingerprint ses)),
        (''workflow_type'', PStr (workflow_type ses)),
        (''previous_fingerprint'', PStr (workflow_fingerprint ses)),
        (''current_fingerprint'', PStr current_fp)]"

text \<open>\<open>Inl err\<close> is \<open>(None, err)\<close>.\<close>

definition resolve_session ::
  "'e tool_env_scheme \<Rightarrow> app \<Rightarrow> string \<Rightarrow> (world, pyval + session \<times> workflow) act" where
  "resolve_session e ap sid s =
     (case get_session e sid s of
        (Inl _, s1) \<Rightarrow>
          (Inr (Inl (error_response ''session_not_found'' ''session not found''
             [(''session_fingerprint'', PStr (compute_fingerprint e sid))])), s1)
      | (Inr ses, s1) \<Rightarrow>
          if app_caller ap \<noteq> owner_identity ses then
            (Inr (Inl (error_response ''cross_session_access_denied''
               (''caller identity does not own session '' @ fingerprint ses)
               [(''session_fingerprint'', PStr (fingerprint ses))])), s1)
          else if current_step ses = WORKFLOW_CHANGED then
            (Inr (Inl (workflow_changed_envelope ses (workflow_fingerprint ses))), s1)
          else (case dget (app_workflows ap) (workflow_type ses) of
             None \<Rightarrow>
               (Inr (Inl (error_response ''workflow_not_loaded''
                  (''Workflow '' @ quoted (workflow_type ses) @ '' not loaded'')
                  [(''session_fingerprint'', PStr (fingerprint ses))])), s1)
           | Some w \<Rightarrow>
               (case dget (app_fingerprints ap) (workflow_type ses) of
                  None \<Rightarrow> (Inr (Inr (ses, w)), s1)
                | Some current_fp \<Rightarrow>
                    if workflow_fingerprint ses \<noteq> current_fp then
                      seqE (update_session sid (Some WORKFLOW_CHANGED) None)
                        (retE (Inl (workflow_changed_envelope ses current_fp))) s1
                    else (Inr (Inr (ses, w)), s1))))"

text \<open>\<open>if err: return err\<close> after a resolve.\<close>

definition with_session ::
  "'e tool_env_scheme \<Rightarrow> app \<Rightarrow> string \<Rightarrow> (session \<Rightarrow> workflow \<Rightarrow> (world, pyval) act)
   \<Rightarrow> (world, pyval) act" where
  "with_session e ap sid k =
     bindE (resolve_session e ap sid) (\<lambda>r.
       case r of Inl err \<Rightarrow> retE err | Inr sw \<Rightarrow> k (fst sw) (snd sw))"

definition fingerprint_for :: "'e base_env_scheme \<Rightarrow> app \<Rightarrow> string \<Rightarrow> string" where
  "fingerprint_for e ap name =
     (case dget (app_fingerprints ap) name of
        Some fp \<Rightarrow> fp
      | None \<Rightarrow>
          (case dget (app_workflows ap) name of
             None \<Rightarrow> ''pre-versioning''
           | Some w \<Rightarrow> sha256_hex e (json_canonical (wf_doc w))))"

section \<open>In-line execution of mcp\_tool\_call steps\<close>

definition skipped_error ::
  "string \<Rightarrow> string \<Rightarrow> string \<Rightarrow> string \<Rightarrow> string \<Rightarrow> pyval" where
  "skipped_error fp sid referencing step_id field =
     error_response ''skipped_predecessor_reference''
       (''Step '' @ quoted referencing @ '' precondition references skipped predecessor '' @ quoted sid)
       [(''session_fingerprint'', PStr fp), (''step_id'', PStr step_id),
        (''referenced_step'', PStr sid), (''referencing_field'', PStr field)]"

text \<open>The pointer after an executed step, before the skip loop.\<close>

definition after_mcp_step :: "workflow \<Rightarrow> nat \<Rightarrow> step \<Rightarrow> string" where
  "after_mcp_step w idx st =
     (if st_branches st \<noteq> [] then
        (case st_default_branch st of None \<Rightarrow> COMPLETE | Some t \<Rightarrow> t)
      else linear_next w idx)"

text \<open>
  The loop returns the pointer, the cascade error if there is one, and the \<open>step_data\<close> it
  has filled in; one unit of fuel per executed step.
\<close>

fun auto_execute_mcp_steps ::
  "nat \<Rightarrow> 'e tool_env_scheme \<Rightarrow> app \<Rightarrow> string \<Rightarrow> workflow \<Rightarrow> string \<Rightarrow> (string, string) dict
   \<Rightarrow> (world, string \<times> pyval option \<times> (string, string) dict) act" where
  "auto_execute_mcp_steps 0 e ap nxt w sid data = raiseE NoReturn"
| "auto_execute_mcp_steps (Suc n) e ap nxt w sid data =
     (if nxt = COMPLETE then retE (nxt, None, data)
      else (case find_step w nxt of
         None \<Rightarrow> retE (nxt, None, data)
       | Some (idx, st) \<Rightarrow>
           if st_action st \<noteq> Some ''mcp_tool_call'' then retE (nxt, None, data)
           else
             bindE (liftE (compute_skipped_steps w data)) (\<lambda>skipped.
             eitherE (on_client (execute_mcp_tool_call_step e st data skipped (app_registry ap)))
               (\<lambda>x. case x of
                   SkippedPredecessor p r \<Rightarrow>
                     retE (nxt, Some (skipped_error (compute_fingerprint e sid) p r nxt ''args''), data)
                 | _ \<Rightarrow> raiseE x)
               (\<lambda>envelope.
                 let data' = dput (st_id st) (json_dumps envelope) data;
                     nxt' = after_mcp_step w idx st in
                 bindE (increment_visit sid (st_id st)) (\<lambda>_.
                   case apply_skip_loop (fuel e) nxt' w data' False of
                     Inl x \<Rightarrow>
                       (case x of
                          SkippedPredecessor p r \<Rightarrow>
                            retE (nxt', Some (skipped_error (compute_fingerprint e sid) p r nxt'
                              ''precondition''), data')
                        | _ \<Rightarrow> raiseE x)
                   | Inr (nxt'', _) \<Rightarrow>
                       auto_execute_mcp_steps n e ap nxt'' w sid data')))))"

section \<open>What a directive-bearing response carries\<close>

definition step_head :: "step \<Rightarrow> (string \<times> pyval) list" where
  "step_head st = [(''id'', PStr (st_id st)), (''title'', st_title st)]"

definition call_target_field :: "step \<Rightarrow> (string \<times> pyval) list" where
  "call_target_field st =
     (case st_call st of Some t \<Rightarrow> (if t = [] then [] else [(''call_target'', PStr t)]) | None \<Rightarrow> [])"

text \<open>\<open>directive\<close>, \<open>do_not\<close>, \<open>conversation_repair\<close>, \<open>gates\<close>: a KeyError without the first or last.\<close>

definition directive_fields :: "workflow \<Rightarrow> step \<Rightarrow> exn + (string \<times> pyval) list" where
  "directive_fields w st =
     (case st_directive_template st of
        None \<Rightarrow> Inl (KeyError ''directive_template'')
      | Some dt \<Rightarrow>
          (case st_gates st of
             None \<Rightarrow> Inl (KeyError ''gates'')
           | Some g \<Rightarrow>
               Inr [(''directive'', dt), (''do_not'', DO_NOT_RULES),
                    (''conversation_repair'', repair_for w), (''gates'', g)]))"

definition injected_field :: "step \<Rightarrow> (string, string) dict \<Rightarrow> (string \<times> pyval) list" where
  "injected_field st data =
     (if st_inject_context st = [] then []
      else [(''injected_context'', assemble_context (st_inject_context st) data)])"

definition directives_field :: "step \<Rightarrow> (string \<times> pyval) list" where
  "directives_field st =
     (case st_directives st of
        Some d \<Rightarrow> (if truthy d then [(''directives'', d)] else [])
      | None \<Rightarrow> [])"

definition branch_py :: "branch \<Rightarrow> pyval" where
  "branch_py b = PDict [(''next'', PStr (br_next b)), (''condition'', PStr (br_condition b))]"

definition branch_fields :: "step \<Rightarrow> (string \<times> pyval) list" where
  "branch_fields st =
     (if st_branches st = [] then []
      else (''branches'', PList (map branch_py (st_branches st))) #
        (case st_default_branch st of
           Some t \<Rightarrow> (if t = [] then [] else [(''default_branch'', PStr t)])
         | None \<Rightarrow> []))"

definition none_subscript :: exn where
  "none_subscript = TypeError (quoted ''NoneType'' @ '' object is not subscriptable'')"

text \<open>The tail of an advancing response: completion, or the next step's directive.\<close>

definition next_fields ::
  "workflow \<Rightarrow> string \<Rightarrow> (string, string) dict \<Rightarrow> exn + (string \<times> pyval) list" where
  "next_fields w nxt data =
     (if nxt = COMPLETE then
        Inr [(''status'', PStr ''workflow_complete''),
             (''message'', PStr ''All steps complete. Call generate_artifact to produce final output.'')]
      else (case find_step w nxt of
         None \<Rightarrow> Inl none_subscript
       | Some (_, st) \<Rightarrow>
           (case directive_fields w st of
              Inl x \<Rightarrow> Inl x
            | Inr ds \<Rightarrow>
                Inr ((''next_step'', PDict (step_head st @ call_target_field st)) # ds
                     @ injected_field st data @ directives_field st @ branch_fields st))))"

definition progress_text :: "nat \<Rightarrow> workflow \<Rightarrow> string \<Rightarrow> string" where
  "progress_text idx w tail =
     ''step '' @ str_nat (idx + 1) @ '' of '' @ str_nat (length (wf_steps w)) @ tail"

section \<open>Parents and outer sessions\<close>

definition advance_parent ::
  "'e tool_env_scheme \<Rightarrow> app \<Rightarrow> string \<Rightarrow> workflow \<Rightarrow> step \<Rightarrow> nat \<Rightarrow> (string, string) dict
   \<Rightarrow> (world, pyval) act" where
  "advance_parent e ap psid w call_step idx data =
     bindE (liftE (if st_branches call_step \<noteq> []
                   then step_key ''default_branch'' (st_default_branch call_step)
                   else Inr (linear_next w idx))) (\<lambda>nxt.
     case apply_skip_loop (fuel e) nxt w data False of
       Inl x \<Rightarrow>
         (case x of
            SkippedPredecessor p r \<Rightarrow>
              retE (skipped_error (compute_fingerprint e psid) p r (st_id call_step) ''precondition'')
          | _ \<Rightarrow> raiseE x)
     | Inr (nxt1, _) \<Rightarrow>
         bindE (auto_execute_mcp_steps (fuel e) e ap nxt1 w psid data) (\<lambda>(nxt2, cascade, data2).
           case cascade of
             Some err \<Rightarrow> seqE (update_session psid (Some nxt2) (Some data2)) (retE err)
           | None \<Rightarrow>
               seqE (if nxt2 = COMPLETE then retE ()
                     else bindE (increment_visit psid nxt2) (\<lambda>_. retE ()))
               (seqE (update_session psid (Some nxt2) (Some data2))
               (bindE (liftE (next_fields w nxt2 data2)) (\<lambda>fs.
                 retE (PDict ([(''session_id'', PStr psid),
                    (''submitted'', PDict (step_head call_step)),
                    (''progress'', PStr (progress_text idx w '' complete'')),
                    (''propagated_from_sub_workflow'', PBool True)] @ fs)))))))"

definition wrap_child_failure ::
  "'e tool_env_scheme \<Rightarrow> string \<Rightarrow> workflow \<Rightarrow> string \<Rightarrow> pyval \<Rightarrow> (world, pyval) act" where
  "wrap_child_failure e child_sid child_wf reason child_error =
     bindE (getE (parent_of child_sid)) (\<lambda>parent.
       case parent of
         None \<Rightarrow> retE child_error
       | Some psid \<Rightarrow>
           seqE (set_escalation psid ''called_workflow_failed''
                   (''child '' @ quoted child_sid @ '' failed: '' @ reason))
             (retE (error_response ''session_escalated''
                (''parent escalated due to sub-workflow failure in child with fingerprint '' @ quoted (compute_fingerprint e child_sid))
                [(''parent_session_fingerprint'', PStr (compute_fingerprint e psid)),
                 (''called_workflow_error'', PDict
                    [(''child_session_fingerprint'', PStr (compute_fingerprint e child_sid)),
                     (''child_workflow_type'', PStr (wf_name child_wf)),
                     (''child_error'', child_error)])])))"

definition resume_view ::
  "session \<Rightarrow> workflow \<Rightarrow> exn + (string \<times> pyval) list" where
  "resume_view outer w =
     (if current_step outer = COMPLETE \<or> find_step w (current_step outer) = None then
        Inr [(''status'', PStr ''workflow_complete''),
             (''message'', PStr ''Outer workflow already complete; digression returned.'')]
      else (case find_step w (current_step outer) of
         None \<Rightarrow> Inl none_subscript
       | Some (idx, st) \<Rightarrow>
           (case directive_fields w st of
              Inl x \<Rightarrow> Inl x
            | Inr ds \<Rightarrow>
                Inr ([(''current_step'', PDict (step_head st @ call_target_field st)),
                      (''progress'', PStr (progress_text idx w '' resumed''))] @ ds
                     @ injected_field st (step_data outer) @ directives_field st
                     @ branch_fields st))))"

definition resume_parent_after_digression ::
  "'e tool_env_scheme \<Rightarrow> app \<Rightarrow> string \<Rightarrow> (world, pyval) act" where
  "resume_parent_after_digression e ap child_sid =
     bindE (getE (parent_of child_sid)) (\<lambda>outer.
       case outer of
         None \<Rightarrow> raiseE (AssertionError ''resume_parent_after_digression called on a root session'')
       | Some outer_sid \<Rightarrow>
           with_session e ap outer_sid (\<lambda>outer_ses outer_wf.
             bindE (delete_session e child_sid) (\<lambda>_.
             bindE (liftE (resume_view outer_ses outer_wf)) (\<lambda>fs.
               retE (PDict ([(''session_id'', PStr outer_sid),
                  (''resumed_from_digression'', PBool True),
                  (''child_session_id'', PStr child_sid)] @ fs))))))"

definition propagate_to_parent ::
  "'e tool_env_scheme \<Rightarrow> app \<Rightarrow> string \<Rightarrow> (string, string) dict \<Rightarrow> workflow \<Rightarrow> (world, pyval) act" where
  "propagate_to_parent e ap child_sid child_data child_wf =
     bindE (getE (parent_of child_sid)) (\<lambda>parent.
       case parent of
         None \<Rightarrow> raiseE (AssertionError ''propagate_to_parent called on a root session'')
       | Some psid \<Rightarrow>
           if wf_steps child_wf = [] then raiseE (IndexError ''list index out of range'')
           else
             (let last_id = st_id (last (wf_steps child_wf));
                  artifact = dget_or child_data last_id [] in
              with_session e ap psid (\<lambda>parent_ses parent_wf.
                case find_step parent_wf (current_step parent_ses) of
                  Some (idx, call_step) \<Rightarrow>
                    if st_call call_step = None then
                      seqE (set_escalation psid ''sub_workflow_state_drift''
                              (''parent at '' @ quoted (current_step parent_ses) @ '' is not a call-step''))
                        (retE (error_response ''session_escalated''
                           ''parent state drift during sub-workflow propagation''
                           [(''parent_session_fingerprint'', PStr (compute_fingerprint e psid)),
                            (''child_session_fingerprint'', PStr (compute_fingerprint e child_sid))]))
                    else
                      (case validate_output e artifact call_step of
                         Some errs \<Rightarrow>
                           wrap_child_failure e child_sid child_wf ''parent_output_schema_fail''
                             (PDict [(''status'', PStr ''validation_error''),
                               (''errors'', PList (map PStr errs)),
                               (''session_fingerprint'', PStr (compute_fingerprint e child_sid)),
                               (''step_id'', PStr last_id),
                               (''reason'', PStr ''parent_output_schema_fail''),
                               (''message'', PStr ''child artifact failed parent call-step output_schema'')])
                       | None \<Rightarrow>
                           bindE (delete_session e child_sid) (\<lambda>_.
                           seqE (set_called_session psid None None)
                             (advance_parent e ap psid parent_wf call_step idx
                                (dput (current_step parent_ses) artifact (step_data parent_ses)))))
                | None \<Rightarrow>
                    seqE (set_escalation psid ''sub_workflow_state_drift''
                            (''parent at '' @ quoted (current_step parent_ses) @ '' is not a call-step''))
                      (retE (error_response ''session_escalated''
                         ''parent state drift during sub-workflow propagation''
                         [(''parent_session_fingerprint'', PStr (compute_fingerprint e psid)),
                          (''child_session_fingerprint'', PStr (compute_fingerprint e child_sid))])))))"

definition auto_resume_on_top_frame_complete ::
  "'e tool_env_scheme \<Rightarrow> app \<Rightarrow> string \<Rightarrow> (string, string) dict \<Rightarrow> workflow \<Rightarrow> (world, pyval) act" where
  "auto_resume_on_top_frame_complete e ap child_sid child_data child_wf =
     bindE (getE (own_frame child_sid)) (\<lambda>own.
       if (case own of Some f \<Rightarrow> frame_type f | None \<Rightarrow> Call) = Digression
       then resume_parent_after_digression e ap child_sid
       else propagate_to_parent e ap child_sid child_data child_wf)"

end
