(* ===== verification/ToolsSubmit.thy ===== *)
theory ToolsSubmit
  imports ToolsCore
begin

text \<open>
  The tool \<open>submit_step\<close> (\<^verbatim>\<open>tools.py\<close>), cut at the comments of its body: the guards, the
  two validation paths (intermediate artifact, output schema), and the tail both paths share,
  from the guardrails to the response. The source repeats that tail; the two copies differ in
  the \<open>artifact_id\<close> field of the response only, the argument \<open>extra\<close> here.
\<close>

section \<open>Guards\<close>

definition fp_field :: "session \<Rightarrow> string \<times> pyval" where
  "fp_field ses = (''session_fingerprint'', PStr (fingerprint ses))"

definition escalation_py :: "string \<times> string \<Rightarrow> pyval" where
  "escalation_py x = PDict [(''guardrail_id'', PStr (fst x)), (''message'', PStr (snd x))]"

definition escalated_error :: "session \<Rightarrow> string \<times> string \<Rightarrow> string \<Rightarrow> pyval" where
  "escalated_error ses esc msg =
     error_response ''session_escalated'' msg
       [fp_field ses, (''escalation'', escalation_py esc)]"

definition out_of_order_error :: "session \<Rightarrow> string \<Rightarrow> string \<Rightarrow> pyval" where
  "out_of_order_error ses msg submitted =
     error_response ''out_of_order_submission'' msg
       [fp_field ses, (''expected_step'', PStr (current_step ses)),
        (''submitted_step'', PStr submitted)]"

text \<open>\<open>Some err\<close>: the guards that read the session only.\<close>

definition submit_session_guard :: "session \<Rightarrow> string \<Rightarrow> string \<Rightarrow> pyval option" where
  "submit_session_guard ses step_id content =
     (case escalation ses of
        Some esc \<Rightarrow>
          Some (escalated_error ses esc
            ''Session is escalated. Resolve the escalation before continuing.'')
      | None \<Rightarrow>
          if current_step ses = COMPLETE then
            Some (error_response ''workflow_complete''
              ''Workflow already complete. Call generate_artifact to get final output.''
              [fp_field ses])
          else if step_id \<noteq> current_step ses then
            Some (out_of_order_error ses
              (''Out-of-order submission: expected '' @ quoted (current_step ses) @ '', got ''
                 @ quoted step_id) step_id)
          else if CONTENT_MAX < utf8_len content then
            Some (error_response ''oversize_payload''
              (''content exceeds '' @ str_nat CONTENT_MAX @ '' bytes (''
                 @ str_nat (utf8_len content) @ '' bytes received)'')
              [(''field'', PStr ''content''), (''max_bytes'', PInt (int CONTENT_MAX)),
               (''actual_bytes'', PInt (int (utf8_len content))), fp_field ses,
               (''step_id'', PStr step_id)])
          else None)"

text \<open>The guards on the stack and on the kind of the step.\<close>

definition pending_error ::
  "'e base_env_scheme \<Rightarrow> session \<Rightarrow> string \<Rightarrow> string \<Rightarrow> frame \<Rightarrow> pyval" where
  "pending_error e ses msg step_id fr =
     error_response ''sub_workflow_pending'' msg
       [(''parent_session_fingerprint'', PStr (fingerprint ses)),
        (''child_session_fingerprint'', PStr (compute_fingerprint e (frame_session_id fr))),
        (''call_step_id'', PStr step_id), (''frame_type'', frame_type_py (frame_type fr))]"

definition submit_top_error :: "'e base_env_scheme \<Rightarrow> session \<Rightarrow> string \<Rightarrow> frame \<Rightarrow> pyval" where
  "submit_top_error e ses step_id fr =
     pending_error e ses
       (''a child session (fingerprint '' @ quoted (compute_fingerprint e (frame_session_id fr))
          @ '') is already in flight above session fingerprint '' @ quoted (fingerprint ses)
          @ ''. Complete or revise the child before submitting further steps.'') step_id fr"

definition call_step_error :: "session \<Rightarrow> string \<Rightarrow> string \<Rightarrow> pyval" where
  "call_step_error ses step_id target =
     error_response ''call_step_requires_enter_sub_workflow''
       (''step '' @ quoted step_id @ '' has `call: '' @ target
          @ ''`. Use the `enter_sub_workflow` tool, not `submit_step`, to invoke the child workflow.'')
       [fp_field ses, (''step_id'', PStr step_id), (''hint'', PStr ''enter_sub_workflow''),
        (''call_target'', PStr target)]"

section \<open>Failures of a framed session\<close>

text \<open>\<open>if state.parent_of(session_id) is not None: return _wrap_child_failure...; return err\<close>\<close>

definition fail_submission ::
  "'e tool_env_scheme \<Rightarrow> string \<Rightarrow> session \<Rightarrow> workflow \<Rightarrow> string \<Rightarrow> pyval \<Rightarrow> (world, pyval) act" where
  "fail_submission e sid ses w reason err =
     bindE (getE (parent_of sid)) (\<lambda>parent.
       if parent = None then retE err
       else wrap_child_failure e (session_id ses) w reason err)"

section \<open>The tail\<close>

text \<open>
  The next step and whether a guardrail forced it; \<open>Inl\<close> inside is the error response.
\<close>

definition branch_or_linear ::
  "session \<Rightarrow> workflow \<Rightarrow> nat \<Rightarrow> step \<Rightarrow> string \<Rightarrow> string \<Rightarrow> pyval + string \<times> bool" where
  "branch_or_linear ses w idx st step_id br =
     (if st_branches st \<noteq> [] then
        (let valid_targets = map br_next (st_branches st);
             target = (if br \<noteq> [] then br
                       else case st_default_branch st of None \<Rightarrow> [] | Some t \<Rightarrow> t) in
         if target \<notin> set valid_targets then
           Inl (error_response ''invalid_argument''
             (''Invalid branch '' @ quoted target @ ''. Valid options: '' @ repr_strs valid_targets)
             [(''field'', PStr ''branch''), fp_field ses, (''step_id'', PStr step_id)])
         else Inr (target, False))
      else Inr (linear_next w idx, False))"

definition choose_next ::
  "session \<Rightarrow> workflow \<Rightarrow> nat \<Rightarrow> step \<Rightarrow> string \<Rightarrow> string \<Rightarrow> guardrail option
   \<Rightarrow> exn + (pyval + string \<times> bool)" where
  "choose_next ses w idx st step_id br fired =
     (case fired of
        Some g \<Rightarrow>
          if gr_action g = ForceBranch then
            (case step_key ''target_step'' (gr_target_step g) of
               Inl x \<Rightarrow> Inl x
             | Inr t \<Rightarrow> Inr (Inr (t, True)))
          else Inr (branch_or_linear ses w idx st step_id br)
      | None \<Rightarrow> Inr (branch_or_linear ses w idx st step_id br))"

definition guardrail_error :: "session \<Rightarrow> guardrail \<Rightarrow> pyval" where
  "guardrail_error ses g =
     error_response ''session_escalated'' ''Session escalated by guardrail.''
       [fp_field ses, (''guardrail_id'', PStr (gr_id g)), (''message'', PStr (gr_message g))]"

definition warning_field :: "guardrail option \<Rightarrow> (string \<times> pyval) list" where
  "warning_field fired =
     (case fired of
        Some g \<Rightarrow>
          if gr_action g = Warn \<and> gr_message g \<noteq> []
          then [(''guardrail_warning'', PStr (gr_message g))] else []
      | None \<Rightarrow> [])"

text \<open>From the chosen step on: skip loop, in-line mcp steps, the write, the response.\<close>

definition commit_advance ::
  "'e tool_env_scheme \<Rightarrow> app \<Rightarrow> string \<Rightarrow> session \<Rightarrow> workflow \<Rightarrow> string \<Rightarrow> (string, string) dict
   \<Rightarrow> ((string, string) dict \<Rightarrow> exn + pyval) \<Rightarrow> (world, pyval) act" where
  "commit_advance e ap sid ses w nxt data response =
     seqE (if nxt \<noteq> COMPLETE then bindE (increment_visit sid nxt) (\<lambda>_. retE ()) else retE ())
     (seqE (update_session sid (Some nxt) (Some data))
     (bindE (getE (parent_of sid)) (\<lambda>parent.
        if nxt = COMPLETE \<and> parent \<noteq> None
        then auto_resume_on_top_frame_complete e ap (session_id ses) data w
        else liftE (response data))))"

definition advance ::
  "'e tool_env_scheme \<Rightarrow> app \<Rightarrow> string \<Rightarrow> session \<Rightarrow> workflow \<Rightarrow> string \<Rightarrow> string \<Rightarrow> bool
   \<Rightarrow> (string, string) dict \<Rightarrow> (string \<Rightarrow> (string, string) dict \<Rightarrow> exn + pyval)
   \<Rightarrow> (world, pyval) act" where
  "advance e ap sid ses w step_id nxt forced data response =
     (case apply_skip_loop (fuel e) nxt w data forced of
        Inl x \<Rightarrow>
          (case x of
             SkippedPredecessor p r \<Rightarrow>
               fail_submission e sid ses w ''cascade_error''
                 (skipped_error (fingerprint ses) p r step_id ''precondition'')
           | _ \<Rightarrow> raiseE x)
      | Inr (nxt1, _) \<Rightarrow>
          bindE (auto_execute_mcp_steps (fuel e) e ap nxt1 w sid data) (\<lambda>(nxt2, cascade, data2).
            case cascade of
              Some err \<Rightarrow>
                seqE (update_session sid (Some nxt2) (Some data2))
                  (fail_submission e sid ses w ''cascade_error'' err)
            | None \<Rightarrow> commit_advance e ap sid ses w nxt2 data2 (response nxt2)))"

definition submit_response ::
  "string \<Rightarrow> workflow \<Rightarrow> nat \<Rightarrow> step \<Rightarrow> guardrail option \<Rightarrow> (string \<times> pyval) list
   \<Rightarrow> string \<Rightarrow> (string, string) dict \<Rightarrow> exn + pyval" where
  "submit_response sid w idx st fired extra nxt data =
     (case next_fields w nxt data of
        Inl x \<Rightarrow> Inl x
      | Inr fs \<Rightarrow>
          Inr (PDict ([(''session_id'', PStr sid), (''submitted'', PDict (step_head st))] @ extra
            @ [(''progress'', PStr (progress_text idx w '' complete''))]
            @ warning_field fired @ fs)))"

definition accept_submission ::
  "'e tool_env_scheme \<Rightarrow> app \<Rightarrow> string \<Rightarrow> session \<Rightarrow> workflow \<Rightarrow> nat \<Rightarrow> step \<Rightarrow> string \<Rightarrow> string
   \<Rightarrow> string \<Rightarrow> (string \<times> pyval) list \<Rightarrow> (world, pyval) act" where
  "accept_submission e ap sid ses w idx st step_id content br extra =
     (let data = dput step_id content (step_data ses) in
      bindE (liftE (evaluate_guardrails e (wf_guardrails w) content data
                      (step_visit_counts ses) step_id)) (\<lambda>fired.
        case fired of
          Some g \<Rightarrow>
            if gr_action g = Escalate then
              seqE (set_escalation sid (gr_id g) (gr_message g))
              (seqE (update_session sid None (Some data))
                 (fail_submission e sid ses w ''guardrail_escalate'' (guardrail_error ses g)))
            else
              bindE (liftE (choose_next ses w idx st step_id br fired)) (\<lambda>c.
                case c of
                  Inl err \<Rightarrow> retE err
                | Inr (nxt, forced) \<Rightarrow>
                    advance e ap sid ses w step_id nxt forced data
                      (submit_response sid w idx st fired extra))
        | None \<Rightarrow>
            bindE (liftE (choose_next ses w idx st step_id br fired)) (\<lambda>c.
              case c of
                Inl err \<Rightarrow> retE err
              | Inr (nxt, forced) \<Rightarrow>
                  advance e ap sid ses w step_id nxt forced data
                    (submit_response sid w idx st fired extra))))"

section \<open>Intermediate artifacts\<close>

definition find_artifact :: "artifact_def list \<Rightarrow> string \<Rightarrow> artifact_def option" where
  "find_artifact ias aid = find (\<lambda>a. art_id a = aid) ias"

definition artifact_errors :: "'e tool_env_scheme \<Rightarrow> artifact_def \<Rightarrow> string \<Rightarrow> string list" where
  "artifact_errors e a content =
     (case json_loads content of
        None \<Rightarrow> [not_json e content]
      | Some parsed \<Rightarrow> map snd (schema_errors e (art_schema a) parsed))"

text \<open>
  What follows an accepted final artifact is, in the code, a copy of what follows an accepted plain
  submission, with the artifact's id in the answer.
\<close>

definition accept_artifact_submission ::
  "'e tool_env_scheme \<Rightarrow> app \<Rightarrow> string \<Rightarrow> session \<Rightarrow> workflow \<Rightarrow> nat \<Rightarrow> step \<Rightarrow> string \<Rightarrow> string
   \<Rightarrow> string \<Rightarrow> string \<Rightarrow> (world, pyval) act" where
  "accept_artifact_submission e ap sid ses w idx st step_id content br aid =
     accept_submission e ap sid ses w idx st step_id content br [(''artifact_id'', PStr aid)]"

definition submit_artifact ::
  "'e tool_env_scheme \<Rightarrow> app \<Rightarrow> string \<Rightarrow> session \<Rightarrow> workflow \<Rightarrow> nat \<Rightarrow> step \<Rightarrow> string \<Rightarrow> string
   \<Rightarrow> string \<Rightarrow> string \<Rightarrow> (world, pyval) act" where
  "submit_artifact e ap sid ses w idx st step_id content br aid =
     (let ias = st_intermediate_artifacts st;
          expected = (''expected_artifacts'', PList (map (PStr \<circ> art_id) ias)) in
      if aid = [] then
        retE (error_response ''invalid_argument''
          ''Step has intermediate_artifacts. Must specify artifact_id.''
          [(''field'', PStr ''artifact_id''), fp_field ses, (''step_id'', PStr step_id), expected])
      else (case find_artifact ias aid of
         None \<Rightarrow>
           retE (error_response ''unknown_artifact'' (''Unknown artifact_id '' @ quoted aid)
             [fp_field ses, (''step_id'', PStr step_id), expected])
       | Some a \<Rightarrow>
           let errs = artifact_errors e a content in
           if errs \<noteq> [] then
             retE (PDict [(''status'', PStr ''validation_error''),
               (''errors'', PList (map PStr errs)), fp_field ses, (''step_id'', PStr step_id),
               (''artifact_id'', PStr aid)])
           else
             seqE (if art_checkpoint a then store_artifact sid step_id aid content else retE ())
               (if aid \<noteq> (case st_output_from st of None \<Rightarrow> [] | Some o' \<Rightarrow> o') then
                  retE (PDict [(''status'', PStr ''artifact_accepted''), (''session_id'', PStr sid),
                    (''step_id'', PStr step_id), (''artifact_id'', PStr aid),
                    (''current_step'', PStr step_id)])
                else accept_artifact_submission e ap sid ses w idx st step_id content br aid)))"

section \<open>Output schema and retries\<close>

definition max_retries_of :: "step \<Rightarrow> int" where
  "max_retries_of st =
     (case st_max_retries st of None \<Rightarrow> DEFAULT_MAX_RETRIES | Some m \<Rightarrow> m)"

definition validation_error ::
  "session \<Rightarrow> string \<Rightarrow> string list \<Rightarrow> (string \<times> pyval) list \<Rightarrow> pyval" where
  "validation_error ses step_id errs extra =
     PDict ([(''status'', PStr ''validation_error''), (''errors'', PList (map PStr errs)),
             fp_field ses, (''step_id'', PStr step_id)] @ extra)"

definition submit_output ::
  "'e tool_env_scheme \<Rightarrow> app \<Rightarrow> string \<Rightarrow> session \<Rightarrow> workflow \<Rightarrow> nat \<Rightarrow> step \<Rightarrow> string \<Rightarrow> string
   \<Rightarrow> string \<Rightarrow> (world, pyval) act" where
  "submit_output e ap sid ses w idx st step_id content br =
     (case validate_output e content st of
        None \<Rightarrow> accept_submission e ap sid ses w idx st step_id content br []
      | Some errs \<Rightarrow>
          let m = max_retries_of st in
          bindE (increment_retry sid step_id) (\<lambda>n.
            if m \<le> int n then
              fail_submission e sid ses w ''schema_violation''
                (validation_error ses step_id errs
                  [(''retries_exhausted'', PBool True),
                   (''message'', PStr (''Max retries ('' @ str_int m
                      @ '') exceeded. Workflow stalled.''))])
            else
              retE (validation_error ses step_id errs
                ((''retries_remaining'', PInt (m - int n)) #
                 (case st_validation_hint st of
                    Some h \<Rightarrow> (if h = [] then [] else [(''validation_hint'', PStr h)])
                  | None \<Rightarrow> [])))))"

section \<open>The tool\<close>

definition submit_checked ::
  "'e tool_env_scheme \<Rightarrow> app \<Rightarrow> string \<Rightarrow> string \<Rightarrow> string \<Rightarrow> string \<Rightarrow> string \<Rightarrow> session \<Rightarrow> workflow
   \<Rightarrow> (world, pyval) act" where
  "submit_checked e ap sid step_id content br aid ses w =
     (case submit_session_guard ses step_id content of
        Some err \<Rightarrow> retE err
      | None \<Rightarrow>
          bindE (getE (top_frame_for sid)) (\<lambda>fr.
            case fr of
              Some f \<Rightarrow> retE (submit_top_error e ses step_id f)
            | None \<Rightarrow>
                (case find_step w step_id of
                   None \<Rightarrow> raiseE (TypeError (''argument of type '' @ quoted ''NoneType''
                                    @ '' is not iterable''))
                 | Some (idx, st) \<Rightarrow>
                     (case st_call st of
                        Some t \<Rightarrow> retE (call_step_error ses step_id t)
                      | None \<Rightarrow>
                          if st_intermediate_artifacts st \<noteq> [] then
                            submit_artifact e ap sid ses w idx st step_id content br aid
                          else submit_output e ap sid ses w idx st step_id content br))))"

definition as_str :: "pyval \<Rightarrow> string" where
  "as_str v = (case v of PStr s \<Rightarrow> s | _ \<Rightarrow> [])"

definition submit_step ::
  "'e tool_env_scheme \<Rightarrow> app \<Rightarrow> pyval \<Rightarrow> pyval \<Rightarrow> pyval \<Rightarrow> pyval \<Rightarrow> pyval \<Rightarrow> (world, pyval) act" where
  "submit_step e ap sid step_id content br aid =
     trap_errors e ''content'' (Some (as_str sid))
       (guard_args [check_str sid ''session_id'' True, check_str step_id ''step_id'' True,
                    check_str content ''content'' False, check_str br ''branch'' False,
                    check_str aid ''artifact_id'' False]
         (with_session e ap (as_str sid)
           (submit_checked e ap (as_str sid) (as_str step_id) (as_str content)
              (as_str br) (as_str aid))))"

end
