(* ===== verification/Tools.thy ===== *)
theory Tools
  imports ToolsSubmit
begin

text \<open>
  The other tools of \<^verbatim>\<open>tools.py\<close>, one definition per tool and one per larger branch:
  listing and starting workflows, reading a session, revising, entering a sub-workflow,
  pushing and popping a digression, deleting, generating the artifact. \<open>token\<close> is the fresh
  session id of the tools that create a session.
\<close>

section \<open>list\_workflows and start\_workflow\<close>

definition workflow_item :: "string \<times> workflow \<Rightarrow> pyval" where
  "workflow_item x =
     PDict [(''name'', PStr (fst x)), (''description'', wf_description (snd x)),
            (''category'', PStr (wf_category (snd x))),
            (''steps'', PInt (int (length (wf_steps (snd x)))))]"

definition list_workflows :: "'e tool_env_scheme \<Rightarrow> app \<Rightarrow> pyval \<Rightarrow> (world, pyval) act" where
  "list_workflows e ap category =
     trap_errors e ''category'' None
       (guard_args [check_str category ''category'' False]
         (let items = map workflow_item
                (filter (\<lambda>x. as_str category = [] \<or> wf_category (snd x) = as_str category)
                   (app_workflows ap)) in
          retE (PDict [(''workflows'', PList items), (''total'', PInt (int (length items)))])))"

definition identity_py :: "identity \<Rightarrow> pyval" where
  "identity_py i =
     (case i of
        Anonymous \<Rightarrow> PDict [(''kind'', PStr ''anonymous'')]
      | Bearer subj \<Rightarrow> PDict [(''kind'', PStr ''bearer''), (''subject'', PStr subj)])"

definition listed_py :: "'e tool_env_scheme \<Rightarrow> listed_session \<Rightarrow> pyval" where
  "listed_py e l =
     PDict [(''session_id'', PStr (ls_session_id l)), (''fingerprint'', PStr (ls_fingerprint l)),
            (''owner_identity'', identity_py (ls_owner_identity l)),
            (''workflow_type'', PStr (ls_workflow_type l)),
            (''current_step'', PStr (ls_current_step l)), (''status'', PStr (ls_status l)),
            (''created_at'', PStr (isoformat e (ls_created_at l))),
            (''updated_at'', PStr (isoformat e (ls_updated_at l))),
            (''parent_session_id'', py_opt_str (ls_parent_session_id l)),
            (''stack_depth'', PInt (int (ls_stack_depth l))),
            (''under_session_id'', py_opt_str (ls_under_session_id l))]"

definition depth_breakdown_py :: "world \<Rightarrow> pyval" where
  "depth_breakdown_py s =
     PList (map (\<lambda>x. PDict [(''root_session_id'', PStr (fst x)), (''depth'', PInt (int (snd x)))])
       (depth_breakdown s))"

definition session_cap_error :: "'e tool_env_scheme \<Rightarrow> world \<Rightarrow> pyval" where
  "session_cap_error e s =
     error_response ''session_cap_exceeded''
       (''Session cap reached ('' @ str_nat (count_active s)
          @ ''/5). Delete or complete a session first.'')
       [(''active_sessions'', PList (map (listed_py e)
           (filter (\<lambda>l. ls_status l = ''active'') (list_sessions e s)))),
        (''depth_breakdown'', depth_breakdown_py s)]"

definition not_loaded_error :: "app \<Rightarrow> string \<Rightarrow> pyval" where
  "not_loaded_error ap msg =
     error_response ''workflow_not_loaded'' msg
       [(''available_types'', PList (map (PStr \<circ> fst) (app_workflows ap)))]"

definition first_step :: "workflow \<Rightarrow> exn + step" where
  "first_step w =
     (case wf_steps w of
        [] \<Rightarrow> Inl (IndexError ''list index out of range'')
      | st # _ \<Rightarrow> Inr st)"

definition start_response ::
  "string \<Rightarrow> string \<Rightarrow> workflow \<Rightarrow> string \<Rightarrow> string \<Rightarrow> (string, string) dict \<Rightarrow> exn + pyval" where
  "start_response sid wft w ctx nxt data =
     (if nxt = COMPLETE then
        Inr (PDict [(''session_id'', PStr sid), (''workflow_type'', PStr wft),
          (''status'', PStr ''workflow_complete''),
          (''message'', PStr ''All steps complete. Call generate_artifact to produce final output.''),
          (''context'', PStr ctx)])
      else (case find_step w nxt of
         None \<Rightarrow> Inl (AssertionError [])
       | Some (_, st) \<Rightarrow>
           (case directive_fields w st of
              Inl x \<Rightarrow> Inl x
            | Inr ds \<Rightarrow>
                Inr (PDict ([(''session_id'', PStr sid), (''workflow_type'', PStr wft),
                   (''current_step'', PDict (step_head st))] @ ds @ [(''context'', PStr ctx)]
                   @ directives_field st @ injected_field st data)))))"

definition start_session ::
  "'e tool_env_scheme \<Rightarrow> app \<Rightarrow> string \<Rightarrow> string \<Rightarrow> string \<Rightarrow> workflow \<Rightarrow> step \<Rightarrow> (world, pyval) act" where
  "start_session e ap token wft ctx w st =
     bindE (create_session e token wft (st_id st) None Call None None (fingerprint_for e ap wft)) (\<lambda>sid.
     bindE (increment_visit sid (st_id st)) (\<lambda>_.
     bindE (auto_execute_mcp_steps (fuel e) e ap (st_id st) w sid []) (\<lambda>(nxt, cascade, data).
       case cascade of
         Some err \<Rightarrow> seqE (update_session sid (Some nxt) (Some data)) (retE err)
       | None \<Rightarrow>
           seqE (if nxt \<noteq> st_id st then
                   seqE (update_session sid (Some nxt) (Some data))
                     (if nxt \<noteq> COMPLETE then bindE (increment_visit sid nxt) (\<lambda>_. retE ())
                      else retE ())
                 else retE ())
             (liftE (start_response sid wft w ctx nxt data)))))"

definition start_workflow ::
  "'e tool_env_scheme \<Rightarrow> app \<Rightarrow> string \<Rightarrow> pyval \<Rightarrow> pyval \<Rightarrow> (world, pyval) act" where
  "start_workflow e ap token wft ctx =
     trap_errors e ''workflow_type'' None
       (guard_args [check_str wft ''workflow_type'' True, check_str ctx ''context'' False]
         (case dget (app_workflows ap) (as_str wft) of
            None \<Rightarrow> retE (not_loaded_error ap (''Unknown workflow type: '' @ as_str wft))
          | Some w \<Rightarrow>
              bindE (getE count_active) (\<lambda>n.
                if ACTIVE_CAP \<le> n then getE (session_cap_error e)
                else bindE (liftE (first_step w)) (\<lambda>st.
                  start_session e ap token (as_str wft) (as_str ctx) w st))))"

section \<open>get\_state and get\_guidelines\<close>

definition stack_entry_py :: "stack_entry \<Rightarrow> pyval" where
  "stack_entry_py x =
     PDict [(''depth'', PInt (int (se_depth x))), (''frame_type'', frame_type_py (se_frame_type x)),
            (''session_id'', PStr (se_session_id x)),
            (''paused_at_step'', py_opt_str (se_paused_at_step x)),
            (''call_step_id'', py_opt_str (se_call_step_id x))]"

definition state_stack :: "string \<Rightarrow> world \<Rightarrow> stack_entry list" where
  "state_stack sid s =
     (case own_frame sid s of
        Some f \<Rightarrow> full_stack (root_session_id f) s
      | None \<Rightarrow> if 0 < stack_depth sid s then full_stack sid s else [])"

definition data_py :: "(string, string) dict \<Rightarrow> pyval" where
  "data_py data = PDict (map (\<lambda>x. (fst x, PStr (snd x))) data)"

text \<open>The fields of the response that depend on the current step.\<close>

definition state_head :: "string \<Rightarrow> session \<Rightarrow> workflow \<Rightarrow> (string \<times> pyval) list" where
  "state_head sid ses w =
     (let cur = find_step w (current_step ses) in
      [(''session_id'', PStr sid), (''workflow_type'', PStr (workflow_type ses)),
       (''current_step'', case cur of Some (_, st) \<Rightarrow> PDict (step_head st) | None \<Rightarrow> PNone),
       (''progress'', PStr (case cur of
           Some (i, _) \<Rightarrow> ''step '' @ str_nat (i + 1) @ '' of '' @ str_nat (length (wf_steps w))
         | None \<Rightarrow> ''unknown'')),
       (''pending_steps'', PList (case cur of
           Some (i, _) \<Rightarrow> map st_title (drop (i + 1) (wf_steps w)) | None \<Rightarrow> [])),
       (''step_data'', data_py (step_data ses))]
      @ (case cur of
           Some (_, st) \<Rightarrow> injected_field st (step_data ses) @ directives_field st
         | None \<Rightarrow> []))"

definition state_artifacts ::
  "string \<Rightarrow> session \<Rightarrow> workflow \<Rightarrow> (world, (string \<times> pyval) list) act" where
  "state_artifacts sid ses w =
     (case find_step w (current_step ses) of
        Some (_, st) \<Rightarrow>
          if st_intermediate_artifacts st \<noteq> [] then
            bindE (get_artifacts sid (st_id st)) (\<lambda>arts.
              retE (if arts = [] then [] else [(''artifact_checkpoints'', data_py arts)]))
          else retE []
      | None \<Rightarrow> retE [])"

definition get_state :: "'e tool_env_scheme \<Rightarrow> app \<Rightarrow> pyval \<Rightarrow> (world, pyval) act" where
  "get_state e ap sid =
     trap_errors e ''session_id'' (Some (as_str sid))
       (guard_args [check_str sid ''session_id'' True]
         (with_session e ap (as_str sid) (\<lambda>ses w.
           bindE (state_artifacts (as_str sid) ses w) (\<lambda>arts.
           bindE (liftE (compute_skipped_steps w (step_data ses))) (\<lambda>skipped.
           bindE (getE (top_frame_for (as_str sid))) (\<lambda>child.
           bindE (getE (state_stack (as_str sid))) (\<lambda>stack.
             retE (PDict (state_head (as_str sid) ses w @ arts
               @ (if skipped = [] then [] else [(''skipped_steps'', PList (map PStr skipped))])
               @ (case child of
                    Some f \<Rightarrow> [(''called_session'', PStr (frame_session_id f))] | None \<Rightarrow> [])
               @ [(''stack'', PList (map stack_entry_py stack))])))))))))"

definition guidelines :: "string \<Rightarrow> session \<Rightarrow> workflow \<Rightarrow> exn + pyval" where
  "guidelines sid ses w =
     (case find_step w (current_step ses) of
        None \<Rightarrow> Inl none_subscript
      | Some (_, st) \<Rightarrow>
          (case st_anti_patterns st of
             None \<Rightarrow> Inl (KeyError ''anti_patterns'')
           | Some a \<Rightarrow>
               (case st_gates st of
                  None \<Rightarrow> Inl (KeyError ''gates'')
                | Some g \<Rightarrow>
                    Inr (PDict [(''session_id'', PStr sid), (''current_step'', PDict (step_head st)),
                                (''anti_patterns'', a), (''gates'', g)]))))"

definition get_guidelines :: "'e tool_env_scheme \<Rightarrow> app \<Rightarrow> pyval \<Rightarrow> (world, pyval) act" where
  "get_guidelines e ap sid =
     trap_errors e ''session_id'' (Some (as_str sid))
       (guard_args [check_str sid ''session_id'' True]
         (with_session e ap (as_str sid) (\<lambda>ses w. liftE (guidelines (as_str sid) ses w))))"

section \<open>revise\_step\<close>

text \<open>The parent's current step, the empty string when the parent is gone.\<close>

definition parent_step :: "'e base_env_scheme \<Rightarrow> string option \<Rightarrow> world \<Rightarrow> string" where
  "parent_step e parent s =
     (case parent of
        None \<Rightarrow> []
      | Some p \<Rightarrow>
          (case get_session e p s of (Inr ses, _) \<Rightarrow> current_step ses | (Inl _, _) \<Rightarrow> []))"

definition parent_owned_error ::
  "'e base_env_scheme \<Rightarrow> string \<Rightarrow> string \<Rightarrow> frame \<Rightarrow> world \<Rightarrow> pyval" where
  "parent_owned_error e fp sid own s =
     (let parent = parent_of sid s;
          pfp = map_option (compute_fingerprint e) parent;
          cur = parent_step e parent s in
      error_response ''sub_workflow_parent_owned''
        (''child session fingerprint '' @ quoted fp @ '' is owned by parent fingerprint ''
           @ quoted (case pfp of None \<Rightarrow> ''None'' | Some x \<Rightarrow> x) @ '' at step '' @ quoted cur
           @ ''. Revise the parent's step to unlink.'')
        [(''session_fingerprint'', PStr fp), (''parent_session_fingerprint'', py_opt_str pfp),
         (''call_step_id'', PStr cur), (''frame_type'', frame_type_py (frame_type own))])"

text \<open>Deleting the child above a revised call-step; a child already gone is passed over.\<close>

definition drop_child :: "'e tool_env_scheme \<Rightarrow> string \<Rightarrow> string \<Rightarrow> (world, unit) act" where
  "drop_child e sid child =
     seqE (catchE (bindE (delete_session e child) (\<lambda>_. retE ()))
             (\<lambda>x. if x = SessionNotFoundError then retE () else raiseE x))
       (set_called_session sid None None)"

definition revise_response ::
  "string \<Rightarrow> workflow \<Rightarrow> step \<Rightarrow> string \<Rightarrow> string list \<Rightarrow> string option \<Rightarrow> exn + pyval" where
  "revise_response sid w st previous after dropped =
     (case directive_fields w st of
        Inl x \<Rightarrow> Inl x
      | Inr ds \<Rightarrow>
          Inr (PDict ([(''session_id'', PStr sid), (''revised_step'', PDict (step_head st)),
             (''previous_content'', PStr previous),
             (''invalidated_steps'', PList (map PStr after))] @ ds
             @ (case dropped of Some c \<Rightarrow> [(''retained_child_deleted'', PStr c)] | None \<Rightarrow> []))))"

definition apply_revision ::
  "'e tool_env_scheme \<Rightarrow> string \<Rightarrow> session \<Rightarrow> workflow \<Rightarrow> nat \<Rightarrow> step \<Rightarrow> string \<Rightarrow> frame option
   \<Rightarrow> (world, pyval) act" where
  "apply_revision e sid ses w idx st step_id child =
     (let after = map st_id (drop (idx + 1) (wf_steps w));
          is_call = (st_call st \<noteq> None);
          dropped = (if is_call then map_option frame_session_id child else None) in
      seqE (invalidate_steps_after sid after)
      (seqE (if is_call then
               seqE (case dropped of Some c \<Rightarrow> drop_child e sid c | None \<Rightarrow> retE ())
                 (clear_step_data_key sid step_id)
             else retE ())
      (seqE (update_session sid (Some step_id) None)
         (liftE (revise_response sid w st (dget_or (step_data ses) step_id []) after dropped)))))"

definition revise_checked ::
  "'e tool_env_scheme \<Rightarrow> string \<Rightarrow> string \<Rightarrow> session \<Rightarrow> workflow \<Rightarrow> (world, pyval) act" where
  "revise_checked e sid step_id ses w =
     bindE (getE (own_frame sid)) (\<lambda>own.
       case own of
         Some f \<Rightarrow> getE (parent_owned_error e (fingerprint ses) sid f)
       | None \<Rightarrow>
           (case find_step w step_id of
              None \<Rightarrow>
                retE (error_response ''invalid_argument''
                  (''Step '' @ quoted step_id @ '' not found in workflow'')
                  [(''field'', PStr ''step_id''), fp_field ses])
            | Some (idx, st) \<Rightarrow>
                bindE (getE (top_frame_for sid)) (\<lambda>child.
                  if \<not> dhas (step_data ses) step_id \<and> \<not> (st_call st \<noteq> None \<and> child \<noteq> None) then
                    retE (error_response ''invalid_argument''
                      (''Step '' @ quoted step_id @ '' has not been completed yet'')
                      [(''field'', PStr ''step_id''), fp_field ses])
                  else apply_revision e sid ses w idx st step_id child)))"

definition revise_step :: "'e tool_env_scheme \<Rightarrow> app \<Rightarrow> pyval \<Rightarrow> pyval \<Rightarrow> (world, pyval) act" where
  "revise_step e ap sid step_id =
     trap_errors e ''step_id'' (Some (as_str sid))
       (guard_args [check_str sid ''session_id'' True, check_str step_id ''step_id'' True]
         (with_session e ap (as_str sid) (revise_checked e (as_str sid) (as_str step_id))))"

section \<open>enter\_sub\_workflow\<close>

text \<open>\<open>extracted is _REF_ABSENT or extracted is None\<close> is \<open>Inr None\<close>.\<close>

definition child_context :: "step \<Rightarrow> (string, string) dict \<Rightarrow> string \<Rightarrow> exn + string option" where
  "child_context st data csid =
     (case st_call_context_from st of
        None \<Rightarrow> Inr (Some [])
      | Some ccf \<Rightarrow>
          if ccf = [] then Inr (Some [])
          else (case resolve_ref ccf data [] csid of
             Inl x \<Rightarrow> Inl x
           | Inr None \<Rightarrow> Inr None
           | Inr (Some v) \<Rightarrow>
               Inr (case v of PNone \<Rightarrow> None | PStr s \<Rightarrow> Some s | _ \<Rightarrow> Some (json_dumps v))))"

definition child_response ::
  "workflow \<Rightarrow> step \<Rightarrow> (string \<times> pyval) list \<Rightarrow> (string \<times> pyval) list \<Rightarrow> exn + pyval" where
  "child_response w st pre post =
     (case directive_fields w st of
        Inl x \<Rightarrow> Inl x
      | Inr ds \<Rightarrow>
          Inr (PDict (pre @ [(''current_step'', PDict (step_head st))] @ ds @ post
                 @ directives_field st)))"

definition enter_child ::
  "'e tool_env_scheme \<Rightarrow> app \<Rightarrow> string \<Rightarrow> string \<Rightarrow> string \<Rightarrow> string \<Rightarrow> workflow \<Rightarrow> string
   \<Rightarrow> (world, pyval) act" where
  "enter_child e ap token psid csid target child_wf ctx =
     bindE (liftE (first_step child_wf)) (\<lambda>st.
     bindE (create_session e token target (st_id st) (Some psid) Call None None
              (fingerprint_for e ap target)) (\<lambda>child.
     bindE (increment_visit child (st_id st)) (\<lambda>_.
     seqE (set_called_session psid (Some child) (Some csid))
       (liftE (child_response child_wf st
          [(''session_id'', PStr child), (''workflow_type'', PStr target)]
          [(''context'', PStr ctx), (''parent_session_id'', PStr psid)])))))"

definition enter_call_step ::
  "'e tool_env_scheme \<Rightarrow> app \<Rightarrow> string \<Rightarrow> string \<Rightarrow> string \<Rightarrow> session \<Rightarrow> step \<Rightarrow> string
   \<Rightarrow> (world, pyval) act" where
  "enter_call_step e ap token psid csid ses st target =
     bindE (getE (top_frame_for psid)) (\<lambda>pending.
       case pending of
         Some f \<Rightarrow>
           retE (error_response ''sub_workflow_pending''
             ''a child session is already in flight for this call-step''
             [(''child_session_fingerprint'', PStr (compute_fingerprint e (frame_session_id f))),
              (''parent_session_fingerprint'', PStr (fingerprint ses)),
              (''call_step_id'', PStr csid), (''frame_type'', frame_type_py (frame_type f))])
       | None \<Rightarrow>
           (case dget (app_workflows ap) target of
              None \<Rightarrow>
                retE (not_loaded_error ap (''target workflow '' @ quoted target @ '' not loaded''))
            | Some child_wf \<Rightarrow>
                bindE (liftE (child_context st (step_data ses) csid)) (\<lambda>ctx.
                  case ctx of
                    None \<Rightarrow>
                      retE (error_response ''invalid_argument''
                        (''call_context_from '' @ quoted (case st_call_context_from st of
                             None \<Rightarrow> [] | Some c \<Rightarrow> c)
                           @ '' did not resolve in parent step_data'')
                        [(''field'', PStr ''call_context_from''), fp_field ses])
                  | Some c \<Rightarrow> enter_child e ap token psid csid target child_wf c)))"

definition enter_checked ::
  "'e tool_env_scheme \<Rightarrow> app \<Rightarrow> string \<Rightarrow> string \<Rightarrow> string \<Rightarrow> session \<Rightarrow> workflow
   \<Rightarrow> (world, pyval) act" where
  "enter_checked e ap token psid csid ses w =
     (if current_step ses = COMPLETE then
        retE (error_response ''workflow_complete'' ''Parent workflow already complete.''
          [fp_field ses])
      else (case escalation ses of
         Some esc \<Rightarrow>
           retE (escalated_error ses esc
             ''Parent session is escalated. Resolve the escalation before continuing.'')
       | None \<Rightarrow>
           if current_step ses \<noteq> csid then
             retE (out_of_order_error ses
               (''parent current_step is '' @ quoted (current_step ses) @ '', not '' @ quoted csid)
               csid)
           else (case find_step w csid of
              Some (_, st) \<Rightarrow>
                (case st_call st of
                   Some target \<Rightarrow> enter_call_step e ap token psid csid ses st target
                 | None \<Rightarrow> retE (error_response ''invalid_argument''
                     (''parent step '' @ quoted csid @ '' has no `call` field'')
                     [(''field'', PStr ''call_step_id''), fp_field ses]))
            | None \<Rightarrow> retE (error_response ''invalid_argument''
                (''parent step '' @ quoted csid @ '' has no `call` field'')
                [(''field'', PStr ''call_step_id''), fp_field ses]))))"

definition enter_sub_workflow ::
  "'e tool_env_scheme \<Rightarrow> app \<Rightarrow> string \<Rightarrow> pyval \<Rightarrow> pyval \<Rightarrow> (world, pyval) act" where
  "enter_sub_workflow e ap token psid csid =
     trap_errors e ''parent_session_id'' None
       (guard_args [check_str psid ''parent_session_id'' True, check_str csid ''call_step_id'' True]
         (with_session e ap (as_str psid)
           (enter_checked e ap token (as_str psid) (as_str csid))))"

section \<open>push\_flow and pop\_flow\<close>

definition stack_full_error ::
  "'e base_env_scheme \<Rightarrow> string \<Rightarrow> nat \<Rightarrow> nat \<Rightarrow> string \<Rightarrow> world \<Rightarrow> pyval" where
  "stack_full_error e root current m tail s =
     error_response ''session_stack_full''
       (''session stack full: depth '' @ str_nat current @ '' at max '' @ str_nat m
          @ '' for root fingerprint '' @ quoted (compute_fingerprint e root) @ tail)
       [(''current_depth'', PInt (int current)), (''max_depth'', PInt (int m)),
        (''root_session_fingerprint'', PStr (compute_fingerprint e root)),
        (''depth_breakdown'', depth_breakdown_py s)]"

definition push_response ::
  "string \<Rightarrow> string \<Rightarrow> string \<Rightarrow> string \<Rightarrow> string \<Rightarrow> workflow \<Rightarrow> step \<Rightarrow> nat \<Rightarrow> exn + pyval" where
  "push_response sid child wft paused ctx child_wf st n =
     child_response child_wf st
       [(''session_id'', PStr child), (''workflow_type'', PStr wft), (''frame_depth'', PInt (int n))]
       [(''context'', PStr ctx), (''parent_session_id'', PStr sid), (''paused_at_step'', PStr paused)]"

text \<open>The spawn: \<open>StackFull\<close> out of \<open>create_session\<close> becomes an error response.\<close>

definition push_child ::
  "'e tool_env_scheme \<Rightarrow> app \<Rightarrow> string \<Rightarrow> string \<Rightarrow> string \<Rightarrow> string \<Rightarrow> string \<Rightarrow> workflow
   \<Rightarrow> (world, pyval) act" where
  "push_child e ap token sid wft paused ctx child_wf =
     bindE (liftE (first_step child_wf)) (\<lambda>st.
     bindE (catchE
         (bindE (create_session e token wft (st_id st) (Some sid) Digression (Some paused)
                   (Some max_stack_depth) (fingerprint_for e ap wft)) (\<lambda>c. retE (Inr c)))
         (\<lambda>x. case x of
            StackFull root current m \<Rightarrow>
              getE (\<lambda>s. Inl (stack_full_error e root current m
                ''. Lost the race; resolve a frame and retry.'' s))
          | _ \<Rightarrow> raiseE x)) (\<lambda>r.
       case r of
         Inl err \<Rightarrow> retE err
       | Inr child \<Rightarrow>
           bindE (increment_visit child (st_id st)) (\<lambda>_.
           bindE (getE (own_frame child)) (\<lambda>own.
             case own of
               None \<Rightarrow> raiseE none_subscript
             | Some f \<Rightarrow>
                 bindE (getE (stack_depth (root_session_id f))) (\<lambda>n.
                   liftE (push_response sid child wft paused ctx child_wf st n))))))"

definition push_checked ::
  "'e tool_env_scheme \<Rightarrow> app \<Rightarrow> string \<Rightarrow> string \<Rightarrow> string \<Rightarrow> string \<Rightarrow> string \<Rightarrow> session
   \<Rightarrow> (world, pyval) act" where
  "push_checked e ap token sid wft paused ctx ses =
     bindE (getE (top_frame_for sid)) (\<lambda>pending.
       case pending of
         Some f \<Rightarrow>
           retE (pending_error e ses
             (''a child session (fingerprint ''
                @ quoted (compute_fingerprint e (frame_session_id f))
                @ '') is already in flight above session fingerprint '' @ quoted (fingerprint ses)
                @ ''. Resolve it before pushing another digression.'') paused f)
       | None \<Rightarrow>
           (case dget (app_workflows ap) wft of
              None \<Rightarrow> retE (not_loaded_error ap (''Unknown workflow type: '' @ wft))
            | Some child_wf \<Rightarrow>
                bindE (getE (own_frame sid)) (\<lambda>own.
                let root = (case own of Some f \<Rightarrow> root_session_id f | None \<Rightarrow> sid) in
                bindE (getE (stack_depth root)) (\<lambda>n.
                  if max_stack_depth \<le> n then
                    getE (stack_full_error e root n max_stack_depth
                      ''. Resolve a frame before pushing again.'')
                  else bindE (getE count_active) (\<lambda>a.
                    if ACTIVE_CAP \<le> a then getE (session_cap_error e)
                    else push_child e ap token sid wft paused ctx child_wf)))))"

definition push_guarded ::
  "'e tool_env_scheme \<Rightarrow> app \<Rightarrow> string \<Rightarrow> string \<Rightarrow> string \<Rightarrow> string \<Rightarrow> string \<Rightarrow> session \<Rightarrow> workflow
   \<Rightarrow> (world, pyval) act" where
  "push_guarded e ap token sid wft paused ctx ses w =
     (if current_step ses = COMPLETE then
        retE (error_response ''workflow_complete''
          ''Outer workflow already complete - cannot push a digression.'' [fp_field ses])
      else (case escalation ses of
         Some esc \<Rightarrow>
           retE (escalated_error ses esc
             ''Outer session is escalated. Resolve the escalation before pushing a digression.'')
       | None \<Rightarrow>
           if current_step ses \<noteq> paused then
             retE (out_of_order_error ses
               (''outer current_step is '' @ quoted (current_step ses) @ '', not '' @ quoted paused)
               paused)
           else push_checked e ap token sid wft paused ctx ses))"

definition push_flow ::
  "'e tool_env_scheme \<Rightarrow> app \<Rightarrow> string \<Rightarrow> pyval \<Rightarrow> pyval \<Rightarrow> pyval \<Rightarrow> pyval \<Rightarrow> (world, pyval) act" where
  "push_flow e ap token sid wft paused ctx =
     trap_errors e ''session_id'' (Some (as_str sid))
       (guard_args [check_str sid ''session_id'' True, check_str wft ''workflow_type'' True,
                    check_str paused ''paused_at_step'' True, check_str ctx ''context'' False]
         (with_session e ap (as_str sid)
           (push_guarded e ap token (as_str sid) (as_str wft) (as_str paused) (as_str ctx))))"

definition pop_checked ::
  "'e tool_env_scheme \<Rightarrow> app \<Rightarrow> string \<Rightarrow> session \<Rightarrow> workflow \<Rightarrow> (world, pyval) act" where
  "pop_checked e ap sid ses w =
     (case escalation ses of
        Some esc \<Rightarrow>
          retE (escalated_error ses esc
            ''Session is escalated. Resolve the escalation before popping.'')
      | None \<Rightarrow>
          bindE (getE (own_frame sid)) (\<lambda>own.
            case own of
              None \<Rightarrow>
                retE (error_response ''no_frame_to_pop''
                  (''session fingerprint '' @ quoted (fingerprint ses)
                     @ '' has no stack frame to pop.'') [fp_field ses])
            | Some f \<Rightarrow>
                (case frame_type f of
                   Call \<Rightarrow>
                     retE (error_response ''frame_type_not_poppable''
                       (''session fingerprint '' @ quoted (fingerprint ses)
                          @ '' is a call-frame; call-frames are author-resumed. ''
                          @ ''Use revise_step on the parent's call-step to abandon.'')
                       [fp_field ses, (''frame_type'', PStr ''call'')])
                 | Digression \<Rightarrow> resume_parent_after_digression e ap (session_id ses))))"

definition pop_flow :: "'e tool_env_scheme \<Rightarrow> app \<Rightarrow> pyval \<Rightarrow> (world, pyval) act" where
  "pop_flow e ap sid =
     trap_errors e ''session_id'' (Some (as_str sid))
       (guard_args [check_str sid ''session_id'' True]
         (with_session e ap (as_str sid) (pop_checked e ap (as_str sid))))"

section \<open>list\_sessions and delete\_session\<close>

definition list_sessions_tool :: "'e tool_env_scheme \<Rightarrow> (world, pyval) act" where
  "list_sessions_tool e =
     trap_errors e ''unknown'' None
       (getE (\<lambda>s. PDict [(''sessions'', PList (map (listed_py e) (list_sessions e s)))]))"

definition delete_response :: "session \<Rightarrow> pyval" where
  "delete_response ses =
     PDict [(''session_id'', PStr (session_id ses)), (''workflow_type'', PStr (workflow_type ses)),
            (''current_step'', PStr (current_step ses)),
            (''completed'', PBool (current_step ses = COMPLETE))]"

text \<open>\<open>Some ses\<close>: the session is there and the caller does not own it.\<close>

definition foreign_session :: "'e base_env_scheme \<Rightarrow> app \<Rightarrow> string \<Rightarrow> world \<Rightarrow> session option" where
  "foreign_session e ap sid s =
     (case get_session e sid s of
        (Inr ses, _) \<Rightarrow> if app_caller ap \<noteq> owner_identity ses then Some ses else None
      | (Inl _, _) \<Rightarrow> None)"

definition delete_checked :: "'e tool_env_scheme \<Rightarrow> app \<Rightarrow> string \<Rightarrow> (world, pyval) act" where
  "delete_checked e ap sid =
     bindE (getE (foreign_session e ap sid)) (\<lambda>foreign.
       case foreign of
         Some ses \<Rightarrow>
           retE (error_response ''cross_session_access_denied''
             (''caller identity does not own session '' @ fingerprint ses) [fp_field ses])
       | None \<Rightarrow>
           bindE (getE (own_frame sid)) (\<lambda>own.
             case own of
               Some f \<Rightarrow> getE (parent_owned_error e (compute_fingerprint e sid) sid f)
             | None \<Rightarrow>
                 catchE (bindE (delete_session e sid) (\<lambda>ses. retE (delete_response ses)))
                   (\<lambda>x. if x = SessionNotFoundError then
                           retE (error_response ''session_not_found'' ''session not found''
                             [(''session_fingerprint'', PStr (compute_fingerprint e sid))])
                         else raiseE x)))"

definition delete_session_tool :: "'e tool_env_scheme \<Rightarrow> app \<Rightarrow> pyval \<Rightarrow> (world, pyval) act" where
  "delete_session_tool e ap sid =
     trap_errors e ''session_id'' (Some (as_str sid))
       (guard_args [check_str sid ''session_id'' True] (delete_checked e ap (as_str sid)))"

section \<open>generate\_artifact\<close>

definition artifact_of :: "workflow \<Rightarrow> (string, string) dict \<Rightarrow> string \<Rightarrow> exn + pyval" where
  "artifact_of w data fmt =
     (if fmt = ''auto'' then
        (if wf_steps w = [] then Inl (IndexError ''list index out of range'')
         else Inr (PStr (dget_or data (st_id (last (wf_steps w))) [])))
      else if fmt = ''structured_code'' then
        Inr (PList (map (\<lambda>st. PDict [(''step_id'', PStr (st_id st)), (''title'', st_title st),
               (''content'', PStr (dget_or data (st_id st) []))]) (wf_steps w)))
      else Inr (PStr (join [CHR 0x0A, CHR 0x0A]
                        (map (\<lambda>st. dget_or data (st_id st) []) (wf_steps w)))))"

definition artifact_size :: "pyval \<Rightarrow> nat" where
  "artifact_size a = (case a of PStr s \<Rightarrow> utf8_len s | _ \<Rightarrow> utf8_len (json_dumps a))"

definition remaining_titles :: "session \<Rightarrow> workflow \<Rightarrow> pyval list" where
  "remaining_titles ses w =
     map st_title (case find_step w (current_step ses) of
        Some (i, _) \<Rightarrow> drop i (wf_steps w)
      | None \<Rightarrow> drop (length (wf_steps w) - 1) (wf_steps w))"

definition artifact_response :: "string \<Rightarrow> session \<Rightarrow> workflow \<Rightarrow> string \<Rightarrow> exn + pyval" where
  "artifact_response sid ses w fmt =
     (if current_step ses \<noteq> COMPLETE then
        Inr (error_response ''invalid_argument'' ''Workflow not complete. Finish all steps first.''
          [(''field'', PStr ''session_state''), fp_field ses,
           (''remaining_steps'', PList (remaining_titles ses w))])
      else (case artifact_of w (step_data ses) fmt of
         Inl x \<Rightarrow> Inl x
       | Inr a \<Rightarrow>
           if ARTIFACT_MAX < artifact_size a then
             Inr (error_response ''oversize_payload''
               (''artifact exceeds '' @ str_nat ARTIFACT_MAX @ '' bytes (''
                  @ str_nat (artifact_size a) @ '' bytes serialized)'')
               [(''field'', PStr ''artifact''), (''max_bytes'', PInt (int ARTIFACT_MAX)),
                (''actual_bytes'', PInt (int (artifact_size a))), fp_field ses])
           else
             Inr (PDict [(''session_id'', PStr sid), (''workflow_type'', PStr (workflow_type ses)),
               (''output_format'', PStr fmt), (''artifact'', a)])))"

definition generate_artifact :: "'e tool_env_scheme \<Rightarrow> app \<Rightarrow> pyval \<Rightarrow> pyval \<Rightarrow> (world, pyval) act" where
  "generate_artifact e ap sid fmt =
     trap_errors e ''session_id'' (Some (as_str sid))
       (guard_args [check_str sid ''session_id'' True, check_str fmt ''output_format'' False]
         (with_session e ap (as_str sid)
           (\<lambda>ses w. liftE (artifact_response (as_str sid) ses w (as_str fmt)))))"

end
