(* ===== verification/SessionProps.thy ===== *)
theory SessionProps
  imports SessionStore "HOL-Library.Multiset"
begin

text \<open>
  Lemmas of the session store: the row and frame queries after an update or a deletion, the
  contract of the read-modify-write functions as a locale interpreted on each of them, the
  invariant of the two tables, and what the multi-row operations (eviction, expiry, frame
  navigation) guarantee.
\<close>

section \<open>Queries after updates\<close>

lemma find_row_id: "find_row sid d = Some r \<Longrightarrow> session_id r = sid"
  by (auto simp: find_row_def find_Some_iff)

lemma find_row_mem: "find_row sid d = Some r \<Longrightarrow> r \<in> set (sessions d)"
  by (auto simp: find_row_def find_Some_iff)

lemma find_row_None: "find_row sid d = None \<longleftrightarrow> sid \<notin> session_id ` set (sessions d)"
  by (auto simp: find_row_def find_None_iff)

lemma find_frame_id: "find_frame sid d = Some f \<Longrightarrow> frame_session_id f = sid"
  by (auto simp: find_frame_def find_Some_iff)

lemma find_frame_mem: "find_frame sid d = Some f \<Longrightarrow> f \<in> set (session_stack d)"
  by (auto simp: find_frame_def find_Some_iff)

lemma find_frame_None: "find_frame sid d = None \<longleftrightarrow> sid \<notin> frame_session_id ` set (session_stack d)"
  by (auto simp: find_frame_def find_None_iff)

lemma find_map_upd:
  assumes "\<And>r. k r = y \<Longrightarrow> k (g r) = y"
  shows "find (\<lambda>r. k r = x) (map (\<lambda>r. if k r = y then g r else r) rs) =
         (if x = y then map_option g (find (\<lambda>r. k r = x) rs) else find (\<lambda>r. k r = x) rs)"
  using assms by (induction rs) auto

lemma find_row_upd_row:
  assumes "\<And>r. session_id r = sid \<Longrightarrow> session_id (g r) = sid"
  shows "find_row x (upd_row sid g d) =
         (if x = sid then map_option g (find_row x d) else find_row x d)"
  unfolding find_row_def upd_row_def using assms by (simp add: find_map_upd [where y = sid])

lemma upd_row_more [simp]:
  "session_stack (upd_row sid g d) = session_stack d" "clock (upd_row sid g d) = clock d"
  "db.more (upd_row sid g d) = db.more d"
  by (simp_all add: upd_row_def)

lemma find_frame_upd_row [simp]:
  "find_frame x (upd_row sid g d) = find_frame x d"
  "frames_of x (upd_row sid g d) = frames_of x d"
  "frame_at x n (upd_row sid g d) = frame_at x n d"
  by (simp_all add: find_frame_def frames_of_def frame_at_def)

lemma length_upd_row [simp]: "length (sessions (upd_row sid g d)) = length (sessions d)"
  by (simp add: upd_row_def)

lemma child_position_upd_row [simp]: "child_position x (upd_row sid g d) = child_position x d"
  by (simp add: child_position_def)

lemma stack_queries_upd_row [simp]:
  "top_frame_for x (upd_row sid g d) = top_frame_for x d"
  "parent_of x (upd_row sid g d) = parent_of x d"
  "own_frame x (upd_row sid g d) = own_frame x d"
  "stack_depth x (upd_row sid g d) = stack_depth x d"
  by (simp_all add: top_frame_for_def parent_of_def own_frame_def stack_depth_def
       split: option.splits if_splits)

lemma same_stack:
  assumes "session_stack d' = session_stack d"
  shows "find_frame x d' = find_frame x d" and "frame_at x n d' = frame_at x n d"
    and "frames_of x d' = frames_of x d" and "child_position x d' = child_position x d"
    and "top_frame_for x d' = top_frame_for x d" and "parent_of x d' = parent_of x d"
    and "own_frame x d' = own_frame x d" and "stack_depth x d' = stack_depth x d"
proof -
  have f: "find_frame y d' = find_frame y d" "frame_at y m d' = frame_at y m d"
    "frames_of y d' = frames_of y d" for y m
    using assms by (simp_all add: find_frame_def frame_at_def frames_of_def)
  then have c: "child_position y d' = child_position y d" for y by (simp add: child_position_def)
  show "find_frame x d' = find_frame x d" and "frame_at x n d' = frame_at x n d"
    and "frames_of x d' = frames_of x d" and "child_position x d' = child_position x d"
    by (fact f c)+
  show "top_frame_for x d' = top_frame_for x d" and "parent_of x d' = parent_of x d"
    and "own_frame x d' = own_frame x d" and "stack_depth x d' = stack_depth x d"
    by (simp_all only: top_frame_for_def parent_of_def own_frame_def stack_depth_def f c)
qed

lemma upd_row_same_id:
  assumes "\<And>r. session_id r = sid \<Longrightarrow> session_id (g r) = sid"
  shows "map session_id (sessions (upd_row sid g d)) = map session_id (sessions d)"
  using assms by (simp add: upd_row_def)

lemma sessions_del_rows:
  "sessions (del_rows sids d) = filter (\<lambda>r. session_id r \<notin> set sids) (sessions d)"
  by (simp add: del_rows_def)

lemma stack_del_rows:
  "session_stack (del_rows sids d) =
   filter (\<lambda>f. frame_session_id f \<notin> set sids) (session_stack d)"
  by (simp add: del_rows_def)

lemma del_rows_more [simp]: "clock (del_rows sids d) = clock d" "db.more (del_rows sids d) = db.more d"
  by (simp_all add: del_rows_def)

lemma find_filter_key:
  "find (\<lambda>r. k r = x) (filter (\<lambda>r. k r \<notin> A) rs) =
   (if x \<in> A then None else find (\<lambda>r. k r = x) rs)"
  by (induction rs) auto

lemma find_row_del_rows [simp]:
  "find_row x (del_rows sids d) = (if x \<in> set sids then None else find_row x d)"
  unfolding find_row_def sessions_del_rows by (rule find_filter_key)

lemma find_frame_del_rows [simp]:
  "find_frame x (del_rows sids d) = (if x \<in> set sids then None else find_frame x d)"
  unfolding find_frame_def stack_del_rows by (rule find_filter_key)

section \<open>Read-modify-write\<close>

lemma rmw_ok [act_simps]:
  "find_row sid d = Some r \<Longrightarrow>
   rmw sid g d = (Inr (snd (g r)), upd_row sid (\<lambda>_. (fst (g r))\<lparr>updated_at := clock d\<rparr>) d)"
  by (simp add: rmw_def transaction_def)

lemma rmw_missing [act_simps]: "find_row sid d = None \<Longrightarrow> rmw sid g d = (Inl SessionNotFoundError, d)"
  by (simp add: rmw_def transaction_def)

text \<open>
  The columns no operation writes after the insert. The update functions differ in the column
  they change and the value they return; a client needs of each that it fails without the row,
  changes the row as told, stamps it, and touches nothing else.
\<close>

definition same_identity :: "session_row \<Rightarrow> session_row \<Rightarrow> bool" where
  "same_identity r r' \<longleftrightarrow>
     session_id r' = session_id r \<and> workflow_type r' = workflow_type r \<and>
     created_at r' = created_at r \<and> parent_session_id r' = parent_session_id r \<and>
     workflow_fingerprint r' = workflow_fingerprint r"

locale row_update =
  fixes op :: "string \<Rightarrow> ('a db_scheme, 'b) act"
    and change :: "nat \<Rightarrow> session_row \<Rightarrow> session_row"
    and result :: "session_row \<Rightarrow> 'b"
  assumes missing: "find_row (normalize_session_id sid) d = None \<Longrightarrow>
                    op sid d = (Inl SessionNotFoundError, d)"
    and present: "find_row (normalize_session_id sid) d = Some r \<Longrightarrow>
                  op sid d = (Inr (result r), upd_row (normalize_session_id sid)
                                (\<lambda>_. (change (clock d) r)\<lparr>updated_at := clock d\<rparr>) d)"
    and identity: "same_identity r (change t r)"
begin

lemma change_id: "session_id (change t r) = session_id r"
  using identity by (simp add: same_identity_def)

lemma row_after:
  assumes "find_row (normalize_session_id sid) d = Some r"
  shows "find_row x (snd (op sid d)) =
         (if x = normalize_session_id sid then Some ((change (clock d) r)\<lparr>updated_at := clock d\<rparr>)
          else find_row x d)"
  using assms find_row_id [OF assms] change_id [of "clock d" r]
  by (simp add: present find_row_upd_row)

lemma others_kept: "x \<noteq> normalize_session_id sid \<Longrightarrow> find_row x (snd (op sid d)) = find_row x d"
  using row_after missing by (cases "find_row (normalize_session_id sid) d") auto

lemma stack_kept: "session_stack (snd (op sid d)) = session_stack d"
  using missing present by (cases "find_row (normalize_session_id sid) d") auto

lemma ids_kept: "map session_id (sessions (snd (op sid d))) = map session_id (sessions d)"
proof (cases "find_row (normalize_session_id sid) d")
  case (Some r)
  then show ?thesis
    using find_row_id [OF Some] change_id [of "clock d" r]
    by (auto simp: present intro: upd_row_same_id)
qed (simp add: missing)

lemma identity_kept:
  assumes "find_row x d = Some r"
  shows "\<exists>r'. find_row x (snd (op sid d)) = Some r' \<and> same_identity r r'"
proof (cases "x = normalize_session_id sid")
  case True
  then show ?thesis
    using assms row_after [of sid d r] identity [of r "clock d"] by (auto simp: same_identity_def)
next
  case False
  then show ?thesis using assms by (simp add: others_kept same_identity_def)
qed

end

lemma same_identity_upd:
  "same_identity r (r\<lparr>step_data := x\<rparr>)" "same_identity r (r\<lparr>retry_counts := c\<rparr>)"
  "same_identity r (r\<lparr>step_visit_counts := c\<rparr>)" "same_identity r (r\<lparr>escalation := esc\<rparr>)"
  "same_identity r (r\<lparr>artifact_checkpoints := a\<rparr>)" "same_identity r (r\<lparr>current_step := s\<rparr>)"
  "same_identity r (r\<lparr>current_step := s, completed_at := t\<rparr>)"
  "same_identity r (r\<lparr>current_step := s, step_data := x\<rparr>)"
  "same_identity r (r\<lparr>current_step := s, completed_at := t, step_data := x\<rparr>)"
  "same_identity r r"
  by (simp_all add: same_identity_def)

interpretation retry: row_update "\<lambda>sid. increment_retry sid k"
  "\<lambda>t r. r\<lparr>retry_counts := dput k (dget_or (retry_counts r) k 0 + 1) (retry_counts r)\<rparr>"
  "\<lambda>r. dget_or (retry_counts r) k 0 + 1" for k
  by unfold_locales
    (simp_all add: increment_retry_def act_simps Let_def same_identity_upd)

interpretation visit: row_update "\<lambda>sid. increment_visit sid k"
  "\<lambda>t r. r\<lparr>step_visit_counts := dput k (dget_or (step_visit_counts r) k 0 + 1) (step_visit_counts r)\<rparr>"
  "\<lambda>r. dget_or (step_visit_counts r) k 0 + 1" for k
  by unfold_locales
    (simp_all add: increment_visit_def act_simps Let_def same_identity_upd)

interpretation escalate: row_update "\<lambda>sid. set_escalation sid g m"
  "\<lambda>t r. r\<lparr>escalation := Some (g, m)\<rparr>" "\<lambda>_. ()" for g m
  by unfold_locales (simp_all add: set_escalation_def act_simps same_identity_upd)

interpretation invalidate: row_update "\<lambda>sid. invalidate_steps_after sid ks"
  "\<lambda>t r. r\<lparr>step_data := ddels ks (step_data r)\<rparr>" "\<lambda>_. ()" for ks
  by unfold_locales (simp_all add: invalidate_steps_after_def act_simps same_identity_upd)

interpretation clear_key: row_update "\<lambda>sid. clear_step_data_key sid k"
  "\<lambda>t r. r\<lparr>step_data := ddel k (step_data r)\<rparr>" "\<lambda>_. ()" for k
  by unfold_locales (simp_all add: clear_step_data_key_def act_simps same_identity_upd)

interpretation store: row_update "\<lambda>sid. store_artifact sid k a c"
  "\<lambda>t r. r\<lparr>artifact_checkpoints := dput k (dput a c (dget_or (artifact_checkpoints r) k []))
             (artifact_checkpoints r)\<rparr>" "\<lambda>_. ()" for k a c
  by unfold_locales (simp_all add: store_artifact_def act_simps same_identity_upd)

text \<open>What \<open>update_session\<close> writes.\<close>

definition written ::
  "string option \<Rightarrow> (string, string) dict option \<Rightarrow> nat \<Rightarrow> session_row \<Rightarrow> session_row" where
  "written cur data t r =
     (let r1 = (case cur of
            None \<Rightarrow> r
          | Some c \<Rightarrow> if c = COMPLETE then r\<lparr>current_step := c, completed_at := Some t\<rparr>
                      else r\<lparr>current_step := c\<rparr>) in
      case data of None \<Rightarrow> r1 | Some x \<Rightarrow> r1\<lparr>step_data := x\<rparr>)"

lemma same_identity_written: "same_identity r (written cur data t r)"
  by (auto simp: written_def same_identity_def Let_def split: option.splits)

lemma upd_row_cong_found:
  assumes "find_row sid d = Some r" and "distinct (map session_id (sessions d))"
  shows "upd_row sid g d = upd_row sid (\<lambda>_. g r) d"
proof -
  have "r' = r" if "r' \<in> set (sessions d)" "session_id r' = sid" for r'
    using assms that find_row_id [OF assms(1)] find_row_mem [OF assms(1)]
    by (metis distinct_map inj_onD)
  then show ?thesis by (auto simp: upd_row_def intro!: arg_cong [where f = "\<lambda>x. d\<lparr>sessions := x\<rparr>"])
qed

section \<open>The invariant of the tables\<close>

text \<open>
  Session ids are canonical and unique; a frame belongs to a session of the table, its root
  has no frame, and no two frames share a position (root, depth). The schema enforces only the
  uniqueness of the ids (PRIMARY KEY).
\<close>

definition rows_ok :: "'a db_scheme \<Rightarrow> bool" where
  "rows_ok d \<longleftrightarrow>
     distinct (map session_id (sessions d)) \<and>
     (\<forall>r\<in>set (sessions d). normalize_session_id (session_id r) = session_id r)"

definition frame_pos :: "frame \<Rightarrow> string \<times> nat" where
  "frame_pos f = (root_session_id f, depth f)"

definition stack_ok :: "'a db_scheme \<Rightarrow> bool" where
  "stack_ok d \<longleftrightarrow>
     distinct (map frame_session_id (session_stack d)) \<and>
     distinct (map frame_pos (session_stack d)) \<and>
     (\<forall>f\<in>set (session_stack d). 1 \<le> depth f \<and>
        normalize_session_id (root_session_id f) = root_session_id f \<and>
        frame_session_id f \<in> session_id ` set (sessions d) \<and>
        root_session_id f \<notin> frame_session_id ` set (session_stack d))"

definition db_ok :: "'a db_scheme \<Rightarrow> bool" where
  "db_ok d \<longleftrightarrow> rows_ok d \<and> stack_ok d"

lemma db_ok_same_ids:
  assumes "db_ok d" and "map session_id (sessions d') = map session_id (sessions d)"
    and "session_stack d' = session_stack d"
  shows "db_ok d'"
proof -
  have s: "session_id ` set (sessions d') = session_id ` set (sessions d)"
    by (metis assms(2) set_map)
  have "(\<forall>r\<in>set (sessions d'). normalize_session_id (session_id r) = session_id r) \<longleftrightarrow>
        (\<forall>i\<in>session_id ` set (sessions d'). normalize_session_id i = i)" by auto
  then show ?thesis using assms s by (simp add: db_ok_def rows_ok_def stack_ok_def)
qed

context row_update
begin

lemma keeps_db_ok [inv_intros]: "keeps db_ok (op sid)"
  by (intro keepsI) (rule db_ok_same_ids [OF _ ids_kept stack_kept])

end

lemma update_session_ok [act_simps]:
  "find_row (normalize_session_id sid) d = Some r \<Longrightarrow>
   update_session sid cur data d =
     (Inr (), upd_row (normalize_session_id sid)
                (\<lambda>r. (written cur data (clock d) r)\<lparr>updated_at := clock d\<rparr>) d)"
  by (auto simp: update_session_def transaction_def written_def Let_def upd_row_def
      split: option.splits)

lemma update_session_missing [act_simps]:
  "find_row (normalize_session_id sid) d = None \<Longrightarrow>
   update_session sid cur data d = (Inl SessionNotFoundError, d)"
  by (simp add: update_session_def transaction_def Let_def)

lemma written_id [simp]: "session_id (written cur data t r) = session_id r"
  using same_identity_written by (simp add: same_identity_def)

lemma keeps_update_session [inv_intros]: "keeps db_ok (update_session sid cur data)"
proof (rule keepsI)
  fix d :: "'a db_scheme" assume ok: "db_ok d"
  show "db_ok (snd (update_session sid cur data d))"
  proof (cases "find_row (normalize_session_id sid) d")
    case (Some r)
    have "db_ok (upd_row (normalize_session_id sid)
                  (\<lambda>r. (written cur data (clock d) r)\<lparr>updated_at := clock d\<rparr>) d)"
      by (rule db_ok_same_ids [OF ok upd_row_same_id]) simp_all
    then show ?thesis by (simp add: update_session_ok [OF Some])
  qed (simp add: update_session_missing ok)
qed

lemma distinct_filter_sub: "distinct (map k xs) \<Longrightarrow> distinct (map k (filter P xs))"
  by (simp add: distinct_map_filter)

lemma db_ok_del_rows:
  assumes "db_ok d"
  shows "db_ok (del_rows sids d)"
  using assms unfolding db_ok_def rows_ok_def stack_ok_def sessions_del_rows stack_del_rows
  by (auto simp: distinct_filter_sub)

lemma keeps_delete_session [inv_intros]: "keeps db_ok (delete_session e sid)"
  by (intro keepsI)
    (auto simp: delete_session_def transaction_def Let_def db_ok_del_rows split: option.splits)

lemma db_ok_sub_stack:
  assumes "db_ok d" and "sessions d' = sessions d"
    and "session_stack d' = filter P (session_stack d)"
  shows "db_ok d'"
  using assms by (auto simp: db_ok_def rows_ok_def stack_ok_def distinct_filter_sub)

lemma db_ok_relabel:
  assumes "db_ok d" and "sessions d' = sessions d"
    and "session_stack d' = map h (session_stack d)"
    and h: "\<And>f. frame_session_id (h f) = frame_session_id f" "\<And>f. frame_pos (h f) = frame_pos f"
  shows "db_ok d'"
proof -
  have "root_session_id (h f) = root_session_id f \<and> depth (h f) = depth f" for f
    using h(2) [of f] by (simp add: frame_pos_def)
  moreover have "frame_session_id ` h ` A = frame_session_id ` A" for A
    by (simp add: image_image h(1))
  ultimately show ?thesis
    using assms by (simp add: db_ok_def rows_ok_def stack_ok_def comp_def)
qed

lemma keeps_pop_frame [inv_intros]: "keeps db_ok (pop_frame sid)"
  by (intro keepsI)
    (auto simp: pop_frame_def transaction_def Let_def elim!: db_ok_sub_stack split: option.splits)

lemma keeps_expire_sessions [inv_intros]: "keeps db_ok (expire_sessions ttl)"
  by (intro keepsI) (auto simp: expire_sessions_def transaction_def Let_def db_ok_del_rows)

lemma db_ok_empty: "sessions d = [] \<Longrightarrow> session_stack d = [] \<Longrightarrow> db_ok d"
  by (simp add: db_ok_def rows_ok_def stack_ok_def)

lemma keeps_clear_sessions [inv_intros]: "keeps db_ok clear_sessions"
  by (intro keepsI) (simp add: clear_sessions_def transaction_def db_ok_empty)

lemma keeps_set_called_session [inv_intros]: "keeps db_ok (set_called_session p c k)"
proof (rule keepsI)
  fix d :: "'a db_scheme" assume ok: "db_ok d"
  let ?d1 = "upd_row (normalize_session_id p)
    (\<lambda>r. r\<lparr>called_session := map_option normalize_session_id c, updated_at := clock d\<rparr>) d"
  have ok1: "db_ok ?d1" by (rule db_ok_same_ids [OF ok upd_row_same_id]) simp_all
  have relabel: "db_ok (?d1\<lparr>session_stack := map (\<lambda>f. if frame_session_id f = i
      then f\<lparr>call_step_id := k'\<rparr> else f) (session_stack d)\<rparr>)" for i k'
    by (rule db_ok_relabel [OF ok1, where h = "\<lambda>f. if frame_session_id f = i
      then f\<lparr>call_step_id := k'\<rparr> else f"]) (simp_all add: frame_pos_def)
  have sub: "db_ok (?d1\<lparr>session_stack := filter P (session_stack d)\<rparr>)" for P
    by (rule db_ok_sub_stack [OF ok1, where P = P]) simp_all
  show "db_ok (snd (set_called_session p c k d))"
    using ok ok1 relabel sub
    by (cases c; cases k)
      (simp_all add: set_called_session_def transaction_def Let_def split: prod.splits)
qed

lemma keeps_get_session [inv_intros]: "keeps db_ok (get_session e sid)"
  by (intro keepsI) (simp add: get_session_def split: option.splits)

lemma keeps_get_artifacts [inv_intros]: "keeps db_ok (get_artifacts sid k)"
  by (intro keepsI) (simp add: get_artifacts_def split: option.splits)

section \<open>Creating a session\<close>

lemma evict_cases:
  obtains "evict_over_cap cap d = d" | sids where "evict_over_cap cap d = del_rows sids d"
  unfolding evict_over_cap_def Let_def by (cases "cap \<le> int (length (sessions d))") auto

lemma db_ok_evict: "db_ok d \<Longrightarrow> db_ok (evict_over_cap cap d)"
  by (simp add: evict_over_cap_def Let_def db_ok_del_rows)

text \<open>A token no session, frame or root of the database has.\<close>

definition fresh :: "string \<Rightarrow> 'a db_scheme \<Rightarrow> bool" where
  "fresh token d \<longleftrightarrow>
     (let sid = normalize_session_id token in
      sid \<notin> session_id ` set (sessions d) \<and>
      (\<forall>f\<in>set (session_stack d). frame_session_id f \<noteq> sid \<and> root_session_id f \<noteq> sid))"

lemma fresh_evict:
  "fresh token d \<Longrightarrow> fresh token (evict_over_cap cap d)"
  by (auto simp: fresh_def evict_over_cap_def Let_def del_rows_def)

text \<open>The position above a canonical id whose frame is absent is (id, 1).\<close>

definition position_free :: "string \<Rightarrow> 'a db_scheme \<Rightarrow> bool" where
  "position_free p d \<longleftrightarrow>
     (case child_position p d of (root, n) \<Rightarrow> frame_at root n d = None)"

lemma frame_at_None:
  "frame_at root n d = None \<longleftrightarrow> (\<forall>f\<in>set (session_stack d). frame_pos f \<noteq> (root, n))"
  by (auto simp: frame_at_def find_None_iff frame_pos_def)

lemma position_free_evict:
  assumes ok: "db_ok d" and free: "position_free p d"
  shows "position_free p (evict_over_cap cap d)"
proof -
  obtain sids where ev: "evict_over_cap cap d = del_rows sids d \<or> evict_over_cap cap d = d"
    by (rule evict_cases [of cap d]) blast+
  have sub: "set (session_stack (del_rows sids d)) \<subseteq> set (session_stack d)"
    by (auto simp: stack_del_rows)
  show ?thesis
  proof (cases "find_frame p d")
    case None
    then have "find_frame p (del_rows sids d) = None" by simp
    with None free ev sub show ?thesis
      by (auto simp: position_free_def child_position_def frame_at_None)
  next
    case (Some f)
    have p: "p \<in> frame_session_id ` set (session_stack d)"
      using find_frame_mem [OF Some] find_frame_id [OF Some] by auto
    have "root_session_id g \<noteq> p" if "g \<in> set (session_stack d)" for g
    proof -
      have "root_session_id g \<notin> frame_session_id ` set (session_stack d)"
        using ok that unfolding db_ok_def stack_ok_def by blast
      with p show ?thesis by auto
    qed
    then have "\<forall>g\<in>set (session_stack d). frame_pos g \<noteq> (p, n)" for n
      by (auto simp: frame_pos_def)
    with Some free ev sub show ?thesis
      by (cases "p \<in> set sids")
        (auto simp: position_free_def child_position_def frame_at_None)
  qed
qed

lemma child_position_root:
  assumes "db_ok d" and "normalize_session_id p = p"
  obtains root n where "child_position p d = (root, n)" and "1 \<le> n"
    and "normalize_session_id root = root"
    and "root \<notin> frame_session_id ` set (session_stack d)"
    and "root = p \<or> root \<in> root_session_id ` set (session_stack d)"
proof (cases "find_frame p d")
  case None
  then have "p \<notin> frame_session_id ` set (session_stack d)" by (simp add: find_frame_None)
  with None assms that show ?thesis by (simp add: child_position_def)
next
  case (Some f)
  with assms find_frame_mem [OF Some] that show ?thesis
    by (simp add: child_position_def db_ok_def stack_ok_def)
qed

lemma insert_frame_db_ok:
  assumes ok: "db_ok d" and canon: "normalize_session_id p = p"
    and free: "position_free p d"
    and sid: "sid \<in> session_id ` set (sessions d)" "sid \<noteq> p"
      "\<forall>f\<in>set (session_stack d). root_session_id f \<noteq> sid"
  shows "db_ok (snd (insert_frame sid p ft k m d))"
proof -
  obtain root n where pos: "child_position p d = (root, n)" and n: "1 \<le> n"
    and root: "normalize_session_id root = root"
      "root \<notin> frame_session_id ` set (session_stack d)"
      "root = p \<or> root \<in> root_session_id ` set (session_stack d)"
    using child_position_root [OF ok canon] by blast
  have ne: "root \<noteq> sid" using root(3) sid by auto
  have pos': "\<forall>f\<in>set (session_stack d). frame_pos f \<noteq> (root, n)"
    using free by (simp add: position_free_def pos frame_at_None)
  have "db_ok (d\<lparr>session_stack := session_stack d @ [\<lparr>frame_session_id = sid,
          root_session_id = root, depth = n, frame_type = ft, call_step_id = k,
          frame_created_at = clock d\<rparr>]\<rparr>)"
    if "sid \<notin> frame_session_id ` set (session_stack d)"
    using ok that root(1,2) ne n sid(1,3) pos'
    by (auto simp: db_ok_def rows_ok_def stack_ok_def frame_pos_def)
  then show ?thesis
    using ok by (auto simp: insert_frame_def pos Let_def find_frame_None split: option.splits)
qed

lemma top_frame_for_None:
  "top_frame_for p d = None \<longleftrightarrow> position_free (normalize_session_id p) d"
  by (simp add: top_frame_for_def position_free_def split: prod.splits)

lemma insert_frame_rows [simp]:
  "sessions (snd (insert_frame sid p ft k m d)) = sessions d"
  by (auto simp: insert_frame_def Let_def split: prod.splits option.splits)

text \<open>The state a successful \<open>INSERT INTO sessions\<close> leaves.\<close>

definition with_row :: "session_row \<Rightarrow> 'a db_scheme \<Rightarrow> 'a db_scheme" where
  "with_row r d = d\<lparr>sessions := sessions d @ [r]\<rparr>"

lemma with_row_simps [simp]:
  "sessions (with_row r d) = sessions d @ [r]" "session_stack (with_row r d) = session_stack d"
  "clock (with_row r d) = clock d" "db.more (with_row r d) = db.more d"
  "find_frame x (with_row r d) = find_frame x d" "frame_at x n (with_row r d) = frame_at x n d"
  "frames_of x (with_row r d) = frames_of x d"
  "child_position x (with_row r d) = child_position x d"
  "position_free x (with_row r d) = position_free x d"
  by (simp_all add: with_row_def find_frame_def frame_at_def frames_of_def child_position_def
      position_free_def)

lemma find_snoc: "find P xs = None \<Longrightarrow> find P (xs @ [x]) = (if P x then Some x else None)"
  by (induction xs) (auto split: if_splits)

lemma find_row_with_row:
  "find_row x d = None \<Longrightarrow> find_row x (with_row r d) = (if session_id r = x then Some r else None)"
  by (simp add: find_row_def find_snoc)

lemma db_ok_with_row:
  assumes "db_ok d" and "session_id r \<notin> session_id ` set (sessions d)"
    and "normalize_session_id (session_id r) = session_id r"
  shows "db_ok (with_row r d)"
  using assms by (auto simp: db_ok_def rows_ok_def stack_ok_def)

lemma create_session_unfold:
  "create_session e token wft cur parent ft csid m fp d =
     (let sid = normalize_session_id token; d1 = evict_over_cap (session_cap e) d;
          d2 = with_row (new_row sid wft cur (map_option normalize_session_id parent) fp (clock d1)) d1 in
      if find_row sid d1 \<noteq> None then (Inl IntegrityError, d)
      else case parent of
        None \<Rightarrow> (Inr sid, d2)
      | Some p \<Rightarrow>
          (case insert_frame sid (normalize_session_id p) ft csid m d2 of
             (Inl x, _) \<Rightarrow> (Inl x, d)
           | (Inr _, d3) \<Rightarrow> (Inr sid, d3)))"
  by (cases parent)
    (auto simp: create_session_def Let_def transaction_def with_row_def seqE_def bindE_def
       split: prod.splits sum.splits)

lemma clock_evict [simp]: "clock (evict_over_cap c d) = clock d"
  by (rule evict_cases [of c d]) simp_all

lemma fresh_row: "fresh token d \<Longrightarrow> find_row (normalize_session_id token) d = None"
  by (simp add: fresh_def find_row_None Let_def)

lemma create_session_db_ok:
  assumes ok: "db_ok d" and fresh: "fresh token d"
    and par: "\<And>p. parent = Some p \<Longrightarrow>
      top_frame_for p d = None \<and> normalize_session_id token \<noteq> normalize_session_id p"
  shows "db_ok (snd (create_session e token wft cur parent ft csid m fp d))"
proof -
  let ?sid = "normalize_session_id token" and ?d1 = "evict_over_cap (session_cap e) d"
  let ?d2 = "with_row (new_row ?sid wft cur (map_option normalize_session_id parent) fp
               (clock ?d1)) ?d1"
  have ok1: "db_ok ?d1" and fresh1: "fresh token ?d1"
    using ok fresh by (auto intro: db_ok_evict fresh_evict)
  then have new: "?sid \<notin> session_id ` set (sessions ?d1)"
    and roots: "\<forall>f\<in>set (session_stack ?d1). root_session_id f \<noteq> ?sid"
    by (auto simp: fresh_def Let_def)
  have ok2: "db_ok ?d2" using ok1 new by (intro db_ok_with_row) (simp_all add: new_row_def)
  have child: "db_ok (snd (insert_frame ?sid (normalize_session_id p) ft csid m ?d2))"
    if "parent = Some p" for p
  proof (rule insert_frame_db_ok [OF ok2])
    show "position_free (normalize_session_id p) ?d2"
      using par [OF that] position_free_evict [OF ok] by (simp add: top_frame_for_None)
  qed (use par [OF that] roots in \<open>auto simp: new_row_def\<close>)
  show ?thesis
    using ok ok2 child
    by (auto simp: create_session_unfold Let_def split: option.splits prod.splits sum.splits)
qed

section \<open>Eviction\<close>

lemma filter_take_key:
  assumes "distinct (map k ys)"
  shows "filter (\<lambda>r. k r \<notin> k ` set (take n ys)) ys = drop n ys"
proof -
  have "distinct (map k (take n ys) @ map k (drop n ys))"
    using assms by (metis append_take_drop_id map_append)
  then have "filter (\<lambda>r. k r \<notin> k ` set (take n ys)) (take n ys @ drop n ys) = drop n ys"
    unfolding filter_append by (auto simp: filter_empty_conv filter_id_conv)
  then show ?thesis by (simp only: append_take_drop_id)
qed

definition survivors :: "int \<Rightarrow> 'a db_scheme \<Rightarrow> session_row list" where
  "survivors cap d =
     drop (nat (int (length (sessions d)) - (cap - 1))) (sort_key eviction_key (sessions d))"

lemma evict_survivors:
  assumes "rows_ok d" and "cap \<le> int (length (sessions d))"
  shows "set (sessions (evict_over_cap cap d)) = set (survivors cap d)"
    and "length (sessions (evict_over_cap cap d)) = length (survivors cap d)"
proof -
  let ?n = "nat (int (length (sessions d)) - (cap - 1))"
  let ?ys = "sort_key eviction_key (sessions d)"
  let ?P = "\<lambda>r. session_id r \<notin> session_id ` set (take ?n ?ys)"
  have "mset (map session_id ?ys) = mset (map session_id (sessions d))" by simp
  then have d: "distinct (map session_id ?ys)"
    using assms(1) unfolding rows_ok_def by (metis mset_eq_imp_distinct_iff)
  have e: "sessions (evict_over_cap cap d) = filter ?P (sessions d)"
    using assms(2) by (simp add: evict_over_cap_def sessions_del_rows)
  have s: "survivors cap d = filter ?P ?ys"
    unfolding survivors_def using filter_take_key [OF d] by simp
  show "set (sessions (evict_over_cap cap d)) = set (survivors cap d)" unfolding e s by simp
  have "mset (filter ?P ?ys) = mset (filter ?P (sessions d))"
    by (simp only: mset_filter mset_sort)
  then show "length (sessions (evict_over_cap cap d)) = length (survivors cap d)"
    unfolding e s by (metis size_mset)
qed

lemma evict_bound:
  assumes "rows_ok d" and "1 \<le> cap"
  shows "int (length (sessions (evict_over_cap cap d))) \<le> cap - 1"
  using assms evict_survivors(2) [OF assms(1), of cap]
  by (cases "cap \<le> int (length (sessions d))") (simp_all add: survivors_def evict_over_cap_def)

text \<open>A session that goes has a smaller key than every session that stays.\<close>

lemma evict_order:
  assumes ok: "rows_ok d" and gone: "r \<in> set (sessions d)" "r \<notin> set (sessions (evict_over_cap cap d))"
    and stays: "r' \<in> set (sessions (evict_over_cap cap d))"
  shows "eviction_key r \<le> eviction_key r'"
proof -
  have cap: "cap \<le> int (length (sessions d))"
    using gone by (auto simp: evict_over_cap_def Let_def split: if_splits)
  let ?n = "nat (int (length (sessions d)) - (cap - 1))"
  let ?ys = "sort_key eviction_key (sessions d)"
  have "r \<in> set (take ?n ?ys @ drop ?n ?ys)" using gone(1) by simp
  then have r: "r \<in> set (take ?n ?ys)"
    using gone(2) evict_survivors(1) [OF ok cap]
    unfolding set_append survivors_def by simp
  have r': "r' \<in> set (drop ?n ?ys)"
    using stays evict_survivors(1) [OF ok cap] by (simp add: survivors_def)
  have "sorted (map eviction_key (take ?n ?ys @ drop ?n ?ys))" by simp
  then show ?thesis using r r' unfolding map_append sorted_append by auto
qed

lemma create_session_rows:
  assumes "create_session e token wft cur parent ft csid m fp d = (Inr sid, d')"
  shows "sessions d' = sessions (evict_over_cap (session_cap e) d) @
           [new_row sid wft cur (map_option normalize_session_id parent) fp (clock d)]"
    and "sid = normalize_session_id token"
proof -
  show "sessions d' = sessions (evict_over_cap (session_cap e) d) @
          [new_row sid wft cur (map_option normalize_session_id parent) fp (clock d)]"
    using assms
    by (auto simp: create_session_unfold Let_def split: if_splits option.splits prod.splits sum.splits)
      (metis insert_frame_rows snd_conv with_row_simps(1))
  show "sid = normalize_session_id token"
    using assms
    by (auto simp: create_session_unfold Let_def split: if_splits option.splits prod.splits sum.splits)
qed

section \<open>Navigation of the frame stack\<close>

lemma find_unique:
  assumes "distinct (map k xs)" and "x \<in> set xs"
  shows "find (\<lambda>y. k y = k x) xs = Some x"
  using assms by (induction xs) (auto simp: image_iff)

lemma find_frame_unique:
  assumes "db_ok d" and "f \<in> set (session_stack d)"
  shows "find_frame (frame_session_id f) d = Some f"
  using assms find_unique [of frame_session_id "session_stack d" f]
  by (simp add: find_frame_def db_ok_def stack_ok_def)

lemma frame_at_unique:
  assumes "db_ok d" and "f \<in> set (session_stack d)"
  shows "frame_at (root_session_id f) (depth f) d = Some f"
  using assms find_unique [of frame_pos "session_stack d" f]
  by (simp add: frame_at_def db_ok_def stack_ok_def frame_pos_def)

lemma frame_at_Some:
  "frame_at root n d = Some f \<Longrightarrow> f \<in> set (session_stack d) \<and> root_session_id f = root \<and> depth f = n"
  by (auto simp: frame_at_def find_Some_iff)

lemma frame_canonical:
  assumes "db_ok d" and "f \<in> set (session_stack d)"
  shows "normalize_session_id (frame_session_id f) = frame_session_id f"
    and "normalize_session_id (root_session_id f) = root_session_id f"
    and "1 \<le> depth f"
    and "find_frame (root_session_id f) d = None"
  using assms by (auto simp: db_ok_def rows_ok_def stack_ok_def find_frame_None)

lemma parent_of_top_frame:
  assumes ok: "db_ok d" and p: "normalize_session_id p = p"
    and above: "top_frame_for p d = Some f"
  shows "parent_of (frame_session_id f) d = Some p"
proof -
  have at: "(case child_position p d of (root, n) \<Rightarrow> frame_at root n d) = Some f"
    using above p by (simp add: top_frame_for_def)
  then have mem: "f \<in> set (session_stack d)" by (auto dest: frame_at_Some split: prod.splits)
  have f: "find_frame (frame_session_id f) d = Some f"
    "normalize_session_id (frame_session_id f) = frame_session_id f"
    using find_frame_unique [OF ok mem] frame_canonical [OF ok mem] by auto
  show ?thesis
  proof (cases "find_frame p d")
    case None
    with at f show ?thesis by (auto simp: child_position_def parent_of_def dest: frame_at_Some)
  next
    case (Some g)
    have g: "g \<in> set (session_stack d)" "frame_session_id g = p"
      using find_frame_mem [OF Some] find_frame_id [OF Some] by auto
    have "root_session_id f = root_session_id g" "depth f = Suc (depth g)"
      using at Some by (auto simp: child_position_def dest: frame_at_Some)
    with f g frame_at_unique [OF ok g(1)] frame_canonical(3) [OF ok g(1)] show ?thesis
      by (simp add: parent_of_def)
  qed
qed

lemma top_frame_of_parent:
  assumes ok: "db_ok d" and par: "parent_of c d = Some p"
  obtains f where "find_frame (normalize_session_id c) d = Some f" and "top_frame_for p d = Some f"
proof -
  obtain f where f: "find_frame (normalize_session_id c) d = Some f"
    using par by (auto simp: parent_of_def split: option.splits)
  then have mem: "f \<in> set (session_stack d)" by (rule find_frame_mem)
  note can = frame_canonical [OF ok mem]
  have "top_frame_for p d = Some f"
  proof (cases "depth f = 1")
    case True
    with par f have "p = root_session_id f" by (simp add: parent_of_def)
    with can True frame_at_unique [OF ok mem] show ?thesis
      by (simp add: top_frame_for_def child_position_def)
  next
    case False
    with par f obtain g where g: "frame_at (root_session_id f) (depth f - 1) d = Some g"
      and p: "p = frame_session_id g" by (auto simp: parent_of_def)
    then have gm: "g \<in> set (session_stack d)" "root_session_id g = root_session_id f"
      "depth g = depth f - 1" by (auto dest: frame_at_Some)
    with False can p find_frame_unique [OF ok gm(1)] frame_canonical(1) [OF ok gm(1)]
      frame_at_unique [OF ok mem] show ?thesis
      by (simp add: top_frame_for_def child_position_def)
  qed
  with f that show ?thesis by blast
qed

end
