(* ===== verification/ToolInvariants.thy ===== *)
theory ToolInvariants
  imports Tools SessionProps
begin

text \<open>
  Invariants of the server: what every tool keeps because the store operations it is made of
  keep it. The locale \<open>tool_invariant\<close> names the store operations the tools call; inside it
  each handler is walked once, and a step of the server is one call of one tool. The
  interpretations give the invariants of the tables, the session cap, and three row
  invariants (identity columns, escalation, retry counters).
\<close>

section \<open>Resolving a session\<close>

text \<open>The session \<open>sid\<close> names passes the checks of \<open>_resolve_session\<close>: its row and workflow.\<close>

definition resolves :: "app \<Rightarrow> string \<Rightarrow> world \<Rightarrow> session_row \<Rightarrow> workflow \<Rightarrow> bool" where
  "resolves ap sid s r w \<longleftrightarrow>
     find_row (normalize_session_id sid) s = Some r \<and> app_caller ap = Anonymous \<and>
     current_step r \<noteq> WORKFLOW_CHANGED \<and>
     dget (app_workflows ap) (workflow_type r) = Some w \<and>
     (case dget (app_fingerprints ap) (workflow_type r) of
        None \<Rightarrow> True | Some fp \<Rightarrow> workflow_fingerprint r = fp)"

text \<open>The session started under another version of its workflow.\<close>

definition outdated :: "app \<Rightarrow> string \<Rightarrow> world \<Rightarrow> session_row \<Rightarrow> bool" where
  "outdated ap sid s r \<longleftrightarrow>
     find_row (normalize_session_id sid) s = Some r \<and> app_caller ap = Anonymous \<and>
     current_step r \<noteq> WORKFLOW_CHANGED \<and>
     dget (app_workflows ap) (workflow_type r) \<noteq> None \<and>
     (\<exists>fp. dget (app_fingerprints ap) (workflow_type r) = Some fp \<and> workflow_fingerprint r \<noteq> fp)"

lemma row_to_session_simps [simp]:
  "session_id (row_to_session e r) = session_id r"
  "workflow_type (row_to_session e r) = workflow_type r"
  "current_step (row_to_session e r) = current_step r"
  "step_data (row_to_session e r) = step_data r"
  "retry_counts (row_to_session e r) = retry_counts r"
  "step_visit_counts (row_to_session e r) = step_visit_counts r"
  "escalation (row_to_session e r) = escalation r"
  "workflow_fingerprint (row_to_session e r) = workflow_fingerprint r"
  "fingerprint (row_to_session e r) = compute_fingerprint e (session_id r)"
  "owner_identity (row_to_session e r) = Anonymous"
  by (simp_all add: row_to_session_def session_core.defs session.defs)

lemma get_session_ok [act_simps]:
  "find_row (normalize_session_id sid) s = Some r \<Longrightarrow>
   get_session e sid s = (Inr (row_to_session e r), s)"
  by (simp add: get_session_def)

lemma get_session_missing [act_simps]:
  "find_row (normalize_session_id sid) s = None \<Longrightarrow> get_session e sid s = (Inl SessionNotFoundError, s)"
  by (simp add: get_session_def)

lemma resolve_session_ok:
  "resolves ap sid s r w \<Longrightarrow>
   resolve_session e ap sid s = (Inr (Inr (row_to_session e r, w)), s)"
  by (auto simp: resolve_session_def resolves_def get_session_ok split: option.splits)

lemma with_session_ok [act_simps]:
  "resolves ap sid s r w \<Longrightarrow> with_session e ap sid k s = k (row_to_session e r) w s"
  by (simp add: with_session_def bindE_def resolve_session_ok)

definition mark_changed :: "string \<Rightarrow> world \<Rightarrow> world" where
  "mark_changed sid s =
     upd_row (normalize_session_id sid)
       (\<lambda>r. r\<lparr>current_step := WORKFLOW_CHANGED, updated_at := clock s\<rparr>) s"

lemma resolve_session_outdated:
  assumes "outdated ap sid s r"
  shows "\<exists>fp. resolve_session e ap sid s =
    (Inr (Inl (workflow_changed_envelope (row_to_session e r) fp)), mark_changed sid s)"
  using assms
  by (auto simp: outdated_def resolve_session_def act_simps mark_changed_def written_def)

lemma with_session_outdated:
  assumes "outdated ap sid s r"
  shows "\<exists>fp. with_session e ap sid k s =
    (Inr (workflow_changed_envelope (row_to_session e r) fp), mark_changed sid s)"
  using resolve_session_outdated [OF assms, of e] by (auto simp: with_session_def)

text \<open>In every other case the answer is an error and nothing changes.\<close>

lemma resolve_session_refused:
  assumes "\<And>r w. \<not> resolves ap sid s r w" and "\<And>r. \<not> outdated ap sid s r"
  shows "\<exists>err. resolve_session e ap sid s = (Inr (Inl err), s) \<and> resp_status err = Some ''error''"
proof (cases "find_row (normalize_session_id sid) s")
  case (Some r)
  have live: "\<not> resolves ap sid s r w" for w by (rule assms(1))
  have old: "\<not> outdated ap sid s r" by (rule assms(2))
  consider "app_caller ap \<noteq> Anonymous" | "app_caller ap = Anonymous" "current_step r = WORKFLOW_CHANGED"
    | "app_caller ap = Anonymous" "current_step r \<noteq> WORKFLOW_CHANGED"
      "dget (app_workflows ap) (workflow_type r) = None"
    using Some live old unfolding resolves_def outdated_def
    by (cases "dget (app_workflows ap) (workflow_type r)";
        cases "dget (app_fingerprints ap) (workflow_type r)") auto
  then show ?thesis
    by cases (simp_all add: resolve_session_def get_session_ok [OF Some] workflow_changed_envelope_def)
qed (simp add: resolve_session_def act_simps)

lemma with_session_refused:
  assumes "\<And>r w. \<not> resolves ap sid s r w" and "\<And>r. \<not> outdated ap sid s r"
  shows "\<exists>err. with_session e ap sid k s = (Inr err, s) \<and> resp_status err = Some ''error''"
  using resolve_session_refused [OF assms, of e] by (auto simp: with_session_def)

lemma session_cases:
  obtains (live) r w where "resolves ap sid s r w"
  | (changed) r where "outdated ap sid s r"
  | (refused) "\<And>r w. \<not> resolves ap sid s r w" "\<And>r. \<not> outdated ap sid s r"
  by blast

section \<open>What the tools keep\<close>

text \<open>
  The tools that create a session keep an invariant only when the token is fresh in the state
  of the call: \<open>ends P m s\<close> follows the reads of the handler from that state.
\<close>

definition ends :: "('s \<Rightarrow> bool) \<Rightarrow> ('s, 'a) act \<Rightarrow> 's \<Rightarrow> bool" where
  "ends P m s \<longleftrightarrow> P (snd (m s))"

lemma ends_keeps: "keeps P m \<Longrightarrow> P s \<Longrightarrow> ends P m s"
  by (simp add: ends_def keeps_def)

lemma ends_bindE: "ends P m s \<Longrightarrow> (\<And>x. keeps P (f x)) \<Longrightarrow> ends P (bindE m f) s"
  by (auto simp: ends_def keeps_def bindE_def split: prod.splits sum.splits)

lemma ends_getE: "ends P (f (g s)) s \<Longrightarrow> ends P (bindE (getE g) f) s"
  by (simp add: ends_def)

lemma ends_liftE: "P s \<Longrightarrow> (\<And>x. r = Inr x \<Longrightarrow> ends P (f x) s) \<Longrightarrow> ends P (bindE (liftE r) f) s"
  by (cases r) (simp_all add: ends_def)

lemma ends_catchE:
  "ends P m s \<Longrightarrow> (\<And>x. keeps P (h x)) \<Longrightarrow> (\<And>x. keeps P (f x)) \<Longrightarrow>
   ends P (bindE (catchE m h) f) s"
  by (rule ends_bindE) (auto simp: ends_def keeps_def catchE_def split: prod.splits sum.splits)

lemma ends_case_option:
  "(x = None \<Longrightarrow> ends P m s) \<Longrightarrow> (\<And>y. x = Some y \<Longrightarrow> ends P (f y) s) \<Longrightarrow>
   ends P (case x of None \<Rightarrow> m | Some y \<Rightarrow> f y) s"
  by (simp split: option.splits)

lemma ends_case_prod: "(\<And>a b. x = (a, b) \<Longrightarrow> ends P (f a b) s) \<Longrightarrow> ends P (case x of (a, b) \<Rightarrow> f a b) s"
  by (simp split: prod.splits)

lemma ends_if: "(b \<Longrightarrow> ends P m s) \<Longrightarrow> (\<not> b \<Longrightarrow> ends P k s) \<Longrightarrow> ends P (if b then m else k) s"
  by simp

lemma ends_Let: "ends P (f x) s \<Longrightarrow> ends P (let y = x in f y) s"
  by simp

lemma ends_ret: "P s \<Longrightarrow> ends P (retE x) s" "P s \<Longrightarrow> ends P (getE g) s"
  by (simp_all add: ends_def)

lemma ends_trap: "ends P m s \<Longrightarrow> ends P (trap_errors e f i m) s"
  by (auto simp: ends_def trap_errors_def split: prod.splits sum.splits exn.splits)

lemma ends_guard_args: "P s \<Longrightarrow> ends P m s \<Longrightarrow> ends P (guard_args cs m) s"
  by (simp add: ends_def guard_args_def split: option.splits)

lemmas ends_intros =
  ends_getE ends_liftE ends_catchE ends_case_option ends_case_prod ends_if ends_Let ends_ret
  ends_trap ends_guard_args

lemma keeps_case_frame [inv_intros]:
  "keeps P m \<Longrightarrow> keeps P k \<Longrightarrow> keeps P (case t of Call \<Rightarrow> m | Digression \<Rightarrow> k)"
  by (cases t) simp_all

locale tool_invariant =
  fixes P :: "world \<Rightarrow> bool"
    and E :: "'e tool_env_scheme"
    and tokens :: "string set"
  assumes update: "keeps P (update_session sid cur data)"
    and visits: "keeps P (increment_visit sid k)"
    and retries: "keeps P (increment_retry sid k)"
    and escalates: "keeps P (set_escalation sid g m)"
    and stores: "keeps P (store_artifact sid k a c)"
    and invalidates: "keeps P (invalidate_steps_after sid ks)"
    and clears: "keeps P (clear_step_data_key sid k)"
    and deletes: "keeps P (delete_session E sid)"
    and links: "keeps P (set_called_session sid child step)"
    and expires: "keeps P (expire_sessions ttl)"
    and ticks: "P s \<Longrightarrow> P (s\<lparr>clock := clock s + n\<rparr>)"
    and network: "keeps P (on_client (call :: (client, pyval) act))"
    and creates: "P s \<Longrightarrow> fresh token s \<Longrightarrow> token \<in> tokens \<Longrightarrow>
      (\<And>p. parent = Some p \<Longrightarrow> top_frame_for p s = None \<and> find_row (normalize_session_id p) s \<noteq> None) \<Longrightarrow>
      P (snd (create_session E token wft first parent ft csid mx fp s))"
begin

lemmas store_ops =
  update visits retries escalates stores invalidates clears deletes links network

lemma keeps_resolve: "keeps P (resolve_session E ap sid)"
proof (rule keepsI)
  fix s assume p: "P s"
  have "keeps P (seqE (update_session sid (Some WORKFLOW_CHANGED) None) (retE x))"
    for x :: "pyval + session \<times> workflow"
    by (intro inv_intros update)
  then have "P (snd (seqE (update_session sid (Some WORKFLOW_CHANGED) None) (retE x) s))"
    for x :: "pyval + session \<times> workflow"
    using p unfolding keeps_def by blast
  moreover have "snd (get_session E sid s) = s" by (simp add: get_session_def split: option.splits)
  ultimately show "P (snd (resolve_session E ap sid s))"
    using p by (auto simp: resolve_session_def get_session_def split: option.splits)
qed

lemma keeps_with_session: "(\<And>ses w. keeps P (k ses w)) \<Longrightarrow> keeps P (with_session E ap sid k)"
  unfolding with_session_def by (intro inv_intros keeps_resolve)

lemma keeps_guard_args: "keeps P m \<Longrightarrow> keeps P (guard_args cs m)"
  unfolding guard_args_def by (intro inv_intros)

lemma keeps_trap: "keeps P m \<Longrightarrow> keeps P (trap_errors e f i m)"
  by (auto simp: keeps_def trap_errors_def split: prod.splits sum.splits exn.splits)

lemma keeps_apply: "keeps P m \<Longrightarrow> P s \<Longrightarrow> P (snd (m s))"
  by (simp add: keeps_def)

lemma keeps_auto_execute: "keeps P (auto_execute_mcp_steps n E ap nxt w sid data)"
proof (induction n arbitrary: nxt data)
  case 0
  show ?case unfolding auto_execute_mcp_steps.simps by (rule keeps_raiseE)
next
  case (Suc n)
  show ?case
    unfolding auto_execute_mcp_steps.simps by (intro inv_intros network visits Suc.IH)
qed

lemmas tool_intros = inv_intros store_ops keeps_with_session keeps_guard_args keeps_trap
  keeps_auto_execute

lemma keeps_advance_parent: "keeps P (advance_parent E ap sid w c i data)"
  unfolding advance_parent_def by (intro tool_intros)

lemma keeps_wrap: "keeps P (wrap_child_failure E c w reason err)"
  unfolding wrap_child_failure_def by (intro tool_intros)

lemma keeps_resume: "keeps P (resume_parent_after_digression E ap c)"
  unfolding resume_parent_after_digression_def by (intro tool_intros)

lemma keeps_propagate: "keeps P (propagate_to_parent E ap c data w)"
  unfolding propagate_to_parent_def by (intro tool_intros keeps_wrap keeps_advance_parent)

lemma keeps_auto_resume: "keeps P (auto_resume_on_top_frame_complete E ap c data w)"
  unfolding auto_resume_on_top_frame_complete_def
  by (intro tool_intros keeps_resume keeps_propagate)

lemma keeps_fail: "keeps P (fail_submission E sid ses w reason err)"
  unfolding fail_submission_def by (intro tool_intros keeps_wrap)

lemma keeps_advance: "keeps P (advance E ap sid ses w k nxt forced data resp)"
  unfolding advance_def commit_advance_def by (intro tool_intros keeps_fail keeps_auto_resume)

lemma keeps_accept: "keeps P (accept_submission E ap sid ses w i st k c br extra)"
  unfolding accept_submission_def by (intro tool_intros keeps_fail keeps_advance)

lemma keeps_submit_artifact: "keeps P (submit_artifact E ap sid ses w i st k c br aid)"
  unfolding submit_artifact_def accept_artifact_submission_def by (intro tool_intros keeps_accept)

lemma keeps_submit_output: "keeps P (submit_output E ap sid ses w i st k c br)"
  unfolding submit_output_def by (intro tool_intros keeps_accept keeps_fail)

lemma keeps_submit_step: "keeps P (submit_step E ap sid k c br aid)"
  unfolding submit_step_def submit_checked_def
  by (intro tool_intros keeps_submit_artifact keeps_submit_output)

lemma keeps_list_workflows: "keeps P (list_workflows E ap c)"
  unfolding list_workflows_def by (intro tool_intros)

lemma keeps_artifacts: "keeps P (state_artifacts sid ses w)"
  unfolding state_artifacts_def
  by (intro inv_intros) (auto simp: keeps_def get_artifacts_def split: option.splits)

lemma keeps_get_state: "keeps P (get_state E ap sid)"
  unfolding get_state_def by (intro tool_intros keeps_artifacts)

lemma keeps_get_guidelines: "keeps P (get_guidelines E ap sid)"
  unfolding get_guidelines_def by (intro tool_intros)

lemma keeps_revise_step: "keeps P (revise_step E ap sid k)"
  unfolding revise_step_def revise_checked_def apply_revision_def drop_child_def
  by (intro tool_intros)

lemma keeps_pop_flow: "keeps P (pop_flow E ap sid)"
  unfolding pop_flow_def pop_checked_def by (intro tool_intros keeps_resume)

lemma keeps_list_sessions: "keeps P (list_sessions_tool E)"
  unfolding list_sessions_tool_def by (intro tool_intros)

lemma keeps_delete_tool: "keeps P (delete_session_tool E ap sid)"
  unfolding delete_session_tool_def delete_checked_def by (intro tool_intros)

lemma keeps_generate: "keeps P (generate_artifact E ap sid f)"
  unfolding generate_artifact_def by (intro tool_intros)

lemma ends_with_session:
  assumes "P s" and "\<And>ses w. find_row (normalize_session_id sid) s \<noteq> None \<Longrightarrow> ends P (k ses w) s"
  shows "ends P (with_session E ap sid k) s"
proof (cases rule: session_cases [of ap sid s])
  case (live r w)
  moreover from live have "find_row (normalize_session_id sid) s \<noteq> None"
    by (simp add: resolves_def)
  ultimately show ?thesis using assms(2) by (simp add: ends_def with_session_ok)
next
  case (changed r)
  have "keeps P (with_session E ap sid (\<lambda>_ _. retE PNone))"
    by (intro keeps_with_session keeps_retE)
  with assms(1) have "P (snd (with_session E ap sid (\<lambda>_ _. retE PNone) s))"
    by (simp add: keeps_def)
  then show ?thesis
    using with_session_outdated [OF changed, of E "\<lambda>_ _. retE PNone"]
      with_session_outdated [OF changed, of E k] by (auto simp: ends_def)
next
  case refused
  then show ?thesis using with_session_refused [of ap sid s E k] assms(1) by (auto simp: ends_def)
qed

lemma ends_create:
  assumes "P s" "fresh token s" "token \<in> tokens"
    and "\<And>p. parent = Some p \<Longrightarrow>
      top_frame_for p s = None \<and> find_row (normalize_session_id p) s \<noteq> None"
    and "\<And>x. keeps P (f x)"
  shows "ends P (bindE (create_session E token wft first parent ft csid mx fp) f) s"
  by (rule ends_bindE) (use creates [OF assms(1-4)] assms(5) in \<open>simp_all add: ends_def\<close>)

lemma ends_start_workflow:
  assumes "P s" "fresh token s" "token \<in> tokens"
  shows "ends P (start_workflow E ap token wft ctx) s"
  unfolding start_workflow_def start_session_def
  by (intro ends_intros ends_create tool_intros assms) simp_all

lemma ends_enter_sub_workflow:
  assumes "P s" "fresh token s" "token \<in> tokens"
  shows "ends P (enter_sub_workflow E ap token psid csid) s"
  unfolding enter_sub_workflow_def enter_checked_def enter_call_step_def enter_child_def
  by (intro ends_intros ends_with_session ends_create tool_intros assms) simp_all

lemma ends_push_flow:
  assumes "P s" "fresh token s" "token \<in> tokens"
  shows "ends P (push_flow E ap token sid wft paused ctx) s"
  unfolding push_flow_def push_guarded_def push_checked_def push_child_def
  by (intro ends_intros ends_with_session ends_create tool_intros assms) simp_all

end

section \<open>Steps of the server\<close>

text \<open>
  One call of one tool by any caller and with any workflows loaded, a start of the process
  (which expires sessions), or time passing. The token of a creating tool is fresh (32 random
  bytes) and taken from \<open>tokens\<close>.
\<close>

inductive tool_step ::
  "'e tool_env_scheme \<Rightarrow> string set \<Rightarrow> world \<Rightarrow> world \<Rightarrow> bool" for e tokens where
  start: "fresh token s \<Longrightarrow> token \<in> tokens \<Longrightarrow>
    tool_step e tokens s (snd (start_workflow e ap token wft ctx s))"
| enter: "fresh token s \<Longrightarrow> token \<in> tokens \<Longrightarrow>
    tool_step e tokens s (snd (enter_sub_workflow e ap token psid csid s))"
| push: "fresh token s \<Longrightarrow> token \<in> tokens \<Longrightarrow>
    tool_step e tokens s (snd (push_flow e ap token sid wft paused ctx s))"
| submit: "tool_step e tokens s (snd (submit_step e ap sid k c br aid s))"
| revise: "tool_step e tokens s (snd (revise_step e ap sid k s))"
| pop: "tool_step e tokens s (snd (pop_flow e ap sid s))"
| delete: "tool_step e tokens s (snd (delete_session_tool e ap sid s))"
| state: "tool_step e tokens s (snd (get_state e ap sid s))"
| guidelines: "tool_step e tokens s (snd (get_guidelines e ap sid s))"
| artifact: "tool_step e tokens s (snd (generate_artifact e ap sid fmt s))"
| workflows: "tool_step e tokens s (snd (list_workflows e ap c s))"
| listing: "tool_step e tokens s (snd (list_sessions_tool e s))"
| boot: "tool_step e tokens s (snd (expire_sessions ttl s))"
| tick: "tool_step e tokens s (s\<lparr>clock := clock s + n\<rparr>)"

sublocale tool_invariant \<subseteq> step_invariant "tool_step E tokens" P
proof unfold_locales
  fix s s' assume "tool_step E tokens s s'" and p: "P s"
  then show "P s'"
  proof cases
    case (start token ap wft ctx)
    with ends_start_workflow [OF p] show ?thesis by (simp add: ends_def)
  next
    case (enter token ap psid csid)
    with ends_enter_sub_workflow [OF p] show ?thesis by (simp add: ends_def)
  next
    case (push token ap sid wft paused ctx)
    with ends_push_flow [OF p] show ?thesis by (simp add: ends_def)
  qed (use p keeps_apply [OF keeps_submit_step] keeps_apply [OF keeps_revise_step]
        keeps_apply [OF keeps_pop_flow] keeps_apply [OF keeps_delete_tool]
        keeps_apply [OF keeps_get_state] keeps_apply [OF keeps_get_guidelines]
        keeps_apply [OF keeps_generate] keeps_apply [OF keeps_list_workflows]
        keeps_apply [OF keeps_list_sessions] keeps_apply [OF expires] ticks in simp_all)
qed

section \<open>The tables\<close>

lemma keeps_on_client: "(\<And>s c. P s \<Longrightarrow> P (s\<lparr>client_state := c\<rparr>)) \<Longrightarrow> keeps P (on_client m)"
  by (auto simp: keeps_def on_client_def split: prod.splits)

lemma db_ok_cong:
  "db_ok d \<Longrightarrow> sessions d' = sessions d \<Longrightarrow> session_stack d' = session_stack d \<Longrightarrow> db_ok d'"
  by (simp add: db_ok_def rows_ok_def stack_ok_def)

lemma db_ok_client [simp]: "db_ok (s\<lparr>client_state := c\<rparr>) = db_ok s"
  by (simp add: db_ok_def rows_ok_def stack_ok_def)

lemma fresh_distinct:
  "fresh token s \<Longrightarrow> find_row (normalize_session_id p) s \<noteq> None \<Longrightarrow>
   normalize_session_id token \<noteq> normalize_session_id p"
  using fresh_row [of token s] by auto

interpretation tables: tool_invariant db_ok E UNIV for E
proof unfold_locales
  fix s :: world and token parent wft first ft csid mx fp
  assume "db_ok s" "fresh token s"
    and "\<And>p. parent = Some p \<Longrightarrow>
      top_frame_for p s = None \<and> find_row (normalize_session_id p) s \<noteq> None"
  then show "db_ok (snd (create_session E token wft first parent ft csid mx fp s))"
    using fresh_distinct [of token s] by (intro create_session_db_ok) auto
qed (auto intro!: inv_intros keeps_on_client elim: db_ok_cong)

text \<open>The number of rows never exceeds the session cap.\<close>

definition within_cap :: "'e base_env_scheme \<Rightarrow> world \<Rightarrow> bool" where
  "within_cap e s \<longleftrightarrow>
     db_ok s \<and> (1 \<le> session_cap e \<longrightarrow> int (length (sessions s)) \<le> session_cap e)"

lemma keeps_conj:
  assumes "keeps P m" and "\<And>s. P s \<Longrightarrow> Q s \<Longrightarrow> Q (snd (m s))"
  shows "keeps (\<lambda>s. P s \<and> Q s) m"
  using assms by (simp add: keeps_def)

lemma keeps_within_cap:
  assumes "keeps db_ok m" and "\<And>s. length (sessions (snd (m s))) \<le> length (sessions s)"
  shows "keeps (within_cap e) m"
  unfolding within_cap_def
proof (rule keeps_conj [OF assms(1)])
  fix s :: world assume "1 \<le> session_cap e \<longrightarrow> int (length (sessions s)) \<le> session_cap e"
  with assms(2) [of s]
  show "1 \<le> session_cap e \<longrightarrow> int (length (sessions (snd (m s)))) \<le> session_cap e" by linarith
qed

lemma length_del_rows: "length (sessions (del_rows ids d)) \<le> length (sessions d)"
  by (simp add: sessions_del_rows)

context row_update
begin

lemma length_kept: "length (sessions (snd (op sid d))) = length (sessions d)"
  using ids_kept [of sid d] by (metis length_map)

end

lemma length_update_session:
  "length (sessions (snd (update_session sid cur data d))) = length (sessions d)"
  by (cases "find_row (normalize_session_id sid) d") (simp_all add: act_simps)

lemma length_delete_session:
  "length (sessions (snd (delete_session e sid d))) \<le> length (sessions d)"
  by (simp add: delete_session_def transaction_def Let_def length_del_rows split: option.splits)

lemma length_set_called_session:
  "length (sessions (snd (set_called_session p c k d))) = length (sessions d)"
  by (simp add: set_called_session_def transaction_def Let_def split: option.splits prod.splits)

lemma length_expire_sessions:
  "length (sessions (snd (expire_sessions ttl d))) \<le> length (sessions d)"
  by (simp add: expire_sessions_def transaction_def Let_def length_del_rows)

lemma create_session_cases:
  obtains sid where "fst (create_session e token wft cur parent ft csid m fp d) = Inr sid"
  | "snd (create_session e token wft cur parent ft csid m fp d) = d"
proof (cases "fst (create_session e token wft cur parent ft csid m fp d)")
  case (Inl x)
  then have "snd (create_session e token wft cur parent ft csid m fp d) = d"
    unfolding create_session_def Let_def by (rule transaction_err)
  then show ?thesis by (rule that(2))
qed (rule that(1))

interpretation cap: tool_invariant "within_cap E" E UNIV for E :: "'e tool_env_scheme"
proof unfold_locales
  fix s :: world and token parent wft first ft csid mx fp
  let ?r = "create_session E token wft first parent ft csid mx fp s"
  assume cap: "within_cap E s" and "fresh token s"
    and "\<And>p. parent = Some p \<Longrightarrow>
      top_frame_for p s = None \<and> find_row (normalize_session_id p) s \<noteq> None"
  then have "db_ok (snd ?r)"
    using fresh_distinct [of token s] by (intro create_session_db_ok) (auto simp: within_cap_def)
  moreover have "int (length (sessions (snd ?r))) \<le> session_cap E" if "1 \<le> session_cap E"
  proof (cases rule: create_session_cases [of E token wft first parent ft csid mx fp s])
    case (1 sid)
    have "rows_ok s" using cap by (simp add: within_cap_def db_ok_def)
    from evict_bound [OF this that]
      create_session_rows(1) [of E token wft first parent ft csid mx fp s sid "snd ?r"] 1
    show ?thesis by (metis (no_types, lifting) diff_add_cancel add_mono_thms_linordered_semiring(3)
        length_append_singleton of_nat_Suc add.commute prod.collapse)
  next
    case 2
    with cap that show ?thesis by (simp add: within_cap_def)
  qed
  ultimately show "within_cap E (snd ?r)" by (simp add: within_cap_def)
qed (auto intro!: keeps_within_cap inv_intros keeps_on_client
      simp: retry.length_kept visit.length_kept escalate.length_kept store.length_kept
        invalidate.length_kept clear_key.length_kept length_update_session length_delete_session
        length_set_called_session length_expire_sessions within_cap_def elim: db_ok_cong)

section \<open>The life of one session row\<close>

text \<open>
  What may happen to a row while it exists: its identity columns stay, an escalation stays
  set, and the retry and visit counters only grow.
\<close>

definition evolves :: "session_row \<Rightarrow> session_row \<Rightarrow> bool" where
  "evolves r r' \<longleftrightarrow>
     same_identity r r' \<and> (escalation r \<noteq> None \<longrightarrow> escalation r' \<noteq> None) \<and>
     (\<forall>k. dget_or (retry_counts r) k 0 \<le> dget_or (retry_counts r') k 0) \<and>
     (\<forall>k. dget_or (step_visit_counts r) k 0 \<le> dget_or (step_visit_counts r') k 0)"

lemma evolves_refl [simp]: "evolves r r"
  by (simp add: evolves_def same_identity_def)

lemma evolves_trans: "evolves r r1 \<Longrightarrow> evolves r1 r2 \<Longrightarrow> evolves r r2"
  unfolding evolves_def same_identity_def by (metis order_trans)

definition lives :: "string \<Rightarrow> session_row \<Rightarrow> world \<Rightarrow> bool" where
  "lives x r0 s \<longleftrightarrow> (\<forall>r. find_row x s = Some r \<longrightarrow> evolves r0 r)"

lemma keeps_lives:
  assumes "\<And>s r'. find_row x (snd (m s)) = Some r' \<Longrightarrow> \<exists>r. find_row x s = Some r \<and> evolves r r'"
  shows "keeps (lives x r0) m"
proof (rule keepsI)
  fix s assume p: "lives x r0 s"
  show "lives x r0 (snd (m s))"
    unfolding lives_def
  proof (intro allI impI)
    fix r' assume "find_row x (snd (m s)) = Some r'"
    from assms [OF this] p show "evolves r0 r'" unfolding lives_def by (blast intro: evolves_trans)
  qed
qed

context row_update
begin

lemma op_row_step:
  assumes refl: "\<And>r. R r r" and step: "\<And>t r. R r ((change t r)\<lparr>updated_at := t\<rparr>)"
    and after: "find_row x (snd (op sid d)) = Some r'"
  shows "\<exists>r. find_row x d = Some r \<and> R r r'"
proof (cases "find_row (normalize_session_id sid) d")
  case None
  with after refl show ?thesis by (auto simp: missing)
next
  case (Some r)
  show ?thesis
  proof (cases "x = normalize_session_id sid")
    case True
    with after step Some show ?thesis by (auto simp: row_after [OF Some])
  next
    case False
    with after refl show ?thesis by (auto simp: others_kept)
  qed
qed

end

lemma evolves_updated_at [simp]: "evolves r (r'\<lparr>updated_at := t\<rparr>) = evolves r r'"
  by (simp add: evolves_def same_identity_def)

lemma evolves_upd:
  "evolves r (r\<lparr>step_data := x\<rparr>)"
  "evolves r (r\<lparr>retry_counts := dput k (dget_or (retry_counts r) k 0 + 1) (retry_counts r)\<rparr>)"
  "evolves r (r\<lparr>step_visit_counts := dput k (dget_or (step_visit_counts r) k 0 + 1) (step_visit_counts r)\<rparr>)"
  "evolves r (r\<lparr>escalation := Some esc\<rparr>)" "evolves r (r\<lparr>artifact_checkpoints := a\<rparr>)"
  "evolves r (r\<lparr>called_session := c\<rparr>)" "evolves r (written cur data t r)"
  by (simp_all add: evolves_def same_identity_def dget_or_def written_def Let_def split: option.splits)

text \<open>How a row is related to the one before, for a reflexive relation \<open>R\<close>.\<close>

lemma find_row_upd_step:
  assumes after: "find_row x (upd_row i g d) = Some r'" and refl: "\<And>r. R r r"
    and step: "\<And>r. R r (g r)" and same: "\<And>r. session_id (g r) = session_id r"
  shows "\<exists>r. find_row x d = Some r \<and> R r r'"
proof -
  have "find_row x (upd_row i g d) = (if x = i then map_option g (find_row x d) else find_row x d)"
    using same by (intro find_row_upd_row) simp
  with after step refl show ?thesis by (auto split: if_splits)
qed

lemma row_of_subset:
  assumes "find_row x d' = None \<or> find_row x d' = find_row x d" and "find_row x d' = Some r" and "R r r"
  shows "\<exists>r0. find_row x d = Some r0 \<and> R r0 r"
  using assms by (intro exI [of _ r]) auto

lemma delete_session_row:
  "find_row x (snd (delete_session e sid d)) = None \<or>
   find_row x (snd (delete_session e sid d)) = find_row x d"
  by (simp add: delete_session_def transaction_def Let_def split: option.splits)

lemma expire_sessions_row:
  "find_row x (snd (expire_sessions ttl d)) = None \<or>
   find_row x (snd (expire_sessions ttl d)) = find_row x d"
  by (simp add: expire_sessions_def transaction_def Let_def)

lemma find_row_stack_upd [simp]: "find_row x (d\<lparr>session_stack := st\<rparr>) = find_row x d"
  by (simp add: find_row_def)

lemma set_called_session_row:
  assumes row: "find_row x (snd (set_called_session p c k d)) = Some r'" and refl: "\<And>r. R r r"
    and step: "\<And>r c t. R r (r\<lparr>called_session := c, updated_at := t\<rparr>)"
  shows "\<exists>r. find_row x d = Some r \<and> R r r'"
proof -
  let ?u = "upd_row (normalize_session_id p)
    (\<lambda>r. r\<lparr>called_session := map_option normalize_session_id c, updated_at := clock d\<rparr>) d"
  have "find_row x (snd (set_called_session p c k d)) = find_row x ?u \<or>
        find_row x (snd (set_called_session p c k d)) = find_row x d"
    by (simp add: set_called_session_def transaction_def Let_def split: option.splits prod.splits)
  then show ?thesis
  proof
    assume "find_row x (snd (set_called_session p c k d)) = find_row x ?u"
    with row have "find_row x ?u = Some r'" by simp
    then show ?thesis by (rule find_row_upd_step) (simp_all add: refl step)
  next
    assume "find_row x (snd (set_called_session p c k d)) = find_row x d"
    with row refl show ?thesis by auto
  qed
qed

lemma update_session_row:
  assumes row: "find_row x (snd (update_session sid cur data d)) = Some r'" and refl: "\<And>r. R r r"
    and step: "\<And>r t. R r ((written cur data t r)\<lparr>updated_at := t\<rparr>)"
  shows "\<exists>r. find_row x d = Some r \<and> R r r'"
proof (cases "find_row (normalize_session_id sid) d")
  case None
  with row refl show ?thesis by (auto simp: act_simps)
next
  case (Some r)
  have same: "session_id ((written cur data t r)\<lparr>updated_at := t\<rparr>) = session_id r" for r t
    using evolves_upd(7) [of r cur data t] by (simp add: evolves_def same_identity_def)
  from row show ?thesis unfolding update_session_ok [OF Some]
    unfolding snd_conv by (rule find_row_upd_step) (simp_all only: refl step same)
qed

lemma find_snoc_other: "\<not> P x \<Longrightarrow> find P (xs @ [x]) = find P xs"
  by (induction xs) auto

lemma create_session_row:
  assumes "x \<noteq> normalize_session_id token"
    and "find_row x (snd (create_session e token wft cur parent ft csid m fp d)) = Some r'"
  shows "find_row x d = Some r'"
proof (cases rule: create_session_cases [of e token wft cur parent ft csid m fp d])
  case (1 sid)
  let ?d' = "snd (create_session e token wft cur parent ft csid m fp d)"
  have rows: "sessions ?d' = sessions (evict_over_cap (session_cap e) d) @
      [new_row sid wft cur (map_option normalize_session_id parent) fp (clock d)]"
    and "sid = normalize_session_id token"
    using create_session_rows [of e token wft cur parent ft csid m fp d sid ?d'] 1
    by (metis prod.collapse)+
  with assms have "find_row x (evict_over_cap (session_cap e) d) = Some r'"
    by (simp add: find_row_def new_row_def find_snoc_other)
  then show ?thesis
    by (cases rule: evict_cases [of "session_cap e" d]) (auto split: if_splits)
next
  case 2
  with assms show ?thesis by simp
qed

lemmas row_steps = update_session_row row_of_subset [OF delete_session_row] set_called_session_row
  row_of_subset [OF expire_sessions_row] visit.op_row_step [rotated 2] retry.op_row_step [rotated 2]
  escalate.op_row_step [rotated 2] store.op_row_step [rotated 2] invalidate.op_row_step [rotated 2]
  clear_key.op_row_step [rotated 2]

lemma lives_kept:
  "keeps (lives x r0) (update_session sid cur data)"
  "keeps (lives x r0) (delete_session e sid)"
  "keeps (lives x r0) (set_called_session sid child csid)"
  "keeps (lives x r0) (expire_sessions ttl)"
  "keeps (lives x r0) (increment_visit sid k)"
  "keeps (lives x r0) (increment_retry sid k)"
  "keeps (lives x r0) (set_escalation sid g m)"
  "keeps (lives x r0) (store_artifact sid k a c)"
  "keeps (lives x r0) (invalidate_steps_after sid ks)"
  "keeps (lives x r0) (clear_step_data_key sid k)"
  by (rule keeps_lives; erule row_steps; simp add: evolves_upd evolves_upd [simplified])+

interpretation row: tool_invariant "lives x r0" E "{t. normalize_session_id t \<noteq> x}" for x r0 E
proof unfold_locales
  fix s :: world and token parent wft first ft csid mx fp
  assume "lives x r0 s" and "token \<in> {t. normalize_session_id t \<noteq> x}"
  then show "lives x r0 (snd (create_session E token wft first parent ft csid mx fp s))"
    unfolding lives_def by (blast dest: create_session_row [rotated])
next
  show "lives x r0 (s\<lparr>clock := clock s + n\<rparr>)" if "lives x r0 s" for s n
    using that by (simp add: lives_def find_row_def)
next
  fix call :: "(client, pyval) act"
  show "keeps (lives x r0) (on_client call)"
    by (rule keeps_on_client) (simp add: lives_def find_row_def)
qed (rule lives_kept)+

end
