(* ===== verification/Scenario.thy ===== *)
theory Scenario
  imports ToolInvariants "HOL-Library.Code_Target_Nat"
begin

text \<open>
  A concrete process for the witnesses: an environment with every parameter given by a
  computable function, an application with four small workflows, and an empty database.
\<close>

definition plain_step :: "string \<Rightarrow> step" where
  "plain_step i =
     \<lparr>st_id = i, st_title = PStr i, st_action = None,
      st_directive_template = Some (PStr ''Do it.''), st_gates = Some (PList []),
      st_anti_patterns = Some (PList []), st_output_schema = None, st_max_retries = None,
      st_validation_hint = None, st_inject_context = [], st_branches = [],
      st_default_branch = None, st_precondition = None, st_call = None,
      st_call_context_from = None, st_directives = None, st_intermediate_artifacts = [],
      st_output_from = None, st_server = None, st_tool = None, st_args = None,
      st_timeout = None\<rparr>"

definition plain_workflow :: "string \<Rightarrow> step list \<Rightarrow> workflow" where
  "plain_workflow name ss =
     \<lparr>wf_name = name, wf_description = PStr name, wf_category = ''professional'',
      wf_steps = ss, wf_guardrails = [], wf_conversation_repair = [], wf_doc = PStr name\<rparr>"

text \<open>\<open>essay\<close>: two plain steps. \<open>outer\<close>: a call of \<open>essay\<close>, then a plain step.\<close>

definition essay :: workflow where
  "essay = plain_workflow ''essay'' [plain_step ''plan'', plain_step ''draft'']"

definition outer :: workflow where
  "outer = plain_workflow ''outer''
     [(plain_step ''delegate'')\<lparr>st_call := Some ''essay''\<rparr>, plain_step ''close'']"

text \<open>The schema check of the scenario: a document with a key \<open>required\<close> accepts dictionaries.\<close>

definition demo_env :: tool_env where
  "demo_env =
     \<lparr>sha256_hex = (\<lambda>s. ''#'' @ s), session_cap = 4,
      getenv = (\<lambda>_. Some ''secret''),
      net_list = (\<lambda>n srv tok t. Inr [(''echo'', PDict [(''type'', PStr ''object'')])]),
      net_call = (\<lambda>n srv tok t tool args.
        Inr \<lparr>is_error = False, content_blocks = [Some (json_dumps args)]\<rparr>),
      draft7_compile = (\<lambda>_. None), draft7_validate = (\<lambda>_ _. None),
      schema_errors = (\<lambda>schema v. if is_dict v then [] else [(''$'', ''not an object'')]),
      re_search = (\<lambda>p s. Some (contains s p)), loads_error = (\<lambda>_. ''Expecting value''),
      isoformat = (\<lambda>t. str_nat t), fuel = 8\<rparr>"

definition fetch_step :: step where
  "fetch_step = (plain_step ''fetch'')
     \<lparr>st_action := Some ''mcp_tool_call'', st_directive_template := None,
      st_server := Some ''srv'', st_tool := Some ''echo'',
      st_args := Some (PDict [(''q'', PStr ''${step_data.ask}'')])\<rparr>"

definition research :: workflow where
  "research = plain_workflow ''research'' [plain_step ''ask'', fetch_step, plain_step ''use'']"

text \<open>\<open>strict\<close>: an output schema on the first step and a guardrail that escalates.\<close>

definition mayday :: guardrail where
  "mayday = \<lparr>gr_id = ''g1'', gr_trigger = KeywordMatch [''mayday''], gr_action = Escalate,
     gr_message = ''stop'', gr_target_step = None\<rparr>"

definition form_step :: step where
  "form_step = (plain_step ''form'')
     \<lparr>st_output_schema := Some (PDict [(''type'', PStr ''object'')])\<rparr>"

definition strict :: workflow where
  "strict = (plain_workflow ''strict'' [form_step, plain_step ''sign''])
     \<lparr>wf_guardrails := [mayday]\<rparr>"

definition demo_registry :: registry where
  "demo_registry = [(''srv'', \<lparr>server_name = ''srv'', url = ''http://srv'', transport = ''http'',
     auth = \<lparr>auth_type = ''bearer'', token_env = ''TOK''\<rparr>, timeout_default = None\<rparr>)]"

definition demo_app :: app where
  "demo_app =
     \<lparr>app_workflows = [(''essay'', essay), (''outer'', outer), (''research'', research),
        (''strict'', strict)],
      app_fingerprints = [(''essay'', ''v1''), (''outer'', ''v1''), (''research'', ''v1''),
        (''strict'', ''v1'')],
      app_registry = Some demo_registry, app_caller = Anonymous\<rparr>"

definition empty_world :: world where
  "empty_world = \<lparr>sessions = [], session_stack = [], clock = 0,
     client_state = \<lparr>validator_cache = [], net_ops = 0\<rparr>\<rparr>"

text \<open>A session row at a given step, and a world with given rows and frames.\<close>

definition demo_row :: "string \<Rightarrow> string \<Rightarrow> string \<Rightarrow> session_row" where
  "demo_row sid wft cur = new_row sid wft cur None ''v1'' 0"

definition demo_world :: "session_row list \<Rightarrow> frame list \<Rightarrow> world" where
  "demo_world rs fs = empty_world\<lparr>sessions := rs, session_stack := fs\<rparr>"

text \<open>The states the instances below start from: the session \<open>s1\<close>, with or without a child.\<close>

definition solo :: "string \<Rightarrow> string \<Rightarrow> world" where
  "solo wft cur = demo_world [demo_row ''s1'' wft cur] []"

definition with_child :: "string \<Rightarrow> string \<Rightarrow> frame_type \<Rightarrow> string \<Rightarrow> world" where
  "with_child wft cur ft child_cur =
     demo_world [demo_row ''s1'' wft cur, demo_row ''c1'' ''essay'' child_cur]
       [\<lparr>frame_session_id = ''c1'', root_session_id = ''s1'', depth = 1, frame_type = ft,
         call_step_id = Some cur, frame_created_at = 0\<rparr>]"

lemmas scenario_defs =
  plain_step_def plain_workflow_def essay_def outer_def research_def fetch_step_def demo_env_def
  demo_registry_def demo_app_def empty_world_def demo_row_def demo_world_def new_row_def
  mayday_def form_step_def strict_def solo_def with_child_def

end
