(* ===== verification/SubmitProps.thy ===== *)
theory SubmitProps
  imports Scenario
begin

text \<open>
  What \<open>submit_step\<close> does on each branch: the guards leave the database alone, an accepted
  submission advances the session as the workflow says, an invalid one is charged to the
  retry budget, an escalating guardrail stops the session.
\<close>

section \<open>From the tool to its checked body\<close>

lemma trap_ok [simp]: "m s = (Inr x, s') \<Longrightarrow> trap_errors e f i m s = (Inr x, s')"
  by (simp add: trap_errors_def)

lemma snd_trap [simp]: "snd (trap_errors e f i m s) = snd (m s)"
  by (simp add: trap_errors_def split: prod.splits sum.splits exn.splits)

lemma as_str_PStr [simp]: "as_str (PStr x) = x"
  by (simp add: as_str_def)

lemma check_str_ok [simp]: "check_str (PStr x) name req = None \<longleftrightarrow> \<not> req \<or> x \<noteq> []"
  by (simp add: check_str_def)

lemma check_str_None [simp]:
  "x \<noteq> [] \<Longrightarrow> check_str (PStr x) name req = None" "check_str (PStr x) name False = None"
  by (simp_all add: check_str_def)

lemma guard_args_ok: "first_err cs = None \<Longrightarrow> guard_args cs m = m"
  by (simp add: guard_args_def)

lemma guard_args_cases: "guard_args cs m s = m s \<or> (\<exists>r. guard_args cs m s = (Inr r, s))"
  by (simp add: guard_args_def split: option.splits)

lemma first_err_None: "first_err cs = None \<longleftrightarrow> (\<forall>c\<in>set cs. c = None)"
  by (induction cs rule: first_err.induct) auto

lemma snd_guard_args: "snd (guard_args cs m s) = s \<or> snd (guard_args cs m s) = snd (m s)"
  by (simp add: guard_args_def split: option.splits)

text \<open>The session is live, not escalated, at step \<open>k\<close>, has no frame above, and \<open>k\<close> is a plain step.\<close>

definition submittable ::
  "app \<Rightarrow> string \<Rightarrow> world \<Rightarrow> session_row \<Rightarrow> workflow \<Rightarrow> nat \<Rightarrow> step \<Rightarrow> string \<Rightarrow> string \<Rightarrow> bool" where
  "submittable ap sid s r w i st k c \<longleftrightarrow>
     resolves ap sid s r w \<and> sid \<noteq> [] \<and> k \<noteq> [] \<and> escalation r = None \<and>
     current_step r = k \<and> k \<noteq> COMPLETE \<and> utf8_len c \<le> CONTENT_MAX \<and>
     top_frame_for sid s = None \<and> find_step w k = Some (i, st) \<and> st_call st = None"

lemma submit_step_submittable:
  assumes "submittable ap sid s r w i st k c"
  shows "submit_step e ap (PStr sid) (PStr k) (PStr c) (PStr br) (PStr aid) s =
    trap_errors e ''content'' (Some sid)
      (if st_intermediate_artifacts st \<noteq> []
       then submit_artifact e ap sid (row_to_session e r) w i st k c br aid
       else submit_output e ap sid (row_to_session e r) w i st k c br) s"
proof -
  have g: "submit_session_guard (row_to_session e r) k c = None"
    using assms by (simp add: submittable_def submit_session_guard_def)
  have b: "with_session e ap sid (submit_checked e ap sid k c br aid) s =
      (if st_intermediate_artifacts st \<noteq> []
       then submit_artifact e ap sid (row_to_session e r) w i st k c br aid
       else submit_output e ap sid (row_to_session e r) w i st k c br) s"
    using assms with_session_ok [of ap sid s r w e] g
    by (simp add: submittable_def submit_checked_def)
  have a: "guard_args [check_str (PStr sid) ''session_id'' True, check_str (PStr k) ''step_id'' True,
      check_str (PStr c) ''content'' False, check_str (PStr br) ''branch'' False,
      check_str (PStr aid) ''artifact_id'' False] m = m" for m
    using assms by (intro guard_args_ok) (simp add: submittable_def first_err_None)
  show ?thesis
    unfolding submit_step_def as_str_PStr a by (simp add: trap_errors_def b)
qed

section \<open>An accepted submission\<close>

lemma auto_execute_stop:
  assumes "find_step w nxt = Some (j, st)" and "st_action st \<noteq> Some ''mcp_tool_call''" and "0 < n"
  shows "auto_execute_mcp_steps n e ap nxt w sid data = retE (nxt, None, data)"
  using assms by (cases n) simp_all

lemma auto_execute_complete:
  "0 < n \<Longrightarrow> auto_execute_mcp_steps n e ap COMPLETE w sid data = retE (COMPLETE, None, data)"
  by (cases n) simp_all

text \<open>The state after \<open>increment_visit\<close> and \<open>update_session\<close> at the end of an advance.\<close>

definition advanced :: "string \<Rightarrow> (string, string) dict \<Rightarrow> nat \<Rightarrow> session_row \<Rightarrow> session_row" where
  "advanced nxt data t r =
     (let r1 = (if nxt = COMPLETE then r\<lparr>completed_at := Some t\<rparr>
                else r\<lparr>step_visit_counts :=
                  dput nxt (dget_or (step_visit_counts r) nxt 0 + 1) (step_visit_counts r)\<rparr>)
      in r1\<lparr>current_step := nxt, step_data := data, updated_at := t\<rparr>)"

lemma advanced_simps [simp]:
  "session_id (advanced nxt data t r) = session_id r"
  "current_step (advanced nxt data t r) = nxt"
  "step_data (advanced nxt data t r) = data"
  "updated_at (advanced nxt data t r) = t"
  "retry_counts (advanced nxt data t r) = retry_counts r"
  "escalation (advanced nxt data t r) = escalation r"
  "nxt \<noteq> COMPLETE \<Longrightarrow> dget_or (step_visit_counts (advanced nxt data t r)) nxt 0 =
     dget_or (step_visit_counts r) nxt 0 + 1"
  "completed_at (advanced COMPLETE data t r) = Some t"
  by (simp_all add: advanced_def Let_def)

lemma upd_row_upd_row:
  "(\<And>r. session_id r = sid \<Longrightarrow> session_id (g r) = sid) \<Longrightarrow>
   upd_row sid h (upd_row sid g d) = upd_row sid (h \<circ> g) d"
  by (simp add: upd_row_def comp_def)

lemma upd_row_cong:
  "(\<And>r. r \<in> set (sessions d) \<Longrightarrow> session_id r = sid \<Longrightarrow> g r = h r) \<Longrightarrow> upd_row sid g d = upd_row sid h d"
  unfolding upd_row_def by (rule arg_cong [where f = "\<lambda>x. d\<lparr>sessions := x\<rparr>"]) simp

lemma find_row_upd_found:
  assumes "find_row sid d = Some r" and "session_id r' = sid"
  shows "find_row x (upd_row sid (\<lambda>_. r') d) = (if x = sid then Some r' else find_row x d)"
  using assms by (simp add: find_row_upd_row)

lemma advance_writes:
  assumes row: "find_row (normalize_session_id sid) s = Some r"
  shows "\<exists>s'. seqE (if nxt \<noteq> COMPLETE then bindE (increment_visit sid nxt) (\<lambda>_. retE ()) else retE ())
      (seqE (update_session sid (Some nxt) (Some data)) k) s = k s' \<and>
    find_row (normalize_session_id sid) s' = Some (advanced nxt data (clock s) r) \<and>
    (\<forall>x. x \<noteq> normalize_session_id sid \<longrightarrow> find_row x s' = find_row x s) \<and>
    session_stack s' = session_stack s \<and> db.more s' = db.more s"
proof -
  let ?w = "\<lambda>d. upd_row (normalize_session_id sid)
    (\<lambda>r. (written (Some nxt) (Some data) (clock d) r)\<lparr>updated_at := clock d\<rparr>) d"
  show ?thesis
  proof (cases "nxt = COMPLETE")
  case True
  note u = update_session_ok [OF row, of "Some COMPLETE" "Some data"]
  show ?thesis
    using True find_row_id [OF row]
    by (intro exI [of _ "?w s"]) (simp add: u find_row_upd_row row advanced_def written_def)
next
  case False
  define r1 where "r1 = r\<lparr>step_visit_counts :=
      dput nxt (dget_or (step_visit_counts r) nxt 0 + 1) (step_visit_counts r),
      updated_at := clock s\<rparr>"
  define s1 where "s1 = upd_row (normalize_session_id sid) (\<lambda>_. r1) s"
  have v: "increment_visit sid nxt s = (Inr (dget_or (step_visit_counts r) nxt 0 + 1), s1)"
    unfolding s1_def r1_def by (rule visit.present [OF row])
  have id1: "session_id r1 = normalize_session_id sid"
    using find_row_id [OF row] by (simp add: r1_def)
  have row1: "find_row x s1 = (if x = normalize_session_id sid then Some r1 else find_row x s)" for x
    unfolding s1_def by (rule find_row_upd_found [OF row id1])
  have u: "update_session sid (Some nxt) (Some data) s1 = (Inr (), ?w s1)"
    by (rule update_session_ok) (simp add: row1)
  have more: "session_stack s1 = session_stack s" "db.more s1 = db.more s" "clock s1 = clock s"
    by (simp_all add: s1_def)
  have adv: "(written (Some nxt) (Some data) (clock s) r1)\<lparr>updated_at := clock s\<rparr> =
      advanced nxt data (clock s) r"
    using False by (simp add: advanced_def written_def r1_def)
  have rows: "find_row x (?w s1) = (if x = normalize_session_id sid
      then Some (advanced nxt data (clock s) r) else find_row x s)" for x
    by (simp add: find_row_upd_row row1 more adv)
  show ?thesis
    using False by (intro exI [of _ "?w s1"]) (simp add: v u rows more(1,2))
  qed
qed

text \<open>
  What a submission may choose, written out: the target of a guardrail that forces a branch; else,
  at a step with branches, one of their targets, the one the client names or the default; else the
  next step of the workflow, and the end after its last one. Only a forced choice is not skipped.
\<close>

definition elects ::
  "workflow \<Rightarrow> nat \<Rightarrow> step \<Rightarrow> string \<Rightarrow> guardrail option \<Rightarrow> string \<Rightarrow> bool \<Rightarrow> bool" where
  "elects w i st br fired nxt0 forced \<longleftrightarrow>
     (if case fired of Some g \<Rightarrow> gr_action g = ForceBranch | None \<Rightarrow> False
      then gr_target_step (the fired) = Some nxt0 \<and> forced
      else \<not> forced \<and>
        (if st_branches st = []
         then nxt0 = (if i + 1 < length (wf_steps w) then st_id (wf_steps w ! (i + 1)) else COMPLETE)
         else nxt0 \<in> br_next ` set (st_branches st) \<and>
              (if br = [] then st_default_branch st = Some nxt0 else nxt0 = br)))"

lemma elects_choice:
  assumes "elects w i st br fired nxt0 forced"
  shows "choose_next ses w i st k br fired = Inr (Inr (nxt0, forced))"
  using assms
  by (auto simp: elects_def choose_next_def branch_or_linear_def linear_next_def step_key_def
      split: option.splits if_splits)

text \<open>
  The facts of one accepted submission: \<open>fired\<close> is the guardrail that fired, \<open>nxt0\<close> the
  step the branch, the guardrail or the order of steps chose, \<open>nxt\<close> the one left after skipping.
\<close>

definition chooses ::
  "'e tool_env_scheme \<Rightarrow> session_row \<Rightarrow> workflow \<Rightarrow> nat \<Rightarrow> step \<Rightarrow> string \<Rightarrow> string \<Rightarrow> string
   \<Rightarrow> guardrail option \<Rightarrow> string \<Rightarrow> bool" where
  "chooses e r w i st k c br fired nxt \<longleftrightarrow>
     st_intermediate_artifacts st = [] \<and> validate_output e c st = None \<and>
     evaluate_guardrails e (wf_guardrails w) c (dput k c (step_data r)) (step_visit_counts r) k
       = Inr fired \<and>
     (case fired of None \<Rightarrow> True | Some g \<Rightarrow> gr_action g \<noteq> Escalate) \<and>
     (\<exists>nxt0 forced sk. elects w i st br fired nxt0 forced \<and>
        apply_skip_loop (fuel e) nxt0 w (dput k c (step_data r)) forced = Inr (nxt, sk))"

lemma submit_chooses:
  assumes sub: "submittable ap sid s r w i st k c" and ch: "chooses e r w i st k c br fired nxt"
    and stop: "auto_execute_mcp_steps (fuel e) e ap nxt w sid (dput k c (step_data r)) =
      retE (nxt, None, dput k c (step_data r))"
  shows "submit_step e ap (PStr sid) (PStr k) (PStr c) (PStr br) (PStr aid) s =
    trap_errors e ''content'' (Some sid)
      (commit_advance e ap sid (row_to_session e r) w nxt (dput k c (step_data r))
        (submit_response sid w i st fired [] nxt)) s"
proof -
  from ch obtain nxt0 forced sk where
    el: "elects w i st br fired nxt0 forced"
    and sk: "apply_skip_loop (fuel e) nxt0 w (dput k c (step_data r)) forced = Inr (nxt, sk)"
    by (auto simp: chooses_def)
  note c = elects_choice [OF el]
  have "accept_submission e ap sid (row_to_session e r) w i st k c br [] s =
      commit_advance e ap sid (row_to_session e r) w nxt (dput k c (step_data r))
        (submit_response sid w i st fired [] nxt) s"
    using ch c by (cases fired)
      (simp_all add: chooses_def accept_submission_def advance_def sk stop)
  then show ?thesis
    using ch unfolding submit_step_submittable [OF sub]
    by (simp add: chooses_def submit_output_def trap_errors_def)
qed

text \<open>
  C3. A session that is live and not escalated, with no frame above it, submits content that
  fits the size cap and the output schema for its current step, a step without call and without
  intermediate artifacts, and no escalating guardrail fires. If the step chosen next (the target
  of a guardrail that forces a branch; else the branch named or the default; else the next in
  order; then past the steps the skip loop passes) is not the end and is an existing step with
  directive fields that is no \<open>mcp_tool_call\<close>, then the content is stored under the
  step, the session moves to the chosen one and its visit is counted, the answer carries that
  next step, and no other row, no frame and no client state is touched.
\<close>

theorem submit_step_advances:
  assumes sub: "submittable ap sid s r w i st k c"
    and ch: "chooses e r w i st k c br fired nxt"
    and nxt: "nxt \<noteq> COMPLETE" "find_step w nxt = Some (j, st')"
      "st_action st' \<noteq> Some ''mcp_tool_call''" "directive_fields w st' = Inr ds" "0 < fuel e"
  shows "\<exists>fs s'. submit_step e ap (PStr sid) (PStr k) (PStr c) (PStr br) (PStr aid) s =
      (Inr (PDict ((''session_id'', PStr sid) # (''submitted'', PDict (step_head st)) # fs)), s') \<and>
    (''next_step'', PDict (step_head st' @ call_target_field st')) \<in> set fs \<and>
    find_row (normalize_session_id sid) s' =
      Some (advanced nxt (dput k c (step_data r)) (clock s) r) \<and>
    (\<forall>x. x \<noteq> normalize_session_id sid \<longrightarrow> find_row x s' = find_row x s) \<and>
    session_stack s' = session_stack s \<and> client_state s' = client_state s"
proof -
  have row: "find_row (normalize_session_id sid) s = Some r"
    using sub by (simp add: submittable_def resolves_def)
  note stop = auto_execute_stop [OF nxt(2,3,5)]
  let ?d = "dput k c (step_data r)"
  let ?k = "bindE (getE (parent_of sid)) (\<lambda>parent.
      if nxt = COMPLETE \<and> parent \<noteq> None
      then auto_resume_on_top_frame_complete e ap (session_id (row_to_session e r)) ?d w
      else liftE (submit_response sid w i st fired [] nxt ?d))"
  obtain s' where s': "commit_advance e ap sid (row_to_session e r) w nxt ?d
        (submit_response sid w i st fired [] nxt) s = ?k s'"
    "find_row (normalize_session_id sid) s' = Some (advanced nxt ?d (clock s) r)"
    "\<forall>x. x \<noteq> normalize_session_id sid \<longrightarrow> find_row x s' = find_row x s"
    "session_stack s' = session_stack s" "db.more s' = db.more s"
    unfolding commit_advance_def using advance_writes [OF row, of nxt ?d ?k] by blast
  have resp: "submit_response sid w i st fired [] nxt ?d =
      Inr (PDict ((''session_id'', PStr sid) # (''submitted'', PDict (step_head st)) #
        (''progress'', PStr (progress_text i w '' complete'')) # warning_field fired @
        (''next_step'', PDict (step_head st' @ call_target_field st')) # ds @
        injected_field st' ?d @ directives_field st' @ branch_fields st'))"
    using nxt by (simp add: submit_response_def next_fields_def)
  have "client_state s' = client_state s" using s'(5) by (cases s; cases s') simp
  then show ?thesis
    unfolding submit_chooses [OF sub ch stop] using s' nxt(1) resp
    by (auto simp: trap_errors_def)
qed

text \<open>
  When the chosen next step is the end of the workflow, the submission of a root session answers
  \<open>workflow_complete\<close>, stores the content, stamps the completion time on that row
  and changes no other row and no frame.
\<close>

theorem submit_step_completes:
  assumes sub: "submittable ap sid s r w i st k c"
    and ch: "chooses e r w i st k c br fired COMPLETE"
    and root: "parent_of sid s = None" and fuel: "0 < fuel e"
  shows "\<exists>fs s'. submit_step e ap (PStr sid) (PStr k) (PStr c) (PStr br) (PStr aid) s =
      (Inr (PDict fs), s') \<and>
    (''status'', PStr ''workflow_complete'') \<in> set fs \<and>
    find_row (normalize_session_id sid) s' =
      Some (advanced COMPLETE (dput k c (step_data r)) (clock s) r) \<and>
    (\<forall>x. x \<noteq> normalize_session_id sid \<longrightarrow> find_row x s' = find_row x s) \<and>
    session_stack s' = session_stack s"
proof -
  have row: "find_row (normalize_session_id sid) s = Some r"
    using sub by (simp add: submittable_def resolves_def)
  note stop = auto_execute_complete [OF fuel]
  let ?d = "dput k c (step_data r)"
  let ?k = "bindE (getE (parent_of sid)) (\<lambda>parent.
      if COMPLETE = COMPLETE \<and> parent \<noteq> None
      then auto_resume_on_top_frame_complete e ap (session_id (row_to_session e r)) ?d w
      else liftE (submit_response sid w i st fired [] COMPLETE ?d))"
  obtain s' where s': "commit_advance e ap sid (row_to_session e r) w COMPLETE ?d
        (submit_response sid w i st fired [] COMPLETE) s = ?k s'"
    "find_row (normalize_session_id sid) s' = Some (advanced COMPLETE ?d (clock s) r)"
    "\<forall>x. x \<noteq> normalize_session_id sid \<longrightarrow> find_row x s' = find_row x s"
    "session_stack s' = session_stack s"
    unfolding commit_advance_def using advance_writes [OF row, of COMPLETE ?d ?k] by blast
  have "parent_of sid s' = None"
    using root same_stack(6) [OF s'(4)] by simp
  then show ?thesis
    unfolding submit_chooses [OF sub ch stop] using s'
    by (simp add: trap_errors_def submit_response_def next_fields_def)
qed

section \<open>Refused submissions\<close>

lemma snd_with_session_live:
  "resolves ap sid s r w \<Longrightarrow> snd (with_session e ap sid k s) = snd (k (row_to_session e r) w s)"
  by (simp add: with_session_ok)

lemma submit_guard_None:
  "submit_session_guard ses k c = None \<longleftrightarrow>
   escalation ses = None \<and> current_step ses \<noteq> COMPLETE \<and> current_step ses = k \<and>
   utf8_len c \<le> CONTENT_MAX"
  by (auto simp: submit_session_guard_def split: option.splits)

text \<open>
  C4. Whatever its arguments, a \<open>submit_step\<close> that changes the database was made by
  a caller who owns a session whose workflow is loaded and unchanged, that is neither escalated
  nor complete and has no frame above it, for exactly its current step, which is not a call
  step, with content within the size cap; the only other change \<open>submit_step\<close> makes
  is to mark a session whose workflow was edited.
\<close>

theorem submit_step_changes_only_current_step:
  assumes changed: "snd (submit_step e ap sid k c br aid s) \<noteq> s"
  shows "(\<exists>r w i st. find_row (normalize_session_id (as_str sid)) s = Some r \<and>
      resolves ap (as_str sid) s r w \<and> escalation r = None \<and> current_step r = as_str k \<and>
      as_str k \<noteq> COMPLETE \<and> utf8_len (as_str c) \<le> CONTENT_MAX \<and>
      top_frame_for (as_str sid) s = None \<and> find_step w (as_str k) = Some (i, st) \<and>
      st_call st = None) \<or>
    (\<exists>r. outdated ap (as_str sid) s r \<and>
      snd (submit_step e ap sid k c br aid s) = mark_changed (as_str sid) s)"
proof -
  let ?body = "with_session e ap (as_str sid) (submit_checked e ap (as_str sid) (as_str k)
      (as_str c) (as_str br) (as_str aid))"
  have body: "snd (?body s) = snd (submit_step e ap sid k c br aid s)"
    using changed by (auto simp: submit_step_def guard_args_def split: option.splits)
  show ?thesis
  proof (cases rule: session_cases [of ap "as_str sid" s])
    case (live r w)
    let ?ses = "row_to_session e r"
    have c: "snd (submit_checked e ap (as_str sid) (as_str k) (as_str c) (as_str br) (as_str aid)
        ?ses w s) \<noteq> s"
      using changed body by (simp add: snd_with_session_live [OF live])
    then have g: "submit_session_guard ?ses (as_str k) (as_str c) = None"
      by (auto simp: submit_checked_def split: option.splits)
    with c have t: "top_frame_for (as_str sid) s = None"
      by (auto simp: submit_checked_def split: option.splits)
    with c g obtain i st where f: "find_step w (as_str k) = Some (i, st)"
      by (auto simp: submit_checked_def split: option.splits)
    with c g t have "st_call st = None"
      by (auto simp: submit_checked_def split: option.splits)
    with g t f live show ?thesis
      by (auto simp: submit_guard_None resolves_def)
  next
    case (changed r)
    then show ?thesis using with_session_outdated [OF changed] body by (metis snd_conv)
  next
    case refused
    then show ?thesis using with_session_refused [OF refused] body assms by (metis snd_conv)
  qed
qed

text \<open>
  Submitting any step other than the current one of a live session is refused with
  \<open>out_of_order_submission\<close>, which names the expected step, and changes nothing.
\<close>

theorem submit_step_out_of_order:
  assumes "resolves ap sid s r w" and "sid \<noteq> []" and "k \<noteq> []"
    and "escalation r = None" and "current_step r \<noteq> COMPLETE" and "current_step r \<noteq> k"
  shows "\<exists>resp. submit_step e ap (PStr sid) (PStr k) (PStr c) (PStr br) (PStr aid) s = (Inr resp, s) \<and>
    resp_code resp = Some ''out_of_order_submission'' \<and>
    pget resp ''expected_step'' = Some (PStr (current_step r))"
proof -
  have a: "guard_args [check_str (PStr sid) ''session_id'' True, check_str (PStr k) ''step_id'' True,
      check_str (PStr c) ''content'' False, check_str (PStr br) ''branch'' False,
      check_str (PStr aid) ''artifact_id'' False] m = m" for m
    using assms by (intro guard_args_ok) (simp add: first_err_None)
  show ?thesis
    unfolding submit_step_def as_str_PStr a
    using assms with_session_ok [OF assms(1), of e]
    by (simp add: trap_errors_def submit_checked_def submit_session_guard_def out_of_order_error_def
        error_response_def resp_code_def fp_field_def)
qed

section \<open>The retry budget\<close>

text \<open>
  C17. Content that fails the output schema of the current step (a step without call and without
  intermediate artifacts, of a session that may submit) is refused with the validator's
  messages, if the session is no frame above another or has retries left. The retry counter of
  that step goes up by one; only it and the update time of the row change, no other row, no
  frame and no client state; and the answer says how many retries remain or that they are
  exhausted.
\<close>

theorem submit_step_retry_budget:
  assumes sub: "submittable ap sid s r w i st k c" and ias: "st_intermediate_artifacts st = []"
    and bad: "validate_output e c st = Some errs"
    and root: "parent_of sid s = None \<or> int (dget_or (retry_counts r) k 0 + 1) < max_retries_of st"
  defines "n \<equiv> dget_or (retry_counts r) k 0 + 1"
  shows "\<exists>fs s'. submit_step e ap (PStr sid) (PStr k) (PStr c) (PStr br) (PStr aid) s =
      (Inr (PDict fs), s') \<and>
    dget fs ''status'' = Some (PStr ''validation_error'') \<and>
    dget fs ''errors'' = Some (PList (map PStr errs)) \<and>
    (if max_retries_of st \<le> int n
     then dget fs ''retries_exhausted'' = Some (PBool True)
     else dget fs ''retries_remaining'' = Some (PInt (max_retries_of st - int n))) \<and>
    find_row (normalize_session_id sid) s' =
      Some (r\<lparr>retry_counts := dput k n (retry_counts r), updated_at := clock s\<rparr>) \<and>
    (\<forall>x. x \<noteq> normalize_session_id sid \<longrightarrow> find_row x s' = find_row x s) \<and>
    session_stack s' = session_stack s \<and> client_state s' = client_state s"
proof -
  have row: "find_row (normalize_session_id sid) s = Some r"
    using sub by (simp add: submittable_def resolves_def)
  define s' where "s' = upd_row (normalize_session_id sid)
    (\<lambda>_. r\<lparr>retry_counts := dput k n (retry_counts r), updated_at := clock s\<rparr>) s"
  have inc: "increment_retry sid k s = (Inr n, s')"
    using retry.present [OF row, of k] by (simp add: s'_def n_def)
  have row': "find_row (normalize_session_id sid) s' =
      Some (r\<lparr>retry_counts := dput k n (retry_counts r), updated_at := clock s\<rparr>)"
    using find_row_id [OF row] by (simp add: s'_def find_row_upd_row row)
  have par: "parent_of sid s' = parent_of sid s" and st: "session_stack s' = session_stack s"
    by (simp_all add: s'_def)
  have cs: "client_state s' = client_state s" by (simp add: s'_def upd_row_def)
  have rows: "\<forall>x. x \<noteq> normalize_session_id sid \<longrightarrow> find_row x s' = find_row x s"
    using find_row_id [OF row] by (simp add: s'_def find_row_upd_found [OF row])
  show ?thesis
    unfolding submit_step_submittable [OF sub]
    using ias row' st rows cs root [folded n_def]
    by (cases "max_retries_of st \<le> int n")
      (simp_all add: submit_output_def Let_def bad inc trap_errors_def fail_submission_def par
        validation_error_def fp_field_def)
qed

lemma first_fires:
  assumes "\<forall>h\<in>set before. guard_fires e (gr_trigger h) c data visits k = Inr False"
    and "guard_fires e (gr_trigger g) c data visits k = Inr True"
  shows "evaluate_guardrails e (before @ g # after) c data visits k = Inr (Some g)"
  using assms by (induction before) simp_all

text \<open>
  C18. A session that is no frame above another and has none above it, live and not escalated,
  submits content that fits the size cap and the output schema for its current step, a step
  without call and without intermediate artifacts. If the trigger of a guardrail with the action
  escalate fires and those of the guardrails before it do not, the content is stored, the
  session is marked escalated with that guardrail's id and message and does not advance, and the
  answer is \<open>session_escalated\<close>; nothing else of the row changes but the update
  time, and no other row, no frame and no client state.
\<close>

theorem guardrail_escalation:
  assumes sub: "submittable ap sid s r w i st k c" and ias: "st_intermediate_artifacts st = []"
    and valid: "validate_output e c st = None" and root: "parent_of sid s = None"
    and gs: "wf_guardrails w = before @ g # after" and esc: "gr_action g = Escalate"
    and quiet: "\<forall>h\<in>set before. guard_fires e (gr_trigger h) c (dput k c (step_data r)) (step_visit_counts r) k = Inr False"
    and fires: "guard_fires e (gr_trigger g) c (dput k c (step_data r)) (step_visit_counts r) k = Inr True"
  shows "\<exists>resp s'. submit_step e ap (PStr sid) (PStr k) (PStr c) (PStr br) (PStr aid) s =
      (Inr resp, s') \<and>
    resp_code resp = Some ''session_escalated'' \<and>
    find_row (normalize_session_id sid) s' =
      Some (r\<lparr>escalation := Some (gr_id g, gr_message g), step_data := dput k c (step_data r),
              updated_at := clock s\<rparr>) \<and>
    (\<forall>x. x \<noteq> normalize_session_id sid \<longrightarrow> find_row x s' = find_row x s) \<and>
    session_stack s' = session_stack s \<and> client_state s' = client_state s"
proof -
  have fired: "evaluate_guardrails e (wf_guardrails w) c (dput k c (step_data r)) (step_visit_counts r) k = Inr (Some g)"
    unfolding gs by (rule first_fires [OF quiet fires])
  have row: "find_row (normalize_session_id sid) s = Some r"
    using sub by (simp add: submittable_def resolves_def)
  define r1 where "r1 = r\<lparr>escalation := Some (gr_id g, gr_message g), updated_at := clock s\<rparr>"
  define s1 where "s1 = upd_row (normalize_session_id sid) (\<lambda>_. r1) s"
  have e1: "set_escalation sid (gr_id g) (gr_message g) s = (Inr (), s1)"
    unfolding s1_def r1_def by (rule escalate.present [OF row])
  have row1: "find_row (normalize_session_id sid) s1 = Some r1"
    using find_row_id [OF row] by (simp add: s1_def r1_def find_row_upd_row row)
  define s2 where "s2 = upd_row (normalize_session_id sid)
    (\<lambda>r. (written None (Some (dput k c (step_data r1))) (clock s1) r)\<lparr>updated_at := clock s1\<rparr>) s1"
  have e2: "update_session sid None (Some (dput k c (step_data r))) s1 = (Inr (), s2)"
    using update_session_ok [OF row1] by (simp add: s2_def r1_def)
  have row2: "find_row (normalize_session_id sid) s2 =
      Some (r\<lparr>escalation := Some (gr_id g, gr_message g), step_data := dput k c (step_data r),
              updated_at := clock s\<rparr>)"
    by (simp add: s2_def find_row_upd_row row1 written_def) (simp add: r1_def s1_def)
  have par: "parent_of sid s2 = None" and stk: "session_stack s2 = session_stack s"
    using root by (simp_all add: s1_def s2_def)
  have cs: "client_state s2 = client_state s" by (simp add: s1_def s2_def upd_row_def)
  have "session_id r1 = session_id r" by (simp add: r1_def)
  then have rows: "\<forall>x. x \<noteq> normalize_session_id sid \<longrightarrow> find_row x s2 = find_row x s"
    using find_row_id [OF row] row1
    by (auto simp: s2_def find_row_upd_row written_def s1_def find_row_upd_found [OF row] split: option.split)
  show ?thesis
    unfolding submit_step_submittable [OF sub]
    using ias row2 stk rows cs
    by (simp add: submit_output_def valid accept_submission_def fired esc e1 e2 trap_errors_def
        fail_submission_def par guardrail_error_def)
qed

section \<open>Instances\<close>

lemma plan_submittable:
  "submittable demo_app ''s1'' (solo ''essay'' ''plan'') (demo_row ''s1'' ''essay'' ''plan'') essay 0
     (plain_step ''plan'') ''plan'' ''text''"
  by code_simp

lemma plan_chooses:
  "chooses demo_env (demo_row ''s1'' ''essay'' ''plan'') essay 0 (plain_step ''plan'') ''plan''
     ''text'' [] None ''draft''"
  unfolding chooses_def
  by (intro conjI exI [of _ "''draft''"] exI [of _ False] exI [of _ "[]"]) code_simp+

lemma draft_submittable:
  "submittable demo_app ''s1'' (solo ''essay'' ''draft'') (demo_row ''s1'' ''essay'' ''draft'') essay 1
     (plain_step ''draft'') ''draft'' ''text''"
  by code_simp

lemma draft_chooses:
  "chooses demo_env (demo_row ''s1'' ''essay'' ''draft'') essay 1 (plain_step ''draft'') ''draft''
     ''text'' [] None COMPLETE"
  unfolding chooses_def
  by (intro conjI exI [of _ COMPLETE] exI [of _ False] exI [of _ "[]"]) code_simp+

lemma form_submittable:
  assumes "utf8_len c \<le> CONTENT_MAX"
  shows "submittable demo_app ''s1'' (solo ''strict'' ''form'') (demo_row ''s1'' ''strict'' ''form'')
     strict 0 form_step ''form'' c"
proof -
  have "submittable demo_app ''s1'' (solo ''strict'' ''form'') (demo_row ''s1'' ''strict'' ''form'')
     strict 0 form_step ''form'' []" by code_simp
  then show ?thesis using assms by (simp add: submittable_def)
qed

theorem submit_step_advances_witness:
  "\<exists>fs s'. submit_step demo_env demo_app (PStr ''s1'') (PStr ''plan'') (PStr ''text'') (PStr []) (PStr [])
      (solo ''essay'' ''plan'') =
      (Inr (PDict ((''session_id'', PStr ''s1'') #
        (''submitted'', PDict (step_head (plain_step ''plan''))) # fs)), s') \<and>
    find_row ''s1'' s' =
      Some (advanced ''draft'' [(''plan'', ''text'')] 0 (demo_row ''s1'' ''essay'' ''plan''))"
proof -
  have d: "directive_fields essay (plain_step ''draft'') = Inr [(''directive'', PStr ''Do it.''),
      (''do_not'', DO_NOT_RULES), (''conversation_repair'', repair_for essay), (''gates'', PList [])]"
    by (simp add: scenario_defs directive_fields_def)
  have f: "find_step essay ''draft'' = Some (1, plain_step ''draft'')" by code_simp
  have v: "''draft'' \<noteq> COMPLETE" "st_action (plain_step ''draft'') \<noteq> Some ''mcp_tool_call''"
    "0 < fuel demo_env" "normalize_session_id ''s1'' = ''s1''"
    "dput ''plan'' ''text'' (step_data (demo_row ''s1'' ''essay'' ''plan'')) = [(''plan'', ''text'')]"
    "clock (solo ''essay'' ''plan'') = 0"
    by code_simp+
  show ?thesis
    using submit_step_advances [OF plan_submittable plan_chooses v(1) f v(2) d v(3), of "[]"]
    unfolding v by blast
qed

theorem submit_step_completes_witness:
  "\<exists>fs s'. submit_step demo_env demo_app (PStr ''s1'') (PStr ''draft'') (PStr ''text'') (PStr []) (PStr [])
      (solo ''essay'' ''draft'') = (Inr (PDict fs), s') \<and>
    (''status'', PStr ''workflow_complete'') \<in> set fs \<and>
    find_row ''s1'' s' =
      Some (advanced COMPLETE [(''draft'', ''text'')] 0 (demo_row ''s1'' ''essay'' ''draft''))"
proof -
  have v: "parent_of ''s1'' (solo ''essay'' ''draft'') = None" "0 < fuel demo_env"
    "normalize_session_id ''s1'' = ''s1''"
    "dput ''draft'' ''text'' (step_data (demo_row ''s1'' ''essay'' ''draft'')) = [(''draft'', ''text'')]"
    "clock (solo ''essay'' ''draft'') = 0"
    by code_simp+
  show ?thesis
    using submit_step_completes [OF draft_submittable draft_chooses v(1,2), of "[]"]
    unfolding v by blast
qed

theorem submit_step_changes_only_current_step_witness:
  "\<exists>r. find_row ''s1'' (solo ''essay'' ''plan'') = Some r \<and> current_step r = ''plan''"
proof -
  have "current_step (the (find_row ''s1'' (snd (submit_step demo_env demo_app (PStr ''s1'')
      (PStr ''plan'') (PStr ''text'') (PStr []) (PStr []) (solo ''essay'' ''plan''))))) \<noteq>
      current_step (the (find_row ''s1'' (solo ''essay'' ''plan'')))"
    by code_simp
  then have "snd (submit_step demo_env demo_app (PStr ''s1'') (PStr ''plan'') (PStr ''text'') (PStr [])
      (PStr []) (solo ''essay'' ''plan'')) \<noteq> solo ''essay'' ''plan''"
    by metis
  note live = submit_step_changes_only_current_step [OF this]
  have "normalize_session_id ''s1'' = ''s1''" by code_simp
  with live show ?thesis
    using plan_submittable by (auto simp: outdated_def submittable_def resolves_def)
qed

theorem submit_step_out_of_order_witness:
  "\<exists>resp. submit_step demo_env demo_app (PStr ''s1'') (PStr ''draft'') (PStr ''x'') (PStr []) (PStr [])
      (solo ''essay'' ''plan'') = (Inr resp, solo ''essay'' ''plan'') \<and>
    resp_code resp = Some ''out_of_order_submission'' \<and>
    pget resp ''expected_step'' = Some (PStr ''plan'')"
proof -
  have v: "resolves demo_app ''s1'' (solo ''essay'' ''plan'') (demo_row ''s1'' ''essay'' ''plan'') essay"
    "escalation (demo_row ''s1'' ''essay'' ''plan'') = None"
    "current_step (demo_row ''s1'' ''essay'' ''plan'') \<noteq> COMPLETE"
    "current_step (demo_row ''s1'' ''essay'' ''plan'') \<noteq> ''draft''"
    "current_step (demo_row ''s1'' ''essay'' ''plan'') = ''plan''"
    by code_simp+
  show ?thesis
    using submit_step_out_of_order [OF v(1) _ _ v(2-4), of demo_env "''x''" "[]" "[]"]
    unfolding v(5) by simp
qed

theorem submit_step_retry_budget_witness:
  "\<exists>fs s'. submit_step demo_env demo_app (PStr ''s1'') (PStr ''form'') (PStr ''[]'') (PStr []) (PStr [])
      (solo ''strict'' ''form'') = (Inr (PDict fs), s') \<and>
    dget fs ''retries_remaining'' = Some (PInt 2) \<and>
    find_row ''s1'' s' = Some ((demo_row ''s1'' ''strict'' ''form'')
      \<lparr>retry_counts := [(''form'', 1)], updated_at := 0\<rparr>)"
proof -
  have sub: "submittable demo_app ''s1'' (solo ''strict'' ''form'') (demo_row ''s1'' ''strict'' ''form'')
     strict 0 form_step ''form'' ''[]''"
    by (rule form_submittable) code_simp
  have v: "st_intermediate_artifacts form_step = []"
    "validate_output demo_env ''[]'' form_step = Some [''not an object'']"
    "parent_of ''s1'' (solo ''strict'' ''form'') = None \<or>
      int (dget_or (retry_counts (demo_row ''s1'' ''strict'' ''form'')) ''form'' 0 + 1) < max_retries_of form_step"
    "max_retries_of form_step = 3"
    "normalize_session_id ''s1'' = ''s1''" "clock (solo ''strict'' ''form'') = 0"
    "retry_counts (demo_row ''s1'' ''strict'' ''form'') = []"
    by code_simp+
  show ?thesis
    using submit_step_retry_budget [OF sub v(1-3), of "[]" "[]"]
    unfolding v by (auto simp: dget_or_def)
qed

theorem guardrail_escalation_witness:
  "\<exists>resp s'. submit_step demo_env demo_app (PStr ''s1'') (PStr ''form'') (PStr ''{\"mayday\": 1}'')
      (PStr []) (PStr []) (solo ''strict'' ''form'') = (Inr resp, s') \<and>
    resp_code resp = Some ''session_escalated'' \<and>
    find_row ''s1'' s' = Some ((demo_row ''s1'' ''strict'' ''form'')
      \<lparr>escalation := Some (''g1'', ''stop''),
       step_data := [(''form'', ''{\"mayday\": 1}'')], updated_at := 0\<rparr>)"
proof -
  let ?c = "''{\"mayday\": 1}''"
  have sub: "submittable demo_app ''s1'' (solo ''strict'' ''form'') (demo_row ''s1'' ''strict'' ''form'')
     strict 0 form_step ''form'' ?c"
    by (rule form_submittable) code_simp
  have v: "st_intermediate_artifacts form_step = []" "validate_output demo_env ?c form_step = None"
    "parent_of ''s1'' (solo ''strict'' ''form'') = None"
    "gr_action mayday = Escalate"
    "guard_fires demo_env (gr_trigger mayday) ?c
      (dput ''form'' ?c (step_data (demo_row ''s1'' ''strict'' ''form'')))
      (step_visit_counts (demo_row ''s1'' ''strict'' ''form'')) ''form'' = Inr True"
    "normalize_session_id ''s1'' = ''s1''" "clock (solo ''strict'' ''form'') = 0"
    "gr_id mayday = ''g1''" "gr_message mayday = ''stop''"
    "dput ''form'' ?c (step_data (demo_row ''s1'' ''strict'' ''form'')) = [(''form'', ?c)]"
    by code_simp+
  have gs: "wf_guardrails strict = [] @ mayday # []" by code_simp
  show ?thesis
    using guardrail_escalation [OF sub v(1-3) gs v(4) _ v(5), of "[]" "[]"] unfolding v by (auto simp del: append_Nil)
qed

end
