(* ===== verification/LifecycleProps.thy ===== *)
theory LifecycleProps
  imports SubmitProps
begin

text \<open>
  The life of a session around \<open>submit_step\<close>: the funnel every session tool passes, starting,
  revising, deleting, the artifact, and the frame stack (push, pop, enter, propagate).
\<close>

section \<open>The funnel\<close>

text \<open>The calls that name a session, with some arguments.\<close>

definition session_calls ::
  "'e tool_env_scheme \<Rightarrow> app \<Rightarrow> string \<Rightarrow> string \<Rightarrow> string \<Rightarrow> string \<Rightarrow> string \<Rightarrow> string \<Rightarrow> string
   \<Rightarrow> (world, pyval) act list" where
  "session_calls e ap token sid k c br aid wft =
     [get_state e ap (PStr sid), get_guidelines e ap (PStr sid),
      submit_step e ap (PStr sid) (PStr k) (PStr c) (PStr br) (PStr aid),
      revise_step e ap (PStr sid) (PStr k),
      enter_sub_workflow e ap token (PStr sid) (PStr k),
      push_flow e ap token (PStr sid) (PStr wft) (PStr k) (PStr c),
      pop_flow e ap (PStr sid), generate_artifact e ap (PStr sid) (PStr c)]"

lemma session_calls_funnel:
  assumes args: "sid \<noteq> []" "k \<noteq> []" "wft \<noteq> []"
    and funnel: "\<And>f. with_session e ap sid f s = (Inr err, s')"
  shows "\<forall>m\<in>set (session_calls e ap token sid k c br aid wft). m s = (Inr err, s')"
  using args
  by (simp add: session_calls_def get_state_def get_guidelines_def submit_step_def revise_step_def
      enter_sub_workflow_def push_flow_def pop_flow_def generate_artifact_def guard_args_def funnel)

text \<open>
  C15. A caller whose identity is not the owner of an existing session gets
  \<open>cross_session_access_denied\<close> from every session-scoped tool, and the database
  does not change.
\<close>

theorem foreign_caller_denied:
  assumes "app_caller ap \<noteq> Anonymous" and "find_row (normalize_session_id sid) s \<noteq> None"
    and "sid \<noteq> []" and "k \<noteq> []" and "wft \<noteq> []"
    and call: "m \<in> set (delete_session_tool e ap (PStr sid) # session_calls e ap token sid k c br aid wft)"
  shows "\<exists>resp. m s = (Inr resp, s) \<and> resp_code resp = Some ''cross_session_access_denied''"
proof -
  obtain r where r: "find_row (normalize_session_id sid) s = Some r" using assms(2) by blast
  let ?err = "error_response ''cross_session_access_denied''
    (''caller identity does not own session '' @ compute_fingerprint e (session_id r))
    [(''session_fingerprint'', PStr (compute_fingerprint e (session_id r)))]"
  have funnel: "with_session e ap sid f s = (Inr ?err, s)" for f
    using assms(1) by (simp add: with_session_def resolve_session_def get_session_ok [OF r])
  have "delete_session_tool e ap (PStr sid) s = (Inr (error_response ''cross_session_access_denied''
      (''caller identity does not own session '' @ compute_fingerprint e (session_id r))
      [fp_field (row_to_session e r)]), s)"
    using assms(1,3)
    by (simp add: delete_session_tool_def guard_args_def delete_checked_def foreign_session_def
        get_session_ok [OF r])
  moreover note session_calls_funnel [OF assms(3-5) funnel, of token c br aid]
  ultimately show ?thesis using call by auto
qed

text \<open>
  C16. When the workflow of an existing session of the anonymous caller is loaded but its
  fingerprint entry differs from the one stamped on the session, every session-scoped tool but
  delete, called with non-empty arguments, answers \<open>workflow_changed\<close>, and its only
  effect is to mark the session as changed; for a session already marked the answer is the same
  and nothing changes.
\<close>

theorem changed_workflow_is_terminal:
  assumes args: "sid \<noteq> []" "k \<noteq> []" "wft \<noteq> []"
    and call: "m \<in> set (session_calls e ap token sid k c br aid wft)"
    and old: "outdated ap sid s r \<or> find_row (normalize_session_id sid) s = Some r \<and>
      app_caller ap = Anonymous \<and> current_step r = WORKFLOW_CHANGED"
  shows "\<exists>resp. m s = (Inr resp, if current_step r = WORKFLOW_CHANGED then s else mark_changed sid s) \<and>
    resp_code resp = Some ''workflow_changed''"
proof -
  have code: "resp_code (workflow_changed_envelope ses fp) = Some ''workflow_changed''" for ses fp
    by (simp add: workflow_changed_envelope_def)
  obtain fp where "resolve_session e ap sid s =
      (Inr (Inl (workflow_changed_envelope (row_to_session e r) fp)),
       if current_step r = WORKFLOW_CHANGED then s else mark_changed sid s)"
  proof (cases "outdated ap sid s r")
    case True
    with resolve_session_outdated [OF True, of e] that show ?thesis by (auto simp: outdated_def)
  next
    case False
    with old that [of "workflow_fingerprint r"] show ?thesis
      by (simp add: resolve_session_def get_session_ok)
  qed
  then have "with_session e ap sid f s = (Inr (workflow_changed_envelope (row_to_session e r) fp),
      if current_step r = WORKFLOW_CHANGED then s else mark_changed sid s)" for f
    by (simp add: with_session_def)
  from session_calls_funnel [OF args this] call code show ?thesis by blast
qed

section \<open>Starting\<close>

text \<open>
  A \<open>start_workflow\<close> that changes the database found fewer than five sessions that
  were not complete.
\<close>

theorem start_workflow_respects_active_cap:
  assumes "snd (start_workflow e ap token wft ctx s) \<noteq> s"
  shows "count_active s < 5"
  using assms
  by (auto simp: start_workflow_def guard_args_def ACTIVE_CAP_def not_le
      split: option.splits if_splits)

section \<open>Revising\<close>

text \<open>
  C19. \<open>revise_step\<close> of a submitted step of a root session moves the session back
  to it, drops the data of every later step of the workflow and keeps that of the step and the
  earlier ones, and returns the previous content. Nothing else of the row changes but the time:
  a completed session is active again and keeps its completion stamp and its retry counters.
\<close>

theorem revise_step_rewinds:
  assumes live: "resolves ap sid s r w" and args: "sid \<noteq> []" "k \<noteq> []"
    and root: "own_frame sid s = None" and step: "find_step w k = Some (i, st)"
    and call: "st_call st = None" and "done": "dget (step_data r) k = Some old" and "k \<noteq> COMPLETE"
    and dirs: "directive_fields w st = Inr ds"
  shows "\<exists>fs s'. revise_step e ap (PStr sid) (PStr k) s = (Inr (PDict fs), s') \<and>
    dget fs ''previous_content'' = Some (PStr old) \<and>
    find_row (normalize_session_id sid) s' =
      Some (r\<lparr>step_data := ddels (drop (i + 1) (step_ids w)) (step_data r),
              current_step := k, updated_at := clock s\<rparr>) \<and>
    session_stack s' = session_stack s"
proof -
  have row: "find_row (normalize_session_id sid) s = Some r" using live by (simp add: resolves_def)
  define ks where "ks = drop (i + 1) (step_ids w)"
  have ks: "map st_id (drop (Suc i) (wf_steps w)) = ks" by (simp add: ks_def step_ids_def drop_map)
  define r1 where "r1 = r\<lparr>step_data := ddels ks (step_data r), updated_at := clock s\<rparr>"
  define s1 where "s1 = upd_row (normalize_session_id sid) (\<lambda>_. r1) s"
  have e1: "invalidate_steps_after sid ks s = (Inr (), s1)"
    unfolding s1_def r1_def by (rule invalidate.present [OF row])
  have row1: "find_row (normalize_session_id sid) s1 = Some r1"
    using find_row_id [OF row] by (simp add: s1_def r1_def find_row_upd_row row)
  define s2 where "s2 = upd_row (normalize_session_id sid)
    (\<lambda>r. (written (Some k) None (clock s1) r)\<lparr>updated_at := clock s1\<rparr>) s1"
  have e2: "update_session sid (Some k) None s1 = (Inr (), s2)"
    unfolding s2_def by (rule update_session_ok [OF row1])
  have row2: "find_row (normalize_session_id sid) s2 =
      Some (r\<lparr>step_data := ddels ks (step_data r), current_step := k, updated_at := clock s\<rparr>)"
    using \<open>k \<noteq> COMPLETE\<close>
    by (simp add: s2_def find_row_upd_row row1 written_def) (simp add: r1_def s1_def)
  have stk: "session_stack s2 = session_stack s" by (simp add: s2_def s1_def)
  have "revise_checked e sid k (row_to_session e r) w s =
      (revise_response sid w st old ks None, s2)"
    using "done" by (simp add: revise_checked_def root step apply_revision_def call dhas_def Let_def ks
        e1 e2 dget_or_def)
  then show ?thesis
    using args row2 stk dirs
    by (simp add: revise_step_def guard_args_def with_session_ok [OF live] revise_response_def
        trap_errors_def ks_def)
qed

section \<open>Deleting\<close>

text \<open>
  A session that is a frame of another session's chain can neither be deleted nor revised by the
  client: both tools answer \<open>sub_workflow_parent_owned\<close> and change nothing.
\<close>

theorem framed_session_is_parent_owned:
  assumes own: "own_frame sid s = Some f" and live: "resolves ap sid s r w"
    and args: "sid \<noteq> []" "k \<noteq> []"
  shows "(\<exists>resp. delete_session_tool e ap (PStr sid) s = (Inr resp, s) \<and>
      resp_code resp = Some ''sub_workflow_parent_owned'') \<and>
    (\<exists>resp. revise_step e ap (PStr sid) (PStr k) s = (Inr resp, s) \<and>
      resp_code resp = Some ''sub_workflow_parent_owned'')"
proof -
  have "foreign_session e ap sid s = None"
    using live by (simp add: resolves_def foreign_session_def act_simps)
  then show ?thesis
    using own args
    by (simp add: delete_session_tool_def revise_step_def guard_args_def delete_checked_def
        revise_checked_def with_session_ok [OF live] trap_errors_def parent_owned_error_def Let_def)
qed

text \<open>
  \<open>delete_session\<close> of a root session removes exactly its row and answers with its
  last state; the frames above it, if any, stay in the \<open>session_stack\<close> table.
\<close>

theorem delete_session_removes_one_row:
  assumes row: "find_row (normalize_session_id sid) s = Some r" and root: "own_frame sid s = None"
    and "app_caller ap = Anonymous" and "sid \<noteq> []"
  shows "delete_session_tool e ap (PStr sid) s =
      (Inr (delete_response (row_to_session e r)),
       s\<lparr>sessions := filter (\<lambda>x. session_id x \<noteq> normalize_session_id sid) (sessions s)\<rparr>)"
proof -
  have "filter (\<lambda>f. frame_session_id f \<noteq> normalize_session_id sid) (session_stack s) = session_stack s"
    using root by (simp add: own_frame_def find_frame_def find_None_iff filter_id_conv)
  then have "del_rows [normalize_session_id sid] s =
      s\<lparr>sessions := filter (\<lambda>x. session_id x \<noteq> normalize_session_id sid) (sessions s)\<rparr>"
    by (simp add: del_rows_def)
  then show ?thesis
    using assms by (simp add: delete_session_tool_def guard_args_def delete_checked_def
        foreign_session_def get_session_ok [OF row] delete_session_def transaction_def Let_def
        trap_errors_def)
qed

section \<open>The artifact\<close>

text \<open>
  \<open>generate_artifact\<close> never changes the database, gives an artifact only for a
  completed session and only within the size cap, and otherwise answers
  \<open>invalid_argument\<close> or \<open>oversize_payload\<close>.
\<close>

theorem artifact_only_when_complete:
  assumes live: "resolves ap sid s r w" and "sid \<noteq> []" and "wf_steps w \<noteq> []"
  shows "\<exists>resp. generate_artifact e ap (PStr sid) (PStr fmt) s = (Inr resp, s) \<and>
    (current_step r \<noteq> COMPLETE \<longrightarrow>
      resp_code resp = Some ''invalid_argument'' \<and> pget resp ''artifact'' = None) \<and>
    (current_step r = COMPLETE \<longrightarrow>
      (\<exists>a. artifact_of w (step_data r) fmt = Inr a \<and>
        (if artifact_size a \<le> ARTIFACT_MAX then pget resp ''artifact'' = Some a
         else resp_code resp = Some ''oversize_payload'' \<and> pget resp ''artifact'' = None)))"
proof -
  have "\<exists>a. artifact_of w (step_data r) fmt = Inr a"
    using assms(3) by (simp add: artifact_of_def)
  then obtain a where a: "artifact_of w (step_data r) fmt = Inr a" by blast
  have "generate_artifact e ap (PStr sid) (PStr fmt) s =
      trap_errors e ''session_id'' (Some sid)
        (liftE (artifact_response sid (row_to_session e r) w fmt)) s"
    using assms(2) by (simp add: generate_artifact_def guard_args_def trap_errors_def
        with_session_ok [OF live])
  then show ?thesis
    by (auto simp: artifact_response_def a trap_errors_def error_response_def resp_code_def
        fp_field_def)
qed

text \<open>The text artifact is the step contents in order, with a blank line between two of them.\<close>

lemma artifact_text:
  assumes "fmt \<noteq> ''auto''" and "fmt \<noteq> ''structured_code''"
  shows "artifact_of w data fmt = Inr (PStr (join [CHR 0x0A, CHR 0x0A]
    (map (\<lambda>k. dget_or data k []) (step_ids w))))"
  using assms by (simp add: artifact_of_def step_ids_def comp_def)

section \<open>Digressions\<close>

lemma create_child_session:
  assumes fresh: "fresh token s" and room: "int (length (sessions s)) < session_cap e"
    and pos: "child_position (normalize_session_id p) s = (root, n)"
    and depth: "case mx of None \<Rightarrow> True | Some m \<Rightarrow> length (frames_of root s) < m"
  defines "sid \<equiv> normalize_session_id token"
  shows "create_session e token wft cur (Some p) ft csid mx fp s =
    (Inr sid, s\<lparr>sessions := sessions s @
        [new_row sid wft cur (Some (normalize_session_id p)) fp (clock s)],
      session_stack := session_stack s @ [\<lparr>frame_session_id = sid, root_session_id = root,
        depth = n, frame_type = ft, call_step_id = csid, frame_created_at = clock s\<rparr>]\<rparr>)"
proof -
  have ev: "evict_over_cap (session_cap e) s = s" using room by (simp add: evict_over_cap_def)
  have "find_row sid s = None" using fresh_row [OF fresh] by (simp add: sid_def)
  moreover have "find_frame sid s = None"
    using fresh by (auto simp: fresh_def Let_def sid_def find_frame_None)
  moreover have "insert_frame sid (normalize_session_id p) ft csid mx (with_row r s) =
      (Inr (), (with_row r s)\<lparr>session_stack := session_stack s @ [\<lparr>frame_session_id = sid,
        root_session_id = root, depth = n, frame_type = ft, call_step_id = csid,
        frame_created_at = clock s\<rparr>]\<rparr>)" for r
    using depth calculation by (cases mx) (simp_all add: insert_frame_def pos Let_def)
  ultimately show ?thesis
    unfolding create_session_unfold Let_def ev sid_def [symmetric] by (simp add: with_row_def)
qed

section \<open>Instances\<close>

lemma solo_resolves:
  "resolves demo_app ''s1'' (solo ''essay'' ''draft'') (demo_row ''s1'' ''essay'' ''draft'') essay"
  by code_simp

theorem foreign_caller_denied_witness:
  "\<exists>resp. get_state demo_env (demo_app\<lparr>app_caller := Bearer ''bob''\<rparr>) (PStr ''s1'') (solo ''essay'' ''plan'') =
      (Inr resp, solo ''essay'' ''plan'') \<and>
    resp_code resp = Some ''cross_session_access_denied''"
proof (rule foreign_caller_denied)
  show "app_caller (demo_app\<lparr>app_caller := Bearer ''bob''\<rparr>) \<noteq> Anonymous" by code_simp
  show "find_row (normalize_session_id ''s1'') (solo ''essay'' ''plan'') \<noteq> None" by code_simp
  show "get_state demo_env (demo_app\<lparr>app_caller := Bearer ''bob''\<rparr>) (PStr ''s1'') \<in>
      set (delete_session_tool demo_env (demo_app\<lparr>app_caller := Bearer ''bob''\<rparr>) (PStr ''s1'') #
        session_calls demo_env (demo_app\<lparr>app_caller := Bearer ''bob''\<rparr>) [] ''s1'' ''k'' [] [] [] ''w'')"
    by (simp add: session_calls_def)
qed simp_all

theorem changed_workflow_is_terminal_witness:
  "\<exists>resp. get_state demo_env (demo_app\<lparr>app_fingerprints := [(''essay'', ''v2'')]\<rparr>) (PStr ''s1'')
      (solo ''essay'' ''plan'') = (Inr resp, mark_changed ''s1'' (solo ''essay'' ''plan'')) \<and>
    resp_code resp = Some ''workflow_changed''"
proof -
  let ?ap = "demo_app\<lparr>app_fingerprints := [(''essay'', ''v2'')]\<rparr>"
  let ?r = "demo_row ''s1'' ''essay'' ''plan''"
  have v: "find_row (normalize_session_id ''s1'') (solo ''essay'' ''plan'') = Some ?r"
    "app_caller ?ap = Anonymous" "current_step ?r \<noteq> WORKFLOW_CHANGED"
    "dget (app_workflows ?ap) (workflow_type ?r) \<noteq> None"
    "dget (app_fingerprints ?ap) (workflow_type ?r) = Some ''v2''" "workflow_fingerprint ?r \<noteq> ''v2''"
    by code_simp+
  then have old: "outdated ?ap ''s1'' (solo ''essay'' ''plan'') ?r"
    unfolding outdated_def by blast
  have m: "get_state demo_env ?ap (PStr ''s1'') \<in> set (session_calls demo_env ?ap [] ''s1'' ''k'' [] [] [] ''w'')"
    by (simp add: session_calls_def)
  show ?thesis
    using changed_workflow_is_terminal [OF _ _ _ m disjI1 [OF old]] v(3) by simp
qed

theorem start_workflow_respects_active_cap_witness:
  "count_active (solo ''essay'' ''plan'') < 5 \<and>
   snd (start_workflow demo_env demo_app ''t'' (PStr ''essay'') (PStr []) (solo ''essay'' ''plan'')) \<noteq>
     solo ''essay'' ''plan''"
proof -
  have "length (sessions (snd (start_workflow demo_env demo_app ''t'' (PStr ''essay'') (PStr [])
      (solo ''essay'' ''plan'')))) \<noteq> length (sessions (solo ''essay'' ''plan''))"
    by code_simp
  then have c: "snd (start_workflow demo_env demo_app ''t'' (PStr ''essay'') (PStr [])
      (solo ''essay'' ''plan'')) \<noteq> solo ''essay'' ''plan''"
    by metis
  from start_workflow_respects_active_cap [OF c] c show ?thesis by blast
qed

theorem revise_step_rewinds_witness:
  "\<exists>fs s'. revise_step demo_env demo_app (PStr ''s1'') (PStr ''plan'')
      (demo_world [(demo_row ''s1'' ''essay'' ''draft'')\<lparr>step_data := [(''plan'', ''old'')]\<rparr>] []) =
      (Inr (PDict fs), s') \<and>
    dget fs ''previous_content'' = Some (PStr ''old'') \<and>
    (\<exists>r. find_row ''s1'' s' = Some r \<and> current_step r = ''plan'')"
proof -
  let ?r = "(demo_row ''s1'' ''essay'' ''draft'')\<lparr>step_data := [(''plan'', ''old'')]\<rparr>"
  have v: "resolves demo_app ''s1'' (demo_world [?r] []) ?r essay"
    "own_frame ''s1'' (demo_world [?r] []) = None"
    "find_step essay ''plan'' = Some (0, plain_step ''plan'')" "st_call (plain_step ''plan'') = None"
    "dget (step_data ?r) ''plan'' = Some ''old''" "''plan'' \<noteq> COMPLETE"
    "normalize_session_id ''s1'' = ''s1''"
    by code_simp+
  have d: "directive_fields essay (plain_step ''plan'') = Inr [(''directive'', PStr ''Do it.''),
      (''do_not'', DO_NOT_RULES), (''conversation_repair'', repair_for essay), (''gates'', PList [])]"
    by (simp add: scenario_defs directive_fields_def)
  show ?thesis
    using revise_step_rewinds [OF v(1) _ _ v(2-6) d, of demo_env] unfolding v(7) by auto
qed

theorem framed_session_is_parent_owned_witness:
  "\<exists>resp. delete_session_tool demo_env demo_app (PStr ''c1'')
      (with_child ''outer'' ''delegate'' Call ''plan'') =
      (Inr resp, with_child ''outer'' ''delegate'' Call ''plan'') \<and>
    resp_code resp = Some ''sub_workflow_parent_owned''"
proof -
  let ?s = "with_child ''outer'' ''delegate'' Call ''plan''"
  have v: "own_frame ''c1'' ?s = Some \<lparr>frame_session_id = ''c1'', root_session_id = ''s1'', depth = 1,
        frame_type = Call, call_step_id = Some ''delegate'', frame_created_at = 0\<rparr>"
    "resolves demo_app ''c1'' ?s (demo_row ''c1'' ''essay'' ''plan'') essay"
    by code_simp+
  show ?thesis using framed_session_is_parent_owned [OF v, of "''plan''" demo_env] by simp
qed

theorem delete_session_removes_one_row_witness:
  "sessions (snd (delete_session_tool demo_env demo_app (PStr ''S1'')
     (with_child ''outer'' ''delegate'' Call ''plan''))) = [demo_row ''c1'' ''essay'' ''plan'']"
proof -
  let ?s = "with_child ''outer'' ''delegate'' Call ''plan''"
  have v: "find_row (normalize_session_id ''S1'') ?s = Some (demo_row ''s1'' ''outer'' ''delegate'')"
    "own_frame ''S1'' ?s = None" "app_caller demo_app = Anonymous"
    by code_simp+
  have f: "filter (\<lambda>x. session_id x \<noteq> normalize_session_id ''S1'') (sessions ?s) =
      [demo_row ''c1'' ''essay'' ''plan'']"
    by code_simp
  show ?thesis using delete_session_removes_one_row [OF v, of demo_env] f by simp
qed

theorem artifact_only_when_complete_witness:
  "\<exists>resp. generate_artifact demo_env demo_app (PStr ''s1'') (PStr ''text'') (solo ''essay'' ''draft'') =
      (Inr resp, solo ''essay'' ''draft'') \<and>
    resp_code resp = Some ''invalid_argument'' \<and> pget resp ''artifact'' = None"
proof -
  have v: "current_step (demo_row ''s1'' ''essay'' ''draft'') \<noteq> COMPLETE" "wf_steps essay \<noteq> []"
    by code_simp+
  show ?thesis
    using artifact_only_when_complete [OF solo_resolves _ v(2), of demo_env "''text''"] v(1) by auto
qed

end
