(* ===== verification/StackProps.thy ===== *)
theory StackProps
  imports LifecycleProps
begin

text \<open>
  The frame stack as the tools use it: spawning a digression or a sub-workflow above a
  session, popping a digression, and handing a finished sub-workflow's result to its parent.
\<close>

section \<open>The state after a spawn\<close>

definition new_frame ::
  "string \<Rightarrow> string \<Rightarrow> nat \<Rightarrow> frame_type \<Rightarrow> string option \<Rightarrow> nat \<Rightarrow> frame" where
  "new_frame sid root n ft csid t =
     \<lparr>frame_session_id = sid, root_session_id = root, depth = n, frame_type = ft,
      call_step_id = csid, frame_created_at = t\<rparr>"

lemma new_frame_simps [simp]:
  "frame_session_id (new_frame sid root n ft csid t) = sid"
  "root_session_id (new_frame sid root n ft csid t) = root"
  "depth (new_frame sid root n ft csid t) = n"
  "frame_type (new_frame sid root n ft csid t) = ft"
  "call_step_id (new_frame sid root n ft csid t) = csid"
  by (simp_all add: new_frame_def)

text \<open>The row of a child just created: at its first step, visited once, with nothing submitted.\<close>

definition spawned_row ::
  "string \<Rightarrow> string \<Rightarrow> step \<Rightarrow> string \<Rightarrow> string \<Rightarrow> nat \<Rightarrow> session_row" where
  "spawned_row sid wft st parent fp t =
     \<lparr>session_id = sid, workflow_type = wft, current_step = st_id st, step_data = [],
      retry_counts = [], step_visit_counts = [(st_id st, 1)], escalation = None,
      artifact_checkpoints = [], created_at = t, updated_at = t, called_session = None,
      parent_session_id = Some parent, workflow_fingerprint = fp, completed_at = None\<rparr>"

lemma spawned_row_new:
  "(new_row sid wft (st_id st) (Some parent) fp t)\<lparr>step_visit_counts := [(st_id st, 1)]\<rparr> =
   spawned_row sid wft st parent fp t"
  by (simp add: new_row_def spawned_row_def)

lemma spawned_stack:
  assumes fresh: "fresh token s" and row: "find_row p s \<noteq> None"
    and pos: "child_position p s = (root, n)" and free: "frame_at root n s = None"
    and stk: "session_stack s' = session_stack s @ [f]"
    and f: "frame_session_id f = normalize_session_id token" "root_session_id f = root" "depth f = n"
    and p: "normalize_session_id p = p"
  shows "find_frame (normalize_session_id token) s' = Some f" and "top_frame_for p s' = Some f"
    and "length (frames_of root s') = Suc (length (frames_of root s))"
proof -
  have "find_frame (normalize_session_id token) s = None"
    using fresh by (auto simp: fresh_def Let_def find_frame_None)
  then show "find_frame (normalize_session_id token) s' = Some f"
    using stk f by (simp add: find_frame_def find_snoc)
  have "frame_at root n s' = Some f"
    using free stk f by (simp add: frame_at_def find_snoc)
  moreover have "normalize_session_id token \<noteq> p" using fresh_distinct [OF fresh] row p by metis
  then have "find_frame p s' = find_frame p s"
    using stk f by (simp add: find_frame_def find_snoc_other)
  ultimately show "top_frame_for p s' = Some f"
    using pos p by (simp add: top_frame_for_def child_position_def split: option.splits)
  show "length (frames_of root s') = Suc (length (frames_of root s))"
    using stk f by (simp add: frames_of_def)
qed

lemma free_above:
  assumes "top_frame_for p s = None" and "child_position (normalize_session_id p) s = (root, n)"
  shows "frame_at root n s = None"
  using assms by (simp add: top_frame_for_def)

text \<open>Creating the child of \<open>p\<close> and counting its first visit.\<close>

lemma spawn:
  assumes ok: "db_ok s" and fresh: "fresh token s" and room: "int (length (sessions s)) < session_cap e"
    and row: "find_row (normalize_session_id p) s = Some r" and top_free: "top_frame_for p s = None"
    and pos: "child_position (normalize_session_id p) s = (root, n)"
    and depth: "case mx of None \<Rightarrow> True | Some m \<Rightarrow> length (frames_of root s) < m"
  defines "sid \<equiv> normalize_session_id token"
  shows "\<exists>s1 s2. create_session e token wft first (Some p) ft csid mx fp s = (Inr sid, s1) \<and>
    increment_visit sid first s1 = (Inr 1, s2) \<and>
    map session_id (sessions s2) = map session_id (sessions s) @ [sid] \<and>
    session_stack s2 = session_stack s @ [new_frame sid root n ft csid (clock s)] \<and>
    (\<forall>x. x \<noteq> sid \<longrightarrow> find_row x s2 = find_row x s) \<and>
    find_row sid s2 = Some ((new_row sid wft first (Some (normalize_session_id p)) fp (clock s))
      \<lparr>step_visit_counts := [(first, 1)]\<rparr>) \<and> clock s2 = clock s"
proof -
  let ?r = "new_row sid wft first (Some (normalize_session_id p)) fp (clock s)"
  define s1 where "s1 = s\<lparr>sessions := sessions s @ [?r],
      session_stack := session_stack s @ [new_frame sid root n ft csid (clock s)]\<rparr>"
  have c: "create_session e token wft first (Some p) ft csid mx fp s = (Inr sid, s1)"
    unfolding s1_def sid_def new_frame_def using create_child_session [OF fresh room pos depth] .
  have new: "find_row sid s = None" using fresh_row [OF fresh] by (simp add: sid_def)
  have r1: "find_row x s1 = (if x = sid then Some ?r else find_row x s)" for x
    using new by (simp add: s1_def find_row_def new_row_def find_snoc find_snoc_other)
  have n: "normalize_session_id sid = sid" by (simp add: sid_def)
  have clk: "clock s1 = clock s" by (simp add: s1_def)
  have r1': "find_row (normalize_session_id sid) s1 = Some ?r" by (simp add: n r1)
  define s2 where "s2 = snd (increment_visit sid first s1)"
  have v: "increment_visit sid first s1 = (Inr 1, s2)"
    unfolding s2_def using visit.present [OF r1', of first] by (simp add: new_row_def dget_or_def)
  have rows2: "find_row x s2 = (if x = sid then Some (?r\<lparr>step_visit_counts := [(first, 1)]\<rparr>)
      else find_row x s)" for x
    using visit.row_after [OF r1', of x first] clk
    by (simp add: s2_def n r1 new_row_def dget_or_def)
  have ids: "map session_id (sessions s2) = map session_id (sessions s) @ [sid]"
    using visit.ids_kept [of sid first s1] by (simp add: s2_def s1_def new_row_def)
  have stk: "session_stack s2 = session_stack s @ [new_frame sid root n ft csid (clock s)]"
    using visit.stack_kept [of sid first s1] by (simp add: s2_def s1_def)
  have "clock s2 = clock s1"
    unfolding s2_def by (simp add: visit.present [OF r1'])
  with c v ids stk rows2 clk show ?thesis by simp
qed

section \<open>push\_flow\<close>

lemma own_root:
  assumes "db_ok s" and "child_position (normalize_session_id sid) s = (root, n)"
  shows "stack_depth (case own_frame sid s of Some f \<Rightarrow> root_session_id f | None \<Rightarrow> sid) s =
    length (frames_of root s)"
proof (cases "own_frame sid s")
  case None
  with assms show ?thesis by (simp add: own_frame_def child_position_def stack_depth_def)
next
  case (Some f)
  then have "normalize_session_id (root_session_id f) = root_session_id f"
    using assms(1) by (auto simp: own_frame_def intro: frame_canonical find_frame_mem)
  with Some assms show ?thesis by (simp add: own_frame_def child_position_def stack_depth_def)
qed

text \<open>
  C8. A session that is live, not escalated and not complete, with no frame above it, pushes a
  loaded workflow whose first step has directive fields, naming its current step. When its root
  has fewer than three frames, fewer than five sessions are active and there are fewer sessions
  than the session cap (so that nothing is evicted), and the token is fresh, exactly one session
  is created, at the first step of the workflow, visited once; one digression frame for it lies
  on top of the caller's chain with the paused step recorded, every other row is kept, and the
  root has at most three frames.
\<close>

theorem push_flow_spawns_digression:
  assumes ok: "db_ok s" and live: "resolves ap sid s r w"
    and args: "sid \<noteq> []" "wft \<noteq> []" "k \<noteq> []"
    and here: "escalation r = None" "current_step r = k" "k \<noteq> COMPLETE" "top_frame_for sid s = None"
    and target: "dget (app_workflows ap) wft = Some cw" "wf_steps cw = st # rest"
      "directive_fields cw st = Inr ds"
    and pos: "child_position (normalize_session_id sid) s = (root, n)"
    and caps: "length (frames_of root s) < max_stack_depth" "count_active s < ACTIVE_CAP"
      "int (length (sessions s)) < session_cap e"
    and fresh: "fresh token s"
  defines "child \<equiv> normalize_session_id token"
  shows "\<exists>resp s'. push_flow e ap token (PStr sid) (PStr wft) (PStr k) (PStr c) s = (Inr resp, s') \<and>
    pget resp ''session_id'' = Some (PStr child) \<and>
    pget resp ''frame_depth'' = Some (PInt (int (length (frames_of root s) + 1))) \<and>
    session_stack s' = session_stack s @ [new_frame child root n Digression (Some k) (clock s)] \<and>
    top_frame_for sid s' = Some (new_frame child root n Digression (Some k) (clock s)) \<and>
    length (frames_of root s') \<le> 3 \<and>
    (\<forall>x. x \<noteq> child \<longrightarrow> find_row x s' = find_row x s) \<and>
    find_row child s' = Some (spawned_row child wft st (normalize_session_id sid)
      (fingerprint_for e ap wft) (clock s)) \<and>
    map session_id (sessions s') = map session_id (sessions s) @ [child]"
proof -
  have row: "find_row (normalize_session_id sid) s = Some r" using live by (simp add: resolves_def)
  have first: "first_step cw = Inr st" using target(2) by (simp add: first_step_def)
  have d: "case Some max_stack_depth of None \<Rightarrow> True | Some m \<Rightarrow> length (frames_of root s) < m"
    using caps(1) by simp
  obtain s1 s2 where
    c: "create_session e token wft (st_id st) (Some sid) Digression (Some k) (Some max_stack_depth)
          (fingerprint_for e ap wft) s = (Inr child, s1)"
    and v: "increment_visit child (st_id st) s1 = (Inr 1, s2)"
    and ids: "map session_id (sessions s2) = map session_id (sessions s) @ [child]"
    and stk: "session_stack s2 = session_stack s @ [new_frame child root n Digression (Some k) (clock s)]"
    and rows: "\<forall>x. x \<noteq> child \<longrightarrow> find_row x s2 = find_row x s"
    and born: "find_row child s2 = Some (spawned_row child wft st (normalize_session_id sid)
      (fingerprint_for e ap wft) (clock s))"
    using spawn [OF ok fresh caps(3) row here(4) pos d, of wft "st_id st" Digression "Some k"
        "fingerprint_for e ap wft"] unfolding child_def spawned_row_new by blast
  note free = free_above [OF here(4) pos]
  have row': "find_row (normalize_session_id sid) s \<noteq> None" using row by simp
  note sp = spawned_stack [OF fresh row' pos free stk, unfolded new_frame_simps,
      OF meta_eq_to_obj_eq [OF child_def] refl refl normalize_idem, folded child_def]
  have n: "normalize_session_id child = child" by (simp add: child_def)
  have own: "own_frame child s2 = Some (new_frame child root n Digression (Some k) (clock s))"
    using sp(1) by (simp add: own_frame_def n)
  have "root_session_id (new_frame child root n Digression (Some k) (clock s)) = root" by simp
  have canon: "normalize_session_id root = root"
    using child_position_root [OF ok normalize_idem [of sid]] pos by (metis prod.inject)
  have dep: "stack_depth root s2 = Suc (length (frames_of root s))"
    using sp(3) by (simp add: stack_depth_def canon)
  have push: "push_child e ap token sid wft k c cw s =
      (push_response sid child wft k c cw st (Suc (length (frames_of root s))), s2)"
    by (simp add: push_child_def first c v own dep)
  have "push_flow e ap token (PStr sid) (PStr wft) (PStr k) (PStr c) s =
      trap_errors e ''session_id'' (Some sid) (push_child e ap token sid wft k c cw) s"
    using args here target(1) own_root [OF ok pos] caps(1,2)
    by (simp add: push_flow_def guard_args_def trap_errors_def with_session_ok [OF live]
        push_guarded_def push_checked_def Let_def not_le)
  moreover have "top_frame_for sid s2 = Some (new_frame child root n Digression (Some k) (clock s))"
    using sp(2) by (simp add: top_frame_for_def)
  moreover have "length (frames_of root s2) \<le> 3"
    using sp(3) caps(1) by (simp add: max_stack_depth_def)
  ultimately show ?thesis
    using push stk rows born ids target(3)
    by (simp add: trap_errors_def push_response_def child_response_def)
qed

text \<open>
  C7. \<open>push_flow\<close> refuses to push a fourth frame on a root with
  \<open>session_stack_full\<close>, and refuses a new session beyond the active cap with
  \<open>session_cap_exceeded\<close>; either way the database is unchanged.
\<close>

theorem push_flow_caps:
  assumes ok: "db_ok s" and live: "resolves ap sid s r w"
    and args: "sid \<noteq> []" "wft \<noteq> []" "k \<noteq> []"
    and here: "escalation r = None" "current_step r = k" "k \<noteq> COMPLETE" "top_frame_for sid s = None"
    and target: "dget (app_workflows ap) wft = Some cw"
    and pos: "child_position (normalize_session_id sid) s = (root, n)"
    and full: "max_stack_depth \<le> length (frames_of root s) \<or> ACTIVE_CAP \<le> count_active s"
  shows "\<exists>resp. push_flow e ap token (PStr sid) (PStr wft) (PStr k) (PStr c) s = (Inr resp, s) \<and>
    resp_code resp = Some (if max_stack_depth \<le> length (frames_of root s)
      then ''session_stack_full'' else ''session_cap_exceeded'')"
  using args here target own_root [OF ok pos] full
  by (auto simp: push_flow_def guard_args_def trap_errors_def with_session_ok [OF live]
      push_guarded_def push_checked_def Let_def stack_full_error_def session_cap_error_def)

section \<open>pop\_flow\<close>

text \<open>
  C9. \<open>pop_flow\<close> on a live, not escalated session whose frame is a digression, and
  whose outer session is live and stands at a step of its workflow that has directive fields,
  deletes the session and its frame and nothing else, and answers with the outer session and the
  step it stands at now, with that step's directives.
\<close>

theorem pop_flow_resumes_outer:
  assumes live: "resolves ap sid s r w" and "sid \<noteq> []" and "escalation r = None"
    and own: "own_frame sid s = Some f" "frame_type f = Digression"
    and par: "parent_of sid s = Some p" and outer: "resolves ap p s rp wp"
    and step: "current_step rp \<noteq> COMPLETE" "find_step wp (current_step rp) = Some (i, st)"
      "directive_fields wp st = Inr ds"
  shows "\<exists>fs s'. pop_flow e ap (PStr sid) s = (Inr (PDict fs), s') \<and>
    dget fs ''session_id'' = Some (PStr p) \<and>
    dget fs ''resumed_from_digression'' = Some (PBool True) \<and>
    dget fs ''child_session_id'' = Some (PStr (normalize_session_id sid)) \<and>
    dget fs ''current_step'' = Some (PDict ([(''id'', PStr (st_id st)), (''title'', st_title st)]
      @ call_target_field st)) \<and>
    (\<forall>x\<in>set ds. x \<in> set fs) \<and>
    sessions s' = filter (\<lambda>x. session_id x \<noteq> normalize_session_id sid) (sessions s) \<and>
    session_stack s' = filter (\<lambda>g. frame_session_id g \<noteq> normalize_session_id sid) (session_stack s) \<and>
    clock s' = clock s \<and> client_state s' = client_state s"
proof -
  have row: "find_row (normalize_session_id sid) s = Some r" using live by (simp add: resolves_def)
  have id: "session_id r = normalize_session_id sid" using find_row_id [OF row] .
  have par': "parent_of (normalize_session_id sid) s = Some p" using par by (simp add: parent_of_def)
  have del: "delete_session e (normalize_session_id sid) s =
      (Inr (row_to_session e r), del_rows [normalize_session_id sid] s)"
    by (simp add: delete_session_def transaction_def Let_def row)
  let ?view = "[(''current_step'', PDict (step_head st @ call_target_field st)),
      (''progress'', PStr (progress_text i wp '' resumed''))] @ ds
      @ injected_field st (step_data rp) @ directives_field st @ branch_fields st"
  have "resume_view (row_to_session e rp) wp = Inr ?view"
    using step by (simp add: resume_view_def)
  then have "pop_flow e ap (PStr sid) s =
      (Inr (PDict ([(''session_id'', PStr p), (''resumed_from_digression'', PBool True),
                  (''child_session_id'', PStr (normalize_session_id sid))] @ ?view)),
       del_rows [normalize_session_id sid] s)"
    using assms by (simp add: pop_flow_def guard_args_def trap_errors_def with_session_ok [OF live]
        pop_checked_def resume_parent_after_digression_def id par' with_session_ok [OF outer] del)
  then show ?thesis by (auto simp: step_head_def del_rows_def)
qed

section \<open>enter\_sub\_workflow\<close>





section \<open>Handing the result to the parent\<close>

lemma del_child_frame:
  assumes "db_ok s" and "find_frame c s = Some f" and "top_frame_for p s = Some f"
    and "normalize_session_id p = p" and "frame_session_id f = c"
  shows "set_called_session p None None (del_rows [c] s) =
    (if find_row p (del_rows [c] s) = None then (Inl SessionNotFoundError, del_rows [c] s)
     else (Inr (), upd_row p (\<lambda>r. r\<lparr>called_session := None, updated_at := clock s\<rparr>) (del_rows [c] s)))"
proof (cases "find_row p (del_rows [c] s)")
  case None
  then show ?thesis by (simp add: set_called_session_def transaction_def Let_def assms(4))
next
  case (Some r)
  obtain root n where pos: "child_position p s = (root, n)" by fastforce
  then have at: "frame_at root n s = Some f" using assms(3,4) by (simp add: top_frame_for_def)
  then have f: "f \<in> set (session_stack s)" "root_session_id f = root" "depth f = n"
    by (auto dest: frame_at_Some)
  have others: "g = f" if "g \<in> set (session_stack s)" "root_session_id g = root" "depth g = n" for g
    using frame_at_unique [OF assms(1) that(1)] at that by simp
  have "p \<noteq> c"
    using at frame_at_Some [OF at] pos assms(1,2,5) Some by (auto split: if_splits)
  then have "find_frame p (del_rows [c] s) = find_frame p s" by simp
  then have pos': "child_position p (del_rows [c] s) = (root, n)"
    using pos by (simp add: child_position_def)
  have "filter (\<lambda>g. \<not> (root_session_id g = root \<and> depth g = n)) (session_stack (del_rows [c] s)) =
      session_stack (del_rows [c] s)"
    using others assms(5) by (auto simp: stack_del_rows intro!: filter_cong)
  then show ?thesis
    using Some pos' by (simp add: set_called_session_def transaction_def Let_def assms(4))
qed

text \<open>
  The parent row once the artifact is written under the call-step, the link is cleared and
  the pointer moved to \<open>nxt\<close>.
\<close>

lemma parent_canonical:
  assumes ok: "db_ok s" and own: "own_frame c s = Some f" and canon: "normalize_session_id c = c"
    and par: "parent_of c s = Some p"
  shows "normalize_session_id p = p"
proof (cases "depth f = 1")
  case True
  with par own have "p = root_session_id f" by (simp add: parent_of_def own_frame_def)
  moreover have "f \<in> set (session_stack s)" using own by (auto simp: own_frame_def canon dest: find_frame_mem)
  ultimately show ?thesis using frame_canonical(2) [OF ok] by simp
next
  case False
  with par own obtain g where "frame_at (root_session_id f) (depth f - 1) s = Some g"
    "p = frame_session_id g" by (auto simp: parent_of_def own_frame_def)
  with frame_canonical(1) [OF ok] show ?thesis by (auto dest: frame_at_Some)
qed

text \<open>The two writes that take a finished child off its parent.\<close>

lemma unlink_child:
  assumes ok: "db_ok s" and own: "own_frame c s = Some f" "frame_session_id f = c"
    and child: "find_row c s = Some rc" and canon: "normalize_session_id c = c"
    and par: "parent_of c s = Some p" and prow: "find_row (normalize_session_id p) s = Some rp" and pc: "p \<noteq> c"
  shows "\<exists>s2. normalize_session_id p = p \<and>
    delete_session e c s = (Inr (row_to_session e rc), del_rows [c] s) \<and>
    set_called_session p None None (del_rows [c] s) = (Inr (), s2) \<and>
    find_row p s2 = Some (rp\<lparr>called_session := None, updated_at := clock s\<rparr>) \<and>
    session_stack s2 = session_stack (del_rows [c] s) \<and> clock s2 = clock s \<and> find_row c s2 = None \<and>
    (\<forall>x. x \<noteq> p \<and> x \<noteq> c \<longrightarrow> find_row x s2 = find_row x s)"
proof -
  have p: "normalize_session_id p = p" by (rule parent_canonical [OF ok own(1) canon par])
  with prow have row: "find_row p s = Some rp" by simp
  obtain g where "find_frame (normalize_session_id c) s = Some g" "top_frame_for p s = Some g"
    using top_frame_of_parent [OF ok par] .
  then have f: "find_frame c s = Some f" "top_frame_for p s = Some f"
    using own by (simp_all add: own_frame_def canon)
  let ?s2 = "upd_row p (\<lambda>r. r\<lparr>called_session := None, updated_at := clock s\<rparr>) (del_rows [c] s)"
  have "delete_session e c s = (Inr (row_to_session e rc), del_rows [c] s)"
    by (simp add: delete_session_def transaction_def Let_def canon child)
  moreover have "set_called_session p None None (del_rows [c] s) = (Inr (), ?s2)"
    using del_child_frame [OF ok f p own(2)] pc by (simp add: row)
  moreover have "find_row p ?s2 = Some (rp\<lparr>called_session := None, updated_at := clock s\<rparr>)"
    using find_row_id [OF row] pc by (simp add: find_row_upd_row row)
  moreover have "find_row c ?s2 = None"
    using pc by (simp add: find_row_upd_row [where sid = p] find_row_id [OF row])
  moreover have "find_row x ?s2 = find_row x s" if "x \<noteq> p" "x \<noteq> c" for x
    using find_row_id [OF row] pc that by (simp add: find_row_upd_row [where sid = p] row)
  ultimately show ?thesis using p by simp
qed

text \<open>
  C11. When a called child finishes whose parent is live and stands at a call step without
  branches, and the artifact of the child's last step fits the output schema of that call step,
  the artifact becomes the data of the call step, the parent moves to the next step in order
  past those the skip loop passes (no guardrail is evaluated) with its visit counted and its
  link to the child cleared, and the child's row and frame are gone; no other row and no other
  frame changes. It is stated for a next step that is not the end, exists with directive fields
  and is no \<open>mcp_tool_call\<close>.
\<close>

theorem finished_child_advances_parent:
  fixes data :: "(string, string) dict"
  assumes ok: "db_ok s" and own: "own_frame c s = Some f" "frame_session_id f = c"
    and child: "find_row c s = Some rc" and canon: "normalize_session_id c = c"
    and par: "parent_of c s = Some p" and live: "resolves ap p s rp wp" and pc: "p \<noteq> c"
    and step: "find_step wp (current_step rp) = Some (i, cs)" "st_call cs = Some target"
      "st_branches cs = []"
    and steps: "wf_steps cw \<noteq> []"
  defines "a \<equiv> dget_or data (st_id (last (wf_steps cw))) []"
  defines "d \<equiv> dput (current_step rp) a (step_data rp)"
  assumes valid: "validate_output e a cs = None"
    and skip: "apply_skip_loop (fuel e)
      (if i + 1 < length (wf_steps wp) then st_id (wf_steps wp ! (i + 1)) else COMPLETE) wp d False =
      Inr (nxt, sk)"
    and nxt: "nxt \<noteq> COMPLETE" "find_step wp nxt = Some (j, st')"
      "st_action st' \<noteq> Some ''mcp_tool_call''" "directive_fields wp st' = Inr ds" "0 < fuel e"
  shows "\<exists>resp s'. propagate_to_parent e ap c data cw s = (Inr resp, s') \<and>
    pget resp ''propagated_from_sub_workflow'' = Some (PBool True) \<and>
    find_row p s' = Some (advanced nxt d (clock s) (rp\<lparr>called_session := None, updated_at := clock s\<rparr>)) \<and>
    find_row c s' = None \<and>
    (\<forall>x. x \<noteq> p \<and> x \<noteq> c \<longrightarrow> find_row x s' = find_row x s) \<and>
    session_stack s' = filter (\<lambda>g. frame_session_id g \<noteq> c) (session_stack s)"
proof -
  have prow: "find_row (normalize_session_id p) s = Some rp" using live by (simp add: resolves_def)
  obtain s2 where p: "normalize_session_id p = p"
    and del: "delete_session e c s = (Inr (row_to_session e rc), del_rows [c] s)"
    and link: "set_called_session p None None (del_rows [c] s) = (Inr (), s2)"
    and row2: "find_row p s2 = Some (rp\<lparr>called_session := None, updated_at := clock s\<rparr>)"
    and more2: "session_stack s2 = session_stack (del_rows [c] s)" "clock s2 = clock s"
    and gone2: "find_row c s2 = None"
    and rows2: "\<forall>x. x \<noteq> p \<and> x \<noteq> c \<longrightarrow> find_row x s2 = find_row x s"
    using unlink_child [OF ok own child canon par prow pc] by blast
  let ?k = "bindE (liftE (next_fields wp nxt d)) (\<lambda>fs.
      retE (PDict ([(''session_id'', PStr p), (''submitted'', PDict (step_head cs)),
        (''progress'', PStr (progress_text i wp '' complete'')),
        (''propagated_from_sub_workflow'', PBool True)] @ fs)))"
  have row2': "find_row (normalize_session_id p) s2 =
      Some (rp\<lparr>called_session := None, updated_at := clock s\<rparr>)" using row2 p by simp
  obtain s3 where s3: "seqE (if nxt \<noteq> COMPLETE then bindE (increment_visit p nxt) (\<lambda>_. retE ()) else retE ())
      (seqE (update_session p (Some nxt) (Some d)) ?k) s2 = ?k s3"
    "find_row p s3 = Some (advanced nxt d (clock s) (rp\<lparr>called_session := None, updated_at := clock s\<rparr>))"
    "\<forall>x. x \<noteq> p \<longrightarrow> find_row x s3 = find_row x s2" "session_stack s3 = session_stack s2"
    using advance_writes [OF row2', of nxt d ?k] p pc more2 by auto
  note stop = auto_execute_stop [OF nxt(2,3,5)]
  have adv: "advance_parent e ap p wp cs i d s2 = ?k s3"
    using s3(1) step(3) skip [folded linear_next_def] nxt(1)
    by (simp add: advance_parent_def stop)
  have "propagate_to_parent e ap c data cw s = advance_parent e ap p wp cs i d s2"
    using par steps step valid
    by (simp add: propagate_to_parent_def a_def [symmetric] Let_def with_session_ok [OF live] del link
        d_def)
  then show ?thesis
    using adv s3 gone2 rows2 pc more2 nxt by (simp add: next_fields_def stack_del_rows)
qed

section \<open>Instances\<close>

text \<open>Facts of the small workflows that several instances use.\<close>

lemma plan_directives:
  "directive_fields essay (plain_step ''plan'') = Inr [(''directive'', PStr ''Do it.''),
     (''do_not'', DO_NOT_RULES), (''conversation_repair'', repair_for essay), (''gates'', PList [])]"
  by (simp add: scenario_defs directive_fields_def)

lemma close_directives:
  "directive_fields outer (plain_step ''close'') = Inr [(''directive'', PStr ''Do it.''),
     (''do_not'', DO_NOT_RULES), (''conversation_repair'', repair_for outer), (''gates'', PList [])]"
  by (simp add: scenario_defs directive_fields_def)

lemma essay_target:
  "dget (app_workflows demo_app) ''essay'' = Some essay"
  "wf_steps essay = [plain_step ''plan'', plain_step ''draft'']"
  by code_simp+

lemma solo_facts:
  "db_ok (solo ''essay'' ''draft'')"
  "resolves demo_app ''s1'' (solo ''essay'' ''draft'') (demo_row ''s1'' ''essay'' ''draft'') essay"
  "escalation (demo_row ''s1'' ''essay'' ''draft'') = None"
  "current_step (demo_row ''s1'' ''essay'' ''draft'') = ''draft''" "''draft'' \<noteq> COMPLETE"
  "top_frame_for ''s1'' (solo ''essay'' ''draft'') = None"
  "child_position (normalize_session_id ''s1'') (solo ''essay'' ''draft'') = (''s1'', 1)"
  by code_simp+

theorem push_flow_spawns_digression_witness:
  "\<exists>resp s'. push_flow demo_env demo_app ''T'' (PStr ''s1'') (PStr ''essay'') (PStr ''draft'') (PStr [])
      (solo ''essay'' ''draft'') = (Inr resp, s') \<and>
    pget resp ''session_id'' = Some (PStr ''t'') \<and> pget resp ''frame_depth'' = Some (PInt 1) \<and>
    map session_id (sessions s') = [''s1'', ''t'']"
proof -
  have v: "length (frames_of ''s1'' (solo ''essay'' ''draft'')) < max_stack_depth"
    "count_active (solo ''essay'' ''draft'') < ACTIVE_CAP"
    "int (length (sessions (solo ''essay'' ''draft''))) < session_cap demo_env"
    "fresh ''T'' (solo ''essay'' ''draft'')"
    by code_simp+
  have w: "normalize_session_id ''T'' = ''t''" "length (frames_of ''s1'' (solo ''essay'' ''draft'')) = 0"
    "map session_id (sessions (solo ''essay'' ''draft'')) = [''s1'']"
    by code_simp+
  show ?thesis
    using push_flow_spawns_digression [OF solo_facts(1,2) _ _ _ solo_facts(3-6) essay_target
        plan_directives solo_facts(7) v, of "[]"]
    unfolding w by auto
qed

theorem push_flow_caps_witness:
  "\<exists>resp. push_flow demo_env demo_app ''t'' (PStr ''s1'') (PStr ''essay'') (PStr ''draft'') (PStr [])
      (demo_world (map (\<lambda>i. demo_row i ''essay'' ''draft'') [''s1'', ''s2'', ''s3'', ''s4'', ''s5'']) []) =
      (Inr resp, demo_world (map (\<lambda>i. demo_row i ''essay'' ''draft'')
        [''s1'', ''s2'', ''s3'', ''s4'', ''s5'']) []) \<and>
    resp_code resp = Some ''session_cap_exceeded''"
proof -
  let ?s = "demo_world (map (\<lambda>i. demo_row i ''essay'' ''draft'') [''s1'', ''s2'', ''s3'', ''s4'', ''s5'']) []"
  have v: "db_ok ?s" "resolves demo_app ''s1'' ?s (demo_row ''s1'' ''essay'' ''draft'') essay"
    "top_frame_for ''s1'' ?s = None" "child_position (normalize_session_id ''s1'') ?s = (''s1'', 1)"
    "max_stack_depth \<le> length (frames_of ''s1'' ?s) \<or> ACTIVE_CAP \<le> count_active ?s"
    "\<not> max_stack_depth \<le> length (frames_of ''s1'' ?s)"
    by code_simp+
  show ?thesis
    using push_flow_caps [OF v(1,2) _ _ _ solo_facts(3-5) v(3) essay_target(1) v(4,5)] v(6) by simp
qed

theorem pop_flow_resumes_outer_witness:
  "\<exists>fs s'. pop_flow demo_env demo_app (PStr ''c1'') (with_child ''essay'' ''draft'' Digression ''plan'') =
      (Inr (PDict fs), s') \<and>
    dget fs ''session_id'' = Some (PStr ''s1'') \<and>
    dget fs ''current_step'' = Some (PDict [(''id'', PStr ''draft''), (''title'', PStr ''draft'')]) \<and>
    sessions s' = [demo_row ''s1'' ''essay'' ''draft''] \<and> session_stack s' = []"
proof -
  let ?s = "with_child ''essay'' ''draft'' Digression ''plan''"
  let ?f = "\<lparr>frame_session_id = ''c1'', root_session_id = ''s1'', depth = 1,
        frame_type = Digression, call_step_id = Some ''draft'', frame_created_at = 0\<rparr>"
  have v: "resolves demo_app ''c1'' ?s (demo_row ''c1'' ''essay'' ''plan'') essay"
    "escalation (demo_row ''c1'' ''essay'' ''plan'') = None"
    "own_frame ''c1'' ?s = Some ?f" "frame_type ?f = Digression" "parent_of ''c1'' ?s = Some ''s1''"
    "resolves demo_app ''s1'' ?s (demo_row ''s1'' ''essay'' ''draft'') essay"
    "current_step (demo_row ''s1'' ''essay'' ''draft'') \<noteq> COMPLETE"
    "find_step essay (current_step (demo_row ''s1'' ''essay'' ''draft'')) = Some (1, plain_step ''draft'')"
    by code_simp+
  have d: "directive_fields essay (plain_step ''draft'') = Inr [(''directive'', PStr ''Do it.''),
     (''do_not'', DO_NOT_RULES), (''conversation_repair'', repair_for essay), (''gates'', PList [])]"
    by (simp add: scenario_defs directive_fields_def)
  have w: "normalize_session_id ''c1'' = ''c1''"
    "filter (\<lambda>x. session_id x \<noteq> ''c1'') (sessions ?s) = [demo_row ''s1'' ''essay'' ''draft'']"
    "filter (\<lambda>g. frame_session_id g \<noteq> ''c1'') (session_stack ?s) = []"
    "PDict ([(''id'', PStr (st_id (plain_step ''draft''))), (''title'', st_title (plain_step ''draft''))]
      @ call_target_field (plain_step ''draft'')) = PDict [(''id'', PStr ''draft''), (''title'', PStr ''draft'')]"
    by code_simp+
  show ?thesis
    using pop_flow_resumes_outer [OF v(1) _ v(2-8) d] unfolding w by blast
qed


theorem finished_child_advances_parent_witness:
  "\<exists>resp s'. propagate_to_parent demo_env demo_app ''c1'' [(''draft'', ''result'')] essay
      (with_child ''outer'' ''delegate'' Call COMPLETE) = (Inr resp, s') \<and>
    find_row ''c1'' s' = None \<and>
    (\<exists>r. find_row ''s1'' s' = Some r \<and> current_step r = ''close'' \<and>
         step_data r = [(''delegate'', ''result'')])"
proof -
  let ?s = "with_child ''outer'' ''delegate'' Call COMPLETE"
  let ?rp = "demo_row ''s1'' ''outer'' ''delegate''"
  let ?f = "\<lparr>frame_session_id = ''c1'', root_session_id = ''s1'', depth = 1,
        frame_type = Call, call_step_id = Some ''delegate'', frame_created_at = 0\<rparr>"
  let ?cs = "(plain_step ''delegate'')\<lparr>st_call := Some ''essay''\<rparr>"
  have v: "db_ok ?s" "own_frame ''c1'' ?s = Some ?f" "frame_session_id ?f = ''c1''"
    "find_row ''c1'' ?s = Some (demo_row ''c1'' ''essay'' COMPLETE)" "normalize_session_id ''c1'' = ''c1''"
    "parent_of ''c1'' ?s = Some ''s1''" "resolves demo_app ''s1'' ?s ?rp outer" "''s1'' \<noteq> ''c1''"
    "find_step outer (current_step ?rp) = Some (0, ?cs)" "st_call ?cs = Some ''essay''"
    "st_branches ?cs = []" "wf_steps essay \<noteq> []"
    by code_simp+
  let ?a = "dget_or [(''draft'', ''result'')] (st_id (last (wf_steps essay))) []"
  let ?d = "dput (current_step ?rp) ?a (step_data ?rp)"
  have d: "?d = [(''delegate'', ''result'')]" by code_simp
  have u: "validate_output demo_env ?a ?cs = None"
    "apply_skip_loop (fuel demo_env)
      (if 0 + 1 < length (wf_steps outer) then st_id (wf_steps outer ! (0 + 1)) else COMPLETE) outer ?d False =
      Inr (''close'', [])"
    "''close'' \<noteq> COMPLETE" "find_step outer ''close'' = Some (1, plain_step ''close'')"
    "st_action (plain_step ''close'') \<noteq> Some ''mcp_tool_call''" "0 < fuel demo_env"
    by code_simp+
  show ?thesis
    using finished_child_advances_parent [OF v u(1-5) close_directives u(6)] unfolding d by auto
qed

end
