(* ===== verification/LoopProps.thy ===== *)
theory LoopProps
  imports Scenario
begin

text \<open>
  The two loops over the steps of a workflow: the skip loop and the loop that executes
  \<open>mcp_tool_call\<close> steps in line. Both end when step ids are unique and execution only moves
  forward, within fuel one above the number of steps; on documents that the validator lets
  through they may also run forever, and two theorems exhibit such workflows.
\<close>

section \<open>Steps by id\<close>

lemma find_enumerate:
  assumes "find (\<lambda>x. k (snd x) = y) (List.enumerate n xs) = Some (i, z)"
  shows "n \<le> i \<and> i < n + length xs \<and> xs ! (i - n) = z \<and> k z = y"
  using assms
proof (induction xs arbitrary: n)
  case (Cons x xs)
  show ?case
  proof (cases "k x = y")
    case False
    with Cons.prems have "find (\<lambda>x. k (snd x) = y) (List.enumerate (Suc n) xs) = Some (i, z)" by simp
    from Cons.IH [OF this] show ?thesis by (auto simp: nth_Cons' Suc_le_eq)
  qed (use Cons.prems in auto)
qed simp

lemma find_step_Some:
  "find_step w x = Some (i, st) \<Longrightarrow> i < length (wf_steps w) \<and> wf_steps w ! i = st \<and> st_id st = x"
  using find_enumerate [of st_id x 0 "wf_steps w" i st] by (simp add: find_step_def)

lemma find_enumerate_distinct:
  assumes "distinct (map k xs)" and "i < length xs"
  shows "find (\<lambda>x. k (snd x) = k (xs ! i)) (List.enumerate n xs) = Some (n + i, xs ! i)"
  using assms
proof (induction xs arbitrary: n i)
  case (Cons x xs)
  show ?case
  proof (cases i)
    case (Suc j)
    then have "k (xs ! j) \<in> k ` set xs" using Cons.prems by simp
    with Suc Cons show ?thesis by auto
  qed simp
qed simp

lemma find_step_nth:
  "distinct (step_ids w) \<Longrightarrow> i < length (wf_steps w) \<Longrightarrow>
   find_step w (st_id (wf_steps w ! i)) = Some (i, wf_steps w ! i)"
  using find_enumerate_distinct [of st_id "wf_steps w" i 0] by (simp add: find_step_def step_ids_def)

text \<open>The number of steps from \<open>x\<close> on: what is left of a forward walk.\<close>

definition steps_left :: "workflow \<Rightarrow> string \<Rightarrow> nat" where
  "steps_left w x = (case find_step w x of None \<Rightarrow> 0 | Some (i, _) \<Rightarrow> length (wf_steps w) - i)"

lemma steps_left_bound: "steps_left w x \<le> length (wf_steps w)"
  by (simp add: steps_left_def split: option.splits)

lemma linear_next_left:
  assumes "distinct (step_ids w)" and "find_step w x = Some (i, st)" and "linear_next w i \<noteq> COMPLETE"
  shows "steps_left w (linear_next w i) < steps_left w x"
proof -
  have "i + 1 < length (wf_steps w)" using assms(3) by (auto simp: linear_next_def split: if_splits)
  then show ?thesis
    using find_step_nth [OF assms(1), of "i + 1"] assms(2)
    by (simp add: steps_left_def linear_next_def)
qed

section \<open>The skip loop\<close>

lemma resolve_ref_returns: "resolve_ref ref data sk k \<noteq> Inl NoReturn"
  by (simp add: resolve_ref_def split: list.splits option.splits)

lemma evaluate_returns: "evaluate_precondition pc data sk k \<noteq> Inl NoReturn"
proof (cases pc)
  case (WhenEquals ref v)
  then show ?thesis
    using resolve_ref_returns [of ref data sk k] by (auto split: sum.splits option.splits)
qed (auto split: list.splits)

lemma skipped_walk_returns: "skipped_walk ss data acc \<noteq> Inl NoReturn"
proof (induction ss arbitrary: acc)
  case (Cons s ss)
  then show ?case
    using evaluate_returns [of _ data acc "st_id s"]
    by (auto split: option.splits sum.splits exn.splits if_splits)
qed simp

lemma skip_loop_fuel:
  assumes "distinct (step_ids w)" and "steps_left w nxt < n"
  shows "skip_loop n w data sk nxt acc \<noteq> Inl NoReturn"
  using assms(2)
proof (induction n arbitrary: sk nxt acc)
  case (Suc n)
  show ?case
  proof (cases "nxt = COMPLETE \<or> find_step w nxt = None")
    case False
    then obtain i st where f: "nxt \<noteq> COMPLETE" "find_step w nxt = Some (i, st)" by auto
    have rest: "skip_loop n w data sk' (linear_next w i) acc' \<noteq> Inl NoReturn" for sk' acc'
    proof (cases "linear_next w i = COMPLETE")
      case True
      have "length (wf_steps w) - i < Suc n" using Suc.prems f(2) by (simp add: steps_left_def)
      moreover have "i < length (wf_steps w)" using find_step_Some [OF f(2)] by simp
      ultimately have "0 < n" by arith
      with True show ?thesis by (cases n) simp_all
    next
      case False
      from linear_next_left [OF assms(1) f(2) False] Suc.prems
      show ?thesis by (intro Suc.IH) simp
    qed
    show ?thesis
      using f rest evaluate_returns [of _ data sk nxt]
      by (auto split: option.splits sum.splits bool.splits)
  qed auto
qed simp

text \<open>
  C22. With distinct step ids the skip loop returns within as many turns as the workflow has
  steps.
\<close>

theorem skip_loop_terminates:
  assumes "distinct (step_ids w)" and "length (wf_steps w) < n"
  shows "apply_skip_loop n nxt w data forced \<noteq> Inl NoReturn"
proof -
  have "steps_left w nxt < n" using steps_left_bound [of w nxt] assms(2) by simp
  from skip_loop_fuel [OF assms(1) this] show ?thesis
    using skipped_walk_returns [of "wf_steps w" data "[]"]
    by (auto simp: apply_skip_loop_def compute_skipped_steps_def split: sum.splits)
qed

text \<open>
  The skipped steps are the run of consecutive steps from the one asked for; each has a
  precondition that is false, and the step the loop stops at has none or a true one.
\<close>

definition runs_at :: "workflow \<Rightarrow> (string, string) dict \<Rightarrow> string \<Rightarrow> bool" where
  "runs_at w data x \<longleftrightarrow>
     x = COMPLETE \<or> find_step w x = None \<or>
     (\<exists>i st. find_step w x = Some (i, st) \<and>
        (st_precondition st = None \<or>
         (\<exists>pc sk. st_precondition st = Some pc \<and> evaluate_precondition pc data sk x = Inr True)))"

definition skipped_at :: "workflow \<Rightarrow> (string, string) dict \<Rightarrow> string \<Rightarrow> bool" where
  "skipped_at w data x \<longleftrightarrow>
     (\<exists>i st pc sk. find_step w x = Some (i, st) \<and> st_precondition st = Some pc \<and>
        evaluate_precondition pc data sk x = Inr False)"

lemma skip_loop_result:
  assumes "skip_loop n w data sk nxt acc = Inr (x, skipped)"
  shows "\<exists>new. skipped = acc @ new \<and> runs_at w data x \<and> (\<forall>y\<in>set new. skipped_at w data y)"
  using assms
proof (induction n arbitrary: sk nxt acc)
  case (Suc n)
  show ?case
  proof (cases "nxt = COMPLETE \<or> find_step w nxt = None")
    case False
    then obtain i st where f: "nxt \<noteq> COMPLETE" "find_step w nxt = Some (i, st)" by auto
    show ?thesis
    proof (cases "st_precondition st")
      case (Some pc)
      then obtain b where b: "evaluate_precondition pc data sk nxt = Inr b"
        using Suc.prems f by (auto split: sum.splits)
      show ?thesis
      proof (cases b)
        case True
        with Suc.prems f Some b show ?thesis by (auto simp: runs_at_def)
      next
        case False
        with Suc.prems f Some b
        have "skip_loop n w data (nxt # sk) (linear_next w i) (acc @ [nxt]) = Inr (x, skipped)"
          by simp
        from Suc.IH [OF this] obtain new where "skipped = acc @ nxt # new" "runs_at w data x"
          "\<forall>y\<in>set new. skipped_at w data y" by auto
        moreover have "skipped_at w data nxt" using f Some b False by (auto simp: skipped_at_def)
        ultimately show ?thesis by (intro exI [of _ "nxt # new"]) simp
      qed
    qed (use Suc.prems f in \<open>auto simp: runs_at_def\<close>)
  qed (use Suc.prems in \<open>auto simp: runs_at_def split: if_splits\<close>)
qed simp

text \<open>
  The step the skip loop stops at is the end, unknown, without precondition, or one whose
  precondition holds, and every step it passed had a precondition that did not hold.
\<close>

theorem skip_loop_lands:
  assumes "apply_skip_loop n nxt w data False = Inr (x, skipped)"
  shows "runs_at w data x \<and> (\<forall>y\<in>set skipped. skipped_at w data y)"
proof -
  obtain sk where "skip_loop n w data sk nxt [] = Inr (x, skipped)"
    using assms by (auto simp: apply_skip_loop_def split: sum.splits)
  from skip_loop_result [OF this] show ?thesis by auto
qed

section \<open>In-line execution\<close>

text \<open>
  The steps the loop executes lead only forward: one with branches has no default branch, or one that
  is a later step (or none of the steps, where the loop stops).
\<close>

definition forward_mcp :: "workflow \<Rightarrow> bool" where
  "forward_mcp w \<longleftrightarrow>
     distinct (step_ids w) \<and>
     (\<forall>i<length (wf_steps w).
        st_action (wf_steps w ! i) = Some ''mcp_tool_call'' \<and> st_branches (wf_steps w ! i) \<noteq> [] \<longrightarrow>
        (case st_default_branch (wf_steps w ! i) of
           None \<Rightarrow> True
         | Some t \<Rightarrow> t \<notin> set (take (Suc i) (step_ids w))))"

lemma collect_returns: "(\<And>r. r \<in> set rs \<Longrightarrow> r \<noteq> Inl x) \<Longrightarrow> collect rs \<noteq> Inl x"
  by (induction rs rule: collect.induct) (auto split: sum.splits)

lemma resolve_args_returns: "resolve_args v data sk k \<noteq> Inl NoReturn"
proof (induction v data sk k rule: resolve_args.induct)
  case (1 d data sk k)
  have "collect (map (\<lambda>x. resolve_args (snd x) data sk k) d) \<noteq> Inl NoReturn"
    using 1 by (intro collect_returns) auto
  then show ?case by (auto split: sum.splits)
next
  case (2 xs data sk k)
  have "collect (map (\<lambda>x. resolve_args x data sk k) xs) \<noteq> Inl NoReturn"
    using 2 by (intro collect_returns) auto
  then show ?case by (auto split: sum.splits)
next
  case (3 s data sk k)
  then show ?case
    using resolve_ref_returns [of "butlast (drop 2 s)" data sk k]
    by (auto split: sum.splits option.splits)
qed auto

lemma mcp_call_returns: "fst (mcp_call e srv tool args reg t c) \<noteq> Inl NoReturn"
  by (auto simp: mcp_call_def registry_get_def split: sum.splits option.splits prod.splits)

lemma dispatch_returns: "fst (dispatch_call e s v reg c) \<noteq> Inl NoReturn"
  using mcp_call_returns [of e _ _ v reg _ c]
  by (auto simp: dispatch_call_def bindE_def step_key_def effective_timeout_def registry_get_def
      split: option.splits sum.splits prod.splits) (metis fst_conv)+

lemma execute_returns: "fst (execute_mcp_tool_call_step e s data sk reg c) \<noteq> Inl NoReturn"
  using resolve_args_returns [of _ data sk "st_id s"] dispatch_returns [of e s _ _ c]
  by (auto simp: execute_mcp_tool_call_step_def bindE_def step_key_def
      split: option.splits sum.splits prod.splits)

lemma skip_loop_left:
  assumes "distinct (step_ids w)" and "skip_loop n w data sk nxt acc = Inr (x, skipped)"
  shows "x = COMPLETE \<or> steps_left w x \<le> steps_left w nxt"
  using assms(2)
proof (induction n arbitrary: sk nxt acc)
  case (Suc n)
  show ?case
  proof (cases "nxt = COMPLETE \<or> find_step w nxt = None \<or> x = nxt")
    case True
    with Suc.prems show ?thesis by (auto split: if_splits)
  next
    case False
    then obtain i st where f: "nxt \<noteq> COMPLETE" "find_step w nxt = Some (i, st)" by auto
    with False Suc.prems obtain sk' acc' where
      rest: "skip_loop n w data sk' (linear_next w i) acc' = Inr (x, skipped)"
      by (auto split: option.splits sum.splits bool.splits)
    show ?thesis
    proof (cases "linear_next w i = COMPLETE")
      case True
      with rest show ?thesis by (cases n) auto
    next
      case False
      from linear_next_left [OF assms(1) f(2) this] Suc.IH [OF rest] show ?thesis by auto
    qed
  qed
qed simp

lemma apply_skip_loop_left:
  assumes "distinct (step_ids w)" and "apply_skip_loop n nxt w data False = Inr (x, skipped)"
  shows "x = COMPLETE \<or> steps_left w x \<le> steps_left w nxt"
  using assms skip_loop_left [OF assms(1)]
  by (auto simp: apply_skip_loop_def split: sum.splits)

lemma increment_visit_returns: "fst (increment_visit sid k s) \<noteq> Inl NoReturn"
  by (cases "find_row (normalize_session_id sid) s") (simp_all add: visit.missing visit.present)

lemma compute_skipped_returns: "compute_skipped_steps w data \<noteq> Inl NoReturn"
  by (simp add: compute_skipped_steps_def skipped_walk_returns)

lemma bind_returns:
  "fst (m s) \<noteq> Inl NoReturn \<Longrightarrow> (\<And>x s'. fst (f x s') \<noteq> Inl NoReturn) \<Longrightarrow>
   fst (bindE m f s) \<noteq> Inl NoReturn"
  by (auto simp: bindE_def split: prod.splits sum.splits)

lemma either_returns:
  "(\<And>x s'. m s = (Inl x, s') \<Longrightarrow> fst (h x s') \<noteq> Inl NoReturn) \<Longrightarrow>
   (\<And>x s'. fst (k x s') \<noteq> Inl NoReturn) \<Longrightarrow> fst (eitherE m h k s) \<noteq> Inl NoReturn"
  by (auto simp: eitherE_def split: prod.splits sum.splits)

lemma on_client_returns: "on_client m s = (Inl x, s') \<Longrightarrow> fst (m (client_state s)) = Inl x"
  by (auto simp: on_client_def split: prod.splits)

lemma forward_left:
  assumes fwd: "forward_mcp w" and f: "find_step w x = Some (i, st)" "st_action st = Some ''mcp_tool_call''"
    and go: "after_mcp_step w i st \<noteq> COMPLETE"
  shows "steps_left w (after_mcp_step w i st) < steps_left w x"
proof (cases "st_branches st = []")
  case True
  then have "after_mcp_step w i st = linear_next w i" by (simp add: after_mcp_step_def)
  then show ?thesis using linear_next_left [of w x i st] fwd f(1) go by (simp add: forward_mcp_def)
next
  case False
  note st = find_step_Some [OF f(1)]
  from False go obtain t where t: "st_default_branch st = Some t" "after_mcp_step w i st = t"
    by (auto simp: after_mcp_step_def split: option.splits)
  have new: "t \<notin> set (take (Suc i) (step_ids w))"
    using fwd st f(2) False t(1) unfolding forward_mcp_def by (metis option.simps(5))
  have x: "steps_left w x = length (wf_steps w) - i" "i < length (wf_steps w)"
    using f(1) st by (simp_all add: steps_left_def)
  show ?thesis
  proof (cases "find_step w t")
    case None
    then show ?thesis using t(2) x by (simp add: steps_left_def)
  next
    case (Some p)
    obtain j st' where p: "p = (j, st')" by fastforce
    note st' = find_step_Some [OF Some [unfolded p]]
    have "\<not> j < Suc i"
    proof
      assume "j < Suc i"
      moreover have "step_ids w ! j = t" using st' by (simp add: step_ids_def)
      moreover have "j < length (step_ids w)" using st' by (simp add: step_ids_def)
      ultimately have "t \<in> set (take (Suc i) (step_ids w))"
        by (auto simp: in_set_conv_nth intro!: exI [of _ j])
      with new show False by simp
    qed
    then show ?thesis using t(2) x Some p by (simp add: steps_left_def)
  qed
qed

lemma auto_execute_fuel:
  assumes fwd: "forward_mcp w" and fuel: "length (wf_steps w) < fuel e"
    and "nxt \<noteq> COMPLETE \<Longrightarrow> steps_left w nxt < n" and "0 < n"
  shows "fst (auto_execute_mcp_steps n e ap nxt w sid data s) \<noteq> Inl NoReturn"
  using assms(3,4)
proof (induction n arbitrary: nxt data s)
  case (Suc n)
  have d: "distinct (step_ids w)" using fwd by (simp add: forward_mcp_def)
  show ?case
  proof (cases "nxt = COMPLETE \<or> find_step w nxt = None \<or>
      (\<exists>i st. find_step w nxt = Some (i, st) \<and> st_action st \<noteq> Some ''mcp_tool_call'')")
    case True
    then show ?thesis by (auto split: option.splits)
  next
    case False
    then obtain i st where f: "nxt \<noteq> COMPLETE" "find_step w nxt = Some (i, st)"
      "st_action st = Some ''mcp_tool_call''" by (cases "find_step w nxt") auto
    note st = find_step_Some [OF f(2)]
    let ?y = "after_mcp_step w i st"
    have rec: "fst (auto_execute_mcp_steps n e ap x w sid data' s') \<noteq> Inl NoReturn"
      if skip: "apply_skip_loop (fuel e) (?y) w data' False = Inr (x, sk)"
      for x sk data' s'
    proof -
      have left: "x \<noteq> COMPLETE \<Longrightarrow> steps_left w x < n"
      proof -
        assume x: "x \<noteq> COMPLETE"
        then have "?y \<noteq> COMPLETE"
          using skip fuel by (cases "fuel e") (auto simp: apply_skip_loop_def split: sum.splits)
        from forward_left [OF fwd f(2,3) this] apply_skip_loop_left [OF d skip] x f(1) Suc.prems(1)
        show ?thesis by auto
      qed
      have "length (wf_steps w) - i < Suc n" using Suc.prems(1) f by (simp add: steps_left_def)
      then have "0 < n" using st by arith
      from Suc.IH [OF left this] show ?thesis .
    qed
    have call: "y \<noteq> NoReturn"
      if "on_client (execute_mcp_tool_call_step e st data sk (app_registry ap)) t = (Inl y, t')"
      for sk t t' y
      using on_client_returns [OF that] execute_returns by metis
    have skip: "apply_skip_loop (fuel e) (?y) w data' False \<noteq> Inl NoReturn" for data'
      using skip_loop_terminates [OF d fuel] .
    have cont: "fst ((case apply_skip_loop (fuel e) (?y) w data' False of
        Inl y \<Rightarrow>
          (case y of SkippedPredecessor p r \<Rightarrow> retE (g p r) | _ \<Rightarrow> raiseE y)
      | Inr (x, _) \<Rightarrow> auto_execute_mcp_steps n e ap x w sid data') s') \<noteq> Inl NoReturn" for data' g s'
    proof (cases "apply_skip_loop (fuel e) (?y) w data' False")
      case (Inl y)
      with skip [of data'] show ?thesis by (cases y) auto
    next
      case (Inr p)
      with rec show ?thesis by (cases p) auto
    qed
    have raised: "fst ((case y of SkippedPredecessor p r \<Rightarrow> retE (g p r) | _ \<Rightarrow> raiseE y) s') \<noteq>
        Inl NoReturn" if "y \<noteq> NoReturn" for y s' and g :: "string \<Rightarrow> string \<Rightarrow> string \<times> pyval option \<times> (string, string) dict"
      using that by (cases y) auto
    show ?thesis
    proof (cases "compute_skipped_steps w data")
      case (Inl y)
      with f compute_skipped_returns [of w data] show ?thesis by auto
    next
      case (Inr sk)
      have "auto_execute_mcp_steps (Suc n) e ap nxt w sid data s =
          eitherE (on_client (execute_mcp_tool_call_step e st data sk (app_registry ap)))
            (\<lambda>y. case y of
                SkippedPredecessor p r \<Rightarrow>
                  retE (nxt, Some (skipped_error (compute_fingerprint e sid) p r nxt ''args''), data)
              | _ \<Rightarrow> raiseE y)
            (\<lambda>v. let d = dput (st_id st) (json_dumps v) data in
               bindE (increment_visit sid (st_id st)) (\<lambda>_.
                 case apply_skip_loop (fuel e) (?y) w d False of
                   Inl y \<Rightarrow>
                     (case y of
                        SkippedPredecessor p r \<Rightarrow>
                          retE (?y, Some (skipped_error (compute_fingerprint e sid)
                            p r (?y) ''precondition''), d)
                      | _ \<Rightarrow> raiseE y)
                 | Inr (x, _) \<Rightarrow> auto_execute_mcp_steps n e ap x w sid d)) s"
        using f Inr by (simp add: Let_def)
      then show ?thesis
        unfolding Let_def
        by (simp only:) (rule either_returns bind_returns increment_visit_returns cont
              raised | erule call)+
    qed
  qed
qed simp

text \<open>
  C20. In a workflow with distinct step ids whose \<open>mcp_tool_call\<close> steps go on, by
  their default branch or in order, never to themselves or an earlier step, the cascade that
  executes them returns within as many turns as the workflow has steps, whatever the servers
  answer.
\<close>

theorem auto_execute_terminates:
  assumes "forward_mcp w" and "length (wf_steps w) < fuel e" and "length (wf_steps w) < n"
  shows "fst (auto_execute_mcp_steps n e ap nxt w sid data s) \<noteq> Inl NoReturn"
  using assms steps_left_bound [of w nxt] by (intro auto_execute_fuel) auto

section \<open>Workflows on which the loops run forever\<close>

text \<open>Registered server, constant arguments: the executor always leaves an envelope.\<close>

lemma mcp_call_answers:
  "registry_get reg srv = Inr cfg \<Longrightarrow> \<exists>out c'. mcp_call e srv tool v reg t c = (Inr out, c')"
  by (auto simp: mcp_call_def split: prod.splits sum.splits)

lemma execute_envelope:
  assumes "st_args st = Some (PDict [])" and "st_server st = Some srv" and "st_tool st = Some tool"
    and "registry_get reg srv = Inr cfg"
  shows "\<exists>v c'. execute_mcp_tool_call_step e st data sk (Some reg) c = (Inr v, c')"
proof -
  obtain t where t: "effective_timeout st srv reg = Inr t"
    using assms(4) by (cases "st_timeout st") (simp_all add: effective_timeout_def)
  obtain out c' where "mcp_call e srv tool (PDict []) reg (Some t) c = (Inr out, c')"
    using mcp_call_answers [OF assms(4)] by blast
  then show ?thesis
    using assms t by (simp add: execute_mcp_tool_call_step_def dispatch_call_def step_key_def)
qed

lemma skipped_walk_no_preconditions:
  "(\<forall>st\<in>set ss. st_precondition st = None) \<Longrightarrow> skipped_walk ss data acc = Inr acc"
  by (induction ss arbitrary: acc) auto

text \<open>An mcp step whose default branch is itself, in a workflow without preconditions.\<close>

definition polls_itself :: "workflow \<Rightarrow> string \<Rightarrow> registry \<Rightarrow> bool" where
  "polls_itself w k reg \<longleftrightarrow>
     k \<noteq> COMPLETE \<and> (\<forall>st\<in>set (wf_steps w). st_precondition st = None) \<and>
     (case find_step w k of
        None \<Rightarrow> False
      | Some (i, st) \<Rightarrow>
          st_action st = Some ''mcp_tool_call'' \<and> st_branches st \<noteq> [] \<and>
          st_default_branch st = Some k \<and> st_args st = Some (PDict []) \<and>
          st_tool st \<noteq> None \<and>
          (case st_server st of
             None \<Rightarrow> False
           | Some srv \<Rightarrow> (case registry_get reg srv of Inl _ \<Rightarrow> False | Inr _ \<Rightarrow> True)))"

text \<open>However much fuel the loop has, it comes back to the step.\<close>

lemma polling_loops:
  assumes poll: "polls_itself w k reg" and reg: "app_registry ap = Some reg"
    and row: "find_row (normalize_session_id sid) s \<noteq> None" and fuel: "0 < fuel e"
  shows "fst (auto_execute_mcp_steps n e ap k w sid data s) = Inl NoReturn"
  using row
proof (induction n arbitrary: data s)
  case (Suc n)
  from poll obtain i st srv tool cfg where f: "find_step w k = Some (i, st)"
    "st_action st = Some ''mcp_tool_call''" "st_branches st \<noteq> []" "st_default_branch st = Some k"
    and st: "st_args st = Some (PDict [])" "st_server st = Some srv" "st_tool st = Some tool"
      "registry_get reg srv = Inr cfg"
  proof -
    obtain i st where a: "find_step w k = Some (i, st)"
      using poll by (cases "find_step w k") (auto simp: polls_itself_def)
    then obtain srv where b: "st_server st = Some srv"
      using poll by (cases "st_server st") (auto simp: polls_itself_def)
    then obtain cfg where "registry_get reg srv = Inr cfg"
      using poll a by (cases "registry_get reg srv") (auto simp: polls_itself_def)
    with that a b poll show ?thesis by (auto simp: polls_itself_def)
  qed
  have k: "k \<noteq> COMPLETE" "st_id st = k"
    using poll find_step_Some [OF f(1)] by (simp_all add: polls_itself_def)
  have none: "\<forall>st\<in>set (wf_steps w). st_precondition st = None"
    using poll by (simp add: polls_itself_def)
  then have sk: "compute_skipped_steps w data' = Inr []" for data'
    by (simp add: compute_skipped_steps_def skipped_walk_no_preconditions)
  have "st_precondition st = None" using none find_step_Some [OF f(1)] by (metis nth_mem)
  with f(1) fuel k have loop: "apply_skip_loop (fuel e) k w data' False = Inr (k, [])" for data'
    by (cases "fuel e") (simp_all add: apply_skip_loop_def sk)
  obtain v c' where "execute_mcp_tool_call_step e st data [] (Some reg) (client_state s) = (Inr v, c')"
    using execute_envelope [OF st] by blast
  then have x: "on_client (execute_mcp_tool_call_step e st data [] (app_registry ap)) s =
      (Inr v, s\<lparr>client_state := c'\<rparr>)"
    by (simp add: on_client_def reg)
  let ?s1 = "s\<lparr>client_state := c'\<rparr>"
  obtain r where r: "find_row (normalize_session_id sid) ?s1 = Some r"
    using Suc.prems by (auto simp: find_row_def)
  have "fst (increment_visit sid k ?s1) = Inr (dget_or (step_visit_counts r) k 0 + 1)"
    by (simp add: visit.present [OF r])
  then obtain m s2 where m: "increment_visit sid k ?s1 = (Inr m, s2)" by (metis prod.collapse)
  have r2: "find_row (normalize_session_id sid) s2 \<noteq> None"
    using visit.row_after [OF r, of "normalize_session_id sid" k] by (simp add: m)
  show ?case
    using f k Suc.IH [OF r2] by (simp add: sk x after_mcp_step_def m loop)
qed simp

text \<open>Two steps with one id around a third, all skipped: the skip loop comes back to the first.\<close>

definition echo_workflow :: workflow where
  "echo_workflow = plain_workflow ''echo''
     (map (\<lambda>i. (plain_step i)\<lparr>st_precondition := Some (WhenPresent ''step_data.z'')\<rparr>)
        [''a'', ''b'', ''a''])"

lemma echo_steps:
  "find_step echo_workflow ''a'' = Some (0, (plain_step ''a'')\<lparr>st_precondition := Some (WhenPresent ''step_data.z'')\<rparr>)"
  "find_step echo_workflow ''b'' = Some (1, (plain_step ''b'')\<lparr>st_precondition := Some (WhenPresent ''step_data.z'')\<rparr>)"
  "linear_next echo_workflow 0 = ''b''" "linear_next echo_workflow (Suc 0) = ''a''"
  by (simp_all add: find_step_def echo_workflow_def plain_workflow_def plain_step_def linear_next_def)

lemma absent_precondition:
  "''z'' \<notin> set sk \<Longrightarrow> evaluate_precondition (WhenPresent ''step_data.z'') [] sk x = Inr False"
  by simp

lemma echo_loop:
  "''z'' \<notin> set sk \<Longrightarrow> x = ''a'' \<or> x = ''b'' \<Longrightarrow>
   skip_loop n echo_workflow [] sk x acc = Inl NoReturn"
proof (induction n arbitrary: sk x acc)
  case (Suc n)
  show ?case
    using Suc.prems Suc.IH [of "x # sk" "if x = ''a'' then ''b'' else ''a''" "acc @ [x]"]
    by (auto simp: echo_steps)
qed simp

text \<open>
  With two steps of the same id and a precondition that fails, the skip loop never returns: no
  amount of fuel gives an answer.
\<close>

theorem duplicate_ids_never_return:
  "apply_skip_loop n ''a'' echo_workflow [] False = Inl NoReturn"
proof -
  have "compute_skipped_steps echo_workflow [] = Inr [''a'', ''b'', ''a'']" by code_simp
  then show ?thesis by (simp add: apply_skip_loop_def echo_loop)
qed

section \<open>Instances\<close>

theorem skip_loop_terminates_witness:
  "apply_skip_loop 8 ''draft'' essay [(''plan'', ''x'')] False \<noteq> Inl NoReturn"
  by (rule skip_loop_terminates) code_simp+

text \<open>A step that runs only when \<open>step_data.z\<close> is present, then a plain one.\<close>

definition optional_workflow :: workflow where
  "optional_workflow = plain_workflow ''optional''
     [(plain_step ''extra'')\<lparr>st_precondition := Some (WhenPresent ''step_data.z'')\<rparr>, plain_step ''rest'']"

theorem skip_loop_lands_witness:
  "runs_at optional_workflow [] ''rest'' \<and> skipped_at optional_workflow [] ''extra''"
proof -
  have "apply_skip_loop 8 ''extra'' optional_workflow [] False = Inr (''rest'', [''extra''])"
    by code_simp
  from skip_loop_lands [OF this] show ?thesis by simp
qed

text \<open>A tool call that goes on to the step behind the next.\<close>

definition shortcut :: workflow where
  "shortcut = plain_workflow ''shortcut''
     [plain_step ''ask'', fetch_step\<lparr>st_branches := [\<lparr>br_next = ''use'', br_condition = ''done''\<rparr>],
        st_default_branch := Some ''use''\<rparr>, plain_step ''refine'', plain_step ''use'']"

theorem auto_execute_terminates_witness:
  "fst (auto_execute_mcp_steps 8 demo_env demo_app ''fetch'' shortcut ''s1'' [(''ask'', ''q'')]
     (solo ''research'' ''ask'')) \<noteq> Inl NoReturn"
proof (rule auto_execute_terminates)
  show "forward_mcp shortcut" by code_simp
qed code_simp+

end
