(* ===== verification/RateLimit.thy ===== *)
theory RateLimit
  imports SessionBase Complex_Main
begin

text \<open>
  The rate limiter (\<^verbatim>\<open>ratelimit.py\<close>): token buckets on three axes, the bounded LRU store of
  the IP axes, and the dedupe cache of the denial log. Times and token counts are rationals
  (the floats of the code without their rounding), the clock reading is an argument. An
  \<open>OrderedDict\<close> is an association list, oldest entry first.
\<close>

section \<open>Ordered dictionaries as LRU lists\<close>

text \<open>\<open>d.move_to_end(k)\<close> and \<open>while len(d) > cap: d.popitem(last=False)\<close>.\<close>

definition move_to_end :: "'k \<Rightarrow> ('k, 'v) dict \<Rightarrow> ('k, 'v) dict" where
  "move_to_end k d = (case dget d k of None \<Rightarrow> d | Some v \<Rightarrow> filter (\<lambda>x. fst x \<noteq> k) d @ [(k, v)])"

definition evict_oldest :: "nat \<Rightarrow> ('k, 'v) dict \<Rightarrow> ('k, 'v) dict" where
  "evict_oldest cap d = drop (length d - cap) d"

definition sweep_entries :: "('v \<Rightarrow> bool) \<Rightarrow> ('k, 'v) dict \<Rightarrow> ('k, 'v) dict" where
  "sweep_entries old d = filter (\<lambda>x. \<not> old (snd x)) d"

definition lru_ok :: "nat \<Rightarrow> ('k, 'v) dict \<Rightarrow> bool" where
  "lru_ok cap d \<longleftrightarrow> distinct (map fst d) \<and> length d \<le> cap"

lemma dget_filter_other: "k' \<noteq> k \<Longrightarrow> dget (filter (\<lambda>x. fst x \<noteq> k) d) k' = dget d k'"
  by (induction d) auto

lemma dget_filter_same: "dget (filter (\<lambda>x. fst x \<noteq> k) d) k = None"
  by (induction d) auto

lemma dget_move_to_end [simp]: "dget (move_to_end k d) k' = dget d k'"
  by (cases "k' = k")
    (auto simp: move_to_end_def map_add_def dget_filter_same dget_filter_other split: option.splits)

lemma move_to_end_keys: "set (map fst (move_to_end k d)) = set (map fst d)"
proof -
  have "dom (map_of (move_to_end k d)) = dom (map_of d)" by (auto simp: dom_def)
  then show ?thesis by (simp add: dom_map_of_conv_image_fst)
qed

lemma distinct_move_to_end:
  assumes "distinct (map fst d)"
  shows "distinct (map fst (move_to_end k d))"
  using assms by (auto simp: move_to_end_def distinct_map_filter split: option.splits)

lemma length_move_to_end:
  assumes "distinct (map fst d)"
  shows "length (move_to_end k d) = length d"
proof -
  have "length (map fst (move_to_end k d)) = card (set (map fst (move_to_end k d)))"
    using distinct_move_to_end [OF assms] by (metis distinct_card)
  also have "\<dots> = length (map fst d)"
    using assms unfolding move_to_end_keys by (rule distinct_card)
  finally show ?thesis by simp
qed

lemma lru_move_to_end: "lru_ok cap d \<Longrightarrow> lru_ok cap (move_to_end k d)"
  by (simp add: lru_ok_def distinct_move_to_end length_move_to_end)

lemma lru_evict: "distinct (map fst d) \<Longrightarrow> lru_ok cap (evict_oldest cap d)"
  by (simp add: lru_ok_def evict_oldest_def drop_map [symmetric])

lemma lru_sweep: "lru_ok cap d \<Longrightarrow> lru_ok cap (sweep_entries old d)"
  by (auto simp: lru_ok_def sweep_entries_def distinct_map_filter
      intro: order_trans [OF length_filter_le])

lemma dput_keys: "dhas d k \<Longrightarrow> map fst (dput k v d) = map fst d"
  by (auto simp: dhas_def update_keys map_of_eq_None_iff)

lemma lru_update:
  assumes "lru_ok cap d" and "dhas d k"
  shows "lru_ok cap (dput k v d)"
proof -
  have "length (dput k v d) = length d" by (metis dput_keys [OF assms(2)] length_map)
  with assms show ?thesis by (simp add: lru_ok_def dput_keys)
qed

section \<open>Configuration and buckets\<close>

record config =
  session_rate :: rat
  session_burst :: rat
  ip_rate :: rat
  ip_burst :: rat
  ip_create_rate :: rat
  ip_create_burst :: rat
  ip_store_cap :: nat
  ip_idle_ttl :: rat

definition default_config :: config where
  "default_config = \<lparr>session_rate = 2, session_burst = 30, ip_rate = 60, ip_burst = 200,
     ip_create_rate = 1, ip_create_burst = 10, ip_store_cap = 10000, ip_idle_ttl = 600\<rparr>"

record bucket =
  capacity :: rat
  refill_rate :: rat
  tokens :: rat
  last_refill :: rat

definition new_bucket :: "rat \<Rightarrow> rat \<Rightarrow> rat \<Rightarrow> bucket" where
  "new_bucket burst rate now =
     \<lparr>capacity = burst, refill_rate = rate, tokens = burst, last_refill = now\<rparr>"

definition refill :: "bucket \<Rightarrow> rat \<Rightarrow> bucket" where
  "refill b now =
     (let elapsed = max 0 (now - last_refill b);
          added = elapsed * refill_rate b;
          b1 = (if 0 < added then b\<lparr>tokens := min (capacity b) (tokens b + added)\<rparr> else b)
      in if last_refill b < now then b1\<lparr>last_refill := now\<rparr> else b1)"

text \<open>\<open>Never\<close> is the \<^verbatim>\<open>float("inf")\<close> of a bucket that cannot refill.\<close>

datatype wait = Ms rat | Never

definition consume :: "bucket \<Rightarrow> rat \<Rightarrow> (bool \<times> wait) \<times> bucket" where
  "consume b cost =
     (if cost \<le> tokens b then ((True, Ms 0), b\<lparr>tokens := tokens b - cost\<rparr>)
      else if refill_rate b \<le> 0 then ((False, Never), b)
      else ((False, Ms ((cost - tokens b) / refill_rate b * 1000)), b))"

section \<open>The IP store\<close>

definition SWEEP_EVERY :: nat where "SWEEP_EVERY = 64"

record ip_store =
  cap :: nat
  idle_ttl :: rat
  buckets :: "(string, bucket) dict"
  access_count :: nat

definition sweep_expired :: "rat \<Rightarrow> ip_store \<Rightarrow> ip_store" where
  "sweep_expired now st =
     (if idle_ttl st \<le> 0 then st
      else st\<lparr>buckets := sweep_entries (\<lambda>b. last_refill b < now - idle_ttl st) (buckets st)\<rparr>)"

definition get_or_create ::
  "string \<Rightarrow> rat \<Rightarrow> rat \<Rightarrow> rat \<Rightarrow> ip_store \<Rightarrow> bucket \<times> ip_store" where
  "get_or_create key burst rate now st =
     (let st1 = st\<lparr>access_count := access_count st + 1\<rparr>;
          st2 = (if access_count st1 mod SWEEP_EVERY = 0 then sweep_expired now st1 else st1) in
      case dget (buckets st2) key of
        None \<Rightarrow>
          (let b = new_bucket burst rate now in
           (b, st2\<lparr>buckets := evict_oldest (cap st2) (dput key b (buckets st2))\<rparr>))
      | Some b \<Rightarrow> (b, st2\<lparr>buckets := move_to_end key (buckets st2)\<rparr>))"

text \<open>
  The caller mutates the bucket it was given; the change is seen in the store when the
  bucket is still there.
\<close>

definition put_back :: "string \<Rightarrow> bucket \<Rightarrow> ip_store \<Rightarrow> ip_store" where
  "put_back key b st =
     (if dhas (buckets st) key then st\<lparr>buckets := dput key b (buckets st)\<rparr> else st)"

section \<open>The limiter\<close>

definition AXIS_SESSION :: string where "AXIS_SESSION = ''session''"
definition AXIS_IP :: string where "AXIS_IP = ''ip''"
definition AXIS_IP_SESSION_CREATE :: string where "AXIS_IP_SESSION_CREATE = ''ip_session_create''"

lemmas axis_defs = AXIS_SESSION_def AXIS_IP_def AXIS_IP_SESSION_CREATE_def

record limiter =
  cfg :: config
  session_buckets :: "(string, bucket) dict"
  ip_buckets :: ip_store
  ip_create_buckets :: ip_store

definition new_limiter :: "config \<Rightarrow> limiter" where
  "new_limiter c =
     (let st = \<lparr>cap = ip_store_cap c, idle_ttl = ip_idle_ttl c, buckets = [], access_count = 0\<rparr>
      in \<lparr>cfg = c, session_buckets = [], ip_buckets = st, ip_create_buckets = st\<rparr>)"

definition get_bucket :: "string \<Rightarrow> string \<Rightarrow> rat \<Rightarrow> limiter \<Rightarrow> bucket \<times> limiter" where
  "get_bucket axis key now rl =
     (if axis = AXIS_SESSION then
        (case dget (session_buckets rl) key of
           Some b \<Rightarrow> (b, rl)
         | None \<Rightarrow>
             (let b = new_bucket (session_burst (cfg rl)) (session_rate (cfg rl)) now in
              (b, rl\<lparr>session_buckets := dput key b (session_buckets rl)\<rparr>)))
      else if axis = AXIS_IP then
        (let (b, st) = get_or_create key (ip_burst (cfg rl)) (ip_rate (cfg rl)) now (ip_buckets rl)
         in (b, rl\<lparr>ip_buckets := st\<rparr>))
      else
        (let (b, st) = get_or_create key (ip_create_burst (cfg rl)) (ip_create_rate (cfg rl)) now
                         (ip_create_buckets rl)
         in (b, rl\<lparr>ip_create_buckets := st\<rparr>)))"

definition set_bucket :: "string \<Rightarrow> string \<Rightarrow> bucket \<Rightarrow> limiter \<Rightarrow> limiter" where
  "set_bucket axis key b rl =
     (if axis = AXIS_SESSION then rl\<lparr>session_buckets := dput key b (session_buckets rl)\<rparr>
      else if axis = AXIS_IP then rl\<lparr>ip_buckets := put_back key b (ip_buckets rl)\<rparr>
      else rl\<lparr>ip_create_buckets := put_back key b (ip_create_buckets rl)\<rparr>)"

definition try_consume ::
  "string \<Rightarrow> string \<Rightarrow> rat \<Rightarrow> rat \<Rightarrow> limiter \<Rightarrow> (exn + bool \<times> wait) \<times> limiter" where
  "try_consume axis key cost now rl =
     (if axis \<notin> {AXIS_SESSION, AXIS_IP, AXIS_IP_SESSION_CREATE}
      then (Inl (ValueError (''unknown axis: '' @ axis)), rl)
      else
        (let (b, rl1) = get_bucket axis key now rl;
             (r, b') = consume (refill b now) cost
         in (Inr r, set_bucket axis key b' rl1)))"

definition drop_session :: "string \<Rightarrow> limiter \<Rightarrow> limiter" where
  "drop_session sid rl = rl\<lparr>session_buckets := ddel sid (session_buckets rl)\<rparr>"

section \<open>Dedupe of the denial log\<close>

definition DEDUPE_WINDOW :: rat where "DEDUPE_WINDOW = 60"
definition DEDUPE_IDLE_TTL :: rat where "DEDUPE_IDLE_TTL = 300"
definition DEDUPE_MAX_ENTRIES :: nat where "DEDUPE_MAX_ENTRIES = 1000"

record dedupe =
  window :: rat
  dd_ttl :: rat
  dd_max :: nat
  entries :: "(string \<times> string, rat) dict"
  dd_count :: nat

definition new_dedupe :: dedupe where
  "new_dedupe = \<lparr>window = DEDUPE_WINDOW, dd_ttl = DEDUPE_IDLE_TTL, dd_max = DEDUPE_MAX_ENTRIES,
     entries = [], dd_count = 0\<rparr>"

definition dd_sweep :: "rat \<Rightarrow> dedupe \<Rightarrow> dedupe" where
  "dd_sweep now d =
     (if dd_ttl d \<le> 0 then d
      else d\<lparr>entries := sweep_entries (\<lambda>ts. ts < now - dd_ttl d) (entries d)\<rparr>)"

definition should_emit :: "string \<Rightarrow> string \<Rightarrow> rat \<Rightarrow> dedupe \<Rightarrow> bool \<times> dedupe" where
  "should_emit scope ident now d =
     (let d1 = d\<lparr>dd_count := dd_count d + 1\<rparr>;
          d2 = (if dd_count d1 mod SWEEP_EVERY = 0 then dd_sweep now d1 else d1);
          key = (scope, ident);
          emit = (False, d2\<lparr>entries := move_to_end key (entries d2)\<rparr>);
          log = (True, d2\<lparr>entries := evict_oldest (dd_max d2)
                            (move_to_end key (dput key now (entries d2)))\<rparr>) in
      case dget (entries d2) key of
        Some prev \<Rightarrow> (if now - prev < window d2 then emit else log)
      | None \<Rightarrow> log)"

definition hash_ip :: "'e base_env_scheme \<Rightarrow> string \<Rightarrow> string" where
  "hash_ip e ip = take 12 (sha256_hex e ip)"

text \<open>\<open>emit_rate_limit_warn\<close>: the log line itself is left out, the answer says whether it was written.\<close>

definition emit_rate_limit_warn :: "string \<Rightarrow> string \<Rightarrow> rat \<Rightarrow> dedupe \<Rightarrow> bool \<times> dedupe" where
  "emit_rate_limit_warn scope ident now d = should_emit scope ident now d"

end
