(* ===== verification/RateLimitProps.thy ===== *)
theory RateLimitProps
  imports RateLimit
begin

text \<open>
  What the limiter guarantees: token counts stay between zero and the capacity, the stores
  keep their bounds, a bucket admits no more than its burst plus its refill, a denied caller
  that waits as told is admitted, calls on other keys do not interfere, and the deduped log
  is silent inside its window.
\<close>

section \<open>One bucket\<close>

definition bucket_ok :: "bucket \<Rightarrow> bool" where
  "bucket_ok b \<longleftrightarrow> 0 \<le> tokens b \<and> tokens b \<le> capacity b \<and> 0 \<le> refill_rate b"

lemma refill_simps [simp]:
  "capacity (refill b now) = capacity b" "refill_rate (refill b now) = refill_rate b"
  "last_refill (refill b now) = max (last_refill b) now"
  by (simp_all add: refill_def Let_def max_def)

lemma refill_tokens:
  assumes "bucket_ok b"
  shows "tokens (refill b now) = min (capacity b) (tokens b + max 0 (now - last_refill b) * refill_rate b)"
proof (cases "0 < max 0 (now - last_refill b) * refill_rate b")
  case False
  moreover have "0 \<le> max 0 (now - last_refill b) * refill_rate b"
    using assms by (simp add: bucket_ok_def)
  ultimately have z: "max 0 (now - last_refill b) * refill_rate b = 0" by linarith
  have "tokens (refill b now) = tokens b"
    unfolding refill_def Let_def if_not_P [OF False] by simp
  with assms show ?thesis unfolding z by (simp add: bucket_ok_def)
next
  case True
  show ?thesis unfolding refill_def Let_def if_P [OF True] by simp
qed

lemma refill_ok: "bucket_ok b \<Longrightarrow> bucket_ok (refill b now)"
  by (auto simp: bucket_ok_def refill_tokens min_def)

lemma consume_ok: "bucket_ok b \<Longrightarrow> 0 \<le> cost \<Longrightarrow> bucket_ok (snd (consume b cost))"
  by (auto simp: consume_def bucket_ok_def)

lemma consume_simps [simp]:
  "capacity (snd (consume b c)) = capacity b" "refill_rate (snd (consume b c)) = refill_rate b"
  "last_refill (snd (consume b c)) = last_refill b"
  "tokens (snd (consume b c)) = (if c \<le> tokens b then tokens b - c else tokens b)"
  "fst (fst (consume b c)) \<longleftrightarrow> c \<le> tokens b"
  by (auto simp: consume_def)

lemma new_bucket_ok: "0 \<le> burst \<Longrightarrow> 0 \<le> rate \<Longrightarrow> bucket_ok (new_bucket burst rate now)"
  by (simp add: new_bucket_def bucket_ok_def)

section \<open>The invariant of the limiter\<close>

definition config_ok :: "config \<Rightarrow> bool" where
  "config_ok c \<longleftrightarrow> 0 \<le> session_rate c \<and> 0 \<le> session_burst c \<and> 0 \<le> ip_rate c \<and> 0 \<le> ip_burst c \<and>
     0 \<le> ip_create_rate c \<and> 0 \<le> ip_create_burst c"

definition axis_ok :: "rat \<Rightarrow> rat \<Rightarrow> (string, bucket) dict \<Rightarrow> bool" where
  "axis_ok burst rate d \<longleftrightarrow>
     (\<forall>b\<in>snd ` set d. bucket_ok b \<and> capacity b = burst \<and> refill_rate b = rate)"

definition store_ok :: "nat \<Rightarrow> rat \<Rightarrow> rat \<Rightarrow> ip_store \<Rightarrow> bool" where
  "store_ok m burst rate st \<longleftrightarrow> cap st = m \<and> lru_ok m (buckets st) \<and> axis_ok burst rate (buckets st)"

definition limiter_ok :: "config \<Rightarrow> limiter \<Rightarrow> bool" where
  "limiter_ok c rl \<longleftrightarrow>
     cfg rl = c \<and> axis_ok (session_burst c) (session_rate c) (session_buckets rl) \<and>
     distinct (map fst (session_buckets rl)) \<and>
     store_ok (ip_store_cap c) (ip_burst c) (ip_rate c) (ip_buckets rl) \<and>
     store_ok (ip_store_cap c) (ip_create_burst c) (ip_create_rate c) (ip_create_buckets rl)"

lemma axis_ok_get:
  assumes "axis_ok burst rate d" and "dget d k = Some b"
  shows "bucket_ok b \<and> capacity b = burst \<and> refill_rate b = rate"
proof -
  have "b \<in> snd ` set d" using map_of_SomeD [OF assms(2)] by force
  with assms(1) show ?thesis unfolding axis_ok_def by blast
qed

lemma axis_ok_put:
  assumes "axis_ok burst rate d" "bucket_ok b" "capacity b = burst" "refill_rate b = rate"
  shows "axis_ok burst rate (dput k b d)"
proof -
  have "axis_ok burst rate ((k, b) # d)" using assms by (simp add: axis_ok_def)
  moreover have "set (dput k b d) \<subseteq> set ((k, b) # d)" using set_dput by simp
  ultimately show ?thesis unfolding axis_ok_def by blast
qed

lemma axis_ok_sub: "axis_ok burst rate d \<Longrightarrow> set d' \<subseteq> set d \<Longrightarrow> axis_ok burst rate d'"
  by (auto simp: axis_ok_def)

lemma axis_ok_move:
  assumes "axis_ok burst rate d"
  shows "axis_ok burst rate (move_to_end k d)"
proof (cases "dget d k")
  case None
  with assms show ?thesis by (simp add: move_to_end_def)
next
  case (Some v)
  have "axis_ok burst rate ((k, v) # d)"
    using axis_ok_get [OF assms Some] assms by (simp add: axis_ok_def)
  moreover have "set (move_to_end k d) \<subseteq> set ((k, v) # d)" by (auto simp: move_to_end_def Some)
  ultimately show ?thesis by (rule axis_ok_sub)
qed

lemma evict_sub: "set (evict_oldest m d) \<subseteq> set d"
  unfolding evict_oldest_def by (rule set_drop_subset)

lemma sweep_sub: "set (sweep_entries old d) \<subseteq> set d"
  by (auto simp: sweep_entries_def)

lemma sweep_ok: "store_ok m burst rate st \<Longrightarrow> store_ok m burst rate (sweep_expired now st)"
  using axis_ok_sub [OF _ sweep_sub] by (auto simp: store_ok_def sweep_expired_def lru_sweep)

lemma get_or_create_ok:
  assumes "store_ok m burst rate st" and "0 \<le> burst" and "0 \<le> rate"
  shows "store_ok m burst rate (snd (get_or_create key burst rate now st))"
    and "bucket_ok (fst (get_or_create key burst rate now st)) \<and>
      capacity (fst (get_or_create key burst rate now st)) = burst \<and>
      refill_rate (fst (get_or_create key burst rate now st)) = rate"
proof -
  let ?st1 = "st\<lparr>access_count := access_count st + 1\<rparr>"
  define st2 where "st2 = (if access_count ?st1 mod SWEEP_EVERY = 0 then sweep_expired now ?st1 else ?st1)"
  have "store_ok m burst rate ?st1" using assms(1) by (simp add: store_ok_def)
  then have ok2: "store_ok m burst rate st2" by (simp add: st2_def sweep_ok)
  have g: "get_or_create key burst rate now st =
      (case dget (buckets st2) key of
         None \<Rightarrow> (new_bucket burst rate now, st2\<lparr>buckets := evict_oldest (cap st2)
                    (dput key (new_bucket burst rate now) (buckets st2))\<rparr>)
       | Some b \<Rightarrow> (b, st2\<lparr>buckets := move_to_end key (buckets st2)\<rparr>))"
    by (simp only: get_or_create_def Let_def st2_def)
  have nb: "bucket_ok (new_bucket burst rate now)" "capacity (new_bucket burst rate now) = burst"
    "refill_rate (new_bucket burst rate now) = rate"
    using assms by (simp_all add: new_bucket_ok) (simp_all add: new_bucket_def)
  show "store_ok m burst rate (snd (get_or_create key burst rate now st))"
  proof (cases "dget (buckets st2) key")
    case None
    have "axis_ok burst rate (evict_oldest m (dput key (new_bucket burst rate now) (buckets st2)))"
      using ok2 nb by (intro axis_ok_sub [OF axis_ok_put evict_sub]) (auto simp: store_ok_def)
    moreover have "lru_ok m (evict_oldest m (dput key (new_bucket burst rate now) (buckets st2)))"
      using ok2 by (intro lru_evict distinct_update) (simp add: store_ok_def lru_ok_def)
    ultimately show ?thesis using None ok2 by (simp add: g store_ok_def)
  next
    case (Some b)
    with ok2 show ?thesis by (simp add: g store_ok_def lru_move_to_end axis_ok_move)
  qed
  show "bucket_ok (fst (get_or_create key burst rate now st)) \<and>
      capacity (fst (get_or_create key burst rate now st)) = burst \<and>
      refill_rate (fst (get_or_create key burst rate now st)) = rate"
    using ok2 nb by (auto simp: g store_ok_def dest: axis_ok_get split: option.splits)
qed

lemma put_back_ok:
  "store_ok m burst rate st \<Longrightarrow> bucket_ok b \<Longrightarrow> capacity b = burst \<Longrightarrow> refill_rate b = rate \<Longrightarrow>
   store_ok m burst rate (put_back key b st)"
  by (auto simp: store_ok_def put_back_def lru_update axis_ok_put)

lemma get_bucket_ok:
  assumes ok: "limiter_ok c rl" and c: "config_ok c" and g: "get_bucket axis key now rl = (b, rl1)"
  shows "limiter_ok c rl1" and "bucket_ok b" and
    "axis = AXIS_SESSION \<Longrightarrow> dget (session_buckets rl1) key = Some b"
proof -
  note s = get_or_create_ok [of "ip_store_cap c" "ip_burst c" "ip_rate c" "ip_buckets rl" key now]
    get_or_create_ok [of "ip_store_cap c" "ip_create_burst c" "ip_create_rate c" "ip_create_buckets rl" key now]
  have nb: "bucket_ok (new_bucket (session_burst c) (session_rate c) now)"
    using c by (simp add: config_ok_def new_bucket_ok)
  show "limiter_ok c rl1" "bucket_ok b"
    using ok c g s nb
    by (auto simp: get_bucket_def limiter_ok_def config_ok_def Let_def axis_ok_put distinct_update
        new_bucket_def dest: axis_ok_get split: if_splits option.splits prod.splits)
  show "axis = AXIS_SESSION \<Longrightarrow> dget (session_buckets rl1) key = Some b"
    using g by (auto simp: get_bucket_def Let_def split: option.splits)
qed

lemma set_bucket_ok:
  assumes "limiter_ok c rl" and "bucket_ok b"
    and "capacity b = (if axis = AXIS_SESSION then session_burst c
           else if axis = AXIS_IP then ip_burst c else ip_create_burst c)"
    and "refill_rate b = (if axis = AXIS_SESSION then session_rate c
           else if axis = AXIS_IP then ip_rate c else ip_create_rate c)"
  shows "limiter_ok c (set_bucket axis key b rl)"
  using assms by (auto simp: set_bucket_def limiter_ok_def axis_ok_put distinct_update put_back_ok
      split: if_splits)

lemma get_bucket_params:
  assumes "limiter_ok c rl" and "config_ok c" and "get_bucket axis key now rl = (b, rl1)"
  shows "capacity b = (if axis = AXIS_SESSION then session_burst c
           else if axis = AXIS_IP then ip_burst c else ip_create_burst c)"
    and "refill_rate b = (if axis = AXIS_SESSION then session_rate c
           else if axis = AXIS_IP then ip_rate c else ip_create_rate c)"
proof -
  note s = get_or_create_ok(2) [of "ip_store_cap c" "ip_burst c" "ip_rate c" "ip_buckets rl" key now]
    get_or_create_ok(2) [of "ip_store_cap c" "ip_create_burst c" "ip_create_rate c" "ip_create_buckets rl" key now]
  show "capacity b = (if axis = AXIS_SESSION then session_burst c
           else if axis = AXIS_IP then ip_burst c else ip_create_burst c)"
    and "refill_rate b = (if axis = AXIS_SESSION then session_rate c
           else if axis = AXIS_IP then ip_rate c else ip_create_rate c)"
    using assms s by (auto simp: get_bucket_def limiter_ok_def config_ok_def Let_def new_bucket_def
        dest: axis_ok_get split: if_splits option.splits prod.splits)
qed

lemma try_consume_split:
  assumes "axis \<in> {AXIS_SESSION, AXIS_IP, AXIS_IP_SESSION_CREATE}"
    and "get_bucket axis key now rl = (b, rl1)"
  shows "try_consume axis key cost now rl =
    (Inr (fst (consume (refill b now) cost)),
     set_bucket axis key (snd (consume (refill b now) cost)) rl1)"
  using assms by (auto simp: try_consume_def split: prod.splits)

lemma try_consume_ok:
  assumes ok: "limiter_ok c rl" and c: "config_ok c" and cost: "0 \<le> cost"
  shows "limiter_ok c (snd (try_consume axis key cost now rl))"
proof (cases "axis \<in> {AXIS_SESSION, AXIS_IP, AXIS_IP_SESSION_CREATE}")
  case True
  obtain b rl1 where g: "get_bucket axis key now rl = (b, rl1)" by fastforce
  note b = get_bucket_ok [OF ok c g] get_bucket_params [OF ok c g]
  show ?thesis
    unfolding try_consume_split [OF True g] snd_conv
    using b cost by (intro set_bucket_ok consume_ok refill_ok) simp_all
qed (use ok in \<open>auto simp: try_consume_def\<close>)

section \<open>Runs\<close>

text \<open>What a process asks of the limiter: one token on an axis, or forgetting a session.\<close>

datatype rl_call = Consume string string rat | Drop string

definition rl_step :: "limiter \<Rightarrow> rl_call \<Rightarrow> limiter" where
  "rl_step rl x =
     (case x of
        Consume axis key now \<Rightarrow> snd (try_consume axis key 1 now rl)
      | Drop sid \<Rightarrow> drop_session sid rl)"

lemma axis_ok_del: "axis_ok burst rate d \<Longrightarrow> axis_ok burst rate (ddel k d)"
  by (erule axis_ok_sub) (auto simp: AList.delete_eq)

lemma drop_session_ok: "limiter_ok c rl \<Longrightarrow> limiter_ok c (drop_session sid rl)"
  by (simp add: limiter_ok_def drop_session_def axis_ok_del distinct_delete)

interpretation limiter: invariant_machine rl_step "\<lambda>rl. config_ok c \<and> limiter_ok c rl" for c
  by unfold_locales (auto simp: rl_step_def try_consume_ok drop_session_ok split: rl_call.splits)

lemma new_limiter_ok: "limiter_ok c (new_limiter c)"
  by (simp add: new_limiter_def limiter_ok_def axis_ok_def store_ok_def lru_ok_def Let_def)

text \<open>
  C23. Whatever calls it receives, at whatever clock readings, every bucket of the limiter holds
  between zero and its capacity in tokens, carries the configured rates of its axis, and the IP
  stores never exceed their cap nor hold a key twice.
\<close>

theorem limiter_invariant:
  assumes "config_ok c"
  shows "limiter_ok c (run rl_step (new_limiter c) calls)"
  using limiter.run_inv [of c "new_limiter c" calls] assms new_limiter_ok by simp

section \<open>Admissions on the session axis\<close>

definition admitted :: "string \<Rightarrow> limiter \<Rightarrow> rl_call \<Rightarrow> bool" where
  "admitted k rl x \<longleftrightarrow>
     (case x of
        Consume axis key now \<Rightarrow>
          axis = AXIS_SESSION \<and> key = k \<and>
          (case fst (try_consume axis key 1 now rl) of Inr (ok, _) \<Rightarrow> ok | Inl _ \<Rightarrow> False)
      | Drop _ \<Rightarrow> False)"

fun admissions :: "string \<Rightarrow> limiter \<Rightarrow> rl_call list \<Rightarrow> nat" where
  "admissions k rl [] = 0"
| "admissions k rl (x # xs) = (if admitted k rl x then 1 else 0) + admissions k (rl_step rl x) xs"

text \<open>What the bucket of \<open>k\<close> can still give out until \<open>t1\<close>, every reading being at least \<open>t0\<close>.\<close>

definition budget :: "string \<Rightarrow> rat \<Rightarrow> rat \<Rightarrow> limiter \<Rightarrow> rat" where
  "budget k t0 t1 rl =
     (case dget (session_buckets rl) k of
        None \<Rightarrow> session_burst (cfg rl) + session_rate (cfg rl) * (t1 - t0)
      | Some b \<Rightarrow> tokens b + session_rate (cfg rl) * max 0 (t1 - last_refill b))"

text \<open>Readings of the clock for \<open>k\<close> lie between \<open>t0\<close> and \<open>t1\<close>, and \<open>k\<close> is not dropped.\<close>

fun in_window :: "string \<Rightarrow> rat \<Rightarrow> rat \<Rightarrow> rl_call \<Rightarrow> bool" where
  "in_window k t0 t1 (Consume axis key now) =
     (axis = AXIS_SESSION \<and> key = k \<longrightarrow> t0 \<le> now \<and> now \<le> t1)"
| "in_window k t0 t1 (Drop sid) = (sid \<noteq> k)"

lemma session_unchanged:
  assumes "\<not> (axis = AXIS_SESSION \<and> key = k)"
  shows "dget (session_buckets (snd (try_consume axis key cost now rl))) k = dget (session_buckets rl) k"
  using assms
  by (auto simp: try_consume_def get_bucket_def set_bucket_def Let_def split: prod.splits option.splits)

lemma cfg_step [simp]: "cfg (rl_step rl x) = cfg rl"
  by (auto simp: rl_step_def try_consume_def get_bucket_def set_bucket_def drop_session_def Let_def
      split: rl_call.splits prod.splits option.splits)

lemma session_consume:
  fixes now :: rat
  assumes "dget (session_buckets rl) k = ob"
  defines "b \<equiv> (case ob of Some b \<Rightarrow> b | None \<Rightarrow>
     new_bucket (session_burst (cfg rl)) (session_rate (cfg rl)) now)"
  shows "fst (try_consume AXIS_SESSION k cost now rl) = Inr (fst (consume (refill b now) cost))"
    and "dget (session_buckets (snd (try_consume AXIS_SESSION k cost now rl))) k =
      Some (snd (consume (refill b now) cost))"
  using assms by (auto simp: try_consume_def get_bucket_def set_bucket_def Let_def
      split: prod.splits option.splits)

lemma refill_gain:
  fixes rate :: rat
  assumes "bucket_ok b" and "refill_rate b = rate" and "now \<le> t1"
  shows "tokens (refill b now) + rate * max 0 (t1 - max (last_refill b) now) \<le>
    tokens b + rate * max 0 (t1 - last_refill b)"
proof (cases "now \<le> last_refill b")
  case True
  then show ?thesis using assms by (simp add: refill_tokens max_def)
next
  case False
  have "tokens (refill b now) \<le> tokens b + (now - last_refill b) * rate"
    using False assms by (simp add: refill_tokens max_def)
  moreover have "rate * (t1 - last_refill b) = rate * (now - last_refill b) + rate * (t1 - now)"
    by (simp add: algebra_simps)
  ultimately show ?thesis using False assms by (simp add: max_def algebra_simps)
qed

lemma budget_step:
  assumes ok: "limiter_ok c rl" and c: "config_ok c" and w: "in_window k t0 t1 x"
  shows "(if admitted k rl x then 1 else 0) + budget k t0 t1 (rl_step rl x) \<le> budget k t0 t1 rl"
proof (cases "\<exists>now. x = Consume AXIS_SESSION k now")
  case True
  then obtain now where x: "x = Consume AXIS_SESSION k now" by blast
  then have t: "t0 \<le> now" "now \<le> t1" using w by simp_all
  have cfg: "cfg rl = c" using ok by (simp add: limiter_ok_def)
  define b where "b = (case dget (session_buckets rl) k of Some b \<Rightarrow> b
    | None \<Rightarrow> new_bucket (session_burst c) (session_rate c) now)"
  have b: "bucket_ok b" "refill_rate b = session_rate c"
  proof -
    have a: "axis_ok (session_burst c) (session_rate c) (session_buckets rl)"
      using ok by (simp add: limiter_ok_def)
    have "bucket_ok b \<and> refill_rate b = session_rate c"
    proof (cases "dget (session_buckets rl) k")
      case None
      with c show ?thesis by (simp add: b_def config_ok_def new_bucket_def bucket_ok_def)
    qed (use axis_ok_get [OF a, of k] in \<open>simp add: b_def\<close>)
    then show "bucket_ok b" "refill_rate b = session_rate c" by simp_all
  qed
  note s = session_consume [where rl = rl and k = k and now = now and cost = 1, OF refl, unfolded cfg,
      folded b_def]
  have adm: "admitted k rl x \<longleftrightarrow> 1 \<le> tokens (refill b now)"
    using consume_simps(5) [of "refill b now" 1]
    by (cases "fst (consume (refill b now) 1)") (simp add: admitted_def x s(1))
  have st: "rl_step rl x = snd (try_consume AXIS_SESSION k 1 now rl)" by (simp add: x rl_step_def)
  have cfg': "cfg (snd (try_consume AXIS_SESSION k 1 now rl)) = c"
    using cfg_step [of rl x] by (simp only: st cfg)
  have after: "budget k t0 t1 (rl_step rl x) =
      (if admitted k rl x then tokens (refill b now) - 1 else tokens (refill b now)) +
      session_rate c * max 0 (t1 - max (last_refill b) now)"
    unfolding budget_def cfg' st s(2) adm by simp
  have "tokens b + session_rate c * max 0 (t1 - last_refill b) \<le> budget k t0 t1 rl"
  proof (cases "dget (session_buckets rl) k")
    case None
    have "session_rate c * (t1 - now) \<le> session_rate c * (t1 - t0)"
      using t c by (intro mult_left_mono) (simp_all add: config_ok_def)
    with None t show ?thesis by (simp add: b_def budget_def cfg new_bucket_def)
  qed (simp add: b_def budget_def cfg)
  with refill_gain [OF b t(2)] after show ?thesis by auto
next
  case False
  have "dget (session_buckets (rl_step rl x)) k = dget (session_buckets rl) k"
    using False w session_unchanged
    by (cases x) (auto simp: rl_step_def drop_session_def)
  moreover have "\<not> admitted k rl x" using False by (cases x) (auto simp: admitted_def)
  ultimately show ?thesis unfolding budget_def cfg_step by simp
qed

lemma budget_nonneg:
  assumes "limiter_ok c rl" and "config_ok c" and "t0 \<le> t1"
  shows "0 \<le> budget k t0 t1 rl"
  using assms by (auto simp: budget_def limiter_ok_def config_ok_def bucket_ok_def dest!: axis_ok_get
      split: option.splits)

lemma admissions_budget:
  assumes "limiter_ok c rl" and c: "config_ok c" and t: "t0 \<le> t1" and "\<forall>x\<in>set xs. in_window k t0 t1 x"
  shows "of_nat (admissions k rl xs) \<le> budget k t0 t1 rl"
  using assms(1,4)
proof (induction xs arbitrary: rl)
  case Nil
  then show ?case using budget_nonneg [OF _ c t] by simp
next
  case (Cons x xs)
  have "limiter_ok c (rl_step rl x)" using limiter.fun_inv [of c rl x] c Cons.prems(1) by simp
  from Cons.IH [OF this] Cons.prems(2)
  have "of_nat (admissions k (rl_step rl x) xs) \<le> budget k t0 t1 (rl_step rl x)" by simp
  moreover have "(if admitted k rl x then 1 else 0) + budget k t0 t1 (rl_step rl x) \<le> budget k t0 t1 rl"
    using Cons.prems by (intro budget_step [OF _ c]) simp_all
  ultimately show ?case by auto
qed

text \<open>
  Between two instants the session axis admits at most one burst plus the refill of the time
  between them for a key with no bucket yet, whatever other calls are interleaved.
\<close>

theorem session_admissions_bounded:
  assumes "limiter_ok c rl" and "config_ok c" and "dget (session_buckets rl) k = None" and "t0 \<le> t1"
    and "\<forall>x\<in>set calls. in_window k t0 t1 x"
  shows "of_nat (admissions k rl calls) \<le> session_burst c + session_rate c * (t1 - t0)"
  using admissions_budget [OF assms(1,2,4,5)] assms(1,3) by (simp add: budget_def limiter_ok_def)

section \<open>Waiting, isolation, limits of the stores\<close>

text \<open>
  A client that was denied on the session axis and retries no earlier than the wait it was told
  is admitted, if the cost is within the burst.
\<close>

theorem retry_after_suffices:
  assumes ok: "limiter_ok c rl" and c: "config_ok c"
    and deny: "try_consume AXIS_SESSION k cost now rl = (Inr (False, Ms w), rl')"
    and cost: "cost \<le> session_burst c"
    and clock: "\<forall>b. dget (session_buckets rl) k = Some b \<longrightarrow> last_refill b \<le> now"
    and later: "now + w / 1000 \<le> now'"
  shows "fst (try_consume AXIS_SESSION k cost now' rl') = Inr (True, Ms 0)"
proof -
  have cfg: "cfg rl = c" using ok by (simp add: limiter_ok_def)
  obtain b rl1 where g: "get_bucket AXIS_SESSION k now rl = (b, rl1)" by fastforce
  note b = get_bucket_ok [OF ok c g] get_bucket_params [OF ok c g]
  define b1 where "b1 = refill b now"
  have split: "try_consume AXIS_SESSION k cost now rl =
      (Inr (fst (consume b1 cost)), set_bucket AXIS_SESSION k (snd (consume b1 cost)) rl1)"
    unfolding b1_def by (rule try_consume_split [OF _ g]) simp
  have short: "tokens b1 < cost" and rate: "0 < refill_rate b1" and w: "w = (cost - tokens b1) / refill_rate b1 * 1000"
    and same: "snd (consume b1 cost) = b1"
    using deny split by (auto simp: consume_def split: if_splits)
  have rl': "dget (session_buckets rl') k = Some b1"
    using deny split same by (auto simp: set_bucket_def)
  have last: "last_refill b1 = now"
    using g clock by (auto simp: b1_def get_bucket_def Let_def new_bucket_def max_def split: option.splits)
  have ok1: "bucket_ok b1" "capacity b1 = session_burst c"
    using b by (simp_all add: b1_def refill_ok)
  have "cost - tokens b1 \<le> (now' - now) * refill_rate b1"
    using later w rate by (simp add: field_simps)
  moreover have "now \<le> now'"
  proof -
    have "0 \<le> w" using w rate short by simp
    with later show ?thesis by linarith
  qed
  ultimately have "cost \<le> tokens (refill b1 now')"
    using ok1 cost by (simp add: refill_tokens last max_def)
  then show ?thesis
    using session_consume(1) [OF rl', of cost now'] by (simp add: consume_def)
qed

lemma dget_sub:
  assumes "distinct (map fst d)" and "set d' \<subseteq> set d" and "dget d' k = Some v"
  shows "dget d k = Some v"
  using assms map_of_SomeD [OF assms(3)] by (auto simp: map_of_eq_Some_iff)

definition store_tick :: "rat \<Rightarrow> ip_store \<Rightarrow> ip_store" where
  "store_tick now st =
     (let st1 = st\<lparr>access_count := access_count st + 1\<rparr>
      in if access_count st1 mod SWEEP_EVERY = 0 then sweep_expired now st1 else st1)"

lemma get_or_create_unfold:
  "get_or_create k burst rate now st =
     (case dget (buckets (store_tick now st)) k of
        None \<Rightarrow> (new_bucket burst rate now, (store_tick now st)\<lparr>buckets :=
          evict_oldest (cap (store_tick now st))
            (dput k (new_bucket burst rate now) (buckets (store_tick now st)))\<rparr>)
      | Some b \<Rightarrow> (b, (store_tick now st)\<lparr>buckets := move_to_end k (buckets (store_tick now st))\<rparr>))"
  unfolding get_or_create_def store_tick_def Let_def by (rule refl)

lemma store_tick_sub:
  "set (buckets (store_tick now st)) \<subseteq> set (buckets st)"
  "distinct (map fst (buckets st)) \<Longrightarrow> distinct (map fst (buckets (store_tick now st)))"
  by (auto simp: store_tick_def sweep_expired_def sweep_entries_def Let_def distinct_map_filter)

lemma get_or_create_others:
  assumes lru: "lru_ok m (buckets st)" and k: "k' \<noteq> k"
    and b: "dget (buckets (snd (get_or_create k burst rate now st))) k' = Some b"
  shows "dget (buckets st) k' = Some b"
proof -
  have d: "distinct (map fst (buckets st))" using lru by (simp add: lru_ok_def)
  note d2 = store_tick_sub(2) [OF d, of now]
  have "dget (buckets (store_tick now st)) k' = Some b"
  proof (cases "dget (buckets (store_tick now st)) k")
    case None
    then have "dget (evict_oldest (cap (store_tick now st))
        (dput k (new_bucket burst rate now) (buckets (store_tick now st)))) k' = Some b"
      using b by (simp add: get_or_create_unfold)
    from dget_sub [OF distinct_update [OF d2, of k "new_bucket burst rate now"] _ this] show ?thesis
      using k by (simp add: evict_oldest_def set_drop_subset)
  next
    case (Some b0)
    then show ?thesis using b by (simp add: get_or_create_unfold)
  qed
  from dget_sub [OF d store_tick_sub(1) this] show ?thesis .
qed

lemma put_back_others: "k' \<noteq> k \<Longrightarrow> dget (buckets (put_back k b st)) k' = dget (buckets st) k'"
  by (simp add: put_back_def)

text \<open>
  \<open>try_consume\<close> charges only the bucket of its own axis and key: every other
  session bucket is unchanged, and every other IP bucket is unchanged or evicted.
\<close>

theorem other_keys_not_charged:
  fixes axis key key' :: string and cost now :: rat
  assumes ok: "limiter_ok c rl"
  defines "rl' \<equiv> snd (try_consume axis key cost now rl)"
  shows "(axis = AXIS_SESSION \<and> key = key' \<or>
      dget (session_buckets rl') key' = dget (session_buckets rl) key') \<and>
    (axis = AXIS_IP \<and> key = key' \<or>
      dget (buckets (ip_buckets rl')) key' \<in> {None, dget (buckets (ip_buckets rl)) key'}) \<and>
    (axis = AXIS_IP_SESSION_CREATE \<and> key = key' \<or>
      dget (buckets (ip_create_buckets rl')) key' \<in> {None, dget (buckets (ip_create_buckets rl)) key'})"
proof -
  have store: "axis = axis' \<and> key = key' \<or>
      dget (buckets (sel rl')) key' \<in> {None, dget (buckets (sel rl)) key'}"
    if sel: "(axis', sel) = (AXIS_IP, ip_buckets) \<or> (axis', sel) = (AXIS_IP_SESSION_CREATE, ip_create_buckets)"
    for axis' sel
  proof (cases "axis = axis'")
    case True
    have lru: "lru_ok (ip_store_cap c) (buckets (sel rl))"
      using ok sel by (auto simp: limiter_ok_def store_ok_def)
    have others: "dget (buckets (sel rl)) key' = Some b"
      if "key \<noteq> key'" "get_or_create key burst rate now (sel rl) = (x, st)" "dget (buckets st) key' = Some b"
      for burst rate x st b
      using that get_or_create_others [OF lru, of key' key burst rate now b] by simp
    show ?thesis
      using True sel others unfolding rl'_def
      by (cases "key = key'"; cases "dget (buckets (sel (snd (try_consume axis key cost now rl)))) key'")
        (auto simp: try_consume_def get_bucket_def set_bucket_def put_back_others
          Let_def axis_defs dest: others split: prod.splits)
  next
    case False
    then show ?thesis
      using sel unfolding rl'_def by (auto simp: try_consume_def get_bucket_def set_bucket_def
          Let_def axis_defs split: prod.splits option.splits)
  qed
  show ?thesis
    using store [OF disjI1 [OF refl]] store [OF disjI2 [OF refl]]
      session_unchanged [of axis key key' cost now rl] unfolding rl'_def by blast
qed

text \<open>
  With a store cap of zero, which the configuration accepts, the IP axis admits every call: each
  finds a fresh bucket, which is evicted at once.
\<close>

theorem zero_store_cap_admits_all:
  assumes ok: "limiter_ok c rl" and "config_ok c" and "ip_store_cap c = 0" and "1 \<le> ip_burst c"
  shows "fst (try_consume AXIS_IP key 1 now rl) = Inr (True, Ms 0)"
proof -
  let ?st = "ip_buckets rl"
  have "cap ?st = 0" and "buckets ?st = []" and cfg: "cfg rl = c"
    using ok assms(3) by (simp_all add: limiter_ok_def store_ok_def lru_ok_def)
  then have e: "dget (buckets (sweep_expired now (?st\<lparr>access_count := n\<rparr>))) key = None" for n
    by (simp add: sweep_expired_def sweep_entries_def)
  have "fst (get_or_create key (ip_burst c) (ip_rate c) now ?st) = new_bucket (ip_burst c) (ip_rate c) now"
    using e \<open>buckets ?st = []\<close> by (simp add: get_or_create_def Let_def split: option.splits)
  then obtain st where "get_or_create key (ip_burst c) (ip_rate c) now ?st =
      (new_bucket (ip_burst c) (ip_rate c) now, st)" by (metis prod.collapse)
  then have g: "get_bucket AXIS_IP key now rl = (new_bucket (ip_burst c) (ip_rate c) now, rl\<lparr>ip_buckets := st\<rparr>)"
    by (simp add: get_bucket_def axis_defs cfg)
  have "1 \<le> tokens (refill (new_bucket (ip_burst c) (ip_rate c) now) now)"
    using assms(4) by (simp add: refill_def new_bucket_def)
  then show ?thesis
    using try_consume_split [OF _ g, of 1] by (simp add: axis_defs consume_def)
qed

section \<open>The denial log\<close>

definition dedupe_ok :: "dedupe \<Rightarrow> bool" where
  "dedupe_ok d \<longleftrightarrow> lru_ok (dd_max d) (entries d)"

lemma should_emit_ok:
  assumes "dedupe_ok d"
  shows "dedupe_ok (snd (should_emit scope ident now d))"
proof -
  let ?d1 = "d\<lparr>dd_count := dd_count d + 1\<rparr>"
  define d2 where "d2 = (if dd_count ?d1 mod SWEEP_EVERY = 0 then dd_sweep now ?d1 else ?d1)"
  have ok2: "lru_ok (dd_max d2) (entries d2)"
    using assms by (simp add: d2_def dd_sweep_def dedupe_ok_def lru_sweep)
  have "lru_ok (dd_max d2) (evict_oldest (dd_max d2) (move_to_end (scope, ident)
      (dput (scope, ident) now (entries d2))))"
    using ok2 by (intro lru_evict distinct_move_to_end distinct_update) (simp add: lru_ok_def)
  then show ?thesis
    using ok2 unfolding should_emit_def d2_def [symmetric] Let_def
    by (simp add: dedupe_ok_def lru_move_to_end split: option.splits)
qed

text \<open>The cache of the log as a machine: one denial per event, \<open>((scope, identity), now)\<close>.\<close>

definition dd_step :: "dedupe \<Rightarrow> (string \<times> string) \<times> rat \<Rightarrow> dedupe" where
  "dd_step d x = snd (should_emit (fst (fst x)) (snd (fst x)) (snd x) d)"

interpretation dedupe: invariant_machine dd_step dedupe_ok
  by unfold_locales (simp add: dd_step_def should_emit_ok)

text \<open>
  The dedupe cache never exceeds its bound nor holds a key twice.
\<close>

theorem log_cache_bounded:
  "length (entries (run dd_step new_dedupe xs)) \<le> dd_max (run dd_step new_dedupe xs) \<and>
   distinct (map fst (entries (run dd_step new_dedupe xs)))"
  using dedupe.run_inv [of new_dedupe xs]
  by (simp add: dedupe_ok_def lru_ok_def new_dedupe_def)

lemma dget_sweep:
  "distinct (map fst d) \<Longrightarrow> dget (sweep_entries old d) k =
   (case dget d k of None \<Rightarrow> None | Some v \<Rightarrow> if old v then None else Some v)"
proof (induction d)
  case (Cons x d)
  have "fst x = k \<Longrightarrow> dget d k = None" using Cons.prems by (auto simp: map_of_eq_None_iff)
  with Cons show ?case by (auto simp: sweep_entries_def split: option.splits)
qed (simp add: sweep_entries_def)

lemma newest_kept:
  assumes "1 \<le> m" and "dget d k = Some v"
  shows "dget (evict_oldest m (move_to_end k d)) k = Some v"
proof -
  let ?f = "filter (\<lambda>x. fst x \<noteq> k) d"
  have "evict_oldest m (move_to_end k d) = drop (Suc (length ?f) - m) ?f @ [(k, v)]"
    using assms by (simp add: move_to_end_def evict_oldest_def)
  moreover have "dget (drop j ?f) k = None" for j
    by (auto simp: map_of_eq_None_iff dest: in_set_dropD)
  ultimately show ?thesis by (simp add: map_add_def)
qed

definition dd_tick :: "rat \<Rightarrow> dedupe \<Rightarrow> dedupe" where
  "dd_tick now d =
     (let d1 = d\<lparr>dd_count := dd_count d + 1\<rparr>
      in if dd_count d1 mod SWEEP_EVERY = 0 then dd_sweep now d1 else d1)"

lemma dd_tick_simps [simp]:
  "window (dd_tick now d) = window d" "dd_ttl (dd_tick now d) = dd_ttl d"
  "dd_max (dd_tick now d) = dd_max d"
  by (simp_all add: dd_tick_def dd_sweep_def Let_def)

lemma dd_tick_ok: "dedupe_ok d \<Longrightarrow> dedupe_ok (dd_tick now d)"
  by (simp add: dd_tick_def dd_sweep_def dedupe_ok_def lru_sweep Let_def)

lemma should_emit_unfold:
  "should_emit scope ident now d =
    (let d2 = dd_tick now d; key = (scope, ident) in
     case dget (entries d2) key of
       Some prev \<Rightarrow>
         if now - prev < window d2 then (False, d2\<lparr>entries := move_to_end key (entries d2)\<rparr>)
         else (True, d2\<lparr>entries := evict_oldest (dd_max d2) (move_to_end key (dput key now (entries d2)))\<rparr>)
     | None \<Rightarrow>
         (True, d2\<lparr>entries := evict_oldest (dd_max d2) (move_to_end key (dput key now (entries d2)))\<rparr>))"
  unfolding should_emit_def dd_tick_def Let_def by (rule refl)

text \<open>
  After a denial was logged for a (scope, identity) pair, the next one is logged exactly when
  the dedupe window has passed.
\<close>

theorem log_silent_in_window:
  assumes ok: "dedupe_ok d" and cap: "1 \<le> dd_max d" and win: "window d \<le> dd_ttl d"
    and log: "should_emit scope ident now d = (True, d')"
  shows "fst (should_emit scope ident now' d') \<longleftrightarrow> window d \<le> now' - now"
proof -
  let ?k = "(scope, ident)"
  have d': "d' = (dd_tick now d)\<lparr>entries := evict_oldest (dd_max d)
      (move_to_end ?k (dput ?k now (entries (dd_tick now d))))\<rparr>"
    using log by (auto simp: should_emit_unfold Let_def split: option.splits if_splits)
  then have prev: "dget (entries d') ?k = Some now" using cap by (simp add: newest_kept)
  have ok': "dedupe_ok d'" using should_emit_ok [OF ok, of scope ident now] log by simp
  have params: "window d' = window d" "dd_ttl d' = dd_ttl d" by (simp_all add: d')
  have "distinct (map fst (entries d'))" using ok' by (simp add: dedupe_ok_def lru_ok_def)
  from dget_sweep [OF this] prev
  have "dget (entries (dd_tick now' d')) ?k = Some now \<or>
      dget (entries (dd_tick now' d')) ?k = None \<and> now < now' - dd_ttl d"
    by (auto simp: dd_tick_def dd_sweep_def Let_def params)
  then show ?thesis
  proof
    assume "dget (entries (dd_tick now' d')) ?k = Some now"
    then show ?thesis by (simp add: should_emit_unfold Let_def params not_less)
  next
    assume n: "dget (entries (dd_tick now' d')) ?k = None \<and> now < now' - dd_ttl d"
    with win show ?thesis by (simp add: should_emit_unfold Let_def)
  qed
qed

section \<open>Instances\<close>

text \<open>One token per second, two at most; an IP store of three keys.\<close>

definition small_config :: config where
  "small_config = \<lparr>session_rate = 1, session_burst = 2, ip_rate = 1, ip_burst = 2,
     ip_create_rate = 1, ip_create_burst = 1, ip_store_cap = 3, ip_idle_ttl = 600\<rparr>"

lemma small_config_ok: "config_ok small_config"
  by (simp add: config_ok_def small_config_def)

text \<open>The session bucket of \<open>s\<close> is empty at time 0.\<close>

definition drained :: limiter where
  "drained = (new_limiter small_config)\<lparr>session_buckets :=
     [(''s'', (new_bucket 2 1 0)\<lparr>tokens := 0\<rparr>)]\<rparr>"

lemma drained_ok: "limiter_ok small_config drained"
  using new_limiter_ok [of small_config]
  by (simp add: drained_def limiter_ok_def axis_ok_def new_bucket_def bucket_ok_def small_config_def)

theorem limiter_invariant_witness:
  "limiter_ok small_config (run rl_step (new_limiter small_config)
     [Consume AXIS_SESSION ''s'' 0, Consume AXIS_IP ''1.2.3.4'' 1, Drop ''s''])"
  by (rule limiter_invariant [OF small_config_ok])

theorem session_admissions_bounded_witness:
  "of_nat (admissions ''s'' (new_limiter small_config)
     [Consume AXIS_SESSION ''s'' 0, Consume AXIS_SESSION ''s'' 1, Consume AXIS_IP ''s'' 1]) \<le> (3 :: rat)"
proof -
  have "dget (session_buckets (new_limiter small_config)) ''s'' = None"
    by (simp add: new_limiter_def Let_def)
  moreover have "\<forall>x\<in>set [Consume AXIS_SESSION ''s'' 0, Consume AXIS_SESSION ''s'' 1, Consume AXIS_IP ''s'' 1].
      in_window ''s'' 0 1 x"
    by simp
  ultimately show ?thesis
    using session_admissions_bounded [OF new_limiter_ok small_config_ok, of "''s''" 0 1]
    by (simp add: small_config_def)
qed

theorem retry_after_suffices_witness:
  "fst (try_consume AXIS_SESSION ''s'' 1 1 (snd (try_consume AXIS_SESSION ''s'' 1 0 drained))) =
    Inr (True, Ms 0)"
proof (rule retry_after_suffices [OF drained_ok small_config_ok])
  show "try_consume AXIS_SESSION ''s'' 1 0 drained =
      (Inr (False, Ms 1000), snd (try_consume AXIS_SESSION ''s'' 1 0 drained))"
    by (simp add: prod_eq_iff) (simp add: try_consume_def get_bucket_def drained_def axis_defs
        new_limiter_def Let_def refill_def consume_def new_bucket_def)
qed (simp_all add: small_config_def drained_def new_bucket_def)

theorem other_keys_not_charged_witness:
  "dget (session_buckets (snd (try_consume AXIS_SESSION ''other'' 1 0 drained))) ''s'' =
    dget (session_buckets drained) ''s''"
  using other_keys_not_charged [OF drained_ok, of AXIS_SESSION "''other''" "''s''" 1 0] by simp

theorem zero_store_cap_admits_all_witness:
  "fst (try_consume AXIS_IP ''1.2.3.4'' 1 0 (run rl_step (new_limiter (small_config\<lparr>ip_store_cap := 0\<rparr>))
     (replicate 100 (Consume AXIS_IP ''1.2.3.4'' 0)))) = Inr (True, Ms 0)"
proof -
  let ?c = "small_config\<lparr>ip_store_cap := 0\<rparr>"
  have c: "config_ok ?c" by (simp add: config_ok_def small_config_def)
  have "limiter_ok ?c (run rl_step (new_limiter ?c) (replicate 100 (Consume AXIS_IP ''1.2.3.4'' 0)))"
    using limiter.run_inv [of ?c "new_limiter ?c"] c new_limiter_ok by simp
  from zero_store_cap_admits_all [OF this c] show ?thesis by (simp add: small_config_def)
qed

theorem log_silent_in_window_witness:
  "\<not> fst (should_emit ''ip'' ''h'' 59 (snd (should_emit ''ip'' ''h'' 0 new_dedupe)))"
proof -
  have v: "dedupe_ok new_dedupe" "1 \<le> dd_max new_dedupe" "window new_dedupe \<le> dd_ttl new_dedupe"
    "window new_dedupe = 60"
    by (simp_all add: dedupe_ok_def lru_ok_def new_dedupe_def DEDUPE_WINDOW_def DEDUPE_IDLE_TTL_def
        DEDUPE_MAX_ENTRIES_def)
  have "should_emit ''ip'' ''h'' 0 new_dedupe = (True, snd (should_emit ''ip'' ''h'' 0 new_dedupe))"
    by (simp add: prod_eq_iff) (simp add: should_emit_def new_dedupe_def Let_def SWEEP_EVERY_def)
  from log_silent_in_window [OF v(1-3) this, of 59] show ?thesis by (simp add: v(4))
qed

end
