(* ===== verification/StoreProps.thy ===== *)
theory StoreProps
  imports Scenario
begin

text \<open>
  Contracts of the session store: the frame stack of a root is a list, the session table is a
  map from canonical ids to rows, eviction and expiry remove what they promise to.
\<close>

section \<open>The frame stack as a list\<close>

text \<open>
  The contract of a stack of names: \<open>abs\<close> is the list it stands for, bottom first. A name may be
  pushed where there is room for it, and what is popped is the last name.
\<close>

locale list_stack =
  fixes push :: "string \<Rightarrow> 's \<Rightarrow> 's"
    and pop :: "string \<Rightarrow> 's \<Rightarrow> 's"
    and abs :: "'s \<Rightarrow> string list"
    and inv :: "'s \<Rightarrow> bool"
    and room :: "string \<Rightarrow> 's \<Rightarrow> bool"
  assumes push_abs: "inv s \<Longrightarrow> room x s \<Longrightarrow> abs (push x s) = abs s @ [x]"
    and push_inv: "inv s \<Longrightarrow> room x s \<Longrightarrow> inv (push x s)"
    and push_room: "inv s \<Longrightarrow> room x s \<Longrightarrow> room y s \<Longrightarrow> x \<noteq> y \<Longrightarrow> room y (push x s)"
    and pop_abs: "inv s \<Longrightarrow> abs s = xs @ [x] \<Longrightarrow> abs (pop x s) = xs"
    and pop_inv: "inv s \<Longrightarrow> abs s = xs @ [x] \<Longrightarrow> inv (pop x s)"
begin

lemma pushes:
  assumes "inv s" and "distinct xs" and "\<forall>x\<in>set xs. room x s"
  shows "inv (fold push xs s) \<and> abs (fold push xs s) = abs s @ xs"
  using assms
proof (induction xs arbitrary: s)
  case (Cons x xs)
  then have "inv (push x s)" "abs (push x s) = abs s @ [x]"
    using push_inv push_abs by auto
  moreover have "\<forall>y\<in>set xs. room y (push x s)"
    by (intro ballI push_room) (use Cons.prems in auto)
  ultimately show ?case using Cons by simp
qed simp

lemma pops:
  assumes "inv s" and "abs s = ys @ xs"
  shows "inv (fold pop (rev xs) s) \<and> abs (fold pop (rev xs) s) = ys"
  using assms
proof (induction xs arbitrary: s rule: rev_induct)
  case (snoc x xs)
  then have "inv (pop x s)" "abs (pop x s) = ys @ xs"
    using pop_inv [of s "ys @ xs" x] pop_abs [of s "ys @ xs" x] by auto
  with snoc.IH show ?case by simp
qed simp

lemma unwind:
  assumes "inv s" and "distinct xs" and "\<forall>x\<in>set xs. room x s"
  shows "abs (fold pop (rev xs) (fold push xs s)) = abs s"
  using pushes [OF assms] pops by blast

end

definition frame_ids :: "string \<Rightarrow> 'a db_scheme \<Rightarrow> string list" where
  "frame_ids root d = map frame_session_id (sort_key depth (frames_of root d))"

definition pushable :: "string \<Rightarrow> 'a db_scheme \<Rightarrow> bool" where
  "pushable x d \<longleftrightarrow> normalize_session_id x = x \<and> find_frame x d = None"

text \<open>Names are canonical and no session has two frames; depths may have gaps.\<close>

definition stack_named :: "string \<Rightarrow> 'a db_scheme \<Rightarrow> bool" where
  "stack_named root d \<longleftrightarrow>
     normalize_session_id root = root \<and> distinct (map frame_session_id (session_stack d)) \<and>
     (\<forall>y\<in>set (frame_ids root d). normalize_session_id y = y)"

lemma insort_key_snoc: "k a \<le> k x \<Longrightarrow> insort_key k a (ys @ [x]) = insort_key k a ys @ [x]"
  for k :: "'b \<Rightarrow> 'c::linorder"
  by (induction ys) auto

lemma sort_key_snoc:
  fixes k :: "'b \<Rightarrow> 'c::linorder"
  assumes "\<forall>y\<in>set xs. k y \<le> k x"
  shows "sort_key k (xs @ [x]) = sort_key k xs @ [x]"
  using assms by (induction xs) (auto simp: insort_key_snoc)

lemma sort_key_between:
  fixes k :: "'b \<Rightarrow> 'c::linorder"
  assumes sorted: "sort_key k xs = lo @ hi" and inj: "inj_on k (set xs)"
    and below: "\<forall>a\<in>set lo. k a < k x" and over: "\<forall>b\<in>set hi. k x < k b"
  shows "sort_key k (xs @ [x]) = lo @ x # hi"
proof (rule sort_key_inj_key_eq)
  have "mset xs = mset (lo @ hi)" using sorted by (metis mset_sort)
  then show m: "mset (xs @ [x]) = mset (lo @ x # hi)" by simp
  have set: "set xs = set lo \<union> set hi" using sorted by (metis set_append set_sort)
  show "inj_on k (set (xs @ [x]))"
    using inj below over set by (auto simp: inj_on_def)
  have "sorted (map k (lo @ hi))" using sorted by (metis sorted_sort_key)
  then show "sorted (map k (lo @ x # hi))"
    using below over by (auto simp: sorted_append less_imp_le)
qed

lemma foldr_max_ge: "(x :: nat) \<in> set xs \<Longrightarrow> x \<le> foldr max xs 0"
  by (induction xs) (auto simp: max_def)

lemma frames_of_stack_snoc [simp]:
  "frames_of root (d\<lparr>session_stack := session_stack d @ [f]\<rparr>) =
   frames_of root d @ (if root_session_id f = root then [f] else [])"
  by (simp add: frames_of_def)

lemma push_frame_appends:
  assumes s: "stack_named root d" and x: "pushable x d"
  shows "stack_named root (snd (push_frame root x ft csid d))"
    and "frame_ids root (snd (push_frame root x ft csid d)) = frame_ids root d @ [x]"
    and "\<And>y. pushable y (snd (push_frame root x ft csid d)) \<longleftrightarrow> pushable y d \<and> x \<noteq> y"
proof -
  let ?f = "\<lparr>frame_session_id = x, root_session_id = root,
      depth = foldr max (map depth (frames_of root d)) 0 + 1,
      frame_type = ft, call_step_id = csid, frame_created_at = clock d\<rparr>"
  have push: "snd (push_frame root x ft csid d) = d\<lparr>session_stack := session_stack d @ [?f]\<rparr>"
    using s x by (simp add: push_frame_def transaction_def Let_def stack_named_def pushable_def)
  have "\<forall>g\<in>set (frames_of root d). depth g \<le> depth ?f"
    by (auto intro!: le_SucI foldr_max_ge)
  then have "sort_key depth (frames_of root d @ [?f]) = sort_key depth (frames_of root d) @ [?f]"
    by (rule sort_key_snoc)
  then show ids: "frame_ids root (snd (push_frame root x ft csid d)) = frame_ids root d @ [x]"
    unfolding push by (simp add: frame_ids_def)
  with s x show "stack_named root (snd (push_frame root x ft csid d))"
    unfolding stack_named_def ids by (auto simp: push pushable_def find_frame_None)
  show "pushable y (snd (push_frame root x ft csid d)) \<longleftrightarrow> pushable y d \<and> x \<noteq> y" for y
    unfolding push by (auto simp: pushable_def find_frame_None)
qed

text \<open>Popping a frame takes its name out of the list, wherever it is.\<close>

lemma pop_frame_stack:
  "session_stack (snd (pop_frame x d)) =
   filter (\<lambda>g. frame_session_id g \<noteq> normalize_session_id x) (session_stack d)"
proof (cases "find_frame (normalize_session_id x) d")
  case None
  then have "filter (\<lambda>g. frame_session_id g \<noteq> normalize_session_id x) (session_stack d) = session_stack d"
    by (intro filter_True) (auto simp: find_frame_None image_iff)
  with None show ?thesis by (simp add: pop_frame_def transaction_def Let_def)
qed (simp add: pop_frame_def transaction_def Let_def)

lemma frame_ids_pop:
  "frame_ids r (snd (pop_frame x d)) = filter (\<lambda>z. z \<noteq> normalize_session_id x) (frame_ids r d)"
proof -
  have "frames_of r (snd (pop_frame x d)) =
      filter (\<lambda>g. frame_session_id g \<noteq> normalize_session_id x) (frames_of r d)"
    unfolding frames_of_def pop_frame_stack by (simp add: conj_commute)
  then show ?thesis
    by (simp add: frame_ids_def filter_map comp_def filter_sort)
qed

lemma frame_ids_distinct:
  assumes "distinct (map frame_session_id (session_stack d))"
  shows "distinct (frame_ids r d)"
proof -
  have "distinct (map frame_session_id (frames_of r d))"
    using assms by (simp add: frames_of_def distinct_map_filter)
  then show ?thesis unfolding frame_ids_def by (metis distinct_map distinct_sort set_sort)
qed

lemma pop_last_frame:
  assumes s: "stack_named root d" and top: "frame_ids root d = xs @ [x]"
  shows "stack_named root (snd (pop_frame x d))" and "frame_ids root (snd (pop_frame x d)) = xs"
proof -
  have x: "normalize_session_id x = x" using s top by (simp add: stack_named_def)
  have "distinct (frame_ids root d)" using s unfolding stack_named_def by (blast intro: frame_ids_distinct)
  then have "x \<notin> set xs" using top by simp
  then show ids: "frame_ids root (snd (pop_frame x d)) = xs"
    unfolding frame_ids_pop x top by (auto simp: filter_id_conv)
  show "stack_named root (snd (pop_frame x d))"
    using s top unfolding stack_named_def ids by (simp add: pop_frame_stack distinct_filter_sub)
qed

interpretation frame_list: list_stack
  "\<lambda>x d. snd (push_frame root x ft csid d)" "\<lambda>x d. snd (pop_frame x d)"
  "frame_ids root" "stack_named root" pushable
  for root ft csid
  by unfold_locales (simp_all add: push_frame_appends pop_last_frame)

lemma frame_ids_Nil: "frame_ids root d = [] \<longleftrightarrow> frames_of root d = []"
  by (metis frame_ids_def length_0_conv length_map length_sort)

lemma frame_ids_queries:
  assumes "normalize_session_id root = root"
  shows "stack_depth root d = length (frame_ids root d)"
    and "map_option frame_session_id (peek_frame root d) =
      (if frame_ids root d = [] then None else Some (last (frame_ids root d)))"
    and "map se_session_id (full_stack root d) = root # frame_ids root d"
proof -
  show "stack_depth root d = length (frame_ids root d)"
    using assms by (simp add: stack_depth_def frame_ids_def)
  show "map se_session_id (full_stack root d) = root # frame_ids root d"
    using assms by (simp add: full_stack_def Let_def frame_ids_def)
  show "map_option frame_session_id (peek_frame root d) =
      (if frame_ids root d = [] then None else Some (last (frame_ids root d)))"
  proof (cases "frames_of root d = []")
    case False
    then have "sort_key depth (frames_of root d) \<noteq> []" by (metis length_0_conv length_sort)
    with False assms show ?thesis
      by (auto simp: peek_frame_def frame_ids_def last_map split: list.splits)
  qed (use assms in \<open>simp add: peek_frame_def frame_ids_def\<close>)
qed

text \<open>Where a frame goes that is inserted above \<open>p\<close>: behind it, before the deeper ones.\<close>

lemma chain_split:
  assumes ok: "db_ok d" and root: "find_frame root d = None" "normalize_session_id root = root"
    and chain: "root # frame_ids root d = us @ p # vs" and free: "top_frame_for p d = None"
  obtains lo hi n where "sort_key depth (frames_of root d) = lo @ hi"
    "root # map frame_session_id lo = us @ [p]" "map frame_session_id hi = vs"
    "child_position p d = (root, n)" "\<forall>a\<in>set lo. depth a < n" "\<forall>b\<in>set hi. n < depth b"
proof -
  let ?L = "sort_key depth (frames_of root d)"
  have mem: "h \<in> set (session_stack d)" "root_session_id h = root" if "h \<in> set ?L" for h
    using that by (auto simp: frames_of_def)
  have sorted: "sorted (map depth ?L)" by simp
  have ids: "distinct (map frame_session_id (session_stack d))" using ok by (simp add: db_ok_def stack_ok_def)
  show ?thesis
  proof (cases us)
    case Nil
    then have p: "p = root" "vs = frame_ids root d" using chain by auto
    then have pos: "child_position p d = (root, 1)" using root by (simp add: child_position_def)
    have "1 < depth b" if b: "b \<in> set ?L" for b
    proof -
      have "1 \<le> depth b" using ok mem(1) [OF b] by (simp add: db_ok_def stack_ok_def)
      moreover have "depth b \<noteq> 1"
        using free pos p root mem [OF b] by (auto simp: top_frame_for_def frame_at_def find_None_iff)
      ultimately show ?thesis by simp
    qed
    then show ?thesis using that [of "[]" ?L 1] Nil p pos by (simp add: frame_ids_def)
  next
    case (Cons u us')
    then have L: "frame_ids root d = us' @ p # vs" "u = root" using chain by auto
    then obtain gs g hi where split: "?L = gs @ g # hi" and names: "map frame_session_id gs = us'"
      "frame_session_id g = p" "map frame_session_id hi = vs"
      by (auto simp: frame_ids_def map_eq_append_conv map_eq_Cons_conv)
    have g: "g \<in> set (session_stack d)" "root_session_id g = root" using mem [of g] split by simp_all
    then have "find_frame p d = Some g"
      using names(2) find_unique [OF ids g(1)] by (simp add: find_frame_def)
    then have pos: "child_position p d = (root, Suc (depth g))" by (simp add: child_position_def g)
    have canon: "normalize_session_id p = p" using frame_canonical(1) [OF ok g(1)] names(2) by simp
    have "depth b \<noteq> Suc (depth g)" "depth b \<noteq> depth g" if b: "b \<in> set hi" for b
    proof -
      have bm: "b \<in> set (session_stack d)" "root_session_id b = root" using mem [of b] split b by simp_all
      show "depth b \<noteq> Suc (depth g)"
        using free pos canon bm by (auto simp: top_frame_for_def frame_at_def find_None_iff)
      have "distinct ?L" using ids by (simp add: distinct_map frames_of_def)
      then have "b \<noteq> g" using split b by auto
      moreover have "inj_on frame_pos (set (session_stack d))"
        using ok by (simp add: db_ok_def stack_ok_def distinct_map)
      ultimately show "depth b \<noteq> depth g"
        using bm g by (auto simp: inj_on_def frame_pos_def)
    qed
    moreover have "depth g \<le> depth b" if "b \<in> set hi" for b
      using sorted split that by (simp add: sorted_append)
    ultimately have over: "\<forall>b\<in>set hi. Suc (depth g) < depth b"
      by (metis Suc_lessI le_neq_implies_less)
    have below: "\<forall>a\<in>set (gs @ [g]). depth a < Suc (depth g)"
      using sorted split by (auto simp: sorted_append less_Suc_eq_le)
    show ?thesis
      using that [of "gs @ [g]" hi "Suc (depth g)"] split names pos below over Cons L by simp
  qed
qed

text \<open>
  C13. In a well-formed database the \<open>session_stack\<close> table stands for a list of
  session ids per root, its frames in order of depth, and \<open>full_stack\<close> and
  \<open>peek_frame\<close> read it from the root up and at its end. Inserting a frame for a
  session that has none above a parent p of the list with no frame at the next position puts the
  session directly behind p (at the end, when p is the last), or raises StackFull with the given
  cap and changes nothing; the lists of other roots are untouched and popping that frame
  restores the table exactly. Popping any frame takes its session out of its list, wherever it
  is.
\<close>

theorem frame_stack_refines_list:
  assumes ok: "db_ok d" and root: "find_frame root d = None" "normalize_session_id root = root"
    and x: "find_frame x d = None" "normalize_session_id x = x"
    and chain: "root # frame_ids root d = us @ p # vs" and free: "top_frame_for p d = None"
  defines "n \<equiv> length (frame_ids root d)"
  shows "map se_session_id (full_stack root d) = root # frame_ids root d \<and>
    map_option frame_session_id (peek_frame root d) =
      (if frame_ids root d = [] then None else Some (last (frame_ids root d))) \<and>
    (\<forall>r y. frame_ids r (snd (pop_frame y d)) = filter (\<lambda>z. z \<noteq> normalize_session_id y) (frame_ids r d)) \<and>
    (if \<exists>m\<in>set_option mx. m \<le> n
     then insert_frame x p ft csid mx d = (Inl (StackFull root n (the mx)), d)
     else (\<exists>d'. insert_frame x p ft csid mx d = (Inr (), d') \<and>
       root # frame_ids root d' = us @ p # x # vs \<and>
       (\<forall>r. r \<noteq> root \<longrightarrow> frame_ids r d' = frame_ids r d) \<and>
       (\<exists>f. pop_frame x d' = (Inr (Some f), d))))"
proof -
  obtain lo hi k where sorted: "sort_key depth (frames_of root d) = lo @ hi"
    and names: "root # map frame_session_id lo = us @ [p]" "map frame_session_id hi = vs"
    and pos: "child_position p d = (root, k)"
    and gap: "\<forall>a\<in>set lo. depth a < k" "\<forall>b\<in>set hi. k < depth b"
    using chain_split [OF ok root chain free] .
  define f where "f = \<lparr>frame_session_id = x, root_session_id = root, depth = k,
      frame_type = ft, call_step_id = csid, frame_created_at = clock d\<rparr>"
  define d' where "d' = d\<lparr>session_stack := session_stack d @ [f]\<rparr>"
  have len: "length (frames_of root d) = n" by (simp add: n_def frame_ids_def)
  have ins: "insert_frame x p ft csid mx d =
      (if \<exists>m\<in>set_option mx. m \<le> n then (Inl (StackFull root n (the mx)), d) else (Inr (), d'))"
    using x by (cases mx) (simp_all add: insert_frame_def pos Let_def len d'_def f_def)
  have "inj_on depth (set (frames_of root d))"
    using ok by (auto simp: db_ok_def stack_ok_def frames_of_def distinct_map inj_on_def frame_pos_def)
  then have "sort_key depth (frames_of root d @ [f]) = lo @ f # hi"
    using sort_key_between [OF sorted, of f] gap by (simp add: f_def)
  then have "frame_ids root d' = map frame_session_id lo @ x # vs"
    by (simp add: frame_ids_def d'_def f_def names(2))
  then have ids: "root # frame_ids root d' = us @ p # x # vs" using names(1) by (metis append_Cons append_Nil append_assoc)
  have others: "frame_ids r d' = frame_ids r d" if "r \<noteq> root" for r
    using that by (simp add: frame_ids_def d'_def f_def)
  have none: "\<forall>g\<in>set (session_stack d). frame_session_id g \<noteq> x" using x by (auto simp: find_frame_None)
  then have "find_frame x d' = Some f" using x(1) by (simp add: d'_def f_def find_frame_def find_snoc)
  then have "pop_frame x d' = (Inr (Some f), d)"
    using none x(2) by (simp add: pop_frame_def transaction_def d'_def f_def filter_id_conv)
  then show ?thesis
    using ins ids others frame_ids_queries [OF root(2), of d] frame_ids_pop by auto
qed

theorem frame_stack_refines_list_witness:
  "map (\<lambda>p. frame_ids ''s1'' (snd (insert_frame ''c2'' p Digression None (Some 3)
     (with_child ''essay'' ''draft'' Digression ''plan'')))) [''c1''] = [[''c1'', ''c2'']]"
proof -
  let ?d = "with_child ''essay'' ''draft'' Digression ''plan''"
  have v: "db_ok ?d" "find_frame ''s1'' ?d = None" "normalize_session_id ''s1'' = ''s1''"
    "find_frame ''c2'' ?d = None" "normalize_session_id ''c2'' = ''c2''"
    "''s1'' # frame_ids ''s1'' ?d = [''s1''] @ ''c1'' # []" "top_frame_for ''c1'' ?d = None"
    "length (frame_ids ''s1'' ?d) = 1"
    by code_simp+
  show ?thesis
    using frame_stack_refines_list [OF v(1-7), of "Some 3" Digression None] v(8) by auto
qed

section \<open>The table as a map\<close>

text \<open>What a reader of the table sees: the row of a canonical id, and nothing else.\<close>

definition table :: "'a db_scheme \<Rightarrow> string \<Rightarrow> session_row option" where
  "table d sid = find_row sid d"

context row_update
begin

lemma table_after:
  "table (snd (op sid d)) =
     (case table d (normalize_session_id sid) of
        None \<Rightarrow> table d
      | Some r \<Rightarrow> (table d)(normalize_session_id sid \<mapsto> (change (clock d) r)\<lparr>updated_at := clock d\<rparr>))"
  by (cases "find_row (normalize_session_id sid) d")
    (auto simp: table_def fun_eq_iff row_after missing)

lemma fails_iff: "fst (op sid d) = Inl SessionNotFoundError \<longleftrightarrow> table d (normalize_session_id sid) = None"
  by (cases "find_row (normalize_session_id sid) d") (simp_all add: table_def missing present)

end

definition stamped ::
  "string \<Rightarrow> (session_row \<Rightarrow> session_row) \<Rightarrow> 'a db_scheme \<Rightarrow> string \<Rightarrow> session_row option" where
  "stamped sid g d =
     (case table d sid of
        None \<Rightarrow> table d
      | Some r \<Rightarrow> (table d)(sid \<mapsto> (g r)\<lparr>updated_at := clock d\<rparr>))"

text \<open>
  Every row-level update of the store is a point update of the map from canonical session id to
  row: it changes the one field it names, stamps the time, and is the identity when there is no
  such session; delete removes the key.
\<close>

theorem updates_refine_map:
  "table (snd (increment_retry sid k d)) = stamped (normalize_session_id sid)
      (\<lambda>r. r\<lparr>retry_counts := dput k (dget_or (retry_counts r) k 0 + 1) (retry_counts r)\<rparr>) d \<and>
    table (snd (increment_visit sid k d)) = stamped (normalize_session_id sid)
      (\<lambda>r. r\<lparr>step_visit_counts := dput k (dget_or (step_visit_counts r) k 0 + 1) (step_visit_counts r)\<rparr>) d \<and>
    table (snd (set_escalation sid g m d)) = stamped (normalize_session_id sid) (\<lambda>r. r\<lparr>escalation := Some (g, m)\<rparr>) d \<and>
    table (snd (invalidate_steps_after sid ks d)) =
      stamped (normalize_session_id sid) (\<lambda>r. r\<lparr>step_data := ddels ks (step_data r)\<rparr>) d \<and>
    table (snd (clear_step_data_key sid k d)) =
      stamped (normalize_session_id sid) (\<lambda>r. r\<lparr>step_data := ddel k (step_data r)\<rparr>) d \<and>
    table (snd (store_artifact sid k a c d)) = stamped (normalize_session_id sid) (\<lambda>r. r\<lparr>artifact_checkpoints :=
      dput k (dput a c (dget_or (artifact_checkpoints r) k [])) (artifact_checkpoints r)\<rparr>) d \<and>
    table (snd (update_session sid cur data d)) = stamped (normalize_session_id sid) (written cur data (clock d)) d \<and>
    table (snd (delete_session e sid d)) = (table d)(normalize_session_id sid := None)"
proof -
  have u: "table (snd (update_session sid cur data d)) = stamped (normalize_session_id sid) (written cur data (clock d)) d"
    by (cases "find_row (normalize_session_id sid) d")
      (auto simp: table_def stamped_def fun_eq_iff update_session_ok update_session_missing
        find_row_upd_row)
  have d: "table (snd (delete_session e sid d)) = (table d)(normalize_session_id sid := None)"
    by (cases "find_row (normalize_session_id sid) d")
      (auto simp: table_def fun_eq_iff delete_session_def transaction_def Let_def)
  show ?thesis
    unfolding stamped_def
    by (intro conjI retry.table_after visit.table_after escalate.table_after invalidate.table_after
        clear_key.table_after store.table_after u [unfolded stamped_def] d)
qed

section \<open>Spelling of a session id\<close>

text \<open>
  Two spellings of a session id with the same canonical form name the same session in every
  operation of the store.
\<close>

theorem spelling_of_ids_is_irrelevant:
  assumes same: "normalize_session_id a = normalize_session_id b"
  shows "get_session e a d = get_session e b d \<and>
    update_session a cur data d = update_session b cur data d \<and>
    increment_retry a k d = increment_retry b k d \<and>
    delete_session e a d = delete_session e b d \<and>
    top_frame_for a d = top_frame_for b d \<and> parent_of a d = parent_of b d \<and>
    get_session e (normalize_session_id a) d = get_session e a d"
  using same by (simp add: get_session_def update_session_def increment_retry_def delete_session_def
      top_frame_for_def parent_of_def Let_def)

theorem spelling_of_ids_is_irrelevant_witness:
  "get_session demo_env '' S1 '' (solo ''essay'' ''plan'') = get_session demo_env ''s1'' (solo ''essay'' ''plan'')"
proof -
  have "normalize_session_id '' S1 '' = normalize_session_id ''s1''" by code_simp
  from spelling_of_ids_is_irrelevant [OF this] show ?thesis by blast
qed

section \<open>Eviction and expiry\<close>

text \<open>
  C14. With a session cap of at least one and a fresh token, a \<open>create_session\<close>
  that returns leaves one session more than before, but never more than the cap, and stores the
  new row at its start values. Below the cap it evicts nothing; otherwise no active session is
  evicted while a complete one is kept, and among the complete, and among the active, none while
  an older one is kept, by the time of completion if the row has one and else of its last
  update.
\<close>

theorem create_session_evicts_oldest:
  fixes d :: "'a db_scheme"
  assumes ok: "rows_ok d" and cap: "1 \<le> session_cap e" and token: "fresh token d"
    and created: "create_session e token wft cur parent ft csid m fp d = (Inr sid, d')"
  defines "last_time \<equiv> \<lambda>r :: session_row. case completed_at r of Some t \<Rightarrow> t | None \<Rightarrow> updated_at r"
  shows "int (length (sessions d')) = min (int (length (sessions d)) + 1) (session_cap e) \<and>
    find_row sid d' = Some
      \<lparr>session_id = sid, workflow_type = wft, current_step = cur, step_data = [],
       retry_counts = [], step_visit_counts = [], escalation = None, artifact_checkpoints = [],
       created_at = clock d, updated_at = clock d, called_session = None,
       parent_session_id = map_option normalize_session_id parent,
       workflow_fingerprint = fp, completed_at = None\<rparr> \<and>
    (\<forall>r\<in>set (sessions d). \<forall>r'\<in>set (sessions d).
       find_row (session_id r) d' \<noteq> Some r \<and> find_row (session_id r') d' = Some r' \<longrightarrow>
       (current_step r' = COMPLETE \<longrightarrow> current_step r = COMPLETE) \<and>
       ((current_step r = COMPLETE) = (current_step r' = COMPLETE) \<longrightarrow> last_time r \<le> last_time r')) \<and>
    (int (length (sessions d)) < session_cap e \<longrightarrow>
       (\<forall>r\<in>set (sessions d). find_row (session_id r) d' = Some r))"
proof -
  let ?d1 = "evict_over_cap (session_cap e) d"
  let ?new = "new_row sid wft cur (map_option normalize_session_id parent) fp (clock d)"
  note rows = create_session_rows [OF created]
  have d': "sessions d' = sessions ?d1 @ [?new]" using rows by metis
  have id: "session_id ?new = sid" by (simp add: new_row_def)
  have fresh: "sid \<notin> session_id ` set (sessions ?d1)"
    using created rows(2) by (auto simp: create_session_unfold Let_def find_row_None split: if_splits)
  have sub: "set (sessions ?d1) \<subseteq> set (sessions d)"
    by (auto simp: evict_over_cap_def Let_def sessions_del_rows)
  have ok1: "distinct (map session_id (sessions ?d1))"
    using ok by (auto simp: rows_ok_def evict_over_cap_def Let_def sessions_del_rows distinct_filter_sub)
  then have dist: "distinct (map session_id (sessions d'))" using fresh id by (simp add: d')
  have look: "find_row (session_id r) d' = Some r \<longleftrightarrow> r \<in> set (sessions d')" for r
    using find_unique [OF dist] by (auto simp: find_row_def dest: find_row_mem [unfolded find_row_def])
  have kept: "find_row (session_id r) d' = Some r \<longleftrightarrow> r \<in> set (sessions ?d1) \<or> r = ?new" for r
    unfolding look d' by auto
  have "int (length (sessions d')) = min (int (length (sessions d)) + 1) (session_cap e)"
  proof (cases "session_cap e \<le> int (length (sessions d))")
    case True
    then show ?thesis
      using evict_survivors(2) [OF ok True] cap by (simp add: d' survivors_def)
  qed (simp add: d' evict_over_cap_def)
  moreover have "find_row sid d' = Some ?new" using kept [of ?new] id by simp
  moreover have "(current_step r' = COMPLETE \<longrightarrow> current_step r = COMPLETE) \<and>
      ((current_step r = COMPLETE) = (current_step r' = COMPLETE) \<longrightarrow> last_time r \<le> last_time r')"
    if "r \<in> set (sessions d)" "r' \<in> set (sessions d)"
      "find_row (session_id r) d' \<noteq> Some r" "find_row (session_id r') d' = Some r'" for r r'
  proof -
    have "session_id r' \<in> session_id ` set (sessions d)" using that(2) by (rule imageI)
    then have "session_id r' \<noteq> sid" using token rows(2) by (metis fresh_def)
    then have "r' \<noteq> ?new" using id by metis
    then have "eviction_key r \<le> eviction_key r'" using that kept evict_order [OF ok that(1)] by blast
    then show ?thesis
      by (auto simp: eviction_key_def last_time_def less_eq_prod_def split: if_splits)
  qed
  moreover have "find_row (session_id r) d' = Some r"
    if "int (length (sessions d)) < session_cap e" "r \<in> set (sessions d)" for r
    using that kept by (simp add: evict_over_cap_def)
  ultimately show ?thesis unfolding new_row_def by blast
qed

theorem create_session_evicts_oldest_witness:
  "map session_id (sessions (snd (create_session demo_env ''new'' ''essay'' ''plan'' None Call None None ''v1''
     (demo_world (map (\<lambda>i. demo_row i ''essay'' (if i = ''b'' then COMPLETE else ''plan''))
        [''a'', ''b'', ''c'', ''d'']) [])))) = [''a'', ''c'', ''d'', ''new''] \<and>
   int (length (sessions (snd (create_session demo_env ''new'' ''essay'' ''plan'' None Call None None ''v1''
     (demo_world (map (\<lambda>i. demo_row i ''essay'' (if i = ''b'' then COMPLETE else ''plan''))
        [''a'', ''b'', ''c'', ''d'']) []))))) = session_cap demo_env"
proof -
  let ?d = "demo_world (map (\<lambda>i. demo_row i ''essay'' (if i = ''b'' then COMPLETE else ''plan''))
        [''a'', ''b'', ''c'', ''d'']) []"
  let ?c = "create_session demo_env ''new'' ''essay'' ''plan'' None Call None None ''v1'' ?d"
  have v: "rows_ok ?d" "1 \<le> session_cap demo_env" "fresh ''new'' ?d" "fst ?c = Inr ''new''"
    "map session_id (sessions (snd ?c)) = [''a'', ''c'', ''d'', ''new'']"
    by code_simp+
  have c: "?c = (Inr ''new'', snd ?c)" using v(4) by (simp add: prod_eq_iff)
  have m: "min (int (length (sessions ?d)) + 1) (session_cap demo_env) = session_cap demo_env" by code_simp
  have "int (length (sessions (snd ?c))) = min (int (length (sessions ?d)) + 1) (session_cap demo_env)"
    using create_session_evicts_oldest [OF v(1-3) c] by (rule conjunct1)
  with v(5) show ?thesis unfolding m by (rule conjI)
qed

text \<open>
  C24. In a well-formed database, \<open>expire_sessions\<close> deletes exactly the complete
  sessions whose completion time lies before the cutoff, that many hours before now, and the
  others last updated before it (a complete session without a completion time stays), with
  exactly the frames of the deleted sessions, keeps the order of the rest, and returns the
  deleted ids.
\<close>

theorem expire_sessions_exact:
  fixes ttl :: int
  assumes ok: "db_ok d"
  defines "old \<equiv> \<lambda>r. let cutoff = int (clock d) - ttl * 3600 * 1000000 in
     if current_step r = COMPLETE then (case completed_at r of Some t \<Rightarrow> int t < cutoff | None \<Rightarrow> False)
     else int (updated_at r) < cutoff"
  shows "\<exists>d'. expire_sessions ttl d = (Inr (map session_id (filter old (sessions d))), d') \<and>
    sessions d' = filter (\<lambda>r. \<not> old r) (sessions d) \<and>
    session_stack d' = filter (\<lambda>f. \<exists>r\<in>set (sessions d'). session_id r = frame_session_id f) (session_stack d) \<and>
    clock d' = clock d"
proof -
  let ?sids = "map session_id (filter old (sessions d))"
  have old: "expired (int (clock d) - ttl * hour) = old"
    by (rule ext) (auto simp: old_def expired_def hour_def Let_def mult.commute split: option.split)
  have dist: "distinct (map session_id (sessions d))" using ok by (simp add: db_ok_def rows_ok_def)
  have gone: "session_id r \<in> set ?sids \<longleftrightarrow> old r" if "r \<in> set (sessions d)" for r
    using that dist by (auto simp: distinct_map inj_on_def)
  have "del_rows [] d = d" by (simp add: del_rows_def)
  then have del: "expire_sessions ttl d = (Inr ?sids, del_rows ?sids d)"
    by (cases "?sids = []") (simp_all add: expire_sessions_def transaction_def Let_def old)
  have rows: "sessions (del_rows ?sids d) = filter (\<lambda>r. \<not> old r) (sessions d)"
    unfolding sessions_del_rows by (rule filter_cong [OF refl]) (use gone in blast)
  have "session_stack (del_rows ?sids d) =
      filter (\<lambda>f. \<exists>r\<in>set (sessions (del_rows ?sids d)). session_id r = frame_session_id f) (session_stack d)"
    unfolding stack_del_rows
  proof (rule filter_cong [OF refl])
    fix f assume "f \<in> set (session_stack d)"
    then have "frame_session_id f \<in> session_id ` set (sessions d)"
      using ok by (simp add: db_ok_def stack_ok_def)
    then obtain r where r: "r \<in> set (sessions d)" "session_id r = frame_session_id f" by force
    show "frame_session_id f \<notin> set ?sids \<longleftrightarrow>
        (\<exists>r\<in>set (sessions (del_rows ?sids d)). session_id r = frame_session_id f)"
      unfolding sessions_del_rows r(2) [symmetric] using r(1) by (auto intro: bexI [of _ r])
  qed
  with del rows show ?thesis by auto
qed

theorem expire_sessions_exact_witness:
  "fst (expire_sessions 1 ((solo ''essay'' ''plan'')\<lparr>clock := 3600000001\<rparr>)) = Inr [''s1''] \<and>
   fst (expire_sessions 1 ((solo ''essay'' ''plan'')\<lparr>clock := 3600000000\<rparr>)) = Inr []"
proof -
  let ?d = "\<lambda>t. (solo ''essay'' ''plan'')\<lparr>clock := t\<rparr>"
  have ok: "db_ok (?d t)" for t
    by (simp add: scenario_defs db_ok_def rows_ok_def stack_ok_def) code_simp
  show ?thesis
    using expire_sessions_exact [OF ok [of 3600000001], of 1] expire_sessions_exact [OF ok [of 3600000000], of 1]
    by (auto simp: solo_def demo_row_def demo_world_def new_row_def Let_def)
qed

end
