(* ===== verification/JsonProps.thy ===== *)
theory JsonProps
  imports PyJson
begin

text \<open>
  The round trip of the JSON text the program writes into \<open>step_data\<close> and reads back:
  \<open>loads (dumps v) = v\<close> for every value \<open>loads\<close> can return.
\<close>

section \<open>Strings\<close>

lemma hex_digit: "n < 10 \<or> n \<in> {10, 11, 12, 13, 14, 15}" if "n < 16" for n :: nat
  using that by auto

lemma unhex_hex_char: "n < 16 \<Longrightarrow> unhex (hex_char n) = Some n"
  by (drule hex_digit) (auto simp: unhex_def hex_char_def Let_def of_char_of)

lemma unhex4_code: "unhex4 (CHR ''0'') (CHR ''0'') (hex_char (of_char c div 16)) (hex_char (of_char c mod 16)) = Some c"
proof -
  have "of_char c < (256 :: nat)" by (rule nat_of_char_less_256)
  then have d: "of_char c div 16 < (16 :: nat)" by (simp add: div_less_iff_less_mult)
  have z: "unhex (CHR ''0'') = Some 0" by code_simp
  have "16 * (of_char c div 16) + of_char c mod 16 = (of_char c :: nat)" by simp
  then show ?thesis
    by (simp add: unhex4_def z unhex_hex_char [OF d] unhex_hex_char [of "of_char c mod 16"])
qed

lemma parse_chars_esc:
  "parse_chars (esc_char True c @ rest) = map_option (\<lambda>p. (c # fst p, snd p)) (parse_chars rest)"
proof -
  consider "c \<in> {dq, bs, CHR 0x0A, CHR 0x0D, CHR 0x09, CHR 0x0C, CHR 0x08}"
    | "c \<notin> {dq, bs, CHR 0x0A, CHR 0x0D, CHR 0x09, CHR 0x0C, CHR 0x08}"
      "of_char c < (32 :: nat) \<or> 126 < (of_char c :: nat)"
    | "c \<notin> {dq, bs}" "32 \<le> (of_char c :: nat)" "of_char c \<le> (126 :: nat)"
    by force
  then show ?thesis
  proof cases
    case 1
    then show ?thesis
      by (subst parse_chars.simps) (auto simp: esc_char_def unesc_def)
  next
    case 2
    then have "esc_char True c = [bs, CHR ''u'', CHR ''0'', CHR ''0'',
        hex_char (of_char c div 16), hex_char (of_char c mod 16)]"
      by (auto simp: esc_char_def Let_def)
    then show ?thesis
      by (subst parse_chars.simps) (simp add: unhex4_code)
  next
    case 3
    then have "esc_char True c = [c]" by (auto simp: esc_char_def Let_def)
    with 3 show ?thesis by (subst parse_chars.simps) simp
  qed
qed

lemma parse_chars_dump: "parse_chars (concat (map (esc_char True) s) @ dq # rest) = Some (s, rest)"
proof (induction s)
  case Nil
  show ?case by (subst parse_chars.simps) simp
next
  case (Cons c s)
  then show ?case by (simp add: parse_chars_esc)
qed

section \<open>Numbers\<close>

lemma digit_char_simps [simp]:
  assumes "d < 10"
  shows "is_digit (digit_char d)" "digit_val (digit_char d) = d" "digit_char d = CHR ''0'' \<longleftrightarrow> d = 0"
proof -
  have c: "of_char (digit_char d) = 48 + d" using assms by (simp add: digit_char_def of_char_of)
  show "is_digit (digit_char d)" "digit_val (digit_char d) = d"
    using assms by (simp_all add: is_digit_def digit_val_def c)
  have "digit_char d = CHR ''0'' \<longleftrightarrow> (of_char (digit_char d) :: nat) = of_char (CHR ''0'')"
    by (simp only: of_char_eq_iff)
  then show "digit_char d = CHR ''0'' \<longleftrightarrow> d = 0" by (simp add: c)
qed

lemma str_nat_digits: "set (str_nat n) \<subseteq> Collect is_digit"
  by (induction n rule: str_nat.induct) (subst str_nat.simps, auto)

lemma nat_of_digits_append: "nat_of_digits acc (s @ [c]) = 10 * nat_of_digits acc s + digit_val c"
  by (induction s arbitrary: acc) auto

lemma nat_of_str_nat [simp]: "nat_of_digits 0 (str_nat n) = n"
  by (induction n rule: str_nat.induct) (subst str_nat.simps, auto simp: nat_of_digits_append)

lemma str_nat_ne [simp]: "str_nat n \<noteq> []"
  by (subst str_nat.simps) simp

lemma hd_str_nat: "hd (str_nat n) = CHR ''0'' \<longleftrightarrow> n = 0"
proof (induction n rule: str_nat.induct)
  case (1 n)
  then show ?case
    by (subst str_nat.simps) auto
qed

lemma str_nat_0: "str_nat 0 = ''0''"
proof -
  have "digit_char 0 = CHR ''0''" by code_simp
  then show ?thesis by (subst str_nat.simps) simp
qed

text \<open>What may follow a number.\<close>

definition stops :: "string \<Rightarrow> bool" where
  "stops r \<longleftrightarrow> r = [] \<or> \<not> is_digit (hd r) \<and> hd r \<notin> set ''.eE''"

lemma takeWhile_digits:
  assumes "set s \<subseteq> Collect is_digit" and "r = [] \<or> \<not> is_digit (hd r)"
  shows "takeWhile is_digit (s @ r) = s" "dropWhile is_digit (s @ r) = r"
  using assms by (induction s; cases r; simp)+

lemma int_part:
  assumes "r = [] \<or> \<not> is_digit (hd r)"
  shows "(if str_nat n @ r \<noteq> [] \<and> hd (str_nat n @ r) = CHR ''0'' then ''0''
    else takeWhile is_digit (str_nat n @ r)) = str_nat n"
  using takeWhile_digits(1) [OF str_nat_digits assms, of n] by (auto simp: hd_str_nat str_nat_0)

lemma minus_not_digit [simp]: "\<not> is_digit (CHR ''-'')" "hd (str_nat n) \<noteq> CHR ''-''"
proof -
  show m: "\<not> is_digit (CHR ''-'')" by (simp add: is_digit_def)
  have "hd (str_nat n) \<in> set (str_nat n)" by simp
  then have "is_digit (hd (str_nat n))" using str_nat_digits by blast
  then show "hd (str_nat n) \<noteq> CHR ''-''" using m by metis
qed

lemma parse_exponent_stops: "stops r \<Longrightarrow> parse_exponent r = None"
  by (cases r) (auto simp: parse_exponent_def stops_def)

lemma parse_unsigned_int:
  assumes "stops r"
  shows "parse_unsigned neg (str_nat n @ r) = Some (PInt ((if neg then - 1 else 1) * int n), r)"
proof -
  have i: "(if str_nat n @ r \<noteq> [] \<and> hd (str_nat n @ r) = CHR ''0'' then ''0''
      else takeWhile is_digit (str_nat n @ r)) = str_nat n"
    using assms by (intro int_part) (auto simp: stops_def)
  have "r = [] \<or> hd r \<noteq> CHR ''.''" using assms by (auto simp: stops_def)
  then show ?thesis
    unfolding parse_unsigned_def i Let_def using parse_exponent_stops [OF assms] by auto
qed

lemma parse_unsigned_float:
  assumes fs: "set fs \<subseteq> Collect is_digit" "fs \<noteq> []" and r: "stops r"
  shows "parse_unsigned neg (str_nat n @ ''.'' @ fs @ r) = Some (mk_float
    ((if neg then - 1 else 1) * int (nat_of_digits 0 (str_nat n @ fs))) (length fs) 0, r)"
proof -
  have i: "(if str_nat n @ ''.'' @ fs @ r \<noteq> [] \<and> hd (str_nat n @ ''.'' @ fs @ r) = CHR ''0'' then ''0''
      else takeWhile is_digit (str_nat n @ ''.'' @ fs @ r)) = str_nat n"
    by (rule int_part) (simp add: is_digit_def)
  have f: "takeWhile is_digit (fs @ r) = fs"
    using r by (intro takeWhile_digits fs) (auto simp: stops_def)
  show ?thesis
    unfolding parse_unsigned_def i Let_def using fs(2) parse_exponent_stops [OF r] by (simp add: f)
qed

lemma sign_dispatch:
  "parse_number ((if neg then ''-'' else []) @ str_nat n @ r) = parse_unsigned neg (str_nat n @ r)"
  by (simp add: parse_number_def)

lemma str_int_sign: "str_int i = (if i < 0 then ''-'' else []) @ str_nat (nat \<bar>i\<bar>)"
  by (simp add: str_int_def)

lemma parse_number_int: "stops r \<Longrightarrow> parse_number (str_int i @ r) = Some (PInt i, r)"
  unfolding str_int_sign append_assoc sign_dispatch by (simp add: parse_unsigned_int)

lemma nat_of_digits_split:
  "nat_of_digits acc (s @ t) = nat_of_digits acc s * 10 ^ length t + nat_of_digits 0 t"
proof (induction t rule: rev_induct)
  case (snoc c t)
  then show ?case
    by (simp add: nat_of_digits_append append_assoc [symmetric] algebra_simps del: append_assoc)
qed simp

lemma length_str_nat: "n < 10 ^ Suc k \<Longrightarrow> length (str_nat n) \<le> Suc k"
proof (induction k arbitrary: n)
  case 0
  then show ?case by (subst str_nat.simps) simp
next
  case (Suc k)
  have "n div 10 < 10 ^ Suc k" using Suc.prems by (simp add: div_less_iff_less_mult)
  from Suc.IH [OF this] show ?case by (subst str_nat.simps) simp
qed

lemma nat_of_zeros: "nat_of_digits 0 (replicate k (CHR ''0'') @ s) = nat_of_digits 0 s"
proof -
  have "digit_val (CHR ''0'') = 0" by code_simp
  then show ?thesis by (induction k) simp_all
qed

lemma pad_zeros_facts:
  assumes "n < 10 ^ Suc k"
  shows "length (pad_zeros (Suc k) (str_nat n)) = Suc k"
    "nat_of_digits 0 (pad_zeros (Suc k) (str_nat n)) = n"
    "set (pad_zeros (Suc k) (str_nat n)) \<subseteq> Collect is_digit"
proof -
  have "is_digit (CHR ''0'')" by code_simp
  then show "set (pad_zeros (Suc k) (str_nat n)) \<subseteq> Collect is_digit"
    using str_nat_digits [of n] by (auto simp: pad_zeros_def)
qed (use length_str_nat [OF assms] in \<open>simp_all add: pad_zeros_def nat_of_zeros\<close>)

text \<open>A decimal in lowest terms; \<open>loads\<close> never returns another one.\<close>

definition lowest :: "int \<Rightarrow> nat \<Rightarrow> bool" where
  "lowest m k \<longleftrightarrow> k = 0 \<or> \<not> 10 dvd m"

lemma strip_frac_lowest: "lowest m k \<Longrightarrow> strip_frac m k = (m, k)"
  by (cases k) (simp_all add: lowest_def)

lemma parse_number_float:
  assumes "lowest m k" and r: "stops r"
  shows "parse_number (dump_float m k @ r) = Some (PFloat m k, r)"
proof -
  define n where "n = nat \<bar>m\<bar>"
  have m: "(if m < 0 then - 1 else 1) * int n = m" by (simp add: n_def)
  show ?thesis
  proof (cases k)
    case 0
    have d: "dump_float m k @ r = (if m < 0 then ''-'' else []) @ str_nat n @ ''.'' @ ''0'' @ r"
      by (simp add: dump_float_def Let_def n_def 0)
    have z: "set ''0'' \<subseteq> Collect is_digit" "digit_val (CHR ''0'') = 0" by code_simp+
    have "parse_number (dump_float m k @ r) = Some (mk_float
        ((if m < 0 then - 1 else 1) * int (nat_of_digits 0 (str_nat n @ ''0''))) 1 0, r)"
      unfolding d sign_dispatch by (subst parse_unsigned_float [OF z(1) _ r]) simp_all
    also have "(if m < 0 then - 1 else 1) * int (nat_of_digits 0 (str_nat n @ ''0'')) = 10 * m"
      using m z(2) by (simp add: nat_of_digits_append)
    finally show ?thesis by (simp add: mk_float_def 0)
  next
    case (Suc j)
    define fs where "fs = pad_zeros (Suc j) (str_nat (n mod 10 ^ Suc j))"
    have fs: "length fs = Suc j" "nat_of_digits 0 fs = n mod 10 ^ Suc j" "set fs \<subseteq> Collect is_digit"
      unfolding fs_def by (rule pad_zeros_facts; simp)+
    have d: "dump_float m k @ r =
        (if m < 0 then ''-'' else []) @ str_nat (n div 10 ^ Suc j) @ ''.'' @ fs @ r"
      by (simp add: dump_float_def Let_def n_def fs_def Suc)
    have "nat_of_digits 0 (str_nat (n div 10 ^ Suc j) @ fs) = n"
      unfolding nat_of_digits_split fs(1,2) nat_of_str_nat by (simp only: div_mult_mod_eq)
    moreover have "fs \<noteq> []" using fs(1) by auto
    ultimately have "parse_number (dump_float m k @ r) = Some (mk_float m k 0, r)"
      unfolding d sign_dispatch by (subst parse_unsigned_float [OF fs(3) _ r]) (simp_all add: fs(1) m Suc)
    moreover have "nat (1 + int j) = Suc j" by arith
    ultimately show ?thesis using assms(1) by (simp add: mk_float_def Suc lowest_def)
  qed
qed
section \<open>Values\<close>

text \<open>What \<open>loads\<close> can return: decimals in lowest terms, no duplicate keys.\<close>

fun json_value :: "pyval \<Rightarrow> bool" where
  "json_value (PFloat m k) = lowest m k"
| "json_value (PList xs) = list_all json_value xs"
| "json_value (PDict d) = (distinct (map fst d) \<and> list_all (\<lambda>x. json_value (snd x)) d)"
| "json_value _ = True"

lemma starts_with_append [simp]: "starts_with (s @ t) s"
  by (induction s) auto

definition dumps_items :: "pyval list \<Rightarrow> string" where
  "dumps_items xs = join '', '' (map json_dumps xs)"

definition dumps_members :: "(string \<times> pyval) list \<Rightarrow> string" where
  "dumps_members d = join '', '' (map (\<lambda>x. dump_str True (fst x) @ '': '' @ json_dumps (snd x)) d)"

lemma json_dumps_simps:
  "json_dumps PNone = ''null''" "json_dumps (PBool b) = (if b then ''true'' else ''false'')"
  "json_dumps (PInt i) = str_int i" "json_dumps (PFloat m k) = dump_float m k"
  "json_dumps (PStr s) = dump_str True s"
  "json_dumps (PList xs) = CHR ''['' # dumps_items xs @ '']''"
  "json_dumps (PDict d) = CHR ''{'' # dumps_members d @ ''}''"
  by (simp_all add: json_dumps_def [abs_def] default_format_def dumps_items_def dumps_members_def comp_def)

text \<open>A printed value does not start like white space, or like the end of an array.\<close>

definition starter :: "char \<Rightarrow> bool" where
  "starter c \<longleftrightarrow> \<not> is_ws c \<and> c \<noteq> CHR '']'' \<and> c \<noteq> CHR ''}''"

lemma digit_starter: "is_digit c \<Longrightarrow> starter c"
  by (auto simp: starter_def is_ws_def is_digit_def)

lemma str_nat_hd_digit: "is_digit (hd (str_nat n))"
  using str_nat_digits [of n] hd_in_set [OF str_nat_ne] by blast

lemma number_starts:
  "\<exists>c cs. (if neg then ''-'' else []) @ str_nat n @ r = c # cs \<and> (c = CHR ''-'' \<or> is_digit c)"
  using str_nat_hd_digit [of n] by (cases "str_nat n") auto

lemma json_dumps_starts: "\<exists>c cs. json_dumps v = c # cs \<and> starter c"
proof (cases v)
  case (PInt i)
  then show ?thesis using number_starts [of "i < 0" "nat \<bar>i\<bar>" "[]"]
    by (auto simp: json_dumps_simps str_int_sign dest: digit_starter) (simp_all add: starter_def is_ws_def)
next
  case (PFloat m k)
  then show ?thesis using number_starts [of "m < 0" "nat \<bar>m\<bar> div 10 ^ k"]
    by (fastforce simp: json_dumps_simps dump_float_def Let_def starter_def is_ws_def dest: digit_starter)
qed (auto simp: json_dumps_simps dump_str_def starter_def is_ws_def)

lemma json_dumps_skip: "skip_ws (json_dumps v @ r) = json_dumps v @ r"
  using json_dumps_starts [of v] by (auto simp: starter_def)

lemma parse_value_number:
  assumes "s = c # cs" and "c = CHR ''-'' \<or> is_digit c"
  shows "parse_value (Suc n) s = parse_number s"
proof -
  have "c \<noteq> dq" "c \<noteq> CHR ''['' " "c \<noteq> CHR ''{''" "c \<noteq> CHR ''n''" "c \<noteq> CHR ''t''" "c \<noteq> CHR ''f''"
    using assms(2) by (auto simp: is_digit_def)
  then show ?thesis by (simp add: assms(1) parse_word_def)
qed
lemma fold_dput_distinct:
  "distinct (map fst (acc @ d)) \<Longrightarrow> fold (\<lambda>kv. dput (fst kv) (snd kv)) d acc = acc @ d"
proof (induction d arbitrary: acc)
  case (Cons x d)
  have "map_of acc (fst x) = None" using Cons.prems by (simp add: map_of_eq_None_iff)
  then have "dput (fst x) (snd x) acc = acc @ [x]" by (simp add: dput_fresh)
  with Cons show ?case by simp
qed simp

definition reads_back :: "pyval \<Rightarrow> bool" where
  "reads_back v \<longleftrightarrow> (\<forall>n r. length (json_dumps v) < n \<longrightarrow> stops r \<longrightarrow>
     parse_value n (json_dumps v @ r) = Some (v, r))"

lemma reads_backD:
  "reads_back v \<Longrightarrow> length (json_dumps v) < n \<Longrightarrow> stops r \<Longrightarrow>
   parse_value n (json_dumps v @ r) = Some (v, r)"
  by (simp add: reads_back_def)

lemma stops_punct [simp]: "stops (CHR '','' # r)" "stops (CHR '']'' # r)" "stops (CHR ''}'' # r)" "stops []"
  by (simp_all add: stops_def is_digit_def)

lemma dumps_items_Cons:
  "dumps_items [v] = json_dumps v"
  "dumps_items (v # w # vs) = json_dumps v @ '', '' @ dumps_items (w # vs)"
  by (simp_all add: dumps_items_def)

lemma dumps_items_skip: "skip_ws (dumps_items (v # vs) @ r) = dumps_items (v # vs) @ r"
  using json_dumps_skip [of v] by (cases vs) (simp_all add: dumps_items_Cons)

lemma parse_elems_dump:
  assumes "\<forall>v\<in>set (v # vs). reads_back v" and "length (dumps_items (v # vs)) + 1 < n"
  shows "parse_elems n (dumps_items (v # vs) @ CHR '']'' # r) = Some (v # vs, r)"
  using assms
proof (induction vs arbitrary: v n)
  case Nil
  then obtain k where n: "n = Suc k" by (cases n) auto
  then have "parse_value k (json_dumps v @ CHR '']'' # r) = Some (v, CHR '']'' # r)"
    using Nil by (intro reads_backD) (simp_all add: dumps_items_Cons)
  then show ?case by (simp add: n dumps_items_Cons is_ws_def)
next
  case (Cons w vs)
  then obtain k where n: "n = Suc k" by (cases n) auto
  have "parse_value k (json_dumps v @ CHR '','' # CHR '' '' # dumps_items (w # vs) @ CHR '']'' # r) =
      Some (v, CHR '','' # CHR '' '' # dumps_items (w # vs) @ CHR '']'' # r)"
    using Cons.prems n by (intro reads_backD) (simp_all add: dumps_items_Cons)
  moreover have "parse_elems k (dumps_items (w # vs) @ CHR '']'' # r) = Some (w # vs, r)"
    using Cons.prems n by (intro Cons.IH) (simp_all add: dumps_items_Cons)
  ultimately show ?case
    using dumps_items_skip [of w vs "CHR '']'' # r"] by (simp add: n dumps_items_Cons is_ws_def)
qed

lemma dumps_members_Cons:
  "dumps_members [(k, v)] = dump_str True k @ '': '' @ json_dumps v"
  "dumps_members ((k, v) # x # d) = dump_str True k @ '': '' @ json_dumps v @ '', '' @ dumps_members (x # d)"
  by (simp_all add: dumps_members_def)

lemma dumps_members_starts:
  "\<exists>cs. dumps_members ((k, v) # d) = dq # cs"
  by (cases d) (simp_all add: dumps_members_Cons dump_str_def)

lemma dumps_members_skip: "skip_ws (dumps_members (x # d) @ r) = dumps_members (x # d) @ r"
  using dumps_members_starts [of "fst x" "snd x" d] by (auto simp: is_ws_def)

lemma parse_members_dump:
  assumes "\<forall>x\<in>set ((k, v) # d). reads_back (snd x)" and "length (dumps_members ((k, v) # d)) + 1 < n"
  shows "parse_members n (dumps_members ((k, v) # d) @ CHR ''}'' # r) = Some ((k, v) # d, r)"
  using assms
proof (induction d arbitrary: k v n)
  case Nil
  then obtain m where n: "n = Suc m" by (cases n) auto
  have "parse_value m (json_dumps v @ CHR ''}'' # r) = Some (v, CHR ''}'' # r)"
    using Nil n by (intro reads_backD) (simp_all add: dumps_members_Cons)
  then show ?case
    using json_dumps_skip [of v "CHR ''}'' # r"]
    by (simp add: n dumps_members_Cons dump_str_def parse_chars_dump is_ws_def)
next
  case (Cons x d)
  then obtain m where n: "n = Suc m" by (cases n) auto
  obtain k' v' where x: "x = (k', v')" by fastforce
  let ?tail = "CHR '','' # CHR '' '' # dumps_members (x # d) @ CHR ''}'' # r"
  have "parse_value m (json_dumps v @ ?tail) = Some (v, ?tail)"
    using Cons.prems n by (intro reads_backD) (simp_all add: dumps_members_Cons x)
  moreover have "parse_members m (dumps_members (x # d) @ CHR ''}'' # r) = Some (x # d, r)"
    unfolding x using Cons.prems n by (intro Cons.IH) (simp_all add: dumps_members_Cons x)
  ultimately show ?case
    using json_dumps_skip [of v ?tail] dumps_members_skip [of x d "CHR ''}'' # r"]
    by (simp add: n dumps_members_Cons dump_str_def parse_chars_dump is_ws_def)
qed

lemma reads_backI:
  assumes "\<And>n r. length (json_dumps v) \<le> n \<Longrightarrow> stops r \<Longrightarrow>
    parse_value (Suc n) (json_dumps v @ r) = Some (v, r)"
  shows "reads_back v"
  unfolding reads_back_def
proof (intro allI impI)
  fix n r assume "length (json_dumps v) < n" and r: "stops r"
  then obtain j where "n = Suc j" "length (json_dumps v) \<le> j" by (cases n) auto
  with assms r show "parse_value n (json_dumps v @ r) = Some (v, r)" by blast
qed

lemma reads_back_words: "reads_back PNone" "reads_back (PBool b)"
  by (rule reads_backI, cases b, simp_all add: json_dumps_simps parse_word_def)+

lemma dump_float_starts: "\<exists>c cs. dump_float m k @ r = c # cs \<and> (c = CHR ''-'' \<or> is_digit c)"
  using number_starts [of "m < 0" "nat \<bar>m\<bar> div 10 ^ k"] by (simp add: dump_float_def Let_def)

lemma dumps_items_starts: "\<exists>c cs. dumps_items (v # vs) = c # cs \<and> starter c"
  using json_dumps_starts [of v] by (cases vs) (auto simp: dumps_items_Cons)

lemma reads_back_int: "reads_back (PInt i)"
proof (rule reads_backI)
  fix n r assume r: "stops r"
  obtain c cs where c: "str_int i @ r = c # cs" "c = CHR ''-'' \<or> is_digit c"
    using number_starts [of "i < 0" "nat \<bar>i\<bar>" r] by (auto simp: str_int_sign)
  show "parse_value (Suc n) (json_dumps (PInt i) @ r) = Some (PInt i, r)"
    unfolding json_dumps_simps parse_value_number [OF c] by (rule parse_number_int [OF r])
qed

lemma reads_back_float: "lowest m k \<Longrightarrow> reads_back (PFloat m k)"
proof (rule reads_backI)
  fix n r assume "lowest m k" and r: "stops r"
  obtain c cs where c: "dump_float m k @ r = c # cs" "c = CHR ''-'' \<or> is_digit c"
    using dump_float_starts [of m k r] by blast
  show "parse_value (Suc n) (json_dumps (PFloat m k) @ r) = Some (PFloat m k, r)"
    unfolding json_dumps_simps parse_value_number [OF c] by (rule parse_number_float) fact+
qed

lemma reads_back_str: "reads_back (PStr s)"
  by (rule reads_backI) (simp add: json_dumps_simps dump_str_def parse_chars_dump)

lemma reads_back_list:
  assumes "\<forall>v\<in>set xs. reads_back v"
  shows "reads_back (PList xs)"
proof (rule reads_backI)
  fix n r assume len: "length (json_dumps (PList xs)) \<le> n"
  show "parse_value (Suc n) (json_dumps (PList xs) @ r) = Some (PList xs, r)"
  proof (cases xs)
    case Nil
    then show ?thesis by (simp add: json_dumps_simps dumps_items_def is_ws_def)
  next
    case (Cons v vs)
    have "parse_elems n (dumps_items xs @ CHR '']'' # r) = Some (xs, r)"
      unfolding Cons using assms len
      by (intro parse_elems_dump) (simp_all add: json_dumps_simps Cons)
    moreover obtain c cs where "dumps_items xs = c # cs" "starter c"
      using dumps_items_starts [of v vs] unfolding Cons by blast
    ultimately show ?thesis by (simp add: json_dumps_simps starter_def)
  qed
qed

lemma reads_back_dict:
  assumes "\<forall>x\<in>set d. reads_back (snd x)" and keys: "distinct (map fst d)"
  shows "reads_back (PDict d)"
proof (rule reads_backI)
  fix n r assume len: "length (json_dumps (PDict d)) \<le> n"
  show "parse_value (Suc n) (json_dumps (PDict d) @ r) = Some (PDict d, r)"
  proof (cases d)
    case Nil
    then show ?thesis by (simp add: json_dumps_simps dumps_members_def is_ws_def)
  next
    case (Cons x e)
    obtain k v where x: "x = (k, v)" by fastforce
    have "parse_members n (dumps_members d @ CHR ''}'' # r) = Some (d, r)"
      unfolding Cons x using assms len
      by (intro parse_members_dump) (simp_all add: json_dumps_simps Cons x)
    moreover obtain cs where "dumps_members d = dq # cs"
      using dumps_members_starts unfolding Cons x by blast
    moreover have "fold (\<lambda>kv. dput (fst kv) (snd kv)) d [] = d"
      using fold_dput_distinct [of "[]" d] keys by simp
    ultimately show ?thesis by (simp add: json_dumps_simps is_ws_def)
  qed
qed

lemma json_value_reads_back: "json_value v \<Longrightarrow> reads_back v"
proof (induction v)
  case (PList xs)
  then show ?case by (intro reads_back_list) (simp add: list_all_iff)
next
  case (PDict d)
  have "reads_back (snd x)" if "x \<in> set d" for x
    by (rule PDict.IH [OF that]) (use that PDict.prems in \<open>auto simp: list_all_iff prod_set_defs\<close>)
  with PDict.prems show ?case by (intro reads_back_dict) simp_all
qed (simp_all add: reads_back_words reads_back_int reads_back_float reads_back_str)

lemma loads_dumps: "json_value v \<Longrightarrow> json_loads (json_dumps v) = Some v"
proof -
  assume "json_value v"
  then have "parse_value (2 * length (json_dumps v) + 2) (json_dumps v @ []) = Some (v, [])"
    using json_value_reads_back by (intro reads_backD) simp_all
  then show ?thesis using json_dumps_skip [of v "[]"] by (simp add: json_loads_def)
qed

end
