(* ===== verification/ClientProps.thy ===== *)
theory ClientProps
  imports Scenario JsonProps
begin

text \<open>
  The client of external MCP servers and the executor above it: what a call costs and which
  exceptions escape it, what the executor leaves in \<open>step_data\<close> and what a later ref reads
  back, what a loaded registry satisfies.
\<close>

section \<open>One call of a tool on a server\<close>

text \<open>
  A client call fails only for a server the registry does not have, with no network traffic;
  otherwise it makes at most three attempts of two network operations each, and a retriable
  outcome is returned only after the third.
\<close>

theorem mcp_call_bounded:
  "case mcp_call e server tool args reg timeout c of
      (Inl x, c') \<Rightarrow> x = UnknownServer server (registry_names reg) \<and> map_of reg server = None \<and> c' = c
    | (Inr out, c') \<Rightarrow>
        net_ops c \<le> net_ops c' \<and> net_ops c' \<le> net_ops c + 2 * RETRY_MAX_ATTEMPTS \<and>
        (\<exists>cfg. registry_get reg server = Inr cfg \<and>
          ((\<exists>x. call_with_retry_async e server cfg tool args (client_timeout timeout cfg) c = (Inl x, c') \<and>
              out = ProtocolError (exn_repr x)) \<or>
           (\<exists>n. call_with_retry_async e server cfg tool args (client_timeout timeout cfg) c = (Inr (out, n), c') \<and>
              1 \<le> n \<and> n \<le> RETRY_MAX_ATTEMPTS \<and> (retriable out \<longrightarrow> n = RETRY_MAX_ATTEMPTS))))"
proof (cases "registry_get reg server")
  case (Inl x)
  then show ?thesis by (auto simp: mcp_call_def registry_get_def split: option.splits)
next
  case (Inr cfg)
  let ?once = "call_with_validation_async e server cfg tool args (client_timeout timeout cfg)"
  have one: "1 \<le> RETRY_MAX_ATTEMPTS" by (simp add: RETRY_MAX_ATTEMPTS_def)
  have cost: "net_ops (snd (retry_loop ?once 1 c)) \<le> net_ops c + 2 * RETRY_MAX_ATTEMPTS"
    using mcp_attempt.retry_meter [OF one, where e = e and server = server and cfg = cfg and tool = tool and args = args and t = "client_timeout timeout cfg" and s = c] by simp
  obtain r c' where r: "retry_loop ?once 1 c = (r, c')" by fastforce
  have mono: "net_ops c \<le> net_ops c'" using mcp_attempt.retry_mono [where e = e and server = server and cfg = cfg and tool = tool and args = args and t = "client_timeout timeout cfg" and s = c and attempt = 1] r by simp
  show ?thesis
  proof (cases r)
    case (Inl x)
    with r cost mono \<open>registry_get reg server = Inr cfg\<close> show ?thesis
      by (auto simp: mcp_call_def call_with_retry_async_def)
  next
    case out: (Inr p)
    obtain o' n where p: "p = (o', n)" by fastforce
    from mcp_attempt.retry_attempts [OF one, where e = e and server = server and cfg = cfg and tool = tool and args = args and t = "client_timeout timeout cfg" and s = c and out = o' and n = n and s' = c']
    have "1 \<le> n \<and> n \<le> RETRY_MAX_ATTEMPTS \<and> (n < RETRY_MAX_ATTEMPTS \<longrightarrow> \<not> retriable o')"
      using r out p by simp
    with r out p cost mono Inr show ?thesis
      by (auto simp: mcp_call_def call_with_retry_async_def not_less)
  qed
qed

lemma mcp_call_cost: "net_ops (snd (mcp_call e server tool args reg timeout c)) \<le> net_ops c + 6"
proof (cases "registry_get reg server")
  case (Inr cfg)
  have one: "1 \<le> RETRY_MAX_ATTEMPTS" by (simp add: RETRY_MAX_ATTEMPTS_def)
  show ?thesis
    using mcp_attempt.retry_meter [OF one, where e = e and server = server and cfg = cfg and tool = tool and args = args and t = "client_timeout timeout cfg" and s = c]
    by (auto simp: mcp_call_def Inr call_with_retry_async_def RETRY_MAX_ATTEMPTS_def split: prod.splits sum.splits)
qed (simp add: mcp_call_def)

section \<open>One step of the executor\<close>

text \<open>
  The executor of an \<open>mcp_tool_call\<close> step, when it returns, returns an ok or an
  error envelope, after at most six network operations, and without any when an argument
  reference does not resolve.
\<close>

theorem executor_leaves_envelope:
  assumes fin: "execute_mcp_tool_call_step e st data sk (Some reg) c = (Inr v, c')"
  shows "((\<exists>msg. v = error_envelope msg) \<or> (\<exists>s. v = ok_envelope s)) \<and>
    net_ops c' \<le> net_ops c + 6 \<and>
    (\<forall>raw resolved path. st_args st = Some raw \<longrightarrow> resolve_args raw data sk (st_id st) = Inr resolved \<longrightarrow>
       find_absent resolved [] = Some path \<longrightarrow> c' = c \<and> (\<exists>msg. v = error_envelope msg))"
proof -
  obtain raw resolved where raw: "st_args st = Some raw" "resolve_args raw data sk (st_id st) = Inr resolved"
    using fin by (cases "st_args st"; cases "resolve_args (the (st_args st)) data sk (st_id st)")
      (auto simp: execute_mcp_tool_call_step_def step_key_def)
  show ?thesis
  proof (cases "find_absent resolved []")
    case (Some path)
    then show ?thesis
      using fin raw by (auto simp: execute_mcp_tool_call_step_def step_key_def)
  next
    case None
    then have d: "dispatch_call e st (argv_value resolved) reg c = (Inr v, c')"
      using fin raw by (simp add: execute_mcp_tool_call_step_def step_key_def)
    then obtain server tool t out where o: "mcp_call e server tool (argv_value resolved) reg (Some t) c = (Inr out, c')"
      and v: "v = map_outcome_to_envelope out"
      by (auto simp: dispatch_call_def step_key_def bindE_def liftE_def retE_def
          split: prod.splits sum.splits option.splits)
    have "net_ops c' \<le> net_ops c + 6"
      using mcp_call_cost [of e server tool "argv_value resolved" reg "Some t" c] o by simp
    moreover have "(\<exists>msg. v = error_envelope msg) \<or> (\<exists>s. v = ok_envelope s)"
      by (cases out) (auto simp: v)
    ultimately show ?thesis using None raw by auto
  qed
qed

section \<open>Reading a stored value back\<close>

lemma split_on_plain: "c \<notin> set s \<Longrightarrow> split_on c s = [s]"
  by (induction s) auto

lemma split_on_sep: "c \<notin> set s \<Longrightarrow> split_on c (s @ c # t) = s # split_on c t"
  by (induction s) auto

text \<open>The ref \<open>step_data.k.seg1. ... .segn\<close>.\<close>

fun dotted :: "string list \<Rightarrow> string" where
  "dotted [] = []"
| "dotted (s # ss) = CHR ''.'' # s @ dotted ss"

lemma split_dotted:
  "CHR ''.'' \<notin> set s \<Longrightarrow> \<forall>t\<in>set ss. CHR ''.'' \<notin> set t \<Longrightarrow> split_on (CHR ''.'') (s @ dotted ss) = s # ss"
  by (induction ss arbitrary: s) (simp_all add: split_on_plain split_on_sep)

text \<open>
  C25. A value dumped as JSON into the data of a step is read back by a ref-path: the reference
  to the step followed by a path gives the part of the value at that path.
\<close>

theorem refs_read_stored_values:
  assumes v: "json_value v" and k: "CHR ''.'' \<notin> set k" "k \<notin> set sk"
    and segs: "segs \<noteq> []" "\<forall>t\<in>set segs. CHR ''.'' \<notin> set t"
  shows "resolve_ref (''step_data'' @ dotted (k # segs)) (dput k (json_dumps v) data) sk x = Inr (walk v segs)"
proof -
  have "split_on (CHR ''.'') (''step_data'' @ dotted (k # segs)) = ''step_data'' # k # segs"
    by (rule split_dotted) (use k segs in auto)
  then show ?thesis using k segs by (simp add: resolve_ref_def loads_dumps [OF v])
qed

section \<open>The registry\<close>

lemma parse_server_name: "parse_server raw path i = Inr cfg \<Longrightarrow> pget raw ''name'' = Some (PStr (server_name cfg))"
  by (auto simp: parse_server_def nonempty_str_def Let_def
      split: pyval.splits if_splits option.splits sum.splits)

lemma parse_servers_names:
  assumes "parse_servers raws path i seen servers = Inr reg"
    and "\<And>k. map_of seen k = None \<longleftrightarrow> map_of servers k = None"
  shows "map (\<lambda>x. Some (PStr (fst x))) reg =
    map (\<lambda>x. Some (PStr (fst x))) servers @ map (\<lambda>raw. pget raw ''name'') raws"
  using assms
proof (induction raws path i seen servers rule: parse_servers.induct)
  case (2 raw raws path i seen servers)
  then obtain cfg where cfg: "parse_server raw path i = Inr cfg"
    and new: "map_of seen (server_name cfg) = None"
    and rest: "parse_servers raws path (i + 1) (dput (server_name cfg) i seen)
                 (dput (server_name cfg) cfg servers) = Inr reg"
    by (auto split: sum.splits option.splits)
  have "dput (server_name cfg) cfg servers = servers @ [(server_name cfg, cfg)]"
    using new 2 by (intro dput_fresh) simp
  with rest show ?case
    using "2.IH" [OF cfg new] "2.prems"(2) parse_server_name [OF cfg] by simp
qed simp

text \<open>
  A registry that \<open>from_yaml\<close> returns has one entry per server of the document, in
  order, with unique non-empty names, non-empty URLs and token variables and positive timeouts,
  and get finds exactly those entries.
\<close>

theorem loaded_registry_is_well_formed:
  assumes "registry_from_yaml full path (Loaded (PDict [(''servers'', PList raws)])) = Inr reg"
  shows "registry_ok reg \<and>
    map (\<lambda>raw. pget raw ''name'') raws = map (\<lambda>x. Some (PStr (fst x))) reg \<and>
    (\<forall>name cfg. registry_get reg name = Inr cfg \<longrightarrow>
       (name, cfg) \<in> set reg \<and> server_name cfg = name \<and> server_ok cfg)"
proof -
  have ok: "registry_ok reg" using registry_from_yaml_ok [OF assms] .
  have "unknown_keys [(''servers'', PList raws)] TOP_LEVEL_KEYS = []"
    by (simp add: unknown_keys_def TOP_LEVEL_KEYS_def)
  then have "parse_servers raws path 1 [] [] = Inr reg"
    using assms by (simp add: registry_from_yaml_def)
  from parse_servers_names [OF this] ok show ?thesis
    by (auto simp: registry_get_def registry_ok_def dest!: map_of_SomeD split: option.splits)
qed

section \<open>Instances\<close>

theorem mcp_call_bounded_witness:
  "net_ops (snd (mcp_call demo_env ''srv'' ''echo'' (PDict []) demo_registry None
     \<lparr>validator_cache = [], net_ops = 0\<rparr>)) = 2 \<and>
   net_ops (snd (mcp_call demo_env ''srv'' ''echo'' (PDict []) demo_registry None
     \<lparr>validator_cache = [], net_ops = 0\<rparr>)) \<le> 0 + 2 * RETRY_MAX_ATTEMPTS"
proof -
  let ?c = "\<lparr>validator_cache = [], net_ops = 0\<rparr>"
  let ?m = "mcp_call demo_env ''srv'' ''echo'' (PDict []) demo_registry None ?c"
  have v: "fst ?m = Inr (Ok ''{}'')" "net_ops (snd ?m) = 2" "net_ops ?c = 0"
    by code_simp+
  obtain c' where m: "?m = (Inr (Ok ''{}''), c')" using v(1) by (metis prod.collapse)
  show ?thesis
    using mcp_call_bounded [where e = demo_env and server = "''srv''" and tool = "''echo''"
        and args = "PDict []" and reg = demo_registry and timeout = None and c = ?c] v(2,3)
    by (simp add: m)
qed

theorem executor_leaves_envelope_witness:
  "\<exists>msg c'. execute_mcp_tool_call_step demo_env fetch_step [] [] (Some demo_registry)
     \<lparr>validator_cache = [], net_ops = 0\<rparr> = (Inr (error_envelope msg), c') \<and> net_ops c' = 0"
proof -
  let ?c = "\<lparr>validator_cache = [], net_ops = 0\<rparr>"
  let ?x = "execute_mcp_tool_call_step demo_env fetch_step [] [] (Some demo_registry) ?c"
  have v: "fst ?x = Inr (error_envelope ''unresolved arg ref: ${step_data.q}'')" by code_simp
  have u: "st_args fetch_step = Some (PDict [(''q'', PStr ''${step_data.ask}'')])"
    "resolve_args (PDict [(''q'', PStr ''${step_data.ask}'')]) [] [] (st_id fetch_step) = Inr (ADict [(''q'', AAbsent)])"
    "find_absent (ADict [(''q'', AAbsent)]) [] = Some ''q''"
    by code_simp+
  have x: "?x = (Inr (error_envelope ''unresolved arg ref: ${step_data.q}''), snd ?x)"
    by (metis prod.collapse v)
  from executor_leaves_envelope [OF this] u have "snd ?x = ?c" by blast
  then have "net_ops (snd ?x) = 0" by simp
  with x show ?thesis by blast
qed

theorem refs_read_stored_values_witness:
  "resolve_ref ''step_data.fetch.value'' (dput ''fetch'' (json_dumps (ok_envelope ''42'')) []) [] ''use'' =
     Inr (Some (PStr ''42''))"
proof -
  have v: "json_value (ok_envelope ''42'')" "''step_data'' @ dotted [''fetch'', ''value''] = ''step_data.fetch.value''"
    "walk (ok_envelope ''42'') [''value''] = Some (PStr ''42'')"
    by code_simp+
  show ?thesis
    using refs_read_stored_values [OF v(1), of "''fetch''" "[]" "[''value'']" "[]" "''use''"]
    unfolding v by simp
qed

theorem loaded_registry_is_well_formed_witness:
  "\<exists>reg. registry_from_yaml ''/r.yaml'' ''r.yaml'' (Loaded (PDict [(''servers'', PList [PDict
     [(''name'', PStr ''srv''), (''url'', PStr ''http://srv''), (''transport'', PStr ''http''),
      (''auth'', PDict [(''type'', PStr ''bearer''), (''token_env'', PStr ''TOK'')])]])])) = Inr reg \<and>
   registry_ok reg"
proof -
  have "registry_from_yaml ''/r.yaml'' ''r.yaml'' (Loaded (PDict [(''servers'', PList [PDict
     [(''name'', PStr ''srv''), (''url'', PStr ''http://srv''), (''transport'', PStr ''http''),
      (''auth'', PDict [(''type'', PStr ''bearer''), (''token_env'', PStr ''TOK'')])]])])) = Inr demo_registry"
    by code_simp
  from loaded_registry_is_well_formed [OF this] this show ?thesis by blast
qed

end
