(* ===== verification/Middleware.thy ===== *)
theory Middleware
  imports RateLimit McpRegistry
begin

text \<open>
The middleware stack around every tool (\<^verbatim>\<open>middleware.py\<close>, \<^verbatim>\<open>identity_ctx.py\<close>): the conversion
  of argument validation failures, the caller identity of the request, and the rate-limit
  gate, which consults up to three axes and answers a denial itself. A middleware is a
  function from the handler it wraps to a handler over the state of the process: the
  limiter, the dedupe cache of the log, the context variable, and the application's state.
  FastMCP, pydantic and the HTTP server are outside: what the middleware reads of them is
  the request record.
\<close>

section \<open>The request\<close>

text \<open>
  What the middleware reads of a tool call: name and arguments of the message, the transport of
  the FastMCP context (which may be absent), the host of the HTTP peer (\<open>None\<close> when
  there is no HTTP request or no client), and the readings of the monotonic clock: one for
  each axis, when it is consulted, and one for the log.
\<close>

record tool_request =
  rq_tool :: "string option"
  rq_arguments :: "pyval option"
  rq_transport :: "string option option"
  rq_peer :: "pyval option"
  rq_clock :: "string \<Rightarrow> rat"
  rq_log_clock :: rat

definition SESSION_CREATE_TOOL :: string where "SESSION_CREATE_TOOL = ''start_workflow''"

definition HTTP_TRANSPORTS :: "string list" where
  "HTTP_TRANSPORTS = [''sse'', ''streamable-http'', ''http'']"

definition detect_transport :: "tool_request \<Rightarrow> string" where
  "detect_transport req =
     (case rq_transport req of
        Some (Some t) \<Rightarrow>
          if t = ''stdio'' then ''stdio''
          else if t \<in> set HTTP_TRANSPORTS then ''http'' else ''unknown''
      | _ \<Rightarrow> ''unknown'')"

definition extract_ip :: "tool_request \<Rightarrow> string option" where
  "extract_ip req = nonempty_str (rq_peer req)"

definition is_http :: "tool_request \<Rightarrow> bool" where
  "is_http req \<longleftrightarrow> detect_transport req = ''http''"

definition client_ip :: "tool_request \<Rightarrow> string option" where
  "client_ip req = (if is_http req then extract_ip req else None)"

text \<open>The bucket key of a session: its canonical id, none when nothing is left of it.\<close>

definition session_key :: "tool_request \<Rightarrow> string option" where
  "session_key req =
     (case rq_arguments req of
        None \<Rightarrow> None
      | Some args \<Rightarrow>
          (case nonempty_str (pget args ''session_id'') of
             None \<Rightarrow> None
           | Some raw \<Rightarrow>
               (if normalize_session_id raw = [] then None else Some (normalize_session_id raw))))"

section \<open>The rate-limit gate\<close>

text \<open>A denial is the axis and the wait; an axis is consulted when nothing is denied yet and it has a key.\<close>

type_synonym denial = "(string \<times> wait) option"

definition consult ::
  "tool_request \<Rightarrow> string \<Rightarrow> string option \<Rightarrow> denial \<Rightarrow> (limiter, denial) act" where
  "consult req axis key denied =
     (case denied of
        Some d \<Rightarrow> retE (Some d)
      | None \<Rightarrow>
          (case key of
             None \<Rightarrow> retE None
           | Some k \<Rightarrow>
               bindE (try_consume axis k 1 (rq_clock req axis)) (\<lambda>r.
                 retE (if fst r then None else Some (axis, snd r)))))"

definition create_key :: "tool_request \<Rightarrow> string option" where
  "create_key req = (if rq_tool req = Some SESSION_CREATE_TOOL then client_ip req else None)"

definition consult_axes :: "tool_request \<Rightarrow> (limiter, denial) act" where
  "consult_axes req =
     bindE (consult req AXIS_IP_SESSION_CREATE (create_key req) None) (\<lambda>d1.
     bindE (consult req AXIS_SESSION (session_key req) d1) (\<lambda>d2.
     consult req AXIS_IP (client_ip req) d2))"

text \<open>
  The \<open>rate_limited\<close> envelope: status, code and message are fixed, so it is its three other
  fields, the wait in milliseconds unrendered.
\<close>

record rate_limited =
  rl_retry_after_ms :: wait
  rl_scope :: string
  rl_session_fingerprint :: "string option"

definition build_rate_limited_envelope ::
  "'e base_env_scheme \<Rightarrow> string \<Rightarrow> wait \<Rightarrow> string option \<Rightarrow> rate_limited" where
  "build_rate_limited_envelope e scope w sid =
     \<lparr>rl_retry_after_ms = w, rl_scope = scope,
      rl_session_fingerprint =
        (if scope = AXIS_SESSION then map_option (compute_fingerprint e) sid else None)\<rparr>"

definition emit_deny_warn ::
  "'e base_env_scheme \<Rightarrow> string \<Rightarrow> string option \<Rightarrow> string option \<Rightarrow> rat \<Rightarrow> dedupe \<Rightarrow> bool \<times> dedupe" where
  "emit_deny_warn e scope sid ip now dlog =
     (let ident =
        (case (scope = AXIS_SESSION, sid, scope = AXIS_IP \<or> scope = AXIS_IP_SESSION_CREATE, ip) of
           (True, Some k, _, _) \<Rightarrow> compute_fingerprint e k
         | (_, _, True, Some a) \<Rightarrow> hash_ip e a
         | _ \<Rightarrow> ''unknown'')
      in emit_rate_limit_warn scope ident now dlog)"

section \<open>The three middlewares\<close>

text \<open>
  \<^verbatim>\<open>pydantic.ValidationError\<close> as the middleware reads it: the location and message of each
  error, and its text. \<open>Raised\<close> is any other exception of the inner call.
\<close>

record validation_failure =
  vf_errors :: "(pyval list \<times> string option) list"
  vf_text :: string

datatype failure = Invalid validation_failure | Raised exn

datatype reply = Answer pyval | Denied rate_limited

record 'w gate =
  gate_limiter :: limiter
  gate_log :: dedupe
  gate_caller :: identity
  gate_app :: 'w

type_synonym 'w handler = "'w gate \<Rightarrow> (failure + reply) \<times> 'w gate"

definition validation_envelope :: "validation_failure \<Rightarrow> pyval" where
  "validation_envelope v =
     (case vf_errors v of
        (loc # _, msg) # _ \<Rightarrow>
          error_response ''invalid_argument'' (case msg of Some m \<Rightarrow> m | None \<Rightarrow> vf_text v)
            [(''field'', PStr (py_str loc))]
      | _ \<Rightarrow> error_response ''invalid_argument'' (vf_text v) [(''field'', PStr ''unknown'')])"

definition validation_on_call_tool :: "'w handler \<Rightarrow> 'w handler" where
  "validation_on_call_tool call_next s =
     (case call_next s of
        (Inl (Invalid v), s') \<Rightarrow> (Inr (Answer (validation_envelope v)), s')
      | r \<Rightarrow> r)"

text \<open>The context variable is set for the inner call and reset however it ends.\<close>

definition caller_identity_on_request :: "'w handler \<Rightarrow> 'w handler" where
  "caller_identity_on_request call_next s =
     (case call_next (s\<lparr>gate_caller := ANONYMOUS_IDENTITY\<rparr>) of
        (r, s') \<Rightarrow> (r, s'\<lparr>gate_caller := gate_caller s\<rparr>))"

definition rate_limit_on_call_tool ::
  "'e base_env_scheme \<Rightarrow> tool_request \<Rightarrow> 'w handler \<Rightarrow> 'w handler" where
  "rate_limit_on_call_tool e req call_next s =
     (case consult_axes req (gate_limiter s) of
        (Inl x, rl) \<Rightarrow> (Inl (Raised x), s\<lparr>gate_limiter := rl\<rparr>)
      | (Inr None, rl) \<Rightarrow> call_next (s\<lparr>gate_limiter := rl\<rparr>)
      | (Inr (Some (scope, w)), rl) \<Rightarrow>
          (Inr (Denied (build_rate_limited_envelope e scope w (session_key req))),
           s\<lparr>gate_limiter := rl,
             gate_log := snd (emit_deny_warn e scope (session_key req) (client_ip req)
                               (rq_log_clock req) (gate_log s))\<rparr>))"

text \<open>
  The stack in the order \<^verbatim>\<open>create_app\<close> adds it, around a tool: a computation over the state of
  the application that may read the caller's identity.
\<close>

definition run_tool :: "(identity \<Rightarrow> 'w \<Rightarrow> (failure + pyval) \<times> 'w) \<Rightarrow> 'w handler" where
  "run_tool tool s =
     (case tool (gate_caller s) (gate_app s) of
        (r, w) \<Rightarrow> (map_sum id Answer r, s\<lparr>gate_app := w\<rparr>))"

definition serve ::
  "'e base_env_scheme \<Rightarrow> tool_request \<Rightarrow> (identity \<Rightarrow> 'w \<Rightarrow> (failure + pyval) \<times> 'w) \<Rightarrow> 'w handler" where
  "serve e req tool =
     validation_on_call_tool (caller_identity_on_request (rate_limit_on_call_tool e req (run_tool tool)))"

end
