(* ===== verification/MiddlewareProps.thy ===== *)
theory MiddlewareProps
  imports RateLimitProps Middleware
begin

text \<open>
What the middleware guarantees end to end: a denied call runs nothing and leaks nothing,
  an admitted one runs the tool once, two spellings of a session id share a bucket, and a
  flood of requests on one session passes at most its burst and refill.
\<close>

section \<open>What a denial does\<close>

lemma consult_cases:
  assumes "axis \<in> {AXIS_SESSION, AXIS_IP, AXIS_IP_SESSION_CREATE}"
  shows "\<exists>d rl'. consult req axis key denied rl = (Inr d, rl')"
proof (cases "denied = None \<and> key \<noteq> None")
  case True
  then obtain k where k: "denied = None" "key = Some k" by blast
  obtain b rl1 where "get_bucket axis k (rq_clock req axis) rl = (b, rl1)" by fastforce
  from try_consume_split [OF assms this] k show ?thesis by (simp add: consult_def)
qed (auto simp: consult_def split: option.split)

lemma consult_denied [simp]: "consult req axis key (Some d) rl = (Inr (Some d), rl)"
  by (simp add: consult_def)

text \<open>What one consultation asks of the limiter.\<close>

definition asks :: "tool_request \<Rightarrow> string \<Rightarrow> string option \<Rightarrow> denial \<Rightarrow> rl_call list" where
  "asks req axis key denied =
     (case (denied, key) of (None, Some k) \<Rightarrow> [Consume axis k (rq_clock req axis)] | _ \<Rightarrow> [])"

lemma consult_asks: "snd (consult req axis key denied rl) = run rl_step rl (asks req axis key denied)"
  by (auto simp: consult_def asks_def bindE_def rl_step_def split: option.split prod.split sum.split)

lemma consult_denial:
  "fst (consult req axis key denied rl) = Inr (Some (scope, w)) \<Longrightarrow>
   denied = Some (scope, w) \<or> denied = None \<and> scope = axis \<and> key \<noteq> None"
  by (auto simp: consult_def bindE_def split: option.splits prod.splits sum.splits if_splits)

lemma consult_admits:
  assumes "fst (consult req axis (Some k) None rl) = Inr None"
  shows "\<exists>w. fst (try_consume axis k 1 (rq_clock req axis) rl) = Inr (True, w)"
  using assms by (auto simp: consult_def bindE_def split: prod.splits sum.splits if_splits)

lemma consult_axes_total: "\<exists>d rl'. consult_axes req rl = (Inr d, rl')"
proof -
  obtain d1 rl1 where 1: "consult req AXIS_IP_SESSION_CREATE (create_key req) None rl = (Inr d1, rl1)"
    using consult_cases by blast
  obtain d2 rl2 where 2: "consult req AXIS_SESSION (session_key req) d1 rl1 = (Inr d2, rl2)"
    using consult_cases by blast
  obtain d3 rl3 where 3: "consult req AXIS_IP (client_ip req) d2 rl2 = (Inr d3, rl3)"
    using consult_cases by blast
  show ?thesis by (simp add: consult_axes_def 1 2 3)
qed

text \<open>The three consultations of a request, and their outcome.\<close>

lemma consult_axes_run:
  assumes "consult_axes req rl = (Inr d, rl')"
  obtains d1 rl1 d2 rl2 where
    "consult req AXIS_IP_SESSION_CREATE (create_key req) None rl = (Inr d1, rl1)"
    "consult req AXIS_SESSION (session_key req) d1 rl1 = (Inr d2, rl2)"
    "consult req AXIS_IP (client_ip req) d2 rl2 = (Inr d, rl')"
proof -
  obtain d1 rl1 where 1: "consult req AXIS_IP_SESSION_CREATE (create_key req) None rl = (Inr d1, rl1)"
    using consult_cases by blast
  obtain d2 rl2 where 2: "consult req AXIS_SESSION (session_key req) d1 rl1 = (Inr d2, rl2)"
    using consult_cases by blast
  from assms have "consult req AXIS_IP (client_ip req) d2 rl2 = (Inr d, rl')"
    by (simp add: consult_axes_def 1 2)
  with 1 2 that show thesis by blast
qed

lemma serve_run:
  assumes "consult_axes req (gate_limiter s) = (Inr d, rl)"
  shows "serve e req tool s =
    (case d of
       Some (scope, w) \<Rightarrow>
         (Inr (Denied (build_rate_limited_envelope e scope w (session_key req))),
          s\<lparr>gate_limiter := rl, gate_log := snd (emit_deny_warn e scope (session_key req) (client_ip req)
              (rq_log_clock req) (gate_log s))\<rparr>)
     | None \<Rightarrow>
         (case tool ANONYMOUS_IDENTITY (gate_app s) of
            (r, w) \<Rightarrow>
              (case r of
                 Inl (Invalid v) \<Rightarrow> Inr (Answer (validation_envelope v))
               | Inl x \<Rightarrow> Inl x
               | Inr a \<Rightarrow> Inr (Answer a),
               s\<lparr>gate_limiter := rl, gate_app := w\<rparr>)))"
  using assms
  by (auto simp: serve_def validation_on_call_tool_def caller_identity_on_request_def
      rate_limit_on_call_tool_def run_tool_def split: option.split prod.split sum.split failure.split)

text \<open>
  The reference: the buckets a request is charged to, in the order they are asked, and the verdict
  of the limiter when they are asked one after the other until one denies.
\<close>

definition charged :: "tool_request \<Rightarrow> (string \<times> string) list" where
  "charged req =
     (case client_ip req of
        Some ip \<Rightarrow> if rq_tool req = Some ''start_workflow'' then [(''ip_session_create'', ip)] else []
      | None \<Rightarrow> []) @
     (case session_key req of Some k \<Rightarrow> [(''session'', k)] | None \<Rightarrow> []) @
     (case client_ip req of Some ip \<Rightarrow> [(''ip'', ip)] | None \<Rightarrow> [])"

fun verdict ::
  "(string \<Rightarrow> rat) \<Rightarrow> (string \<times> string) list \<Rightarrow> limiter \<Rightarrow> (string \<times> wait) option \<times> limiter" where
  "verdict now [] rl = (None, rl)"
| "verdict now ((axis, key) # xs) rl =
     (case try_consume axis key 1 (now axis) rl of
        (Inr (allowed, w), rl') \<Rightarrow> if allowed then verdict now xs rl' else (Some (axis, w), rl')
      | (Inl _, rl') \<Rightarrow> verdict now xs rl')"

lemma verdict_append:
  "verdict now (xs @ ys) rl =
     (case verdict now xs rl of
        (None, rl') \<Rightarrow> verdict now ys rl'
      | (Some d, rl') \<Rightarrow> (Some d, rl'))"
  by (induction xs arbitrary: rl) (auto split: prod.splits sum.splits)

lemma consult_verdict:
  assumes "axis \<in> {AXIS_SESSION, AXIS_IP, AXIS_IP_SESSION_CREATE}"
  shows "consult req axis key None rl =
    (case verdict (rq_clock req) (case key of Some k \<Rightarrow> [(axis, k)] | None \<Rightarrow> []) rl of (d, rl') \<Rightarrow> (Inr d, rl'))"
proof (cases key)
  case (Some k)
  obtain b rl1 where "get_bucket axis k (rq_clock req axis) rl = (b, rl1)" by fastforce
  note split = try_consume_split [OF assms this]
  obtain allowed w where "fst (consume (refill b (rq_clock req axis)) 1) = (allowed, w)" by fastforce
  with Some split show ?thesis by (simp add: consult_def)
qed (simp add: consult_def)

lemma consult_axes_verdict:
  "consult_axes req rl = (case verdict (rq_clock req) (charged req) rl of (d, rl') \<Rightarrow> (Inr d, rl'))"
proof -
  let ?keys = "\<lambda>axis key. case key of Some k \<Rightarrow> [(axis, k)] | None \<Rightarrow> []"
  have charged: "charged req = ?keys AXIS_IP_SESSION_CREATE (create_key req) @
      ?keys AXIS_SESSION (session_key req) @ ?keys AXIS_IP (client_ip req)"
    by (auto simp: charged_def create_key_def axis_defs SESSION_CREATE_TOOL_def split: option.splits)
  have axes: "AXIS_IP_SESSION_CREATE \<in> {AXIS_SESSION, AXIS_IP, AXIS_IP_SESSION_CREATE}"
    "AXIS_SESSION \<in> {AXIS_SESSION, AXIS_IP, AXIS_IP_SESSION_CREATE}"
    "AXIS_IP \<in> {AXIS_SESSION, AXIS_IP, AXIS_IP_SESSION_CREATE}" by simp_all
  note ask = consult_verdict [OF axes(1)] consult_verdict [OF axes(2)] consult_verdict [OF axes(3)]
  obtain d1 rl1 where 1: "verdict (rq_clock req) (?keys AXIS_IP_SESSION_CREATE (create_key req)) rl = (d1, rl1)"
    by fastforce
  obtain d2 rl2 where 2: "verdict (rq_clock req) (?keys AXIS_SESSION (session_key req)) rl1 = (d2, rl2)"
    by fastforce
  obtain d3 rl3 where 3: "verdict (rq_clock req) (?keys AXIS_IP (client_ip req)) rl2 = (d3, rl3)"
    by fastforce
  show ?thesis
    unfolding charged verdict_append consult_axes_def bindE_def ask 1
    by (cases d1; cases d2) (simp_all add: ask 2 3)
qed

text \<open>
  C28. When a bucket the request is charged to (session creation per IP, the session, the IP, in
  this order) refuses it, and the earlier ones allow it, the tool is not reached: the answer is
  a \<open>rate_limited\<close> envelope with the axis as scope, the wait the limiter gave and,
  for the session axis only, the fingerprint of the session; only the limiter's buckets, as
  those calls left them, and the denial log change; the application and the caller identity do
  not.
\<close>

theorem denied_call_runs_nothing:
  assumes "verdict (rq_clock req) (charged req) (gate_limiter s) = (Some (scope, w), rl)"
  shows "\<exists>entries. serve e req tool s =
    (Inr (Denied \<lparr>rl_retry_after_ms = w, rl_scope = scope,
       rl_session_fingerprint =
         (if scope = ''session'' then map_option (compute_fingerprint e) (session_key req) else None)\<rparr>),
     s\<lparr>gate_limiter := rl, gate_log := entries\<rparr>)"
proof -
  have "consult_axes req (gate_limiter s) = (Inr (Some (scope, w)), rl)"
    using assms by (simp add: consult_axes_verdict)
  from serve_run [OF this, of e tool] show ?thesis
    by (intro exI [of _ "snd (emit_deny_warn e scope (session_key req) (client_ip req) (rq_log_clock req) (gate_log s))"])
      (simp add: build_rate_limited_envelope_def axis_defs)
qed

section \<open>Admitted calls\<close>

text \<open>
  C29. When every bucket the request is charged to (session creation per IP, the session, the
  IP, in this order) allows it, the tool runs exactly once, with the anonymous identity, on the
  application state, and its answer or exception comes back, an argument validation failure as
  an \<open>invalid_argument\<close> envelope; besides what the tool did only the limiter's
  buckets change, as those calls left them.
\<close>

theorem admitted_call_runs_once:
  assumes "verdict (rq_clock req) (charged req) (gate_limiter s) = (None, rl)"
  shows "serve e req tool s =
    (case fst (tool Anonymous (gate_app s)) of
       Inr a \<Rightarrow> Inr (Answer a)
     | Inl (Invalid v) \<Rightarrow> Inr (Answer (validation_envelope v))
     | Inl (Raised x) \<Rightarrow> Inl (Raised x),
     s\<lparr>gate_limiter := rl, gate_app := snd (tool Anonymous (gate_app s))\<rparr>) \<and>
    (\<forall>v. resp_code (validation_envelope v) = Some ''invalid_argument'')"
proof -
  have "consult_axes req (gate_limiter s) = (Inr None, rl)"
    using assms by (simp add: consult_axes_verdict)
  from serve_run [OF this, of e tool] have run: "serve e req tool s =
    (case fst (tool Anonymous (gate_app s)) of
       Inr a \<Rightarrow> Inr (Answer a)
     | Inl (Invalid v) \<Rightarrow> Inr (Answer (validation_envelope v))
     | Inl (Raised x) \<Rightarrow> Inl (Raised x),
     s\<lparr>gate_limiter := rl, gate_app := snd (tool Anonymous (gate_app s))\<rparr>)"
    by (auto split: prod.split sum.split failure.split)
  have "resp_code (validation_envelope v) = Some ''invalid_argument''" for v
    by (auto simp: validation_envelope_def split: list.split)
  with run show ?thesis by blast
qed

section \<open>One bucket for all spellings\<close>

definition asking_for :: "string \<Rightarrow> (string \<times> pyval) list \<Rightarrow> tool_request \<Rightarrow> tool_request" where
  "asking_for sid args req = req\<lparr>rq_arguments := Some (PDict (dput ''session_id'' (PStr sid) args))\<rparr>"

text \<open>
  Two spellings of a session id with the same canonical form share a bucket.
\<close>

theorem spellings_share_a_bucket:
  assumes "normalize_session_id a = normalize_session_id b"
  shows "serve e (asking_for a args req) tool s = serve e (asking_for b args req) tool s"
proof -
  have empty: "normalize_session_id [] = []" by (simp add: normalize_session_id_def casefold_def py_strip_def)
  have key: "session_key (asking_for sid args req) =
      (if normalize_session_id sid = [] then None else Some (normalize_session_id sid))" for sid
    using empty by (simp add: session_key_def nonempty_str_def asking_for_def)
  have same: "session_key (asking_for a args req) = session_key (asking_for b args req)"
    unfolding key assms ..
  have rest: "client_ip (asking_for x args req) = client_ip req"
      "create_key (asking_for x args req) = create_key req" "rq_clock (asking_for x args req) = rq_clock req"
      "rq_log_clock (asking_for x args req) = rq_log_clock req" for x
    by (simp_all add: asking_for_def client_ip_def create_key_def is_http_def detect_transport_def extract_ip_def)
  show ?thesis
    unfolding serve_def validation_on_call_tool_def caller_identity_on_request_def
      rate_limit_on_call_tool_def consult_axes_def consult_def same rest ..
qed

section \<open>Floods\<close>

text \<open>A process serves requests one after the other, whatever the tools do.\<close>

definition asks_all :: "tool_request \<Rightarrow> limiter \<Rightarrow> rl_call list" where
  "asks_all req rl =
     (let (r1, rl1) = consult req AXIS_IP_SESSION_CREATE (create_key req) None rl;
          d1 = (case r1 of Inr d \<Rightarrow> d | Inl _ \<Rightarrow> None);
          (r2, rl2) = consult req AXIS_SESSION (session_key req) d1 rl1;
          d2 = (case r2 of Inr d \<Rightarrow> d | Inl _ \<Rightarrow> None)
      in asks req AXIS_IP_SESSION_CREATE (create_key req) None @
         asks req AXIS_SESSION (session_key req) d1 @ asks req AXIS_IP (client_ip req) d2)"

lemma served_append: "run f s (xs @ ys) = run f (run f s xs) ys"
  by (simp add: run_def)

lemma admissions_append:
  "admissions k rl (xs @ ys) = admissions k rl xs + admissions k (run rl_step rl xs) ys"
  by (induction xs arbitrary: rl) (simp_all add: run_def)

lemma consult_axes_asks: "snd (consult_axes req rl) = run rl_step rl (asks_all req rl)"
proof -
  obtain d rl' where run: "consult_axes req rl = (Inr d, rl')" using consult_axes_total by blast
  from consult_axes_run [OF run] obtain d1 rl1 d2 rl2 where
    1: "consult req AXIS_IP_SESSION_CREATE (create_key req) None rl = (Inr d1, rl1)"
    and 2: "consult req AXIS_SESSION (session_key req) d1 rl1 = (Inr d2, rl2)"
    and 3: "consult req AXIS_IP (client_ip req) d2 rl2 = (Inr d, rl')" .
  have "rl1 = run rl_step rl (asks req AXIS_IP_SESSION_CREATE (create_key req) None)"
    "rl2 = run rl_step rl1 (asks req AXIS_SESSION (session_key req) d1)"
    "rl' = run rl_step rl2 (asks req AXIS_IP (client_ip req) d2)"
    using consult_asks 1 2 3 by (metis snd_conv)+
  with 1 2 show ?thesis unfolding run by (simp add: asks_all_def served_append)
qed

text \<open>A request that passes with session key \<open>k\<close> was admitted by the bucket of \<open>k\<close>.\<close>

lemma passing_admitted:
  assumes "fst (consult_axes req rl) = Inr None" and "session_key req = Some k"
  shows "1 \<le> admissions k rl (asks_all req rl)"
proof -
  obtain rl' where run: "consult_axes req rl = (Inr None, rl')" using assms(1) by (metis prod.collapse)
  from consult_axes_run [OF run] obtain d1 rl1 d2 rl2 where
    1: "consult req AXIS_IP_SESSION_CREATE (create_key req) None rl = (Inr d1, rl1)"
    and 2: "consult req AXIS_SESSION (session_key req) d1 rl1 = (Inr d2, rl2)"
    and 3: "consult req AXIS_IP (client_ip req) d2 rl2 = (Inr None, rl')" .
  from 3 have d2: "d2 = None" by (cases d2) simp_all
  with 2 have d1: "d1 = None" by (cases d1) simp_all
  have rl1: "rl1 = run rl_step rl (asks req AXIS_IP_SESSION_CREATE (create_key req) None)"
    using consult_asks 1 by (metis snd_conv)
  from 2 d1 d2 assms(2) consult_admits [of req AXIS_SESSION k rl1]
  have "admitted k rl1 (Consume AXIS_SESSION k (rq_clock req AXIS_SESSION))"
    by (auto simp: admitted_def)
  then have "1 \<le> admissions k rl1 (asks req AXIS_SESSION (session_key req) d1)"
    using d1 assms(2) by (simp add: asks_def)
  moreover have "asks_all req rl = asks req AXIS_IP_SESSION_CREATE (create_key req) None @
      asks req AXIS_SESSION (session_key req) d1 @ asks req AXIS_IP (client_ip req) d2"
    using 1 2 by (simp add: asks_all_def)
  ultimately show ?thesis by (simp add: rl1 admissions_append)
qed

fun served :: "'e base_env_scheme \<Rightarrow> (tool_request \<times> (identity \<Rightarrow> 'w \<Rightarrow> (failure + pyval) \<times> 'w)) list \<Rightarrow>
    'w gate \<Rightarrow> (failure + reply) list" where
  "served e [] s = []"
| "served e ((req, tool) # rs) s = fst (serve e req tool s) # served e rs (snd (serve e req tool s))"

text \<open>How many of the requests on session \<open>k\<close> are not denied.\<close>

definition passed :: "string \<Rightarrow> (tool_request \<times> 't) list \<Rightarrow> (failure + reply) list \<Rightarrow> nat" where
  "passed k rs outs =
     length (filter (\<lambda>((req, _), out). session_key req = Some k \<and> (\<forall>env. out \<noteq> Inr (Denied env))) (zip rs outs))"

lemma serve_limiter:
  "gate_limiter (snd (serve e req tool s)) = run rl_step (gate_limiter s) (asks_all req (gate_limiter s))"
proof -
  obtain d rl where run: "consult_axes req (gate_limiter s) = (Inr d, rl)" using consult_axes_total by blast
  then show ?thesis
    unfolding consult_axes_asks [symmetric] serve_run [OF run] run
    by (auto split: option.split prod.split)
qed

lemma serve_denied:
  "fst (consult_axes req (gate_limiter s)) \<noteq> Inr None \<Longrightarrow> \<exists>env. fst (serve e req tool s) = Inr (Denied env)"
proof -
  obtain d rl where run: "consult_axes req (gate_limiter s) = (Inr d, rl)" using consult_axes_total by blast
  assume "fst (consult_axes req (gate_limiter s)) \<noteq> Inr None"
  with run show ?thesis unfolding serve_run [OF run] by (auto split: option.split prod.split)
qed

lemma asks_window:
  assumes "x \<in> set (asks req axis key d)"
    and "axis = AXIS_SESSION \<Longrightarrow> key = Some k \<Longrightarrow> t0 \<le> rq_clock req axis \<and> rq_clock req axis \<le> t1"
  shows "in_window k t0 t1 x"
  using assms by (auto simp: asks_def split: option.splits)

lemma asks_all_window:
  assumes x: "x \<in> set (asks_all req rl)"
    and "session_key req = Some k \<Longrightarrow> t0 \<le> rq_clock req AXIS_SESSION \<and> rq_clock req AXIS_SESSION \<le> t1"
  shows "in_window k t0 t1 x"
proof -
  from x obtain axis key d where "x \<in> set (asks req axis key d)"
      "(axis, key) \<in> {(AXIS_IP_SESSION_CREATE, create_key req), (AXIS_SESSION, session_key req), (AXIS_IP, client_ip req)}"
    by (auto simp: asks_all_def Let_def split: prod.splits)
  with assms(2) show ?thesis by (intro asks_window [of x req axis key d]) (auto simp: axis_defs)
qed

fun asks_run :: "'e base_env_scheme \<Rightarrow> (tool_request \<times> (identity \<Rightarrow> 'w \<Rightarrow> (failure + pyval) \<times> 'w)) list \<Rightarrow>
    'w gate \<Rightarrow> rl_call list" where
  "asks_run e [] s = []"
| "asks_run e ((req, tool) # rs) s =
     asks_all req (gate_limiter s) @ asks_run e rs (snd (serve e req tool s))"

lemma passed_admissions: "passed k rs (served e rs s) \<le> admissions k (gate_limiter s) (asks_run e rs s)"
proof (induction rs arbitrary: s)
  case Nil
  then show ?case by (simp add: passed_def)
next
  case (Cons r rs)
  obtain req tool where r: "r = (req, tool)" by (cases r)
  let ?s = "snd (serve e req tool s)"
  have here: "(if session_key req = Some k \<and> (\<forall>env. fst (serve e req tool s) \<noteq> Inr (Denied env)) then 1 else 0)
      \<le> admissions k (gate_limiter s) (asks_all req (gate_limiter s))"
    using serve_denied [of req s e tool] passing_admitted [of req "gate_limiter s" k] by auto
  have "passed k (r # rs) (served e (r # rs) s) =
      (if session_key req = Some k \<and> (\<forall>env. fst (serve e req tool s) \<noteq> Inr (Denied env)) then 1 else 0) +
      passed k rs (served e rs ?s)"
    by (simp add: r passed_def)
  also have "\<dots> \<le> admissions k (gate_limiter s) (asks_all req (gate_limiter s)) +
      admissions k (gate_limiter ?s) (asks_run e rs ?s)"
    by (rule add_mono [OF here Cons])
  finally show ?case by (simp add: r admissions_append serve_limiter)
qed

lemma asks_run_window:
  "\<forall>(req, tool)\<in>set rs. session_key req = Some k \<longrightarrow>
     t0 \<le> rq_clock req AXIS_SESSION \<and> rq_clock req AXIS_SESSION \<le> t1 \<Longrightarrow>
   x \<in> set (asks_run e rs s) \<Longrightarrow> in_window k t0 t1 x"
  by (induction rs arbitrary: s) (auto intro: asks_all_window)

text \<open>
  C30. Whatever requests a client sends for one session, under any spelling of its id, on any
  transport and with any clock readings, the tool runs at most one burst plus the refill of the
  elapsed time.
\<close>

theorem session_flood_bounded:
  assumes "limiter_ok c (gate_limiter s)" and "config_ok c"
    and "dget (session_buckets (gate_limiter s)) k = None" and "t0 \<le> t1"
    and "\<forall>(req, tool)\<in>set rs. session_key req = Some k \<longrightarrow>
      t0 \<le> rq_clock req AXIS_SESSION \<and> rq_clock req AXIS_SESSION \<le> t1"
  shows "of_nat (passed k rs (served e rs s)) \<le> session_burst c + session_rate c * (t1 - t0)"
proof -
  have "of_nat (passed k rs (served e rs s)) \<le> (of_nat (admissions k (gate_limiter s) (asks_run e rs s)) :: rat)"
    using passed_admissions by (rule of_nat_mono)
  also have "\<dots> \<le> budget k t0 t1 (gate_limiter s)"
    using asks_run_window [OF assms(5)] by (intro admissions_budget [OF assms(1,2,4)]) blast
  also have "\<dots> = session_burst c + session_rate c * (t1 - t0)"
    using assms(1,3) by (simp add: budget_def limiter_ok_def)
  finally show ?thesis .
qed

section \<open>Concrete requests\<close>

text \<open>Over stdio, on session \<^verbatim>\<open>ABC\<close> with no burst left; a tool that counts its calls.\<close>

definition call_at :: "rat \<Rightarrow> tool_request" where
  "call_at now = \<lparr>rq_tool = Some ''get_state'', rq_arguments = Some (PDict [(''session_id'', PStr ''ABC'')]),
     rq_transport = Some (Some ''stdio''), rq_peer = None, rq_clock = (\<lambda>_. now), rq_log_clock = now\<rparr>"

definition counting_tool :: "identity \<Rightarrow> nat \<Rightarrow> (failure + pyval) \<times> nat" where
  "counting_tool caller n = (Inr (PInt (int n)), Suc n)"

definition fresh_gate :: "rat \<Rightarrow> nat gate" where
  "fresh_gate burst =
     \<lparr>gate_limiter = new_limiter (default_config\<lparr>session_burst := burst\<rparr>), gate_log = new_dedupe,
      gate_caller = Anonymous, gate_app = 0\<rparr>"

lemma fresh_gate_app: "gate_app (fresh_gate burst) = 0"
  by (simp add: fresh_gate_def)

definition hashing :: base_env where
  "hashing = \<lparr>sha256_hex = (\<lambda>s. ''hash of '' @ s), session_cap = 500\<rparr>"

definition burst_denial :: rate_limited where
  "burst_denial = \<lparr>rl_retry_after_ms = Ms 500, rl_scope = ''session'', rl_session_fingerprint = Some ''hash of abc''\<rparr>"

lemma call_at_key: "session_key (call_at now) = Some ''abc''"
  by code_simp

lemma call_at_axes: "client_ip (call_at now) = None" "create_key (call_at now) = None"
  by code_simp+

lemma call_at_charged: "charged (call_at now) = [(''session'', ''abc'')]"
  by (simp add: charged_def call_at_axes call_at_key)

lemma call_at_verdict:
  assumes "try_consume ''session'' ''abc'' 1 now (gate_limiter s) = (Inr (allowed, w), rl)"
  shows "verdict (rq_clock (call_at now)) (charged (call_at now)) (gate_limiter s) =
    (if allowed then None else Some (''session'', w), rl)"
  using assms unfolding call_at_charged by (simp add: call_at_def)

lemma empty_bucket:
  "\<exists>rl. try_consume ''session'' ''abc'' 1 0 (gate_limiter (fresh_gate burst)) =
     (Inr (if 1 \<le> burst then (True, Ms 0) else (False, Ms ((1 - burst) * 500))), rl)"
  by (simp add: fresh_gate_def new_limiter_def default_config_def try_consume_def get_bucket_def
      new_bucket_def refill_def consume_def axis_defs Let_def)

theorem denied_call_runs_nothing_witness:
  "\<exists>s'. serve hashing (call_at 0) counting_tool (fresh_gate 0) = (Inr (Denied burst_denial), s') \<and> gate_app s' = 0"
proof -
  obtain rl where "try_consume ''session'' ''abc'' 1 0 (gate_limiter (fresh_gate 0)) = (Inr (False, Ms 500), rl)"
    using empty_bucket [of 0] by auto
  from denied_call_runs_nothing [OF call_at_verdict [OF this, simplified], of hashing counting_tool]
  show ?thesis
    by (auto simp: call_at_key burst_denial_def compute_fingerprint_def fresh_gate_app) (simp add: hashing_def)
qed

theorem admitted_call_runs_once_witness:
  "\<exists>s'. serve hashing (call_at 0) counting_tool (fresh_gate 1) = (Inr (Answer (PInt 0)), s') \<and> gate_app s' = 1"
proof -
  obtain rl where "try_consume ''session'' ''abc'' 1 0 (gate_limiter (fresh_gate 1)) = (Inr (True, Ms 0), rl)"
    using empty_bucket [of 1] by auto
  from admitted_call_runs_once [OF call_at_verdict [OF this, simplified], of hashing counting_tool]
  show ?thesis by (simp add: counting_tool_def fresh_gate_app)
qed

theorem spellings_share_a_bucket_witness:
  "serve hashing (asking_for ''ABC'' [] (call_at 0)) counting_tool (fresh_gate 1) =
   serve hashing (asking_for '' abc '' [] (call_at 0)) counting_tool (fresh_gate 1)"
  by (rule spellings_share_a_bucket) code_simp

theorem session_flood_bounded_witness:
  "of_nat (passed ''abc'' (replicate 100 (call_at 5, counting_tool))
     (served hashing (replicate 100 (call_at 5, counting_tool)) (fresh_gate 30))) \<le> (30 :: rat)"
proof -
  let ?c = "default_config\<lparr>session_burst := 30\<rparr>"
  have "limiter_ok ?c (gate_limiter (fresh_gate 30))" by (simp add: fresh_gate_def new_limiter_ok)
  moreover have "config_ok ?c" by (simp add: config_ok_def default_config_def)
  moreover have "dget (session_buckets (gate_limiter (fresh_gate 30))) ''abc'' = None"
    by (simp add: fresh_gate_def new_limiter_def Let_def)
  ultimately show ?thesis
    using session_flood_bounded [of ?c "fresh_gate 30" "''abc''" 5 5 "replicate 100 (call_at 5, counting_tool)" hashing]
    by (simp add: call_at_def default_config_def)
qed

end
