(* ===== verification/CallGraph.thy ===== *)
theory CallGraph
  imports PyJson
begin

text \<open>
The check of the calls between workflows (\<^verbatim>\<open>validate_workflow_calls\<close> in
  \<^verbatim>\<open>schema.py\<close>): every call target is loaded, and an iterative depth-first search with three
  colours finds the cycles of the call graph. The search is translated with its explicit
  stack; its termination measure counts the white nodes, then what the stack still has to do.

  The lemmas: an invariant of colours and stack (\<open>search_ok\<close>), one of the search that has found
  no cycle (\<open>no_cycle_yet\<close>: black nodes are closed under calls and have no cycle), their
  preservation by each of the five kinds of step, and the theorem that the check accepts
  exactly the closed acyclic call graphs.
\<close>

section \<open>Edges of the call graph\<close>

text \<open>The documents \<^verbatim>\<open>create_app\<close> loaded, by workflow name, in insertion order.\<close>

type_synonym workflows = "(string, pyval) dict"

text \<open>The \<open>(step_id, target)\<close> pairs of one workflow, in step order.\<close>

definition call_edge :: "pyval \<Rightarrow> (pyval \<times> string) option" where
  "call_edge st =
     (case pget st ''call'' of
        Some (PStr t) \<Rightarrow> Some (case pget st ''id'' of Some i \<Rightarrow> i | None \<Rightarrow> PStr ''?'', t)
      | _ \<Rightarrow> None)"

definition call_edges :: "pyval \<Rightarrow> (pyval \<times> string) list" where
  "call_edges doc =
     (case pget doc ''steps'' of
        Some (PList steps) \<Rightarrow> List.map_filter call_edge steps
      | _ \<Rightarrow> [])"

definition unknown_target_error :: "string \<Rightarrow> pyval \<times> string \<Rightarrow> string" where
  "unknown_target_error parent edge =
     ''Workflow '' @ [sq] @ parent @ [sq] @ '' step '' @ [sq] @ py_str (fst edge) @ [sq]
       @ '' calls unknown workflow '' @ [sq] @ snd edge @ [sq] @ '' (code: unknown_call_target)''"

definition unknown_targets :: "workflows \<Rightarrow> string list" where
  "unknown_targets wfs =
     concat (map (\<lambda>x. map (unknown_target_error (fst x))
       (filter (\<lambda>edge. \<not> dhas wfs (snd edge)) (call_edges (snd x)))) wfs)"

text \<open>\<open>sorted({t for _sid, t in edges.get(name, []) if t in workflows})\<close>\<close>

definition outgoing :: "workflows \<Rightarrow> string \<Rightarrow> string list" where
  "outgoing wfs name =
     (case dget wfs name of
        None \<Rightarrow> []
      | Some doc \<Rightarrow> sort (remdups (filter (dhas wfs) (map snd (call_edges doc)))))"

section \<open>The coloured search\<close>

datatype color = White | Gray | Black

definition cycle_error :: "string list \<Rightarrow> string \<Rightarrow> string" where
  "cycle_error path nxt =
     ''call cycle detected: '' @ join '' -> '' (dropWhile (\<lambda>x. x \<noteq> nxt) path @ [nxt])
       @ '' (code: call_cycle_detected)''"

text \<open>
  The loop of \<^verbatim>\<open>visit\<close>. A stack entry is \<open>(node, remaining, path)\<close>, top first;
  \<^verbatim>\<open>color[nxt]\<close> and \<^verbatim>\<open>path.index(nxt)\<close> may raise.
\<close>

type_synonym dfs_stack = "(string \<times> string list \<times> string list) list"

definition whites :: "(string, color) dict \<Rightarrow> string set" where
  "whites col = {n. dget col n = Some White}"

lemma finite_whites [simp]: "finite (whites col)"
  by (rule finite_subset [of _ "dom (map_of col)"]) (auto simp: whites_def finite_dom_map_of)

lemma whites_dput: "c \<noteq> White \<Longrightarrow> whites (dput n c col) = whites col - {n}"
  by (auto simp: whites_def update_conv' split: if_splits)

definition pending :: "dfs_stack \<Rightarrow> nat" where
  "pending st = sum_list (map (\<lambda>x. Suc (length (fst (snd x)))) st)"

function visit_loop ::
  "(string \<Rightarrow> string list) \<Rightarrow> (string, color) dict \<Rightarrow> dfs_stack \<Rightarrow> string list
   \<Rightarrow> exn + (string, color) dict \<times> string list" where
  "visit_loop succ col [] errs = Inr (col, errs)"
| "visit_loop succ col ((node, [], path) # st) errs = visit_loop succ (dput node Black col) st errs"
| "visit_loop succ col ((node, nxt # rem, path) # st) errs =
     (case dget col nxt of
        None \<Rightarrow> Inl (KeyError nxt)
      | Some Gray \<Rightarrow>
          if nxt \<in> set path
          then visit_loop succ col ((node, rem, path) # st) (errs @ [cycle_error path nxt])
          else Inl (ValueError ''list.index(x): x not in list'')
      | Some White \<Rightarrow>
          visit_loop succ (dput nxt Gray col) ((nxt, succ nxt, path @ [nxt]) # (node, rem, path) # st) errs
      | Some Black \<Rightarrow> visit_loop succ col ((node, rem, path) # st) errs)"
  by pat_completeness auto

termination
proof (relation "inv_image (less_than <*lex*> less_than)
    (\<lambda>(succ, col, st, errs). (card (whites col), pending st))")
  fix node :: string and col :: "(string, color) dict" and st :: dfs_stack
    and succ :: "string \<Rightarrow> string list" and errs path :: "string list"
  have "card (whites (dput node Black col)) \<le> card (whites col)"
    by (simp add: whites_dput card_mono)
  then show "((succ, dput node Black col, st, errs), succ, col, (node, [], path) # st, errs)
      \<in> inv_image (less_than <*lex*> less_than)
          (\<lambda>(succ, col, st, errs). (card (whites col), pending st))"
    by (auto simp: pending_def)
next
  fix node nxt :: string and col :: "(string, color) dict" and st :: dfs_stack
    and succ :: "string \<Rightarrow> string list" and errs path rem :: "string list" and c
  assume "dget col nxt = Some c" "c = White"
  then have "nxt \<in> whites col" by (simp add: whites_def)
  then have "card (whites (dput nxt Gray col)) < card (whites col)"
    by (subst whites_dput, simp) (rule card_Diff1_less [OF finite_whites])
  then show "((succ, dput nxt Gray col, (nxt, succ nxt, path @ [nxt]) # (node, rem, path) # st, errs),
      succ, col, (node, nxt # rem, path) # st, errs)
      \<in> inv_image (less_than <*lex*> less_than)
          (\<lambda>(succ, col, st, errs). (card (whites col), pending st))"
    by simp
qed (auto simp: pending_def)

text \<open>\<open>visit(start)\<close>, and the loop over \<open>sorted(workflows)\<close>.\<close>

definition visit ::
  "(string \<Rightarrow> string list) \<Rightarrow> string \<Rightarrow> (string, color) dict \<Rightarrow> string list
   \<Rightarrow> exn + (string, color) dict \<times> string list" where
  "visit succ start col errs =
     visit_loop succ (dput start Gray col) [(start, succ start, [start])] errs"

fun visit_all ::
  "(string \<Rightarrow> string list) \<Rightarrow> string list \<Rightarrow> (string, color) dict \<Rightarrow> string list
   \<Rightarrow> exn + string list" where
  "visit_all succ [] col errs = Inr errs"
| "visit_all succ (name # names) col errs =
     (case dget col name of
        None \<Rightarrow> Inl (KeyError name)
      | Some White \<Rightarrow>
          (case visit succ name col errs of
             Inl x \<Rightarrow> Inl x
           | Inr (col', errs') \<Rightarrow> visit_all succ names col' errs')
      | Some _ \<Rightarrow> visit_all succ names col errs)"

definition validate_workflow_calls :: "workflows \<Rightarrow> exn + string list" where
  "validate_workflow_calls wfs =
     visit_all (outgoing wfs) (sort (map fst wfs)) (map (\<lambda>x. (fst x, White)) wfs) (unknown_targets wfs)"

section \<open>Invariants of the search\<close>

definition edges_of :: "('a \<Rightarrow> 'b list) \<Rightarrow> ('a \<times> 'b) set" where
  "edges_of succ = {(u, v). v \<in> set (succ u)}"

lemma edges_of_iff [simp]: "(u, v) \<in> edges_of succ \<longleftrightarrow> v \<in> set (succ u)"
  by (simp add: edges_of_def)

definition coloured :: "(string, color) dict \<Rightarrow> color \<Rightarrow> string set" where
  "coloured col c = {n. dget col n = Some c}"

lemma coloured_iff [simp]: "n \<in> coloured col c \<longleftrightarrow> dget col n = Some c"
  by (simp add: coloured_def)

text \<open>The stack is a path of the graph, and each entry carries the path to it.\<close>

fun stacked_path :: "(string \<Rightarrow> string list) \<Rightarrow> dfs_stack \<Rightarrow> bool" where
  "stacked_path succ [] = True"
| "stacked_path succ [(n, rem, path)] \<longleftrightarrow> path = [n] \<and> set rem \<subseteq> set (succ n)"
| "stacked_path succ ((n, rem, path) # (m, rem', path') # st) \<longleftrightarrow>
     path = path' @ [n] \<and> n \<in> set (succ m) \<and> set rem \<subseteq> set (succ n) \<and>
     stacked_path succ ((m, rem', path') # st)"

lemma stacked_path_tl: "stacked_path succ (x # st) \<Longrightarrow> stacked_path succ st"
  by (cases "(succ, x # st)" rule: stacked_path.cases) auto

lemma stacked_path_drop:
  "stacked_path succ ((n, x # rem, path) # st) \<Longrightarrow> stacked_path succ ((n, rem, path) # st)"
  by (cases st) auto

lemma stacked_path_push:
  "stacked_path succ ((n, x # rem, path) # st) \<Longrightarrow>
   stacked_path succ ((x, succ x, path @ [x]) # (n, rem, path) # st)"
  by (cases st) auto

lemma stacked_path_nodes:
  "stacked_path succ ((n, rem, path) # st) \<Longrightarrow> set path = set (map fst ((n, rem, path) # st))"
  by (induction "(n, rem, path) # st" arbitrary: n rem path st rule: stacked_path.induct) auto

lemma stacked_path_reaches:
  "stacked_path succ ((n, rem, path) # st) \<Longrightarrow> x \<in> set path \<Longrightarrow> (x, n) \<in> (edges_of succ)\<^sup>*"
proof (induction "(n, rem, path) # st" arbitrary: n rem path st rule: stacked_path.induct)
  case (3 succ n rem path m rem' path' st)
  show ?case
  proof (cases "x = n")
    case False
    with 3 have "(x, m) \<in> (edges_of succ)\<^sup>*" by auto
    moreover from 3 have "(m, n) \<in> edges_of succ" by simp
    ultimately show ?thesis by (rule rtrancl_into_rtrancl)
  qed simp
qed auto

text \<open>
  What the search has seen: the successors of an entry are black, still remaining, or the
  node of the entry above it.
\<close>

fun seen :: "(string \<Rightarrow> string list) \<Rightarrow> string set \<Rightarrow> string set \<Rightarrow> dfs_stack \<Rightarrow> bool" where
  "seen succ black over [] = True"
| "seen succ black over ((n, rem, path) # st) \<longleftrightarrow>
     set (succ n) \<subseteq> black \<union> set rem \<union> over \<and> seen succ black {n} st"

lemma seen_mono:
  assumes "seen succ black over st" and "black \<subseteq> black'" and "over \<subseteq> over' \<union> black'"
  shows "seen succ black' over' st"
proof -
  have more: "seen succ black a st \<Longrightarrow> seen succ black' a st" for a
  proof (induction st arbitrary: a)
    case (Cons x st)
    obtain n rem path where "x = (n, rem, path)" by (cases x)
    with Cons assms(2) show ?case by auto
  qed simp
  show ?thesis
  proof (cases st)
    case (Cons x st')
    obtain n rem path where x: "x = (n, rem, path)" by (cases x)
    from more [OF assms(1)] assms show ?thesis by (simp add: Cons x) blast
  qed simp
qed

definition search_ok :: "(string \<Rightarrow> string list) \<Rightarrow> string set \<Rightarrow> (string, color) dict \<Rightarrow> dfs_stack \<Rightarrow> bool" where
  "search_ok succ nodes col st \<longleftrightarrow>
     dom (dget col) = nodes \<and> (\<forall>n\<in>nodes. set (succ n) \<subseteq> nodes) \<and>
     coloured col Gray = set (map fst st) \<and> distinct (map fst st) \<and> stacked_path succ st"

definition no_cycle_yet :: "(string \<Rightarrow> string list) \<Rightarrow> (string, color) dict \<Rightarrow> dfs_stack \<Rightarrow> bool" where
  "no_cycle_yet succ col st \<longleftrightarrow>
     (\<forall>n\<in>coloured col Black. set (succ n) \<subseteq> coloured col Black) \<and>
     acyclic (edges_of succ \<inter> coloured col Black \<times> UNIV) \<and>
     seen succ (coloured col Black) {} st"

text \<open>A node whose successors all lie in a closed acyclic set extends it.\<close>

lemma acyclic_extend:
  assumes acyc: "acyclic (E \<inter> B \<times> UNIV)" and closed: "E `` B \<subseteq> B" and new: "E `` {n} \<subseteq> B" "n \<notin> B"
  shows "acyclic (E \<inter> insert n B \<times> UNIV)"
proof (rule acyclicI, intro allI notI)
  let ?R = "E \<inter> insert n B \<times> UNIV"
  have stay: "(x, y) \<in> ?R\<^sup>+ \<Longrightarrow> x \<in> B \<Longrightarrow> (x, y) \<in> (E \<inter> B \<times> UNIV)\<^sup>+ \<and> y \<in> B" for x y
  proof (induction rule: trancl_induct)
    case (step y z)
    with new have "(y, z) \<in> E \<inter> B \<times> UNIV" by auto
    with step closed show ?case by (auto intro: trancl_into_trancl)
  qed (use closed new in auto)
  fix x assume cyc: "(x, x) \<in> ?R\<^sup>+"
  then obtain y where "(y, x) \<in> ?R" by (auto elim: tranclE)
  with closed new have "x \<in> B" by auto
  with stay [OF cyc] acyc show False by (simp add: acyclic_def)
qed

section \<open>Each step of the search\<close>

lemma gray_in_path:
  assumes "search_ok succ nodes col ((node, rem, path) # st)" and "dget col n = Some Gray"
  shows "n \<in> set path"
proof -
  have "n \<in> coloured col Gray" using assms(2) by simp
  with assms(1) have "n \<in> set (map fst ((node, rem, path) # st))" by (simp add: search_ok_def)
  with stacked_path_nodes assms(1) show ?thesis by (metis search_ok_def)
qed

lemma closes_cycle:
  assumes "search_ok succ nodes col ((node, nxt # rem, path) # st)" and "nxt \<in> set path"
  shows "\<not> acyclic (edges_of succ)"
proof -
  from assms(1) have path: "stacked_path succ ((node, nxt # rem, path) # st)" by (simp add: search_ok_def)
  from stacked_path_reaches [OF this assms(2)] have "(nxt, node) \<in> (edges_of succ)\<^sup>*" .
  moreover from path have "(node, nxt) \<in> edges_of succ" by (cases st) auto
  ultimately have "(nxt, nxt) \<in> (edges_of succ)\<^sup>+" by (rule rtrancl_into_trancl1)
  then show ?thesis by (auto simp: acyclic_def)
qed

lemma search_ok_finish:
  assumes "search_ok succ nodes col ((node, [], path) # st)"
  shows "search_ok succ nodes (dput node Black col) st"
proof -
  have "node \<in> coloured col Gray" using assms by (simp add: search_ok_def)
  then have "node \<in> nodes" using assms by (auto simp: search_ok_def)
  moreover have "coloured (dput node Black col) Gray = coloured col Gray - {node}"
    by (auto simp: update_conv' split: if_splits)
  ultimately show ?thesis
    using assms by (auto simp: search_ok_def update_conv' dom_def dest: stacked_path_tl)
qed

lemma search_ok_skip:
  assumes "search_ok succ nodes col ((node, nxt # rem, path) # st)"
  shows "search_ok succ nodes col ((node, rem, path) # st)"
  using assms by (auto simp: search_ok_def dest: stacked_path_drop)

lemma search_ok_push:
  assumes ok: "search_ok succ nodes col ((node, nxt # rem, path) # st)" and white: "dget col nxt = Some White"
  shows "search_ok succ nodes (dput nxt Gray col) ((nxt, succ nxt, path @ [nxt]) # (node, rem, path) # st)"
proof -
  have "nxt \<notin> coloured col Gray" using white by simp
  moreover have "coloured (dput nxt Gray col) Gray = insert nxt (coloured col Gray)"
    by (auto simp: update_conv' split: if_splits)
  moreover have "nxt \<in> nodes" using ok white by (auto simp: search_ok_def)
  ultimately show ?thesis
    using ok stacked_path_push [of succ node nxt rem path st]
    by (auto simp: search_ok_def update_conv' dom_def)
qed

lemma black_dput: "coloured (dput n Black col) Black = insert n (coloured col Black)"
  by (auto simp: update_conv' split: if_splits)

lemma black_dput_gray: "dget col n = Some White \<Longrightarrow> coloured (dput n Gray col) Black = coloured col Black"
  by (auto simp: update_conv' split: if_splits)

lemma no_cycle_finish:
  assumes ok: "search_ok succ nodes col ((node, [], path) # st)"
    and no: "no_cycle_yet succ col ((node, [], path) # st)"
  shows "no_cycle_yet succ (dput node Black col) st"
proof -
  let ?B = "coloured col Black"
  have "node \<in> coloured col Gray" using ok by (simp add: search_ok_def)
  then have new: "node \<notin> ?B" by simp
  from no have succs: "set (succ node) \<subseteq> ?B" and rest: "seen succ ?B {node} st"
    by (simp_all add: no_cycle_yet_def)
  have "edges_of succ `` ?B \<subseteq> ?B" "edges_of succ `` {node} \<subseteq> ?B"
    using no succs by (fastforce simp: no_cycle_yet_def)+
  with no new have "acyclic (edges_of succ \<inter> insert node ?B \<times> UNIV)"
    by (intro acyclic_extend) (simp_all add: no_cycle_yet_def)
  moreover have "seen succ (insert node ?B) {} st"
    by (rule seen_mono [OF rest]) auto
  ultimately show ?thesis
    using no succs unfolding no_cycle_yet_def black_dput by auto
qed

lemma no_cycle_push:
  assumes no: "no_cycle_yet succ col ((node, nxt # rem, path) # st)" and white: "dget col nxt = Some White"
  shows "no_cycle_yet succ (dput nxt Gray col) ((nxt, succ nxt, path @ [nxt]) # (node, rem, path) # st)"
  using no unfolding no_cycle_yet_def black_dput_gray [OF white] by auto

lemma no_cycle_skip:
  assumes no: "no_cycle_yet succ col ((node, nxt # rem, path) # st)" and black: "dget col nxt = Some Black"
  shows "no_cycle_yet succ col ((node, rem, path) # st)"
  using no black unfolding no_cycle_yet_def by auto

text \<open>What the loop leaves behind, whatever it starts from.\<close>

definition searched :: "(string \<Rightarrow> string list) \<Rightarrow> string set \<Rightarrow> (string, color) dict \<Rightarrow> dfs_stack \<Rightarrow>
    string list \<Rightarrow> exn + (string, color) dict \<times> string list \<Rightarrow> bool" where
  "searched succ nodes col st errs res \<longleftrightarrow>
     (\<exists>col' es. res = Inr (col', errs @ es) \<and> search_ok succ nodes col' [] \<and>
        coloured col Black \<union> set (map fst st) \<subseteq> coloured col' Black \<and>
        (es \<noteq> [] \<longrightarrow> \<not> acyclic (edges_of succ)) \<and>
        (es = [] \<and> no_cycle_yet succ col st \<longrightarrow> no_cycle_yet succ col' []))"

lemma searched_err:
  assumes "searched succ nodes col ((node, rem, path) # st) (errs @ [err]) res"
    and "\<not> acyclic (edges_of succ)"
  shows "searched succ nodes col ((node, nxt # rem, path) # st) errs res"
proof -
  from assms(1) obtain col' es where "res = Inr (col', errs @ (err # es))" "search_ok succ nodes col' []"
      "coloured col Black \<union> set (map fst ((node, rem, path) # st)) \<subseteq> coloured col' Black"
    by (auto simp: searched_def)
  with assms(2) show ?thesis unfolding searched_def by (intro exI [of _ col'] exI [of _ "err # es"]) simp
qed

lemma searched_weaken:
  assumes "searched succ nodes col' st' errs res"
    and "coloured col Black \<union> set (map fst st) \<subseteq> coloured col' Black \<union> set (map fst st')"
    and "no_cycle_yet succ col st \<Longrightarrow> no_cycle_yet succ col' st'"
  shows "searched succ nodes col st errs res"
  using assms unfolding searched_def by blast

lemma visit_loop_searched:
  "search_ok succ nodes col st \<Longrightarrow> searched succ nodes col st errs (visit_loop succ col st errs)"
proof (induction succ col st errs rule: visit_loop.induct)
  case (1 succ col errs)
  then show ?case by (auto simp: searched_def)
next
  case (2 succ col node path st errs)
  have "searched succ nodes col ((node, [], path) # st) errs (visit_loop succ (dput node Black col) st errs)"
    by (rule searched_weaken [OF 2(1) [OF search_ok_finish [OF 2(2)]] _ no_cycle_finish [OF 2(2)]])
      (auto simp: black_dput)
  then show ?case by simp
next
  case (3 succ col node nxt rem path st errs)
  have "nxt \<in> nodes"
  proof -
    have path: "stacked_path succ ((node, nxt # rem, path) # st)" and "node \<in> coloured col Gray"
      and closed: "dom (dget col) = nodes" "\<forall>n\<in>nodes. set (succ n) \<subseteq> nodes"
      using 3(4) by (simp_all add: search_ok_def)
    then have "node \<in> nodes" by auto
    moreover from path have "nxt \<in> set (succ node)" by (cases st) auto
    ultimately show ?thesis using closed(2) by blast
  qed
  then obtain c where c: "dget col nxt = Some c" using 3(4) by (fastforce simp: search_ok_def)
  show ?case
  proof (cases c)
    case White
    with c have w: "dget col nxt = Some White" by simp
    from 3(1) [OF w refl search_ok_push [OF 3(4) w]]
    have "searched succ nodes col ((node, nxt # rem, path) # st) errs
        (visit_loop succ (dput nxt Gray col) ((nxt, succ nxt, path @ [nxt]) # (node, rem, path) # st) errs)"
      by (rule searched_weaken [OF _ _ no_cycle_push [OF _ w]]) (auto simp: black_dput_gray [OF w])
    with w show ?thesis by simp
  next
    case Gray
    with c have g: "dget col nxt = Some Gray" by simp
    from gray_in_path [OF 3(4) g] have p: "nxt \<in> set path" .
    from searched_err [OF 3(2) [OF g refl p search_ok_skip [OF 3(4)]] closes_cycle [OF 3(4) p]] g p
    show ?thesis by simp
  next
    case Black
    with c have b: "dget col nxt = Some Black" by simp
    from 3(3) [OF b refl search_ok_skip [OF 3(4)]]
    have "searched succ nodes col ((node, nxt # rem, path) # st) errs
        (visit_loop succ col ((node, rem, path) # st) errs)"
      by (rule searched_weaken [OF _ _ no_cycle_skip [OF _ b]]) auto
    with b show ?thesis by simp
  qed
qed

section \<open>The whole check\<close>

lemma visit_searched:
  assumes ok: "search_ok succ nodes col []" and white: "dget col name = Some White"
    and res: "visit succ name col errs = res"
  shows "searched succ nodes col [] errs res \<and>
    (\<forall>col' errs'. res = Inr (col', errs') \<longrightarrow> dget col' name = Some Black)"
proof -
  let ?st = "[(name, succ name, [name])]"
  have "coloured (dput name Gray col) Gray = insert name (coloured col Gray)"
    by (auto simp: update_conv' split: if_splits)
  moreover have "name \<in> nodes" using ok white by (auto simp: search_ok_def)
  ultimately have start: "search_ok succ nodes (dput name Gray col) ?st"
    using ok by (auto simp: search_ok_def update_conv' dom_def)
  have no: "no_cycle_yet succ col [] \<Longrightarrow> no_cycle_yet succ (dput name Gray col) ?st"
    unfolding no_cycle_yet_def black_dput_gray [OF white] by simp
  have run: "searched succ nodes (dput name Gray col) ?st errs res"
    using visit_loop_searched [OF start, of errs] by (simp add: visit_def res [symmetric])
  then have "searched succ nodes col [] errs res"
    by (rule searched_weaken [OF _ _ no]) (auto simp: black_dput_gray [OF white])
  moreover from run have "\<forall>col' errs'. res = Inr (col', errs') \<longrightarrow> dget col' name = Some Black"
    by (auto simp: searched_def)
  ultimately show ?thesis by blast
qed

lemma visit_all_correct:
  assumes "search_ok succ nodes col []" and "set names \<subseteq> nodes"
  shows "\<exists>es. visit_all succ names col errs = Inr (errs @ es) \<and>
    (es \<noteq> [] \<longrightarrow> \<not> acyclic (edges_of succ)) \<and>
    (es = [] \<and> no_cycle_yet succ col [] \<and> nodes \<subseteq> coloured col Black \<union> set names \<longrightarrow>
       acyclic (edges_of succ \<inter> nodes \<times> UNIV))"
  using assms
proof (induction names arbitrary: col errs)
  case Nil
  have "acyclic (edges_of succ \<inter> nodes \<times> UNIV)"
    if "no_cycle_yet succ col []" "nodes \<subseteq> coloured col Black"
  proof (rule acyclic_subset)
    show "acyclic (edges_of succ \<inter> coloured col Black \<times> UNIV)"
      using that(1) by (simp add: no_cycle_yet_def)
    show "edges_of succ \<inter> nodes \<times> UNIV \<subseteq> edges_of succ \<inter> coloured col Black \<times> UNIV"
      using that(2) by blast
  qed
  then show ?case by auto
next
  case (Cons name names)
  then obtain c where c: "dget col name = Some c" by (fastforce simp: search_ok_def)
  have "c \<noteq> Gray"
  proof
    assume "c = Gray"
    with c have "name \<in> coloured col Gray" by simp
    with Cons.prems(1) show False by (simp add: search_ok_def)
  qed
  show ?case
  proof (cases "c = White")
    case True
    with c have w: "dget col name = Some White" by simp
    from visit_searched [OF Cons.prems(1) w refl, of errs] obtain col' es where
      v: "visit succ name col errs = Inr (col', errs @ es)" "search_ok succ nodes col' []"
      and black: "coloured col Black \<subseteq> coloured col' Black" "dget col' name = Some Black"
      and bad: "es \<noteq> [] \<longrightarrow> \<not> acyclic (edges_of succ)"
      and good: "es = [] \<and> no_cycle_yet succ col [] \<longrightarrow> no_cycle_yet succ col' []"
      by (auto simp: searched_def)
    from Cons.IH [OF v(2), of "errs @ es"] Cons.prems(2) obtain es' where
      r: "visit_all succ names col' (errs @ es) = Inr ((errs @ es) @ es')"
      "es' \<noteq> [] \<longrightarrow> \<not> acyclic (edges_of succ)"
      "es' = [] \<and> no_cycle_yet succ col' [] \<and> nodes \<subseteq> coloured col' Black \<union> set names \<longrightarrow>
         acyclic (edges_of succ \<inter> nodes \<times> UNIV)"
      by auto
    have "nodes \<subseteq> coloured col' Black \<union> set names" if "nodes \<subseteq> coloured col Black \<union> set (name # names)"
      using that black by auto
    with r bad good show ?thesis by (intro exI [of _ "es @ es'"]) (auto simp: w v(1))
  next
    case False
    with \<open>c \<noteq> Gray\<close> have "c = Black" by (cases c) simp_all
    with c have b: "dget col name = Some Black" by simp
    then have "coloured col Black \<union> set (name # names) = coloured col Black \<union> set names" by auto
    with Cons.IH [OF Cons.prems(1), of errs] Cons.prems(2) b show ?thesis by simp
  qed
qed

definition calls :: "workflows \<Rightarrow> (string \<times> string) set" where
  "calls wfs = {(p, t). \<exists>doc. dget wfs p = Some doc \<and> t \<in> snd ` set (call_edges doc)}"

definition calls_closed :: "workflows \<Rightarrow> bool" where
  "calls_closed wfs \<longleftrightarrow> list_all (\<lambda>x. list_all (\<lambda>edge. dhas wfs (snd edge)) (call_edges (snd x))) wfs"

lemma unknown_targets_empty: "unknown_targets wfs = [] \<longleftrightarrow> calls_closed wfs"
  by (auto simp: unknown_targets_def calls_closed_def list_all_iff filter_empty_conv)

lemma outgoing_nodes: "set (outgoing wfs n) \<subseteq> dom (dget wfs)"
  by (auto simp: outgoing_def dhas_def split: option.splits)

lemma edges_outgoing:
  assumes "calls_closed wfs"
  shows "edges_of (outgoing wfs) = calls wfs"
proof -
  have "dhas wfs t" if "dget wfs p = Some doc" "t \<in> snd ` set (call_edges doc)" for p t doc
    using assms that map_of_SomeD [of wfs p doc] by (fastforce simp: calls_closed_def list_all_iff)
  then have "v \<in> set (outgoing wfs u) \<longleftrightarrow> (u, v) \<in> calls wfs" for u v
    by (cases "dget wfs u") (auto simp: calls_def outgoing_def)
  then show ?thesis by (auto simp: edges_of_def)
qed

lemma search_ok_start: "search_ok (outgoing wfs) (dom (dget wfs)) (map (\<lambda>x. (fst x, White)) wfs) []"
proof -
  have col: "dget (map (\<lambda>x. (fst x, White)) wfs) n = map_option (\<lambda>_. White) (dget wfs n)" for n
    by (induction wfs) auto
  show ?thesis using outgoing_nodes
    by (auto simp: search_ok_def coloured_def col dom_def map_option_case split: option.splits)
qed

lemma no_cycle_start: "no_cycle_yet succ (map (\<lambda>x. (fst x, White)) wfs) []"
proof -
  have "coloured (map (\<lambda>x. (fst x, White)) wfs) Black = {}"
    by (auto simp: coloured_def dest: map_of_SomeD)
  then show ?thesis by (simp add: no_cycle_yet_def acyclic_def)
qed

lemma call_check:
  "\<exists>es. validate_workflow_calls wfs = Inr (unknown_targets wfs @ es) \<and>
     (es \<noteq> [] \<longrightarrow> \<not> acyclic (edges_of (outgoing wfs))) \<and>
     (es = [] \<longrightarrow> acyclic (edges_of (outgoing wfs)))"
proof -
  let ?N = "dom (dget wfs)"
  have names: "set (sort (map fst wfs)) = ?N" by (simp add: dom_map_of_conv_image_fst)
  have "edges_of (outgoing wfs) \<inter> ?N \<times> UNIV = edges_of (outgoing wfs)"
  proof -
    have "u \<in> ?N" if "v \<in> set (outgoing wfs u)" for u v
      using that by (cases "dget wfs u") (simp_all add: outgoing_def domIff)
    then show ?thesis by (auto simp: edges_of_def)
  qed
  with visit_all_correct [OF search_ok_start [of wfs], of "sort (map fst wfs)" "unknown_targets wfs"]
    no_cycle_start [of "outgoing wfs" wfs] names
  show ?thesis unfolding validate_workflow_calls_def by auto
qed

lemma call_check_exact:
  obtains errs where "validate_workflow_calls wfs = Inr errs" "errs = [] \<longleftrightarrow> calls_closed wfs \<and> acyclic (calls wfs)"
proof -
  from call_check [of wfs] obtain es where
    es: "validate_workflow_calls wfs = Inr (unknown_targets wfs @ es)"
      "es = [] \<longleftrightarrow> acyclic (edges_of (outgoing wfs))" by blast
  have "unknown_targets wfs @ es = [] \<longleftrightarrow> calls_closed wfs \<and> acyclic (calls wfs)"
    using es(2) edges_outgoing [of wfs] by (auto simp: unknown_targets_empty)
  with es(1) show thesis by (rule that)
qed

lemma call_check_accepts:
  assumes "validate_workflow_calls wfs = Inr []"
  shows "calls_closed wfs \<and> acyclic (calls wfs)"
  using call_check_exact [of wfs] assms by fastforce

text \<open>
  C26. The iterative three-colour search of \<open>validate_workflow_calls\<close> always
  returns, and it reports no error exactly when every call target is loaded and the call graph
  of the workflows is acyclic.
\<close>

theorem validate_workflow_calls_exact:
  "\<exists>errs. validate_workflow_calls wfs = Inr errs \<and>
     (errs = [] \<longleftrightarrow> calls_closed wfs \<and> acyclic (calls wfs))"
  by (rule call_check_exact [of wfs]) blast

text \<open>A chain of nested calls: each workflow calls the next.\<close>

fun call_chain :: "workflows \<Rightarrow> string list \<Rightarrow> bool" where
  "call_chain wfs (p # q # names) \<longleftrightarrow> (p, q) \<in> calls wfs \<and> call_chain wfs (q # names)"
| "call_chain wfs _ = True"

lemma call_chain_reaches:
  "call_chain wfs (p # names) \<Longrightarrow> q \<in> set names \<Longrightarrow> (p, q) \<in> (calls wfs)\<^sup>+"
  by (induction names arbitrary: p) (auto intro: trancl_into_trancl2)

lemma call_chain_tl: "call_chain wfs (p # names) \<Longrightarrow> call_chain wfs names"
  by (cases names) auto

lemma call_chain_distinct: "acyclic (calls wfs) \<Longrightarrow> call_chain wfs names \<Longrightarrow> distinct names"
  by (induction names) (auto simp: acyclic_def dest: call_chain_reaches call_chain_tl)

lemma call_chain_loaded:
  "calls_closed wfs \<Longrightarrow> call_chain wfs (p # names) \<Longrightarrow> dhas wfs p \<Longrightarrow> set names \<subseteq> dom (dget wfs)"
proof (induction names arbitrary: p)
  case (Cons q names)
  from Cons.prems have "(p, q) \<in> edges_of (outgoing wfs)" by (simp add: edges_outgoing)
  with outgoing_nodes have "dhas wfs q" by (fastforce simp: dhas_def)
  with Cons show ?case by (auto simp: dhas_def)
qed simp

text \<open>
  In a set of workflows the check accepts, no chain of nested calls is longer than the number of
  workflows: the call frames that \<open>enter_sub_workflow\<close> stacks are bounded although
  it checks no depth.
\<close>

theorem nested_calls_bounded:
  assumes "validate_workflow_calls wfs = Inr []" and "dhas wfs p" and chain: "call_chain wfs (p # names)"
  shows "length (p # names) \<le> length wfs"
proof -
  from call_check_accepts [OF assms(1)] have ok: "calls_closed wfs" "acyclic (calls wfs)" by simp_all
  from call_chain_distinct [OF ok(2) chain] have "distinct (p # names)" .
  moreover have "set (p # names) \<subseteq> set (map fst wfs)"
    using call_chain_loaded [OF ok(1) chain assms(2)] assms(2)
    by (simp add: dhas_def dom_map_of_conv_image_fst [symmetric] domIff)
  ultimately have "length (p # names) \<le> card (set (map fst wfs))"
    by (metis card_mono distinct_card List.finite_set)
  also have "\<dots> \<le> length wfs" using card_length [of "map fst wfs"] by simp
  finally show ?thesis .
qed

text \<open>Two workflows that call each other, and one that calls a leaf.\<close>

definition calling :: "string \<Rightarrow> pyval" where
  "calling t = PDict [(''steps'', PList [PDict [(''id'', PStr ''s''), (''call'', PStr t)]])]"

theorem nested_calls_bounded_witness:
  "length [''a'', ''b''] \<le> length [(''a'', calling ''b''), (''b'', PDict [(''steps'', PList [])])]"
  by (rule nested_calls_bounded)
    (code_simp, code_simp, simp add: calls_def calling_def call_edges_def call_edge_def List.map_filter_simps)

end
