(* ===== verification/Schema.thy ===== *)
theory Schema
  imports McpRegistry SessionBase
begin

text \<open>
The workflow validator (\<^verbatim>\<open>schema.py\<close>): one definition per check, returning the messages in
  the order the code appends them; \<open>Inl\<close> is an exception that escapes it. A document is what
  \<^verbatim>\<open>yaml.safe_load\<close> made of the file, with string keys only, so the branches for other keys and
  for values such as dates do not occur. \<^verbatim>\<open>validate_workflow_calls\<close> is in \<^verbatim>\<open>CallGraph\<close>.
\<close>

text \<open>\<open>if b: errors.append(msg)\<close>; and the common prefix of the messages on one step.\<close>

definition err_if :: "bool \<Rightarrow> string \<Rightarrow> string list" where
  "err_if b msg = (if b then [msg] else [])"

lemma err_if_Nil [simp]: "err_if b msg = [] \<longleftrightarrow> \<not> b"
  by (simp add: err_if_def)

text \<open>Evaluation looks at the condition only, not at the message.\<close>

lemma err_if_cong: "b = b' \<Longrightarrow> err_if b msg = err_if b' msg"
  by simp

lemma err_if_simps [simp]: "err_if True msg = [msg]" "err_if False msg = []"
  by (simp_all add: err_if_def)

definition at_step :: "string \<Rightarrow> string \<Rightarrow> string" where
  "at_step label msg = ''Step '' @ quoted label @ '' '' @ msg"

text \<open>\<open>"k" in step\<close> and \<open>step["k"]\<close> in one: the check of an optional field.\<close>

definition on_field :: "pyval \<Rightarrow> string \<Rightarrow> (pyval \<Rightarrow> string list) \<Rightarrow> string list" where
  "on_field st k check = (case pget st k of None \<Rightarrow> [] | Some v \<Rightarrow> check v)"

lemma on_field_Nil [simp]: "on_field st k check = [] \<longleftrightarrow> (\<forall>v. pget st k = Some v \<longrightarrow> check v = [])"
  by (simp add: on_field_def split: option.split)

text \<open>\<open>for i, x in enumerate(xs): ...\<close>\<close>

fun each_indexed :: "nat \<Rightarrow> (nat \<Rightarrow> 'a \<Rightarrow> string list) \<Rightarrow> 'a list \<Rightarrow> string list" where
  "each_indexed i check [] = []"
| "each_indexed i check (x # xs) = check i x @ each_indexed (Suc i) check xs"

lemma each_indexed_Nil:
  "each_indexed i check xs = [] \<longleftrightarrow> (\<forall>j < length xs. check (i + j) (xs ! j) = [])"
  by (induction xs arbitrary: i) (simp_all add: All_less_Suc2 nth_Cons')

definition is_str_key :: "pyval \<Rightarrow> string \<Rightarrow> bool" where
  "is_str_key v k \<longleftrightarrow> (case pget v k of Some (PStr _) \<Rightarrow> True | _ \<Rightarrow> False)"

section \<open>Ref-paths\<close>

text \<open>A Python \<^verbatim>\<open>$\<close> also matches before a final newline.\<close>

definition chomp :: "string \<Rightarrow> string" where
  "chomp s = (if s \<noteq> [] \<and> last s = CHR 0x0A then butlast s else s)"

definition letter_char :: "char \<Rightarrow> bool" where
  "letter_char c = (let n = of_char c :: nat in (65 \<le> n \<and> n \<le> 90) \<or> (97 \<le> n \<and> n \<le> 122))"

definition ref_segment :: "string \<Rightarrow> bool" where
  "ref_segment seg =
     (case chomp seg of
        [] \<Rightarrow> False
      | c # cs \<Rightarrow> (letter_char c \<or> c = CHR ''_'') \<and>
          list_all (\<lambda>x. letter_char x \<or> is_digit x \<or> x = CHR ''_'' \<or> x = CHR ''-'') cs)"

definition is_valid_ref_path :: "string \<Rightarrow> bool" where
  "is_valid_ref_path ref \<longleftrightarrow>
     starts_with ref ''step_data.'' \<and> list_all ref_segment (tl (split_on (CHR ''.'') ref))"

text \<open>\<^verbatim>\<open>_REF_STRING_RE\<close>: the whole value is one reference.\<close>

definition ref_string :: "string \<Rightarrow> bool" where
  "ref_string v =
     (let c = chomp v; inner = butlast (drop 12 c) in
      starts_with c ''${step_data.'' \<and> ends_with c ''}'' \<and> inner \<noteq> [] \<and> CHR ''}'' \<notin> set inner)"

section \<open>mcp\_tool\_call steps\<close>

definition mixed_error :: "string \<Rightarrow> string \<Rightarrow> string \<Rightarrow> string" where
  "mixed_error label path v =
     at_step label (''args'' @ path @ '': mixed interpolation not supported (value must be either a literal or a whole-string ''
       @ quoted ''${step_data.<ref>}'' @ '' - got '' @ repr_str v
       @ '') (code: mcp_tool_call_mixed_interpolation_not_supported)'')"

definition malformed_ref_error :: "string \<Rightarrow> string \<Rightarrow> string \<Rightarrow> string" where
  "malformed_ref_error label path v =
     at_step label (''args'' @ path @ '': ref-path is malformed (value '' @ repr_str v @ ''); refs must match ''
       @ quoted ''${step_data.<sid>[.<field>...]}'' @ '' (code: mcp_tool_call_invalid_ref_path)'')"

fun validate_mcp_arg_value :: "string \<Rightarrow> string \<Rightarrow> pyval \<Rightarrow> string list"
  and validate_mcp_arg_dict :: "string \<Rightarrow> string \<Rightarrow> (string \<times> pyval) list \<Rightarrow> string list"
  and validate_mcp_arg_list :: "string \<Rightarrow> string \<Rightarrow> nat \<Rightarrow> pyval list \<Rightarrow> string list" where
  "validate_mcp_arg_value label path (PDict d) = validate_mcp_arg_dict label path d"
| "validate_mcp_arg_value label path (PList xs) = validate_mcp_arg_list label path 0 xs"
| "validate_mcp_arg_value label path (PStr s) =
     (if \<not> contains s ''${'' then []
      else if \<not> ref_string s then [mixed_error label path s]
      else err_if (\<not> is_valid_ref_path (butlast (drop 2 s))) (malformed_ref_error label path s))"
| "validate_mcp_arg_value label path _ = []"
| "validate_mcp_arg_dict label path [] = []"
| "validate_mcp_arg_dict label path ((k, v) # d) =
     validate_mcp_arg_value label (path @ ''.'' @ k) v @ validate_mcp_arg_dict label path d"
| "validate_mcp_arg_list label path i [] = []"
| "validate_mcp_arg_list label path i (x # xs) =
     validate_mcp_arg_value label (path @ ''['' @ str_nat i @ '']'') x
       @ validate_mcp_arg_list label path (Suc i) xs"

definition MCP_MUTEX_FIELDS :: "(string \<times> string) list" where
  "MCP_MUTEX_FIELDS =
     [(''directive_template'', ''mcp_tool_call_with_directive_template''),
      (''gates'', ''mcp_tool_call_with_gates''),
      (''anti_patterns'', ''mcp_tool_call_with_anti_patterns''),
      (''call'', ''mcp_tool_call_with_call''),
      (''collect'', ''mcp_tool_call_with_collect''),
      (''output_schema'', ''mcp_tool_call_with_output_schema'')]"

definition MCP_ALLOWED_STEP_KEYS :: "string list" where
  "MCP_ALLOWED_STEP_KEYS =
     [''id'', ''title'', ''action'', ''server'', ''tool'', ''args'', ''timeout'',
      ''step_description'', ''precondition'', ''branches'', ''default_branch'']"

definition at_mcp_step :: "string \<Rightarrow> string \<Rightarrow> string" where
  "at_mcp_step label msg = at_step label (''(mcp_tool_call) '' @ msg)"

text \<open>\<open>server\<close> and \<open>tool\<close> are checked alike: a non-empty literal string.\<close>

definition literal_errors :: "string \<Rightarrow> string \<Rightarrow> pyval \<Rightarrow> string list" where
  "literal_errors label k st =
     (case pget st k of
        None \<Rightarrow> [at_mcp_step label (''missing required key '' @ quoted k)]
      | Some v \<Rightarrow>
          (case nonempty_str (Some v) of
             None \<Rightarrow> [at_mcp_step label (k @ '' must be a non-empty string'')]
           | Some s \<Rightarrow> err_if (contains s ''${'')
               (at_mcp_step label (k @ '' must be a literal string, not an interpolation (got ''
                  @ repr_str s @ '') (code: mcp_tool_call_'' @ k @ ''_not_literal)''))))"

definition args_errors :: "string \<Rightarrow> pyval \<Rightarrow> string list" where
  "args_errors label st =
     (case pget st ''args'' of
        None \<Rightarrow> [at_mcp_step label (''missing required key '' @ quoted ''args'')]
      | Some (PDict d) \<Rightarrow> validate_mcp_arg_dict label [] d
      | Some v \<Rightarrow> [at_mcp_step label (''args must be a mapping, got '' @ type_name v)])"

definition timeout_errors :: "string \<Rightarrow> pyval \<Rightarrow> string list" where
  "timeout_errors label v =
     (if is_bool v then [at_mcp_step label ''timeout must be a number'']
      else (case py_num v of
         None \<Rightarrow> [at_mcp_step label ''timeout must be a number'']
       | Some x \<Rightarrow> err_if (\<not> num_pos x) (at_mcp_step label ''timeout must be positive'')))"

definition mutex_errors :: "string \<Rightarrow> pyval \<Rightarrow> string list" where
  "mutex_errors label st =
     concat (map (\<lambda>(field, code). err_if (phas st field)
       (at_step label (''has both '' @ quoted ''action: mcp_tool_call'' @ '' and '' @ repr_str field
          @ ''; mcp_tool_call steps are non-LLM and cannot declare this field (code: '' @ code @ '')'')))
       MCP_MUTEX_FIELDS)"

definition step_keys :: "pyval \<Rightarrow> string list" where
  "step_keys st = (case st of PDict d \<Rightarrow> map fst d | _ \<Rightarrow> [])"

definition unknown_field_errors :: "string \<Rightarrow> pyval \<Rightarrow> string list" where
  "unknown_field_errors label st =
     (let unknown = sort (filter (\<lambda>k. k \<notin> set MCP_ALLOWED_STEP_KEYS \<and> k \<notin> fst ` set MCP_MUTEX_FIELDS)
                       (step_keys st))
      in err_if (unknown \<noteq> []) (at_mcp_step label (''has unknown field(s) '' @ repr_strs unknown)))"

definition validate_mcp_tool_call_step :: "string \<Rightarrow> pyval \<Rightarrow> string list" where
  "validate_mcp_tool_call_step label st =
     literal_errors label ''server'' st @ literal_errors label ''tool'' st @ args_errors label st
       @ on_field st ''timeout'' (timeout_errors label) @ mutex_errors label st
       @ unknown_field_errors label st"

section \<open>Optional fields of a step\<close>

text \<open>
  \<open>check_schema\<close> is \<^verbatim>\<open>jsonschema.Draft202012Validator.check_schema\<close>: the message of its
  \<^verbatim>\<open>SchemaError\<close>, if any.
\<close>

type_synonym check_schema = "pyval \<Rightarrow> string option"

definition output_schema_errors :: "check_schema \<Rightarrow> string \<Rightarrow> pyval \<Rightarrow> string list" where
  "output_schema_errors check label v =
     (if \<not> is_dict v then [at_step label ''output_schema must be a JSON Schema object (dict)'']
      else (case check v of
         None \<Rightarrow> []
       | Some m \<Rightarrow> [at_step label (''output_schema is not valid JSON Schema: '' @ m)]))"

definition collect_errors :: "string \<Rightarrow> pyval \<Rightarrow> pyval \<Rightarrow> string list" where
  "collect_errors label st v =
     (if \<not> is_bool v then [at_step label ''collect must be a boolean'']
      else err_if (truthy v \<and> \<not> phas st ''output_schema'')
        (at_step label (''has collect: true but is missing required '' @ quoted ''output_schema'')))"

text \<open>A bool is an int: \<open>True\<close> passes for 1.\<close>

definition max_retries_errors :: "string \<Rightarrow> pyval \<Rightarrow> string list" where
  "max_retries_errors label v =
     err_if (case v of PInt i \<Rightarrow> i < 1 | PBool b \<Rightarrow> \<not> b | _ \<Rightarrow> True)
       (at_step label ''max_retries must be a positive integer'')"

definition str_errors :: "string \<Rightarrow> string \<Rightarrow> pyval \<Rightarrow> string list" where
  "str_errors label k v = err_if (\<not> is_str v) (at_step label (k @ '' must be a string''))"

definition at_index :: "string \<Rightarrow> nat \<Rightarrow> string" where
  "at_index k j = k @ ''['' @ str_nat j @ '']''"

definition inject_entry_errors :: "string \<Rightarrow> nat \<Rightarrow> pyval \<Rightarrow> string list" where
  "inject_entry_errors label j entry =
     (let at = at_index ''inject_context'' j in
      if \<not> is_dict entry then [at_step label (at @ '' must be a mapping'')]
      else
        (case pget entry ''from'' of
           None \<Rightarrow> [at_step label (at @ '' missing required key '' @ quoted ''from'')]
         | Some v \<Rightarrow> err_if (\<not> is_str v) (at_step label (at @ '' '' @ quoted ''from'' @ '' must be a string'')))
        @ on_field entry ''fields'' (\<lambda>v. err_if (\<not> is_list v)
            (at_step label (at @ '' '' @ quoted ''fields'' @ '' must be a list'')))
        @ on_field entry ''summary'' (\<lambda>v. err_if (\<not> is_bool v)
            (at_step label (at @ '' '' @ quoted ''summary'' @ '' must be a boolean''))))"

definition inject_errors :: "string \<Rightarrow> pyval \<Rightarrow> string list" where
  "inject_errors label v =
     (case v of
        PList ic \<Rightarrow> each_indexed 0 (inject_entry_errors label) ic
      | _ \<Rightarrow> [at_step label ''inject_context must be a list''])"

definition branch_entry_errors :: "string \<Rightarrow> nat \<Rightarrow> pyval \<Rightarrow> string list" where
  "branch_entry_errors label j branch =
     (let at = at_index ''branches'' j in
      if \<not> is_dict branch then [at_step label (at @ '' must be a mapping'')]
      else
        err_if (\<not> is_str_key branch ''next'')
          (at_step label (at @ '' must have a '' @ quoted ''next'' @ '' string''))
        @ err_if (\<not> is_str_key branch ''condition'')
          (at_step label (at @ '' must have a '' @ quoted ''condition'' @ '' string'')))"

definition branches_errors :: "string \<Rightarrow> pyval \<Rightarrow> string list" where
  "branches_errors label v =
     (case v of
        PList branches \<Rightarrow> each_indexed 0 (branch_entry_errors label) branches
      | _ \<Rightarrow> [at_step label ''branches must be a list''])"

definition PREDICATES :: "string list" where
  "PREDICATES = [''when_equals'', ''when_present'']"

definition when_equals_errors :: "string \<Rightarrow> pyval \<Rightarrow> string list" where
  "when_equals_errors label we =
     (if \<not> is_dict we then [at_step label ''precondition.when_equals must be a mapping'']
      else
        (case pget we ''ref'' of
           None \<Rightarrow> [at_step label (''precondition.when_equals missing required key '' @ quoted ''ref'')]
         | Some (PStr r) \<Rightarrow> err_if (\<not> is_valid_ref_path r)
             (at_step label (''precondition.when_equals.ref is not a valid ref-path: '' @ r))
         | Some _ \<Rightarrow> [at_step label ''precondition.when_equals.ref must be a string''])
        @ err_if (\<not> phas we ''value'')
            (at_step label (''precondition.when_equals missing required key '' @ quoted ''value'')))"

definition when_present_errors :: "string \<Rightarrow> pyval \<Rightarrow> string list" where
  "when_present_errors label wp =
     (case wp of
        PStr r \<Rightarrow> err_if (\<not> is_valid_ref_path r)
          (at_step label (''precondition.when_present.ref is not a valid ref-path: '' @ r))
      | _ \<Rightarrow> [at_step label ''precondition.when_present must be a string''])"

definition precondition_errors :: "string \<Rightarrow> pyval \<Rightarrow> string list" where
  "precondition_errors label pc =
     (case pc of
        PDict d \<Rightarrow>
          (let keys = map fst d;
               unknown = filter (\<lambda>k. k \<notin> set PREDICATES) keys;
               present = filter (\<lambda>k. k \<in> set PREDICATES) keys in
           err_if (unknown \<noteq> []) (at_step label (''precondition has unknown predicate key(s): ''
             @ repr_strs (sort unknown) @ ''; valid: '' @ repr_strs PREDICATES))
           @ (case present of
                [] \<Rightarrow> [at_step label (''precondition must have exactly one of '' @ quoted ''when_equals''
                         @ '' or '' @ quoted ''when_present'')]
              | [k] \<Rightarrow> if k = ''when_equals'' then when_equals_errors label (the (pget pc k))
                       else when_present_errors label (the (pget pc k))
              | _ \<Rightarrow> [at_step label (''precondition must have exactly one predicate, got: ''
                        @ repr_strs (sort present))]))
      | _ \<Rightarrow> [at_step label ''precondition must be a mapping''])"

definition call_errors :: "string \<Rightarrow> pyval \<Rightarrow> pyval \<Rightarrow> string list" where
  "call_errors label st v =
     err_if (nonempty_str (Some v) = None) (at_step label ''call must be a non-empty string'')
     @ err_if (pget st ''collect'' = Some (PBool True))
         (at_step label (''has both '' @ quoted ''call'' @ '' and '' @ quoted ''collect: true''
            @ ''; sub-workflow steps cannot also collect (code: call_with_collect)''))
     @ err_if (phas st ''intermediate_artifacts'')
         (at_step label (''has both '' @ quoted ''call'' @ '' and '' @ quoted ''intermediate_artifacts''
            @ ''; sub-workflow steps cannot also produce intermediate artifacts (code: call_with_intermediate_artifacts)''))
     @ err_if (phas st ''branches'' \<and> \<not> phas st ''default_branch'')
         (at_step label (''has both '' @ quoted ''call'' @ '' and '' @ quoted ''branches'' @ '' but no ''
            @ quoted ''default_branch'' @ ''; post-hoc branch selection on sub-workflow return is not supported - ''
            @ ''call-steps with branches must declare a default_branch (code: call_branches_without_default)''))"

definition call_context_errors :: "string \<Rightarrow> pyval \<Rightarrow> pyval \<Rightarrow> string list" where
  "call_context_errors label st v =
     (case v of
        PStr ccf \<Rightarrow>
          err_if (\<not> phas st ''call'') (at_step label (''has '' @ quoted ''call_context_from'' @ '' without ''
            @ quoted ''call'' @ '' (code: call_context_from_without_call)''))
          @ err_if (\<not> is_valid_ref_path ccf) (at_step label (''call_context_from is not a valid ref-path: ''
              @ ccf @ '' (code: call_invalid_context_ref)''))
      | _ \<Rightarrow> [at_step label ''call_context_from must be a string''])"

definition directives_errors :: "string \<Rightarrow> pyval \<Rightarrow> string list" where
  "directives_errors label d =
     (if \<not> is_dict d then [at_step label ''directives must be a mapping'']
      else
        concat (map (\<lambda>k. on_field d k (str_errors label (''directives.'' @ k)))
          [''tone'', ''strategy'', ''persona''])
        @ on_field d ''constraints'' (\<lambda>v.
            case v of
              PList cs \<Rightarrow> err_if (\<not> list_all is_str cs)
                (at_step label ''directives.constraints entries must be strings'')
            | _ \<Rightarrow> [at_step label ''directives.constraints must be a list'']))"

definition artifact_def_errors :: "check_schema \<Rightarrow> string \<Rightarrow> nat \<Rightarrow> pyval \<Rightarrow> string list" where
  "artifact_def_errors check label j art =
     (let at = at_index ''intermediate_artifacts'' j in
      if \<not> is_dict art then [at_step label (at @ '' must be a mapping'')]
      else
        concat (map (\<lambda>rk. err_if (\<not> phas art rk) (at_step label (at @ '' missing '' @ quoted rk)))
          [''id'', ''description'', ''schema''])
        @ on_field art ''id'' (\<lambda>v. err_if (\<not> is_str v)
            (at_step label (at @ '' '' @ quoted ''id'' @ '' must be a string'')))
        @ on_field art ''description'' (\<lambda>v. err_if (\<not> is_str v)
            (at_step label (at @ '' '' @ quoted ''description'' @ '' must be a string'')))
        @ on_field art ''schema'' (\<lambda>v.
            if \<not> is_dict v then [at_step label (at @ '' '' @ quoted ''schema'' @ '' must be a dict'')]
            else (case check v of
               None \<Rightarrow> []
             | Some m \<Rightarrow> [at_step label (at @ '' schema invalid: '' @ m)]))
        @ on_field art ''checkpoint'' (\<lambda>v. err_if (\<not> is_bool v)
            (at_step label (at @ '' '' @ quoted ''checkpoint'' @ '' must be a boolean''))))"

definition artifact_ids :: "pyval list \<Rightarrow> string list" where
  "artifact_ids arts = List.map_filter (\<lambda>a. case pget a ''id'' of Some (PStr i) \<Rightarrow> Some i | _ \<Rightarrow> None) arts"

definition artifacts_errors :: "check_schema \<Rightarrow> string \<Rightarrow> pyval \<Rightarrow> string list" where
  "artifacts_errors check label st =
     (case pget st ''intermediate_artifacts'' of
        None \<Rightarrow> err_if (phas st ''output_from'')
          (at_step label ''has output_from without intermediate_artifacts'')
      | Some (PList ia) \<Rightarrow>
          each_indexed 0 (artifact_def_errors check label) ia
          @ on_field st ''output_from'' (\<lambda>v.
              case v of
                PStr out \<Rightarrow> err_if (artifact_ids ia \<noteq> [] \<and> out \<notin> set (artifact_ids ia))
                  (at_step label (''output_from '' @ quoted out @ '' not found in intermediate_artifacts''))
              | _ \<Rightarrow> [at_step label ''output_from must be a string''])
      | Some _ \<Rightarrow> [at_step label ''intermediate_artifacts must be a list''])"

definition validate_step_optional_fields :: "check_schema \<Rightarrow> string \<Rightarrow> pyval \<Rightarrow> string list" where
  "validate_step_optional_fields check label st =
     on_field st ''output_schema'' (output_schema_errors check label)
     @ on_field st ''collect'' (collect_errors label st)
     @ on_field st ''step_description'' (str_errors label ''step_description'')
     @ on_field st ''max_retries'' (max_retries_errors label)
     @ on_field st ''validation_hint'' (str_errors label ''validation_hint'')
     @ on_field st ''inject_context'' (inject_errors label)
     @ on_field st ''branches'' (branches_errors label)
     @ on_field st ''default_branch'' (str_errors label ''default_branch'')
     @ on_field st ''precondition'' (precondition_errors label)
     @ on_field st ''call'' (call_errors label st)
     @ on_field st ''call_context_from'' (call_context_errors label st)
     @ on_field st ''directives'' (directives_errors label)
     @ artifacts_errors check label st"

section \<open>Preconditions across steps\<close>

definition precondition_ref :: "pyval \<Rightarrow> string option" where
  "precondition_ref st =
     (case pget st ''precondition'' of
        Some pc \<Rightarrow>
          (case pget pc ''when_equals'' of
             Some we \<Rightarrow> (case pget we ''ref'' of Some (PStr r) \<Rightarrow> Some r | _ \<Rightarrow>
               (case pget pc ''when_present'' of Some (PStr r) \<Rightarrow> Some r | _ \<Rightarrow> None))
           | None \<Rightarrow> (case pget pc ''when_present'' of Some (PStr r) \<Rightarrow> Some r | _ \<Rightarrow> None))
      | None \<Rightarrow> None)"

text \<open>\<open>sid_to_index\<close> and \<open>sid_to_step\<close> in one: the last step of an id wins.\<close>

fun index_steps :: "nat \<Rightarrow> pyval list \<Rightarrow> (string, nat \<times> pyval) dict \<Rightarrow> (string, nat \<times> pyval) dict" where
  "index_steps i [] acc = acc"
| "index_steps i (st # sts) acc =
     index_steps (Suc i) sts
       (case pget st ''id'' of Some (PStr sid) \<Rightarrow> dput sid (i, st) acc | _ \<Rightarrow> acc)"

definition step_label :: "pyval \<Rightarrow> string \<Rightarrow> string" where
  "step_label st dflt = (case pget st ''id'' of Some v \<Rightarrow> py_str v | None \<Rightarrow> dflt)"

definition precondition_step_errors ::
  "(string, nat \<times> pyval) dict \<Rightarrow> nat \<Rightarrow> pyval \<Rightarrow> string list" where
  "precondition_step_errors index k st =
     (let label = step_label st (str_nat k) in
      case precondition_ref st of
        None \<Rightarrow> []
      | Some ref \<Rightarrow>
          if \<not> is_valid_ref_path ref then []
          else if k = 0 then
            [at_step label ''precondition is on the first step (index 0); no prior step exists to reference'']
          else (case split_on (CHR ''.'') ref of
             _ # ref_sid # segs \<Rightarrow>
               (case dget index ref_sid of
                  None \<Rightarrow> []
                | Some (m, ref_step) \<Rightarrow>
                    if k \<le> m then
                      [at_step label (''precondition is a forward ref: references step '' @ quoted ref_sid
                         @ '' (index '' @ str_nat m @ '') which does not precede step '' @ quoted label
                         @ '' (index '' @ str_nat k @ '')'')]
                    else err_if (segs \<noteq> [] \<and> \<not> phas ref_step ''output_schema''
                          \<and> pget ref_step ''collect'' \<noteq> Some (PBool True)
                          \<and> pget ref_step ''action'' \<noteq> Some (PStr ''mcp_tool_call''))
                      (at_step label (''precondition sub-path references step '' @ quoted ref_sid
                         @ '' which lacks both '' @ quoted ''output_schema'' @ '' and '' @ quoted ''collect: true''
                         @ ''; sub-path refs require one of these'')))
           | _ \<Rightarrow> []))"

definition validate_workflow_preconditions :: "pyval list \<Rightarrow> string list" where
  "validate_workflow_preconditions steps =
     each_indexed 0 (precondition_step_errors (index_steps 0 steps [])) steps"

section \<open>The workflow document\<close>

definition REQUIRED_STEP_KEYS :: "string list" where
  "REQUIRED_STEP_KEYS = [''id'', ''title'', ''directive_template'', ''gates'', ''anti_patterns'']"

definition REQUIRED_STEP_KEYS_MCP :: "string list" where
  "REQUIRED_STEP_KEYS_MCP = [''id'', ''title'']"

definition schema_version_errors :: "pyval \<Rightarrow> string list" where
  "schema_version_errors doc =
     on_field doc ''schema_version'' (\<lambda>v. err_if (\<not> is_str v) ''schema_version must be a string'')"

text \<open>The default is written into the document that is returned.\<close>

definition with_schema_version :: "pyval \<Rightarrow> pyval" where
  "with_schema_version doc =
     (case doc of
        PDict d \<Rightarrow> if phas doc ''schema_version'' then doc
          else PDict (dput ''schema_version'' (PStr ''0.4'') d)
      | _ \<Rightarrow> doc)"

definition REPAIR_KEYS :: "string list" where
  "REPAIR_KEYS = [''on_cancel'', ''on_clarification'', ''on_digression'', ''on_go_back'']"

definition repair_errors :: "pyval \<Rightarrow> string list" where
  "repair_errors repair =
     (case repair of
        PDict d \<Rightarrow> concat (map (\<lambda>(k, v).
          if k \<notin> set REPAIR_KEYS then
            [''conversation_repair has unknown key '' @ quoted k @ ''; valid keys: '' @ repr_strs REPAIR_KEYS]
          else err_if (\<not> is_str v) (''conversation_repair['' @ quoted k @ ''] must be a string'')) d)
      | _ \<Rightarrow> [''conversation_repair must be a mapping''])"

definition is_mcp_step :: "pyval \<Rightarrow> bool" where
  "is_mcp_step st \<longleftrightarrow> pget st ''action'' = Some (PStr ''mcp_tool_call'')"

definition missing_step_keys :: "pyval \<Rightarrow> string list \<Rightarrow> string list" where
  "missing_step_keys st required = sort (filter (\<lambda>k. \<not> phas st k) required)"

definition step_errors :: "check_schema \<Rightarrow> nat \<Rightarrow> pyval \<Rightarrow> string list" where
  "step_errors check i st =
     (if \<not> is_dict st then [''Step '' @ str_nat i @ '' must be a mapping'']
      else
        let label = step_label st (str_nat i);
            at = ''Step '' @ str_nat i @ '' ('' @ quoted (step_label st ''?'') @ '') '' in
        if is_mcp_step st then
          (let missing = missing_step_keys st REQUIRED_STEP_KEYS_MCP in
           err_if (missing \<noteq> []) (at @ ''(mcp_tool_call) missing keys: '' @ repr_strs missing)
           @ validate_mcp_tool_call_step label st)
        else
          (let missing = missing_step_keys st REQUIRED_STEP_KEYS in
           err_if (missing \<noteq> []) (at @ ''missing keys: '' @ repr_strs missing)
           @ on_field st ''gates'' (\<lambda>v. err_if (\<not> is_list v) (at_step label ''gates must be a list''))
           @ on_field st ''anti_patterns'' (\<lambda>v. err_if (\<not> is_list v)
               (at_step label ''anti_patterns must be a list''))
           @ validate_step_optional_fields check label st))"

text \<open>Every server an \<open>mcp_tool_call\<close> step names is in the registry.\<close>

definition mcp_steps :: "pyval list \<Rightarrow> (string \<times> pyval) list" where
  "mcp_steps steps =
     map (\<lambda>(i, st). (step_label st (str_nat i), st))
       (filter (\<lambda>x. is_mcp_step (snd x)) (List.enumerate 0 steps))"

definition unknown_server_errors :: "registry \<Rightarrow> string \<Rightarrow> string \<times> pyval \<Rightarrow> string list" where
  "unknown_server_errors reg wf_name x =
     (case nonempty_str (pget (snd x) ''server'') of
        None \<Rightarrow> []
      | Some server \<Rightarrow>
          err_if (\<not> contains server ''${'' \<and> \<not> dhas reg server)
            (''Workflow '' @ quoted wf_name @ '' step '' @ quoted (fst x)
               @ '' references unknown MCP server '' @ repr_str server @ ''; available names: ''
               @ repr_strs (registry_names reg) @ '' (code: mcp_tool_call_unknown_server)''))"

definition registry_errors :: "registry option \<Rightarrow> string \<Rightarrow> pyval list \<Rightarrow> string list" where
  "registry_errors reg wf_name steps =
     (if mcp_steps steps = [] then []
      else (case reg of
         None \<Rightarrow> [''Workflow '' @ quoted wf_name @ '' has '' @ str_nat (length (mcp_steps steps))
           @ '' mcp_tool_call step(s) but no registry was provided; pass --registry <path> or place ''
           @ ''mcp_servers.yaml alongside the workflow (code: mcp_tool_call_registry_required)'']
       | Some r \<Rightarrow> concat (map (unknown_server_errors r wf_name) (mcp_steps steps))))"

text \<open>
  \<open>{s.get("id") for s in steps}\<close>: a list or a mapping is not hashable. Only strings are looked
  up in the set afterwards, so the others are dropped.
\<close>

fun hashable :: "pyval \<Rightarrow> bool" where
  "hashable (PList _) = False"
| "hashable (PDict _) = False"
| "hashable _ = True"

definition unhashable :: "pyval \<Rightarrow> exn" where
  "unhashable v = TypeError (''unhashable type: '' @ quoted (type_name v))"

fun all_step_ids :: "pyval list \<Rightarrow> exn + string list" where
  "all_step_ids [] = Inr []"
| "all_step_ids (st # sts) =
     (case pget st ''id'' of
        Some (PStr sid) \<Rightarrow>
          (case all_step_ids sts of Inl x \<Rightarrow> Inl x | Inr ids \<Rightarrow> Inr (sid # ids))
      | Some v \<Rightarrow> if hashable v then all_step_ids sts else Inl (unhashable v)
      | None \<Rightarrow> all_step_ids sts)"

text \<open>\<open>for entry in step["inject_context"]\<close>, which may be no list.\<close>

fun iterated :: "pyval \<Rightarrow> exn + pyval list" where
  "iterated (PList xs) = Inr xs"
| "iterated (PDict d) = Inr (map (\<lambda>x. PStr (fst x)) d)"
| "iterated (PStr s) = Inr (map (\<lambda>c. PStr [c]) s)"
| "iterated v = Inl (TypeError (quoted (type_name v) @ '' object is not iterable''))"

definition inject_ref_errors :: "string list \<Rightarrow> string \<Rightarrow> pyval \<Rightarrow> string list" where
  "inject_ref_errors ids label entry =
     (case pget entry ''from'' of
        Some (PStr sid) \<Rightarrow> err_if (sid \<notin> set ids)
          (at_step label (''inject_context references nonexistent step '' @ quoted sid))
      | _ \<Rightarrow> [])"

fun inject_refs :: "string list \<Rightarrow> pyval list \<Rightarrow> exn + string list" where
  "inject_refs ids [] = Inr []"
| "inject_refs ids (st # sts) =
     (case pget st ''inject_context'' of
        None \<Rightarrow> inject_refs ids sts
      | Some ic \<Rightarrow>
          (case iterated ic of
             Inl x \<Rightarrow> Inl x
           | Inr entries \<Rightarrow>
               (case inject_refs ids sts of
                  Inl x \<Rightarrow> Inl x
                | Inr errs \<Rightarrow>
                    Inr (concat (map (inject_ref_errors ids (step_label st ''?'')) entries) @ errs))))"

definition branch_ref_errors :: "string list \<Rightarrow> string \<Rightarrow> pyval \<Rightarrow> string list" where
  "branch_ref_errors ids label branch =
     (case pget branch ''next'' of
        Some (PStr sid) \<Rightarrow> err_if (sid \<notin> set ids)
          (at_step label (''branch references nonexistent step '' @ quoted sid))
      | _ \<Rightarrow> [])"

definition branch_refs :: "string list \<Rightarrow> pyval \<Rightarrow> string list" where
  "branch_refs ids st =
     (let label = step_label st ''?'' in
      (case pget st ''branches'' of
         Some (PList branches) \<Rightarrow> concat (map (branch_ref_errors ids label) branches)
       | _ \<Rightarrow> [])
      @ (case pget st ''default_branch'' of
           Some (PStr sid) \<Rightarrow> err_if (sid \<notin> set ids)
             (at_step label (''default_branch references nonexistent step '' @ quoted sid))
         | _ \<Rightarrow> []))"

section \<open>Guardrails\<close>

definition GUARDRAIL_ACTIONS :: "string list" where
  "GUARDRAIL_ACTIONS = [''escalate'', ''force_branch'', ''warn'']"

definition TRIGGER_TYPES :: "string list" where
  "TRIGGER_TYPES = [''keyword_match'', ''output_length'', ''step_count'', ''step_revisit'']"

text \<open>\<open>v not in {...}\<close> on a set of strings.\<close>

definition not_in_names :: "pyval \<Rightarrow> string list \<Rightarrow> exn + bool" where
  "not_in_names v names =
     (if hashable v then Inr (v \<notin> PStr ` set names) else Inl (unhashable v))"

definition action_errors :: "string \<Rightarrow> pyval \<Rightarrow> exn + string list" where
  "action_errors at gr =
     (case pget gr ''action'' of
        None \<Rightarrow> Inr []
      | Some v \<Rightarrow> map_sum id
          (\<lambda>bad. err_if bad (at @ '' action must be one of '' @ repr_strs GUARDRAIL_ACTIONS))
          (not_in_names v GUARDRAIL_ACTIONS))"

definition trigger_errors :: "string \<Rightarrow> pyval \<Rightarrow> exn + string list" where
  "trigger_errors at gr =
     (case pget gr ''trigger'' of
        None \<Rightarrow> Inr []
      | Some t \<Rightarrow>
          if \<not> is_dict t then Inr [at @ '' trigger must be a mapping'']
          else (case pget t ''type'' of
             None \<Rightarrow> Inr [at @ '' trigger missing '' @ quoted ''type'']
           | Some v \<Rightarrow> map_sum id
               (\<lambda>bad. err_if bad (at @ '' trigger type must be one of '' @ repr_strs TRIGGER_TYPES))
               (not_in_names v TRIGGER_TYPES)))"

definition target_step_errors :: "string \<Rightarrow> string list \<Rightarrow> pyval \<Rightarrow> string list" where
  "target_step_errors at ids gr =
     (if pget gr ''action'' \<noteq> Some (PStr ''force_branch'') then []
      else (case pget gr ''target_step'' of
         None \<Rightarrow> [at @ '' force_branch action requires '' @ quoted ''target_step'']
       | Some (PStr sid) \<Rightarrow> err_if (sid \<notin> set ids)
           (at @ '' target_step references nonexistent step '' @ quoted sid)
       | Some _ \<Rightarrow> []))"

definition guardrail_errors :: "string list \<Rightarrow> nat \<Rightarrow> pyval \<Rightarrow> exn + string list" where
  "guardrail_errors ids gi gr =
     (let at = at_index ''guardrails'' gi in
      if \<not> is_dict gr then Inr [at @ '' must be a mapping'']
      else (case action_errors at gr of
         Inl x \<Rightarrow> Inl x
       | Inr es \<Rightarrow>
           (case trigger_errors at gr of
              Inl x \<Rightarrow> Inl x
            | Inr ts \<Rightarrow> Inr (
                concat (map (\<lambda>rk. err_if (\<not> phas gr rk) (at @ '' missing required key '' @ quoted rk))
                  [''id'', ''trigger'', ''action'', ''message''])
                @ es @ ts @ target_step_errors at ids gr))))"

fun guardrails_errors :: "string list \<Rightarrow> nat \<Rightarrow> pyval list \<Rightarrow> exn + string list" where
  "guardrails_errors ids gi [] = Inr []"
| "guardrails_errors ids gi (gr # grs) =
     (case guardrail_errors ids gi gr of
        Inl x \<Rightarrow> Inl x
      | Inr es \<Rightarrow>
          (case guardrails_errors ids (Suc gi) grs of
             Inl x \<Rightarrow> Inl x
           | Inr es' \<Rightarrow> Inr (es @ es')))"

definition guardrails_field_errors :: "string list \<Rightarrow> pyval \<Rightarrow> exn + string list" where
  "guardrails_field_errors ids doc =
     (case pget doc ''guardrails'' of
        None \<Rightarrow> Inr []
      | Some (PList grs) \<Rightarrow> guardrails_errors ids 0 grs
      | Some _ \<Rightarrow> Inr [''Workflow '' @ quoted ''guardrails'' @ '' must be a list''])"

section \<open>validate\_workflow and load\_workflow\<close>

text \<open>The errors of the steps and of the references between them.\<close>

definition steps_errors ::
  "check_schema \<Rightarrow> registry option \<Rightarrow> string \<Rightarrow> pyval \<Rightarrow> pyval list \<Rightarrow> exn + string list" where
  "steps_errors check reg stem doc steps =
     (case all_step_ids steps of
        Inl x \<Rightarrow> Inl x
      | Inr ids \<Rightarrow>
          (case inject_refs ids steps of
             Inl x \<Rightarrow> Inl x
           | Inr inj_errs \<Rightarrow>
               (case guardrails_field_errors ids doc of
                  Inl x \<Rightarrow> Inl x
                | Inr gs \<Rightarrow> Inr (
                    each_indexed 0 (step_errors check) steps
                    @ registry_errors reg
                        (case pget doc ''name'' of Some v \<Rightarrow> py_str v | None \<Rightarrow> stem) steps
                    @ validate_workflow_preconditions steps @ inj_errs
                    @ concat (map (branch_refs ids) steps) @ gs))))"

definition validate_document ::
  "check_schema \<Rightarrow> registry option \<Rightarrow> string \<Rightarrow> pyval \<Rightarrow> exn + string list \<times> pyval option" where
  "validate_document check reg stem doc =
     (let head = schema_version_errors doc @ on_field doc ''conversation_repair'' repair_errors
            @ concat (map (\<lambda>k. err_if (\<not> phas doc k) (''Workflow missing required key: '' @ quoted k))
                [''name'', ''description'', ''category'', ''output_format'']) in
      case pget doc ''steps'' of
        Some (PList []) \<Rightarrow> Inr (head @ [''Workflow must have at least one step''], None)
      | Some (PList steps) \<Rightarrow>
          (case steps_errors check reg stem doc steps of
             Inl x \<Rightarrow> Inl x
           | Inr errs \<Rightarrow> Inr (head @ errs, Some (with_schema_version doc)))
      | _ \<Rightarrow> Inr (head @ [''Workflow missing required key: '' @ quoted ''steps'' @ '' (must be a list)''], None))"

text \<open>
  The file: what \<^verbatim>\<open>os.path.getsize\<close> says, and what \<^verbatim>\<open>read_text\<close> and \<^verbatim>\<open>yaml.safe_load\<close> make of it;
  \<open>stem\<close> is \<^verbatim>\<open>Path(path).stem\<close>.
\<close>

datatype workflow_file = StatFailed string | Sized nat yaml_source

definition validate_workflow ::
  "check_schema \<Rightarrow> registry option \<Rightarrow> string \<Rightarrow> string \<Rightarrow> workflow_file
   \<Rightarrow> exn + string list \<times> pyval option" where
  "validate_workflow check reg path stem file =
     (case file of
        StatFailed m \<Rightarrow> Inr ([m], None)
      | Sized bytes src \<Rightarrow>
          if YAML_MAX < bytes then
            Inl (RuntimeError (''Workflow YAML '' @ quoted path @ '' is '' @ str_nat bytes
              @ '' bytes, exceeds YAML_MAX of '' @ str_nat YAML_MAX @ '' bytes''))
          else (case src of
             ReadFailed m \<Rightarrow> Inr ([m], None)
           | YamlFailed m \<Rightarrow> Inr ([''YAML parse error: '' @ m], None)
           | Loaded doc \<Rightarrow>
               if \<not> is_dict doc then
                 Inr ([''Workflow YAML must be a mapping, got '' @ type_name doc], None)
               else validate_document check reg stem doc))"

definition load_workflow ::
  "check_schema \<Rightarrow> registry option \<Rightarrow> string \<Rightarrow> string \<Rightarrow> workflow_file \<Rightarrow> exn + pyval" where
  "load_workflow check reg path stem file =
     (case validate_workflow check reg path stem file of
        Inl x \<Rightarrow> Inl x
      | Inr (err # errs, _) \<Rightarrow> Inl (ValueError err)
      | Inr ([], Some doc) \<Rightarrow> Inr doc
      | Inr ([], None) \<Rightarrow> Inl (AssertionError []))"

text \<open>\<open>workflow_fingerprint\<close>, on what \<^verbatim>\<open>yaml.safe_load\<close> made of the text.\<close>

definition workflow_fingerprint_of :: "'e base_env_scheme \<Rightarrow> pyval \<Rightarrow> string" where
  "workflow_fingerprint_of e parsed = sha256_hex e (json_canonical parsed)"

end
