(* ===== verification/SchemaProps.thy ===== *)
theory SchemaProps
  imports Schema McpExecutor
begin

text \<open>
What an accepted workflow satisfies: references between steps, guardrails and servers
  lead somewhere, preconditions look at earlier steps, and the arguments of a tool call
  resolve at run time without an exception but the one the cascade handles. The last section has a
  concrete document, and one the validator accepts although it should not.
\<close>

section \<open>Accepted documents\<close>

lemma load_accepts:
  assumes "load_workflow check reg path stem file = Inr doc"
  obtains raw steps where "pget raw ''steps'' = Some (PList steps)" "steps \<noteq> []"
    "steps_errors check reg stem raw steps = Inr []" "doc = with_schema_version raw"
proof -
  from assms obtain raw where raw: "validate_document check reg stem raw = Inr ([], Some doc)"
    by (auto simp: load_workflow_def validate_workflow_def
        split: sum.splits list.splits option.splits workflow_file.splits yaml_source.splits if_splits)
  show thesis
    using raw that by (auto simp: validate_document_def Let_def
        split: sum.splits list.splits option.splits pyval.splits if_splits)
qed

lemma with_schema_version_pget: "k \<noteq> ''schema_version'' \<Longrightarrow> pget (with_schema_version doc) k = pget doc k"
  by (simp add: with_schema_version_def split: pyval.split)

lemma steps_errors_Nil:
  assumes "steps_errors check reg stem doc steps = Inr []"
  obtains ids where "all_step_ids steps = Inr ids" "inject_refs ids steps = Inr []"
    "guardrails_field_errors ids doc = Inr []"
    "\<forall>k < length steps. step_errors check k (steps ! k) = []"
    "registry_errors reg (case pget doc ''name'' of Some v \<Rightarrow> py_str v | None \<Rightarrow> stem) steps = []"
    "validate_workflow_preconditions steps = []" "\<forall>st\<in>set steps. branch_refs ids st = []"
  using assms by (auto simp: steps_errors_def each_indexed_Nil split: sum.splits)

definition ids_of :: "pyval list \<Rightarrow> string set" where
  "ids_of steps = {sid. \<exists>st\<in>set steps. pget st ''id'' = Some (PStr sid)}"

lemma all_step_ids_set: "all_step_ids steps = Inr ids \<Longrightarrow> set ids = ids_of steps"
proof (induction steps arbitrary: ids)
  case (Cons st steps)
  show ?case
  proof (cases "\<exists>sid. pget st ''id'' = Some (PStr sid)")
    case True
    with Cons show ?thesis by (auto simp: ids_of_def split: sum.splits)
  next
    case False
    then have "ids_of (st # steps) = ids_of steps" by (auto simp: ids_of_def)
    with Cons False show ?thesis by (auto split: option.splits pyval.splits if_splits)
  qed
qed (simp add: ids_of_def)

text \<open>The references of one step and of one guardrail lead to steps of the workflow.\<close>

definition linked :: "string set \<Rightarrow> pyval \<Rightarrow> bool" where
  "linked ids st \<longleftrightarrow>
     (\<forall>bs b t. pget st ''branches'' = Some (PList bs) \<and> b \<in> set bs \<and> pget b ''next'' = Some (PStr t) \<longrightarrow> t \<in> ids) \<and>
     (\<forall>t. pget st ''default_branch'' = Some (PStr t) \<longrightarrow> t \<in> ids) \<and>
     (\<forall>ics ic t. pget st ''inject_context'' = Some (PList ics) \<and> ic \<in> set ics \<and> pget ic ''from'' = Some (PStr t) \<longrightarrow> t \<in> ids)"

lemma branch_refs_linked: "branch_refs ids st = [] \<Longrightarrow>
    (\<forall>bs b t. pget st ''branches'' = Some (PList bs) \<and> b \<in> set bs \<and> pget b ''next'' = Some (PStr t) \<longrightarrow> t \<in> set ids) \<and>
    (\<forall>t. pget st ''default_branch'' = Some (PStr t) \<longrightarrow> t \<in> set ids)"
  by (fastforce simp: branch_refs_def branch_ref_errors_def Let_def)

lemma inject_refs_linked:
  "inject_refs ids steps = Inr [] \<Longrightarrow> st \<in> set steps \<Longrightarrow> pget st ''inject_context'' = Some (PList ics) \<Longrightarrow>
   ic \<in> set ics \<Longrightarrow> pget ic ''from'' = Some (PStr t) \<Longrightarrow> t \<in> set ids"
proof (induction steps)
  case (Cons x steps)
  show ?case
  proof (cases "st = x")
    case True
    with Cons.prems show ?thesis by (fastforce simp: inject_ref_errors_def split: sum.splits)
  next
    case False
    with Cons.prems have "inject_refs ids steps = Inr []" "st \<in> set steps"
      by (auto split: option.splits sum.splits)
    with Cons.IH Cons.prems show ?thesis by blast
  qed
qed simp

lemma guardrails_linked:
  "guardrails_errors ids gi grs = Inr [] \<Longrightarrow> gr \<in> set grs \<Longrightarrow> pget gr ''action'' = Some (PStr ''force_branch'') \<Longrightarrow>
   pget gr ''target_step'' = Some (PStr t) \<Longrightarrow> t \<in> set ids"
proof (induction ids gi grs rule: guardrails_errors.induct)
  case (2 ids gi x grs)
  then show ?case
  proof (cases "gr = x")
    case True
    with 2 have "guardrail_errors ids gi gr = Inr []" by (auto split: sum.splits)
    with 2 have "target_step_errors (at_index ''guardrails'' gi) ids gr = []"
      by (cases gr) (auto simp: guardrail_errors_def Let_def split: sum.splits)
    with 2 show ?thesis by (simp add: target_step_errors_def)
  next
    case False
    with 2 show ?thesis by (auto split: sum.splits)
  qed
qed simp

lemma mcp_steps_servers:
  assumes "registry_errors reg nm steps = []" and "st \<in> set steps" "is_mcp_step st"
  obtains r where "reg = Some r"
    "\<And>s. pget st ''server'' = Some (PStr s) \<Longrightarrow> s \<noteq> [] \<Longrightarrow> \<not> contains s ''${'' \<Longrightarrow> dhas r s"
proof -
  from assms(2) obtain i where "i < length steps" "steps ! i = st" by (auto simp: in_set_conv_nth)
  then have "(i, st) \<in> set (List.enumerate 0 steps)"
    by (auto simp: in_set_conv_nth nth_enumerate_eq intro!: exI [of _ i])
  with assms(3) have mem: "(step_label st (str_nat i), st) \<in> set (mcp_steps steps)"
    by (force simp: mcp_steps_def)
  with assms(1) obtain r where r: "reg = Some r"
    by (auto simp: registry_errors_def split: option.splits if_splits)
  moreover have "unknown_server_errors r nm (step_label st (str_nat i), st) = []"
    using assms(1) mem r by (auto simp: registry_errors_def split: if_splits)
  ultimately have "dhas r s" if "pget st ''server'' = Some (PStr s)" "s \<noteq> []" "\<not> contains s ''${''" for s
    using that by (simp add: unknown_server_errors_def nonempty_str_def)
  with r show thesis by (rule that)
qed

lemma literal_errors_Nil:
  "literal_errors label k st = [] \<Longrightarrow> \<exists>s. pget st k = Some (PStr s) \<and> s \<noteq> [] \<and> \<not> contains s ''${''"
  by (auto simp: literal_errors_def nonempty_str_def split: option.splits pyval.splits if_splits)

lemma step_errors_Nil:
  assumes "step_errors check k st = []"
  shows "is_dict st \<and> phas st ''id'' \<and> phas st ''title'' \<and>
    (if is_mcp_step st then validate_mcp_tool_call_step (step_label st (str_nat k)) st = []
     else validate_step_optional_fields check (step_label st (str_nat k)) st = [])"
proof -
  have miss: "missing_step_keys st required = [] \<longleftrightarrow> (\<forall>r\<in>set required. phas st r)" for required
    unfolding missing_step_keys_def by (metis (no_types, lifting) filter_empty_conv set_empty set_sort)
  show ?thesis
    using assms by (auto simp: step_errors_def Let_def miss REQUIRED_STEP_KEYS_def REQUIRED_STEP_KEYS_MCP_def
        split: if_splits)
qed

text \<open>The keys a step must have, written out for the two kinds of steps.\<close>

definition keyed :: "pyval \<Rightarrow> bool" where
  "keyed st \<longleftrightarrow>
     is_dict st \<and> (\<forall>k\<in>{''id'', ''title''}. pget st k \<noteq> None) \<and>
     (if pget st ''action'' = Some (PStr ''mcp_tool_call'')
      then (\<forall>k\<in>{''server'', ''tool''}. \<exists>x. pget st k = Some (PStr x) \<and> x \<noteq> []) \<and>
        (\<exists>d. pget st ''args'' = Some (PDict d)) \<and>
        (\<forall>k\<in>{''directive_template'', ''gates'', ''anti_patterns'', ''call'', ''collect'', ''output_schema''}.
           pget st k = None)
      else pget st ''directive_template'' \<noteq> None \<and>
        (\<forall>k\<in>{''gates'', ''anti_patterns''}. \<exists>xs. pget st k = Some (PList xs)))"

lemma step_errors_keyed:
  assumes "step_errors check k st = []"
  shows "keyed st"
proof -
  note ok = step_errors_Nil [OF assms]
  have miss: "missing_step_keys st required = [] \<longleftrightarrow> (\<forall>r\<in>set required. phas st r)" for required
    unfolding missing_step_keys_def by (metis (no_types, lifting) filter_empty_conv set_empty set_sort)
  show ?thesis
  proof (cases "is_mcp_step st")
    case True
    let ?l = "step_label st (str_nat k)"
    have v: "validate_mcp_tool_call_step ?l st = []" using ok True by simp
    then have "literal_errors ?l ''server'' st = []" "literal_errors ?l ''tool'' st = []"
      "args_errors ?l st = []" "mutex_errors ?l st = []"
      by (simp_all add: validate_mcp_tool_call_step_def)
    with ok True show ?thesis
      by (auto simp: keyed_def is_mcp_step_def phas_def args_errors_def mutex_errors_def MCP_MUTEX_FIELDS_def
          dest!: literal_errors_Nil split: option.splits pyval.splits)
  next
    case False
    have "on_field st ''gates'' (\<lambda>v. err_if (\<not> is_list v) (at_step (step_label st (str_nat k)) ''gates must be a list'')) = []"
      "on_field st ''anti_patterns'' (\<lambda>v. err_if (\<not> is_list v) (at_step (step_label st (str_nat k)) ''anti_patterns must be a list'')) = []"
      "missing_step_keys st REQUIRED_STEP_KEYS = []"
      using assms ok False by (simp_all add: step_errors_def Let_def)
    then show ?thesis
      using ok False
      by (auto simp: keyed_def is_mcp_step_def phas_def miss REQUIRED_STEP_KEYS_def on_field_def
          elim!: is_list.elims split: option.splits)
  qed
qed

text \<open>
  C27. A workflow that \<open>load_workflow\<close> accepts has a non-empty list of steps, each
  a mapping with its required keys: id and title; in an \<open>mcp_tool_call\<close> step a
  non-empty string as server and as tool, a mapping as args, and none of
  \<open>directive_template\<close>, gates, \<open>anti_patterns\<close>, call, collect and
  \<open>output_schema\<close>; in any other step a \<open>directive_template\<close>, a list of
  gates and a list of \<open>anti_patterns\<close>. The server of an
  \<open>mcp_tool_call\<close> step is in the registry that was given. Every branch, default
  branch and injected step, and every target of a \<open>force_branch\<close> guardrail, that is
  a string names a step of the workflow.
\<close>

theorem accepted_workflow_is_linked:
  assumes "load_workflow check reg path stem file = Inr doc"
  shows "\<exists>steps. pget doc ''steps'' = Some (PList steps) \<and> steps \<noteq> [] \<and>
    (\<forall>st\<in>set steps. keyed st \<and> linked (ids_of steps) st \<and>
       (is_mcp_step st \<longrightarrow> (\<exists>r s. reg = Some r \<and> pget st ''server'' = Some (PStr s) \<and> dhas r s))) \<and>
    (\<forall>grs gr t. pget doc ''guardrails'' = Some (PList grs) \<and> gr \<in> set grs \<and>
       pget gr ''action'' = Some (PStr ''force_branch'') \<and> pget gr ''target_step'' = Some (PStr t) \<longrightarrow>
       t \<in> ids_of steps)"
proof -
  from load_accepts [OF assms] obtain raw steps where
    raw: "pget raw ''steps'' = Some (PList steps)" "steps \<noteq> []" "doc = with_schema_version raw"
    and errs: "steps_errors check reg stem raw steps = Inr []" .
  from steps_errors_Nil [OF errs] obtain ids nm where
    ids: "all_step_ids steps = Inr ids" and inj_ok: "inject_refs ids steps = Inr []"
    and grs: "guardrails_field_errors ids raw = Inr []"
    and each: "\<forall>k < length steps. step_errors check k (steps ! k) = []"
    and servers: "registry_errors reg nm steps = []"
    and branches: "\<forall>st\<in>set steps. branch_refs ids st = []" by metis
  have set: "set ids = ids_of steps" by (rule all_step_ids_set [OF ids])
  have "keyed st \<and> linked (ids_of steps) st \<and>
       (is_mcp_step st \<longrightarrow> (\<exists>r s. reg = Some r \<and> pget st ''server'' = Some (PStr s) \<and> dhas r s))"
    if st: "st \<in> set steps" for st
  proof -
    from st each obtain k where k: "step_errors check k st = []" by (auto simp: in_set_conv_nth)
    note ok = step_errors_Nil [OF k]
    have link: "linked (ids_of steps) st"
      using branch_refs_linked [of ids st] branches st inject_refs_linked [OF inj_ok st]
      unfolding linked_def set [symmetric] by blast
    have "\<exists>r s. reg = Some r \<and> pget st ''server'' = Some (PStr s) \<and> dhas r s" if mcp: "is_mcp_step st"
    proof -
      from ok mcp have "literal_errors (step_label st (str_nat k)) ''server'' st = []"
        by (simp add: validate_mcp_tool_call_step_def)
      from literal_errors_Nil [OF this] mcp_steps_servers [OF servers st mcp] show ?thesis by metis
    qed
    with step_errors_keyed [OF k] link show ?thesis by blast
  qed
  then have all: "\<forall>st\<in>set steps. keyed st \<and> linked (ids_of steps) st \<and>
       (is_mcp_step st \<longrightarrow> (\<exists>r s. reg = Some r \<and> pget st ''server'' = Some (PStr s) \<and> dhas r s))"
    by (rule ballI)
  have guards: "t \<in> ids_of steps" if "pget doc ''guardrails'' = Some (PList gs)" "gr \<in> set gs"
      "pget gr ''action'' = Some (PStr ''force_branch'')" "pget gr ''target_step'' = Some (PStr t)" for gs gr t
    using that grs guardrails_linked [of ids 0 gs gr t] raw(3)
    by (auto simp: guardrails_field_errors_def with_schema_version_pget set)
  have "pget doc ''steps'' = Some (PList steps)" using raw by (simp add: with_schema_version_pget)
  moreover from guards have "\<forall>grs gr t. pget doc ''guardrails'' = Some (PList grs) \<and> gr \<in> set grs \<and>
       pget gr ''action'' = Some (PStr ''force_branch'') \<and> pget gr ''target_step'' = Some (PStr t) \<longrightarrow>
       t \<in> ids_of steps" by blast
  ultimately show ?thesis using raw(2) all by (intro exI [of _ steps] conjI)
qed

section \<open>Preconditions look back\<close>

lemma index_steps_keep:
  "dget acc sid = Some (m, x) \<Longrightarrow> m < i \<Longrightarrow> \<exists>m' x'. dget (index_steps i steps acc) sid = Some (m', x') \<and> m \<le> m'"
proof (induction steps arbitrary: i m x acc)
  case (Cons st steps)
  show ?case
  proof (cases "pget st ''id'' = Some (PStr sid)")
    case True
    then have "dget (dput sid (i, st) acc) sid = Some (i, st)" by simp
    from Cons.IH [OF this, of "Suc i"] Cons.prems True show ?thesis by fastforce
  next
    case False
    then have "dget (case pget st ''id'' of Some (PStr x) \<Rightarrow> dput x (i, st) acc | _ \<Rightarrow> acc) sid = Some (m, x)"
      using Cons.prems(1) by (auto split: option.splits pyval.splits)
    from Cons.IH [OF this, of "Suc i"] Cons.prems(2) show ?thesis by simp
  qed
qed auto

lemma index_steps_last:
  "k < length steps \<Longrightarrow> pget (steps ! k) ''id'' = Some (PStr sid) \<Longrightarrow>
   \<exists>m x. dget (index_steps i steps acc) sid = Some (m, x) \<and> i + k \<le> m"
proof (induction steps arbitrary: i k acc)
  case (Cons st steps)
  show ?case
  proof (cases k)
    case 0
    with Cons.prems have "pget st ''id'' = Some (PStr sid)" by simp
    then show ?thesis
      using index_steps_keep [of "dput sid (i, st) acc" sid i st "Suc i" steps] 0 by simp
  next
    case (Suc k')
    with Cons.prems Cons.IH [of k' "Suc i"] show ?thesis by fastforce
  qed
qed simp

lemma ref_looks_back:
  assumes "load_workflow check reg path stem file = Inr doc" and steps: "pget doc ''steps'' = Some (PList steps)"
    and k: "k < length steps" and ref: "precondition_ref (steps ! k) = Some ref" "is_valid_ref_path ref"
    and parts: "split_on (CHR ''.'') ref = hd_part # sid # segs"
  shows "0 < k \<and> (\<forall>m < length steps. pget (steps ! m) ''id'' = Some (PStr sid) \<longrightarrow> m < k)"
proof -
  from load_accepts [OF assms(1)] obtain raw steps' where
    raw: "pget raw ''steps'' = Some (PList steps')" "doc = with_schema_version raw"
    and errs: "steps_errors check reg stem raw steps' = Inr []" by metis
  with steps have "steps' = steps" by (simp add: with_schema_version_pget)
  with steps_errors_Nil [OF errs] have "validate_workflow_preconditions steps = []" by metis
  with k have none: "precondition_step_errors (index_steps 0 steps []) k (steps ! k) = []"
    by (simp add: validate_workflow_preconditions_def each_indexed_Nil)
  then have pos: "0 < k" using ref by (cases k) (simp_all add: precondition_step_errors_def)
  have "m < k" if m: "m < length steps" "pget (steps ! m) ''id'' = Some (PStr sid)" for m
  proof -
    from index_steps_last [OF m, of 0 "[]"] obtain m' x where
      "dget (index_steps 0 steps []) sid = Some (m', x)" "m \<le> m'" by auto
    with none ref parts pos show ?thesis
      by (auto simp: precondition_step_errors_def Let_def split: if_splits)
  qed
  with pos show ?thesis by blast
qed

text \<open>Steps other than tool calls have a well-formed predicate when they have any.\<close>

lemma filter_singleton_has:
  assumes "filter P (map fst d) = [k]"
  shows "P k \<and> (\<exists>v. map_of d k = Some v)"
proof -
  have "k \<in> set (filter P (map fst d))" using assms by simp
  then have "P k" "k \<in> fst ` set d" by auto
  then show ?thesis by (metis map_of_eq_None_iff not_None_eq)
qed

lemma one_predicate:
  assumes "precondition_errors label (PDict d) = []"
  shows "\<exists>k. filter (\<lambda>k. k \<in> set PREDICATES) (map fst d) = [k] \<and>
    (if k = ''when_equals'' then when_equals_errors label (the (pget (PDict d) k)) = []
     else when_present_errors label (the (pget (PDict d) k)) = [])"
proof -
  let ?present = "filter (\<lambda>k. k \<in> set PREDICATES) (map fst d)"
  have "\<exists>k. ?present = [k]"
    using assms by (cases ?present; cases "tl ?present") (simp_all add: precondition_errors_def Let_def)
  then obtain k where k: "?present = [k]" ..
  with assms show ?thesis
    by (cases "k = ''when_equals''") (simp_all add: precondition_errors_def Let_def)
qed

lemma when_equals_errors_Nil:
  "when_equals_errors label we = [] \<Longrightarrow>
   \<exists>ref. pget we ''ref'' = Some (PStr ref) \<and> is_valid_ref_path ref \<and> phas we ''value''"
  by (cases "pget we ''ref''"; cases "the (pget we ''ref'')")
    (simp_all add: when_equals_errors_def split: if_splits)

lemma when_present_errors_Nil:
  "when_present_errors label wp = [] \<Longrightarrow> \<exists>ref. wp = PStr ref \<and> is_valid_ref_path ref"
  by (cases wp) (simp_all add: when_present_errors_def)

lemma precondition_errors_Nil:
  assumes "precondition_errors label pc = []"
  shows "\<exists>ref. is_valid_ref_path ref \<and>
    ((\<exists>we. pget pc ''when_equals'' = Some we \<and> pget we ''ref'' = Some (PStr ref) \<and> phas we ''value'') \<or>
     pget pc ''when_equals'' = None \<and> pget pc ''when_present'' = Some (PStr ref))"
proof -
  from assms obtain d where d: "pc = PDict d" by (cases pc) (simp_all add: precondition_errors_def)
  from one_predicate [OF assms [unfolded d]] obtain k where
    k: "filter (\<lambda>k. k \<in> set PREDICATES) (map fst d) = [k]"
    "if k = ''when_equals'' then when_equals_errors label (the (pget (PDict d) k)) = []
     else when_present_errors label (the (pget (PDict d) k)) = []" by blast
  from filter_singleton_has [OF k(1)] obtain v where v: "k \<in> set PREDICATES" "map_of d k = Some v" by blast
  show ?thesis
  proof (cases "k = ''when_equals''")
    case True
    with k v when_equals_errors_Nil [of label v] d show ?thesis by auto
  next
    case False
    with v have eq: "k = ''when_present''" by (auto simp: PREDICATES_def)
    have "''when_equals'' \<notin> set (filter (\<lambda>k. k \<in> set PREDICATES) (map fst d))" using k(1) eq by simp
    then have "map_of d ''when_equals'' = None" by (simp add: PREDICATES_def map_of_eq_None_iff)
    with eq k(2) v when_present_errors_Nil [of label v] d show ?thesis by auto
  qed
qed

lemma starts_with_iff: "starts_with s p \<longleftrightarrow> (\<exists>r. s = p @ r)"
  by (induction s p rule: starts_with.induct) auto

lemma valid_ref_parts:
  assumes "is_valid_ref_path ref"
  obtains sid segs where "split_on (CHR ''.'') ref = ''step_data'' # sid # segs"
proof -
  from assms obtain r where "ref = ''step_data.'' @ r" by (auto simp: is_valid_ref_path_def starts_with_iff)
  moreover obtain sid segs where "split_on (CHR ''.'') r = sid # segs" by (cases "split_on (CHR ''.'') r") simp_all
  ultimately show thesis using that by simp
qed

text \<open>
  In an accepted workflow a precondition that names a step of the workflow names an earlier one.
\<close>

theorem preconditions_look_back:
  assumes "load_workflow check reg path stem file = Inr doc" and steps: "pget doc ''steps'' = Some (PList steps)"
    and k: "k < length steps" and pc: "phas (steps ! k) ''precondition''" and mcp: "\<not> is_mcp_step (steps ! k)"
  shows "\<exists>ref sid segs. precondition_ref (steps ! k) = Some ref \<and>
    split_on (CHR ''.'') ref = ''step_data'' # sid # segs \<and> 0 < k \<and>
    (\<forall>m < length steps. pget (steps ! m) ''id'' = Some (PStr sid) \<longrightarrow> m < k)"
proof -
  from load_accepts [OF assms(1)] obtain raw steps' where
    raw: "pget raw ''steps'' = Some (PList steps')" "doc = with_schema_version raw"
    and errs: "steps_errors check reg stem raw steps' = Inr []" by metis
  with steps have "steps' = steps" by (simp add: with_schema_version_pget)
  with steps_errors_Nil [OF errs] k have "step_errors check k (steps ! k) = []" by metis
  from step_errors_Nil [OF this] mcp
  have "validate_step_optional_fields check (step_label (steps ! k) (str_nat k)) (steps ! k) = []" by simp
  with pc obtain v where v: "pget (steps ! k) ''precondition'' = Some v"
      "precondition_errors (step_label (steps ! k) (str_nat k)) v = []"
    by (auto simp: phas_def validate_step_optional_fields_def)
  from precondition_errors_Nil [OF v(2)] v(1) obtain ref where
    ref: "precondition_ref (steps ! k) = Some ref" "is_valid_ref_path ref"
    by (auto simp: precondition_ref_def)
  from valid_ref_parts [OF ref(2)] obtain sid segs where
    parts: "split_on (CHR ''.'') ref = ''step_data'' # sid # segs" .
  from ref_looks_back [OF assms(1-3) ref parts] ref(1) parts show ?thesis by blast
qed

section \<open>Arguments of tool calls\<close>

text \<open>The strings at the leaves of an argument tree.\<close>

fun leaf_strings :: "pyval \<Rightarrow> string list" where
  "leaf_strings (PStr s) = [s]"
| "leaf_strings (PList xs) = concat (map leaf_strings xs)"
| "leaf_strings (PDict d) = concat (map (\<lambda>x. leaf_strings (snd x)) d)"
| "leaf_strings v = []"

definition arg_string_ok :: "string \<Rightarrow> bool" where
  "arg_string_ok s \<longleftrightarrow> contains s ''${'' \<longrightarrow> ref_string s \<and> is_valid_ref_path (butlast (drop 2 s))"

lemma arg_errors_Nil:
  "validate_mcp_arg_value label path v = [] \<longleftrightarrow> list_all arg_string_ok (leaf_strings v)"
  "validate_mcp_arg_dict label path d = [] \<longleftrightarrow> list_all (\<lambda>x. list_all arg_string_ok (leaf_strings (snd x))) d"
  "validate_mcp_arg_list label path i xs = [] \<longleftrightarrow> list_all (\<lambda>x. list_all arg_string_ok (leaf_strings x)) xs"
  by (induction label path v and label path d and label path i xs
      rule: validate_mcp_arg_value_validate_mcp_arg_dict_validate_mcp_arg_list.induct)
    (auto simp: arg_string_ok_def list_all_iff)

lemma split_on_chars: "set s \<subseteq> insert c (\<Union>(set ` set (split_on c s)))"
proof (induction s)
  case (Cons x s)
  then show ?case by (cases "split_on c s") auto
qed simp

lemma chomp_cases: "s = chomp s \<or> s = chomp s @ [CHR 0x0A]"
  by (cases s rule: rev_cases) (simp_all add: chomp_def)

lemma brace_char: "\<not> letter_char (CHR ''}'')" "\<not> is_digit (CHR ''}'')"
  by (simp_all add: letter_char_def is_digit_def)

lemma ref_segment_char:
  assumes "ref_segment seg" "x \<in> set seg"
  shows "letter_char x \<or> is_digit x \<or> x \<in> {CHR ''_'', CHR ''-'', CHR 0x0A}"
proof -
  obtain c cs where c: "chomp seg = c # cs" using assms(1) by (cases "chomp seg") (simp_all add: ref_segment_def)
  from chomp_cases [of seg] assms(2) have "x \<in> set (c # cs) \<or> x = CHR 0x0A"
    unfolding c by (metis Un_iff empty_iff list.set(1) set_ConsD set_append)
  with assms(1) c show ?thesis by (auto simp: ref_segment_def list_all_iff)
qed

lemma ref_segment_chars: "ref_segment seg \<Longrightarrow> CHR ''}'' \<notin> set seg"
  using ref_segment_char [of seg "CHR ''}''"] brace_char by auto

lemma valid_ref_no_brace:
  assumes "is_valid_ref_path ref"
  shows "CHR ''}'' \<notin> set ref"
proof
  assume "CHR ''}'' \<in> set ref"
  with split_on_chars [of ref "CHR ''.''"] obtain seg where
    seg: "seg \<in> set (split_on (CHR ''.'') ref)" "CHR ''}'' \<in> set seg" by auto
  from valid_ref_parts [OF assms] obtain sid segs where parts: "split_on (CHR ''.'') ref = ''step_data'' # sid # segs" .
  with seg assms have "ref_segment seg" by (auto simp: is_valid_ref_path_def list_all_iff)
  with ref_segment_chars [of seg] seg(2) show False by blast
qed

lemma ends_with_last: "ends_with s [c] \<Longrightarrow> s \<noteq> [] \<and> last s = c"
  by (cases s rule: rev_cases) (simp_all add: ends_with_def)

lemma accepted_ref_string:
  assumes "ref_string s" and valid: "is_valid_ref_path (butlast (drop 2 s))"
  shows "is_ref_string s"
proof -
  obtain c where c: "s = c \<or> s = c @ [CHR 0x0A]" "starts_with c ''${step_data.''" "ends_with c ''}''"
    using chomp_cases [of s] assms(1) by (auto simp: ref_string_def Let_def)
  from c(2) obtain r where r: "c = ''${step_data.'' @ r" by (auto simp: starts_with_iff)
  from ends_with_last [OF c(3)] have "r \<noteq> [] \<and> last r = CHR ''}''"
    unfolding r by (cases "r = []") simp_all
  then have "CHR ''}'' \<in> set r" by (metis last_in_set)
  then have "CHR ''}'' \<in> set (butlast (drop 2 (c @ [CHR 0x0A])))"
    unfolding r by (simp add: butlast_append)
  with valid_ref_no_brace [OF valid] c(1) have s: "s = c" by blast
  have "starts_with s ''${''" "contains s ''step_data.''"
    unfolding s r by simp_all
  with c(3) s show ?thesis by (simp add: is_ref_string_def)
qed

lemma collect_Inl: "collect rs = Inl x \<Longrightarrow> Inl x \<in> set rs"
  by (induction rs rule: collect.induct) (auto split: sum.splits)

lemma arg_string_resolves:
  assumes "arg_string_ok s" and "resolve_args (PStr s) data sk me = Inl x"
  shows "\<exists>sid\<in>set sk. x = SkippedPredecessor sid me"
proof -
  from assms(2) have ref: "is_ref_string s" and x: "resolve_ref (butlast (drop 2 s)) data sk me = Inl x"
    by (auto split: if_splits sum.splits option.splits)
  then have "contains s ''${''" by (auto simp: is_ref_string_def starts_with_iff)
  with assms(1) have "is_valid_ref_path (butlast (drop 2 s))" by (simp add: arg_string_ok_def)
  from valid_ref_parts [OF this] obtain sid segs where
    "split_on (CHR ''.'') (butlast (drop 2 s)) = ''step_data'' # sid # segs" .
  with x show ?thesis by (auto simp: resolve_ref_def split: if_splits option.splits)
qed

lemma accepted_arg_resolves:
  "list_all arg_string_ok (leaf_strings v) \<Longrightarrow> resolve_args v data sk me = Inl x \<Longrightarrow>
   \<exists>sid\<in>set sk. x = SkippedPredecessor sid me"
proof (induction v arbitrary: x)
  case (PStr s)
  then show ?case using arg_string_resolves by simp
next
  case (PList xs)
  then have "collect (map (\<lambda>x. resolve_args x data sk me) xs) = Inl x" by (auto split: sum.splits)
  from collect_Inl [OF this] PList show ?case by (fastforce simp: list_all_iff)
next
  case (PDict d)
  then have "collect (map (\<lambda>x. resolve_args (snd x) data sk me) d) = Inl x" by (auto split: sum.splits)
  from collect_Inl [OF this] PDict show ?case by (fastforce simp: list_all_iff)
qed simp_all

text \<open>
  In an accepted workflow, what the executor reads in the arguments of an
  \<open>mcp_tool_call\<close> step as a reference is one the validator checked: a well-formed
  path into \<open>step_data\<close>. No argument mixes text and interpolation.
\<close>

theorem accepted_args_resolve:
  assumes "load_workflow check reg path stem file = Inr doc" and "pget doc ''steps'' = Some (PList steps)"
    and "st \<in> set steps" and "is_mcp_step st"
  shows "\<exists>d. pget st ''args'' = Some (PDict d) \<and>
    (\<forall>s\<in>set (leaf_strings (PDict d)). is_ref_string s \<longleftrightarrow> contains s ''${'') \<and>
    (\<forall>data sk me. case resolve_args (PDict d) data sk me of
        Inl x \<Rightarrow> \<exists>sid\<in>set sk. x = SkippedPredecessor sid me
      | Inr _ \<Rightarrow> True)"
proof -
  from load_accepts [OF assms(1)] obtain raw steps' where
    raw: "pget raw ''steps'' = Some (PList steps')" "doc = with_schema_version raw"
    and errs: "steps_errors check reg stem raw steps' = Inr []" by metis
  with assms(2) have "steps' = steps" by (simp add: with_schema_version_pget)
  with steps_errors_Nil [OF errs] have "\<forall>k < length steps. step_errors check k (steps ! k) = []" by metis
  with assms(3) obtain k where "step_errors check k st = []" by (auto simp: in_set_conv_nth)
  from step_errors_Nil [OF this] assms(4) have "args_errors (step_label st (str_nat k)) st = []"
    by (simp add: validate_mcp_tool_call_step_def)
  then obtain d where d: "pget st ''args'' = Some (PDict d)" "validate_mcp_arg_dict (step_label st (str_nat k)) [] d = []"
    by (auto simp: args_errors_def split: option.splits pyval.splits)
  then have ok: "list_all arg_string_ok (leaf_strings (PDict d))"
    by (auto simp: arg_errors_Nil list_all_iff)
  then have "\<forall>s\<in>set (leaf_strings (PDict d)). is_ref_string s \<longleftrightarrow> contains s ''${''"
    using accepted_ref_string by (auto simp: list_all_iff arg_string_ok_def is_ref_string_def starts_with_iff)
  with d(1) accepted_arg_resolves [OF ok] show ?thesis by (auto split: sum.split)
qed

section \<open>Concrete documents\<close>

definition search_server :: registry where
  "search_server = [(''search'', \<lparr>server_name = ''search'', url = ''http://search'', transport = ''http'',
     auth = \<lparr>auth_type = ''bearer'', token_env = ''TOKEN''\<rparr>, timeout_default = None\<rparr>)]"

definition llm_step :: "string \<Rightarrow> (string \<times> pyval) list \<Rightarrow> pyval" where
  "llm_step sid fs = PDict ([(''id'', PStr sid), (''title'', PStr sid), (''directive_template'', PStr ''go''),
     (''gates'', PList []), (''anti_patterns'', PList [])] @ fs)"

definition tool_step_doc :: "string \<Rightarrow> string \<Rightarrow> (string \<times> pyval) list \<Rightarrow> pyval" where
  "tool_step_doc sid arg fs = PDict ([(''id'', PStr sid), (''title'', PStr sid), (''action'', PStr ''mcp_tool_call''),
     (''server'', PStr ''search''), (''tool'', PStr ''find''), (''args'', PDict [(''q'', PStr arg)])] @ fs)"

definition document :: "pyval list \<Rightarrow> pyval" where
  "document steps = PDict [(''name'', PStr ''w''), (''description'', PStr ''d''), (''category'', PStr ''c''),
     (''output_format'', PStr ''text''), (''steps'', PList steps)]"

definition digest_steps :: "pyval list" where
  "digest_steps =
     [llm_step ''topic'' [],
      tool_step_doc ''find'' ''${step_data.topic}'' [],
      llm_step ''digest'' [(''precondition'', PDict [(''when_present'', PStr ''step_data.find.value'')]),
        (''branches'', PList [PDict [(''next'', PStr ''topic''), (''condition'', PStr ''unclear'')]]),
        (''default_branch'', PStr ''digest'')]]"

definition load_digest :: "exn + pyval" where
  "load_digest = load_workflow (\<lambda>_. None) (Some search_server) ''w.yaml'' ''w'' (Sized 100 (Loaded (document digest_steps)))"

lemmas validator_eval = validate_workflow_def validate_document_def steps_errors_def step_errors_def
  schema_version_errors_def on_field_def guardrails_field_errors_def registry_errors_def mcp_steps_def
  unknown_server_errors_def missing_step_keys_def validate_mcp_tool_call_step_def literal_errors_def
  args_errors_def mutex_errors_def unknown_field_errors_def validate_step_optional_fields_def
  artifacts_errors_def precondition_errors_def when_present_errors_def branches_errors_def
  branch_entry_errors_def str_errors_def validate_workflow_preconditions_def precondition_step_errors_def
  precondition_ref_def branch_refs_def branch_ref_errors_def step_label_def nonempty_str_def
  is_mcp_step_def is_str_key_def phas_def step_keys_def PREDICATES_def REQUIRED_STEP_KEYS_def
  REQUIRED_STEP_KEYS_MCP_def MCP_MUTEX_FIELDS_def MCP_ALLOWED_STEP_KEYS_def dhas_def py_str_def

lemma digest_refs_ok:
  "ref_string ''${step_data.topic}''" "is_valid_ref_path ''step_data.topic''"
  "is_valid_ref_path ''step_data.find.value''"
  by code_simp+

lemma load_digest_ok: "load_digest = Inr (with_schema_version (document digest_steps))"
  by (simp add: load_digest_def load_workflow_def validator_eval document_def digest_steps_def llm_step_def
      tool_step_doc_def search_server_def YAML_MAX_def digest_refs_ok Let_def cong: err_if_cong)

lemma digest_doc_steps: "pget (with_schema_version (document digest_steps)) ''steps'' = Some (PList digest_steps)"
  by code_simp

text \<open>
  What the validator lets through: two steps of one id, a tool call that is its own default
  branch, and a tool call whose precondition has no predicate.
\<close>

definition odd_steps :: "pyval list" where
  "odd_steps =
     [llm_step ''a'' [], llm_step ''a'' [],
      tool_step_doc ''poll'' ''x'' [(''default_branch'', PStr ''poll''), (''precondition'', PDict [])]]"

lemma validator_accepts_odd_steps:
  "load_workflow (\<lambda>_. None) (Some search_server) ''w.yaml'' ''w'' (Sized 100 (Loaded (document odd_steps))) =
     Inr (with_schema_version (document odd_steps))"
  by (simp add: odd_steps_def load_workflow_def validator_eval document_def llm_step_def
      tool_step_doc_def search_server_def YAML_MAX_def Let_def cong: err_if_cong)

theorem accepted_workflow_is_linked_witness:
  "keyed (digest_steps ! 1) \<and> linked (ids_of digest_steps) (digest_steps ! 2)"
  using accepted_workflow_is_linked [OF load_digest_ok [unfolded load_digest_def]] digest_doc_steps
  by (auto simp: digest_steps_def)

theorem preconditions_look_back_witness:
  "\<exists>sid. split_on (CHR ''.'') ''step_data.find.value'' = [''step_data'', sid, ''value''] \<and>
     (\<forall>m < 3. pget (digest_steps ! m) ''id'' = Some (PStr sid) \<longrightarrow> m < 2)"
proof -
  have "2 < length digest_steps" "phas (digest_steps ! 2) ''precondition''" "\<not> is_mcp_step (digest_steps ! 2)"
    by code_simp+
  from preconditions_look_back [OF load_digest_ok [unfolded load_digest_def] digest_doc_steps this]
  show ?thesis
    by (auto simp: digest_steps_def llm_step_def precondition_ref_def)
qed

theorem accepted_args_resolve_witness:
  "is_ref_string ''${step_data.topic}'' \<and> \<not> is_ref_string ''topic''"
proof -
  have st: "digest_steps ! 1 \<in> set digest_steps" "is_mcp_step (digest_steps ! 1)" by code_simp+
  have "pget (digest_steps ! 1) ''args'' = Some (PDict [(''q'', PStr ''${step_data.topic}'')])" by code_simp
  with accepted_args_resolve [OF load_digest_ok [unfolded load_digest_def] digest_doc_steps st]
  have "is_ref_string ''${step_data.topic}'' \<longleftrightarrow> contains ''${step_data.topic}'' ''${''" by auto
  then show ?thesis by (simp add: is_ref_string_def)
qed

end
