(* ===== verification/App.thy ===== *)
theory App
  imports CallGraph SchemaProps
begin

text \<open>
How a server comes up (\<^verbatim>\<open>create_app\<close> in \<^verbatim>\<open>__init__.py\<close>): every workflow file is loaded and
  fingerprinted, then the calls between them are checked. The registry of external servers is
  an argument; the FastMCP wiring is left out.
\<close>

section \<open>create\_app (\_\_init\_\_.py)\<close>

text \<open>
  The YAML files of the directory in the order \<^verbatim>\<open>glob\<close> lists them: path, stem, what
  \<^verbatim>\<open>load_workflow\<close> finds, and the document \<^verbatim>\<open>workflow_fingerprint\<close> parses out of the text it reads again.
\<close>

record workflow_entry =
  we_path :: string
  we_stem :: string
  we_file :: workflow_file
  we_reread :: pyval

text \<open>\<open>workflows[wf["name"]]\<close>: a name that is no string is outside the model.\<close>

fun load_all ::
  "'e base_env_scheme \<Rightarrow> check_schema \<Rightarrow> registry option \<Rightarrow> workflow_entry list \<Rightarrow>
   workflows \<Rightarrow> (string, string) dict \<Rightarrow> exn + workflows \<times> (string, string) dict" where
  "load_all e check reg [] wfs fps = Inr (wfs, fps)"
| "load_all e check reg (x # xs) wfs fps =
     (case load_workflow check reg (we_path x) (we_stem x) (we_file x) of
        Inl err \<Rightarrow> Inl err
      | Inr doc \<Rightarrow>
          (case pget doc ''name'' of
             Some (PStr name) \<Rightarrow>
               load_all e check reg xs (dput name doc wfs)
                 (dput name (workflow_fingerprint_of e (we_reread x)) fps)
           | _ \<Rightarrow> Inl (KeyError ''name'')))"

definition create_app ::
  "'e base_env_scheme \<Rightarrow> check_schema \<Rightarrow> registry option \<Rightarrow> string \<Rightarrow> workflow_entry list \<Rightarrow>
   exn + workflows \<times> (string, string) dict" where
  "create_app e check reg wf_path files =
     (case load_all e check reg files [] [] of
        Inl x \<Rightarrow> Inl x
      | Inr (wfs, fps) \<Rightarrow>
          (case validate_workflow_calls wfs of
             Inl x \<Rightarrow> Inl x
           | Inr (err # _) \<Rightarrow> Inl (ValueError err)
           | Inr [] \<Rightarrow>
               if wfs = [] then
                 Inl (RuntimeError (''No workflow YAML files found in '' @ wf_path))
               else Inr (wfs, fps)))"

section \<open>What a running server has checked\<close>

definition accepted :: "check_schema \<Rightarrow> registry option \<Rightarrow> pyval \<Rightarrow> bool" where
  "accepted check reg doc \<longleftrightarrow> (\<exists>path stem file. load_workflow check reg path stem file = Inr doc)"

lemma load_all_ok:
  assumes "load_all e check reg xs wfs fps = Inr (wfs', fps')"
    and "distinct (map fst wfs)" "dom (dget fps) = dom (dget wfs)"
    and "\<forall>(name, doc)\<in>set wfs. accepted check reg doc \<and> pget doc ''name'' = Some (PStr name)"
  shows "distinct (map fst wfs') \<and> dom (dget fps') = dom (dget wfs') \<and>
    (\<forall>(name, doc)\<in>set wfs'. accepted check reg doc \<and> pget doc ''name'' = Some (PStr name))"
  using assms
proof (induction xs arbitrary: wfs fps)
  case (Cons x xs)
  from Cons.prems(1) obtain doc name where
    doc: "load_workflow check reg (we_path x) (we_stem x) (we_file x) = Inr doc"
      "pget doc ''name'' = Some (PStr name)"
    and rest: "load_all e check reg xs (dput name doc wfs)
      (dput name (workflow_fingerprint_of e (we_reread x)) fps) = Inr (wfs', fps')"
    by (auto split: sum.splits option.splits pyval.splits)
  have "\<forall>(n, d)\<in>set (dput name doc wfs). accepted check reg d \<and> pget d ''name'' = Some (PStr n)"
    using Cons.prems(4) doc set_dput by (fastforce simp: accepted_def)
  moreover have "dom (dget (dput name (workflow_fingerprint_of e (we_reread x)) fps)) = dom (dget (dput name doc wfs))"
  proof (rule set_eqI)
    have "k \<in> dom (dget fps) \<longleftrightarrow> k \<in> dom (dget wfs)" for k by (simp only: Cons.prems(3))
    then show "k \<in> dom (dget (dput name (workflow_fingerprint_of e (we_reread x)) fps)) \<longleftrightarrow>
        k \<in> dom (dget (dput name doc wfs))" for k
      by (simp only: domIff dget_dput split: if_split) simp
  qed
  ultimately show ?case by (intro Cons.IH [OF rest] distinct_update Cons.prems(2))
qed simp

text \<open>
  A server that \<open>create_app\<close> brings up has at least one workflow, each accepted by
  the validator under its own name and with a fingerprint, all call targets loaded and an
  acyclic call graph.
\<close>

theorem created_app_is_checked:
  assumes "create_app e check reg dir files = Inr (wfs, fps)"
  shows "wfs \<noteq> [] \<and> distinct (map fst wfs) \<and> dom (dget fps) = dom (dget wfs) \<and>
    (\<forall>(name, doc)\<in>set wfs. accepted check reg doc \<and> pget doc ''name'' = Some (PStr name)) \<and>
    calls_closed wfs \<and> acyclic (calls wfs)"
proof -
  from assms have load: "load_all e check reg files [] [] = Inr (wfs, fps)"
    and calls: "validate_workflow_calls wfs = Inr []" and "wfs \<noteq> []"
    by (auto simp: create_app_def split: sum.splits list.splits if_splits)
  from load_all_ok [OF load] call_check_accepts [OF calls] \<open>wfs \<noteq> []\<close> show ?thesis by simp
qed

definition digest_entry :: workflow_entry where
  "digest_entry = \<lparr>we_path = ''w.yaml'', we_stem = ''w'', we_file = Sized 100 (Loaded (document digest_steps)),
     we_reread = document digest_steps\<rparr>"

definition digest_app :: "workflows \<times> (string, string) dict" where
  "digest_app = ([(''w'', with_schema_version (document digest_steps))],
     [(''w'', ''#'' @ json_canonical (document digest_steps))])"

lemma create_digest_app:
  "create_app \<lparr>sha256_hex = (\<lambda>s. ''#'' @ s), session_cap = 500\<rparr> (\<lambda>_. None) (Some search_server) ''workflows''
     [digest_entry] = Inr digest_app"
proof -
  have name: "pget (with_schema_version (document digest_steps)) ''name'' = Some (PStr ''w'')" by code_simp
  have "validate_workflow_calls [(''w'', with_schema_version (document digest_steps))] = Inr []" by code_simp
  with load_digest_ok name show ?thesis
    by (simp add: create_app_def digest_entry_def load_digest_def digest_app_def workflow_fingerprint_of_def)
qed

theorem created_app_is_checked_witness:
  "acyclic (calls (fst digest_app)) \<and> dom (dget (snd digest_app)) = {''w''}"
proof -
  have "create_app \<lparr>sha256_hex = (\<lambda>s. ''#'' @ s), session_cap = 500\<rparr> (\<lambda>_. None) (Some search_server)
     ''workflows'' [digest_entry] = Inr (fst digest_app, snd digest_app)"
    using create_digest_app by simp
  from created_app_is_checked [OF this]
  have "dom (dget (snd digest_app)) = dom (dget (fst digest_app))" "acyclic (calls (fst digest_app))" by blast+
  moreover have "dom (dget (fst digest_app)) = {''w''}" by (auto simp: digest_app_def split: if_splits)
  ultimately show ?thesis by simp
qed

end
