(* ===== verification/Diagram.thy ===== *)
theory Diagram
  imports Schema McpExecutor
begin

text \<open>
  The Mermaid rendering of a workflow (\<^verbatim>\<open>diagram.py\<close>): node lines, reference blocks of the
  called workflows, and the edges of each step, as lines of text. What the validator leaves
  unchecked (titles, everything in a tool-call step) may raise here, as in the code. The
  command line is left out.
\<close>

section \<open>Labels\<close>

definition REGISTRY_REQUIRED_CODE :: string where
  "REGISTRY_REQUIRED_CODE = ''mcp_tool_call_registry_required''"

definition escape_char :: "char \<Rightarrow> string" where
  "escape_char c = (if c = dq then ''&quot;'' else [c])"

definition escape_label :: "string \<Rightarrow> string" where
  "escape_label text = concat (map escape_char text)"

text \<open>\<open>_escape_label\<close> of a value that may be no string.\<close>

fun escape_value :: "pyval \<Rightarrow> exn + string" where
  "escape_value (PStr s) = Inr (escape_label s)"
| "escape_value v = Inl (AttributeError (quoted (type_name v) @ '' object has no attribute '' @ quoted ''replace''))"

section \<open>Loading\<close>

definition load_doc :: "check_schema \<Rightarrow> string \<Rightarrow> string \<Rightarrow> workflow_file \<Rightarrow> exn + pyval" where
  "load_doc check path stem file =
     andThen (validate_workflow check None path stem file) (\<lambda>(errors, doc).
       case (errors, doc) of
         (_ # _, Some d) \<Rightarrow>
           (case filter (\<lambda>e. \<not> contains e REGISTRY_REQUIRED_CODE) errors of
              e # _ \<Rightarrow> Inl (ValueError e)
            | [] \<Rightarrow> Inr d)
       | (e # _, None) \<Rightarrow> Inl (ValueError e)
       | ([], Some d) \<Rightarrow> Inr d
       | ([], None) \<Rightarrow> Inl (AssertionError []))"

section \<open>Nodes and edges\<close>

text \<open>A document that loaded has mappings for steps, so \<open>step.get\<close> is \<open>pget\<close>.\<close>

definition node_line :: "pyval \<Rightarrow> exn + string" where
  "node_line st =
     andThen (getitem st ''id'') (\<lambda>sid.
     andThen (getitem st ''title'') (\<lambda>title.
     andThen (escape_value title) (\<lambda>label.
       Inr (if is_mcp_step st
            then ''    '' @ py_str sid @ ''[['' @ [dq] @ label @ [dq] @ '']]''
            else ''    '' @ py_str sid @ ''['' @ [dq] @ label @ [dq] @ '']''))))"

definition branch_line :: "pyval \<Rightarrow> pyval \<Rightarrow> exn + string" where
  "branch_line sid b =
     andThen (getitem b ''condition'') (\<lambda>c.
     andThen (escape_value c) (\<lambda>label.
     andThen (getitem b ''next'') (\<lambda>n.
       Inr (''    '' @ py_str sid @ '' -->|'' @ [dq] @ label @ [dq] @ ''| '' @ py_str n))))"

definition plain_line :: "pyval \<Rightarrow> pyval \<Rightarrow> string" where
  "plain_line a b = ''    '' @ py_str a @ '' --> '' @ py_str b"

definition edge_lines :: "pyval \<Rightarrow> pyval option \<Rightarrow> exn + string list" where
  "edge_lines st next_step =
     andThen (getitem st ''id'') (\<lambda>sid.
       case pget st ''branches'' of
         Some brs \<Rightarrow>
           if truthy brs then
             andThen (iterated brs) (\<lambda>xs.
             andThen (collect (map (branch_line sid) xs)) (\<lambda>lines.
               Inr (lines @ (case pget st ''default_branch'' of
                  Some d \<Rightarrow> if truthy d then [plain_line sid d] else []
                | None \<Rightarrow> []))))
           else (case next_step of
              None \<Rightarrow> Inr []
            | Some nxt \<Rightarrow> andThen (getitem nxt ''id'') (\<lambda>n. Inr [plain_line sid n]))
       | None \<Rightarrow>
           (case next_step of
              None \<Rightarrow> Inr []
            | Some nxt \<Rightarrow> andThen (getitem nxt ''id'') (\<lambda>n. Inr [plain_line sid n])))"

definition format_condition_value :: "pyval \<Rightarrow> string" where
  "format_condition_value v =
     (case v of
        PNone \<Rightarrow> ''null''
      | PBool b \<Rightarrow> (if b then ''true'' else ''false'')
      | PInt _ \<Rightarrow> py_str v
      | PFloat _ _ \<Rightarrow> py_str v
      | _ \<Rightarrow> ''&quot;'' @ escape_label (py_str v) @ ''&quot;'')"

text \<open>\<open>ref.split\<close>, then the second and the last segment.\<close>

definition dotted_line :: "pyval \<Rightarrow> string \<Rightarrow> pyval \<Rightarrow> exn + string" where
  "dotted_line st tail ref =
     (case ref of
        PStr r \<Rightarrow>
          (case split_on (CHR ''.'') r of
             _ # src # segs \<Rightarrow>
               andThen (getitem st ''id'') (\<lambda>sid.
                 Inr (''    '' @ src @ '' -. '' @ [dq] @ ''when '' @ last (src # segs) @ '' '' @ tail
                   @ [dq] @ '' .-> '' @ py_str sid))
           | _ \<Rightarrow> Inl (IndexError ''list index out of range''))
      | _ \<Rightarrow> Inl (AttributeError (quoted (type_name ref) @ '' object has no attribute '' @ quoted ''split'')))"

definition precondition_edge :: "pyval \<Rightarrow> exn + string option" where
  "precondition_edge st =
     (case pget st ''precondition'' of
        None \<Rightarrow> Inr None
      | Some pre \<Rightarrow>
          if \<not> truthy pre then Inr None
          else andThen (py_in ''when_equals'' pre) (\<lambda>eq.
            if eq then
              andThen (getitem pre ''when_equals'') (\<lambda>we.
              andThen (getitem we ''ref'') (\<lambda>ref.
              andThen (getitem we ''value'') (\<lambda>v.
                map_sum id Some (dotted_line st (''== '' @ format_condition_value v) ref))))
            else
              andThen (getitem pre ''when_present'') (\<lambda>ref.
                map_sum id Some (dotted_line st ''present'' ref))))"

text \<open>The distinct \<open>call\<close> targets, in the order of their first occurrence.\<close>

fun call_targets :: "pyval list \<Rightarrow> pyval list \<Rightarrow> exn + pyval list" where
  "call_targets [] seen = Inr seen"
| "call_targets (st # sts) seen =
     (case pget st ''call'' of
        None \<Rightarrow> call_targets sts seen
      | Some t \<Rightarrow>
          if \<not> truthy t then call_targets sts seen
          else if \<not> hashable t then Inl (unhashable t)
          else call_targets sts (if list_ex (py_eq t) seen then seen else seen @ [t]))"

definition call_references :: "pyval list \<Rightarrow> exn + string list" where
  "call_references steps =
     andThen (call_targets steps []) (\<lambda>ts.
       Inr (concat (map (\<lambda>t. [''subgraph '' @ py_str t, ''end'']) ts)))"

definition call_edge_line :: "pyval \<Rightarrow> exn + string option" where
  "call_edge_line st =
     (case pget st ''call'' of
        None \<Rightarrow> Inr None
      | Some t \<Rightarrow>
          if truthy t then
            andThen (getitem st ''id'') (\<lambda>sid.
              Inr (Some (''    '' @ py_str sid @ '' -->|'' @ [dq] @ ''calls'' @ [dq] @ ''| '' @ py_str t)))
          else Inr None)"

section \<open>render\<close>

fun opt_list :: "'a option \<Rightarrow> 'a list" where
  "opt_list None = []" | "opt_list (Some x) = [x]"

fun all_edges :: "pyval list \<Rightarrow> exn + string list" where
  "all_edges [] = Inr []"
| "all_edges (st # sts) =
     andThen (edge_lines st (case sts of [] \<Rightarrow> None | nxt # _ \<Rightarrow> Some nxt)) (\<lambda>es.
     andThen (precondition_edge st) (\<lambda>dotted.
     andThen (call_edge_line st) (\<lambda>call.
     andThen (all_edges sts) (\<lambda>rest.
       Inr (es @ opt_list dotted @ opt_list call @ rest)))))"

definition render :: "check_schema \<Rightarrow> string \<Rightarrow> string \<Rightarrow> workflow_file \<Rightarrow> exn + string" where
  "render check path stem file =
     andThen (load_doc check path stem file) (\<lambda>doc.
     andThen (getitem doc ''steps'') (\<lambda>v.
     andThen (iterated v) (\<lambda>steps.
     andThen (collect (map node_line steps)) (\<lambda>nodes.
     andThen (call_references steps) (\<lambda>refs.
     andThen (all_edges steps) (\<lambda>edges.
       Inr (join [CHR 0x0A] ([''flowchart TD'', []] @ nodes @ refs @ edges))))))))"

end
