(* ===== verification/DiagramProps.thy ===== *)
theory DiagramProps
  imports Diagram SchemaProps JsonProps
begin

text \<open>
  What the diagram of an accepted workflow shows: each step once, and the arrows of an abstract
  graph read off the document, no more and no less: one for every way the workflow can go on, every
  call and every precondition.
\<close>

section \<open>What a step draws\<close>

definition step_name :: "pyval \<Rightarrow> string" where
  "step_name st = (case pget st ''id'' of Some v \<Rightarrow> py_str v | None \<Rightarrow> [])"

text \<open>The string at a key.\<close>

definition text_of :: "string \<Rightarrow> pyval \<Rightarrow> string" where
  "text_of k v = (case pget v k of Some (PStr t) \<Rightarrow> t | _ \<Rightarrow> [])"

text \<open>The abstract graph: an arrow is plain, labelled or dotted.\<close>

datatype arrow = Plain string string | Labelled string string string | Dotted string string string

fun arrow_target :: "arrow \<Rightarrow> string" where
  "arrow_target (Plain a b) = b" | "arrow_target (Labelled a l b) = b" | "arrow_target (Dotted a l b) = b"

fun arrow_label :: "arrow \<Rightarrow> string" where
  "arrow_label (Plain a b) = []" | "arrow_label (Labelled a l b) = l" | "arrow_label (Dotted a l b) = l"

fun show_arrow :: "arrow \<Rightarrow> string" where
  "show_arrow (Plain a b) = ''    '' @ a @ '' --> '' @ b"
| "show_arrow (Labelled a l b) = ''    '' @ a @ '' -->|'' @ [dq] @ l @ [dq] @ ''| '' @ b"
| "show_arrow (Dotted a l b) = ''    '' @ a @ '' -. '' @ [dq] @ l @ [dq] @ '' .-> '' @ b"

text \<open>A label: the text with every quote as an entity; a value a precondition compares with.\<close>

definition as_label :: "string \<Rightarrow> string" where
  "as_label t = concat (map (\<lambda>c. if c = dq then ''&quot;'' else [c]) t)"

definition value_label :: "pyval \<Rightarrow> string" where
  "value_label v =
     (case v of
        PNone \<Rightarrow> ''null''
      | PBool b \<Rightarrow> if b then ''true'' else ''false''
      | PInt _ \<Rightarrow> py_str v
      | PFloat _ _ \<Rightarrow> py_str v
      | _ \<Rightarrow> ''&quot;'' @ as_label (py_str v) @ ''&quot;'')"

text \<open>Where a step goes on: one arrow per branch and one to its default, or one to the step after it.\<close>

definition flow_arrows :: "pyval \<Rightarrow> pyval option \<Rightarrow> arrow list" where
  "flow_arrows st nxt =
     (case pget st ''branches'' of
        Some (PList (x # xs)) \<Rightarrow>
          map (\<lambda>b. Labelled (step_name st) (as_label (text_of ''condition'' b)) (text_of ''next'' b)) (x # xs)
          @ (if text_of ''default_branch'' st = [] then []
             else [Plain (step_name st) (text_of ''default_branch'' st)])
      | _ \<Rightarrow> (case nxt of Some n \<Rightarrow> [Plain (step_name st) (step_name n)] | None \<Rightarrow> []))"

text \<open>The dotted arrow from the step a precondition refers to.\<close>

definition gate_arrow :: "pyval \<Rightarrow> string \<Rightarrow> string \<Rightarrow> arrow" where
  "gate_arrow st ref tail =
     (let parts = split_on (CHR ''.'') ref in
      Dotted (parts ! 1) (''when '' @ last parts @ '' '' @ tail) (step_name st))"

definition gate_arrows :: "pyval \<Rightarrow> arrow list" where
  "gate_arrows st =
     (case pget st ''precondition'' of
        None \<Rightarrow> []
      | Some pre \<Rightarrow>
          (case pget pre ''when_equals'' of
             Some we \<Rightarrow> [gate_arrow st (text_of ''ref'' we) (''== '' @ value_label (the (pget we ''value'')))]
           | None \<Rightarrow> [gate_arrow st (text_of ''when_present'' pre) ''present'']))"

definition call_arrows :: "pyval \<Rightarrow> arrow list" where
  "call_arrows st =
     (case pget st ''call'' of Some (PStr t) \<Rightarrow> [Labelled (step_name st) ''calls'' t] | _ \<Rightarrow> [])"

fun arrows :: "pyval list \<Rightarrow> arrow list" where
  "arrows [] = []"
| "arrows (st # sts) =
     flow_arrows st (case sts of [] \<Rightarrow> None | n # _ \<Rightarrow> Some n) @ gate_arrows st @ call_arrows st @ arrows sts"

text \<open>The workflows that are called, each once, in the order of the first call.\<close>

definition called :: "pyval list \<Rightarrow> string list" where
  "called steps = fold (\<lambda>t seen. if t \<in> set seen then seen else seen @ [t])
     (concat (map (\<lambda>st. case pget st ''call'' of Some (PStr t) \<Rightarrow> [t] | _ \<Rightarrow> []) steps)) []"

text \<open>What the validator made sure of, as far as drawing goes.\<close>

definition drawable :: "pyval \<Rightarrow> bool" where
  "drawable st \<longleftrightarrow> (\<exists>v. getitem st ''id'' = Inr v \<and> pget st ''id'' = Some v) \<and>
     (\<exists>t. getitem st ''title'' = Inr (PStr t) \<and> pget st ''title'' = Some (PStr t)) \<and> \<not> is_mcp_step st \<and>
     (\<forall>v. pget st ''branches'' = Some v \<longrightarrow>
        (\<exists>xs. v = PList xs \<and> (\<forall>x\<in>set xs. \<exists>n c. getitem x ''next'' = Inr (PStr n) \<and>
           pget x ''next'' = Some (PStr n) \<and> getitem x ''condition'' = Inr (PStr c) \<and>
           pget x ''condition'' = Some (PStr c)))) \<and>
     (\<forall>v. pget st ''default_branch'' = Some v \<longrightarrow> is_str v) \<and>
     (\<forall>v. pget st ''precondition'' = Some v \<longrightarrow> (\<exists>label. precondition_errors label v = [])) \<and>
     (\<forall>v. pget st ''call'' = Some v \<longrightarrow> (\<exists>t. v = PStr t \<and> t \<noteq> []))"

lemma getitem_dict: "is_dict v \<Longrightarrow> pget v k = Some x \<Longrightarrow> getitem v k = Inr x"
  by (cases v) (simp_all add: getitem_def)

lemma is_str_keyD: "is_str_key v k \<Longrightarrow> \<exists>s. pget v k = Some (PStr s)"
  by (auto simp: is_str_key_def split: option.splits pyval.splits)

lemma str_key_item: "is_dict v \<Longrightarrow> is_str_key v k \<Longrightarrow> \<exists>s. pget v k = Some (PStr s) \<and> getitem v k = Inr (PStr s)"
  using is_str_keyD getitem_dict by blast

lemma branch_entry_errors_Nil:
  "branch_entry_errors label j x = [] \<Longrightarrow> is_dict x \<and> is_str_key x ''next'' \<and> is_str_key x ''condition''"
  by (simp add: branch_entry_errors_def Let_def split: if_splits)

lemma branches_errors_Nil:
  assumes "branches_errors label v = []"
  shows "\<exists>xs. v = PList xs \<and> (\<forall>x\<in>set xs. \<exists>n c. getitem x ''next'' = Inr (PStr n) \<and>
      pget x ''next'' = Some (PStr n) \<and> getitem x ''condition'' = Inr (PStr c) \<and>
      pget x ''condition'' = Some (PStr c))"
proof -
  from assms obtain xs where xs: "v = PList xs" by (cases v) (simp_all add: branches_errors_def)
  with assms have each: "branch_entry_errors label j (xs ! j) = []" if "j < length xs" for j
    using that by (simp add: branches_errors_def each_indexed_Nil)
  have "\<exists>n c. getitem x ''next'' = Inr (PStr n) \<and> pget x ''next'' = Some (PStr n) \<and>
      getitem x ''condition'' = Inr (PStr c) \<and> pget x ''condition'' = Some (PStr c)" if "x \<in> set xs" for x
  proof -
    from that each obtain j where "branch_entry_errors label j x = []" by (auto simp: in_set_conv_nth)
    from branch_entry_errors_Nil [OF this] str_key_item show ?thesis by blast
  qed
  with xs show ?thesis by blast
qed

lemma call_errors_Nil: "call_errors label st v = [] \<Longrightarrow> \<exists>t. v = PStr t \<and> t \<noteq> []"
  by (cases v) (simp_all add: call_errors_def nonempty_str_def split: if_splits)

lemma drawable_step:
  assumes dict: "is_dict st" "phas st ''id''" and title: "is_str_key st ''title''" and mcp: "\<not> is_mcp_step st"
    and ok: "validate_step_optional_fields check label st = []"
  shows "drawable st"
proof -
  note parts = ok [unfolded validate_step_optional_fields_def, simplified]
  from dict obtain v where v: "pget st ''id'' = Some v" by (auto simp: phas_def)
  show ?thesis unfolding drawable_def
  proof (intro conjI allI impI)
    show "\<exists>v. getitem st ''id'' = Inr v \<and> pget st ''id'' = Some v" using v getitem_dict [OF dict(1) v] by blast
    show "\<exists>t. getitem st ''title'' = Inr (PStr t) \<and> pget st ''title'' = Some (PStr t)"
      using str_key_item [OF dict(1) title] by blast
    show "\<not> is_mcp_step st" by (fact mcp)
  next
    fix v assume "pget st ''branches'' = Some v"
    with parts show "\<exists>xs. v = PList xs \<and> (\<forall>x\<in>set xs. \<exists>n c. getitem x ''next'' = Inr (PStr n) \<and>
      pget x ''next'' = Some (PStr n) \<and> getitem x ''condition'' = Inr (PStr c) \<and>
      pget x ''condition'' = Some (PStr c))"
      by (intro branches_errors_Nil [of label]) blast
  next
    fix v assume "pget st ''default_branch'' = Some v"
    with parts show "is_str v" by (simp add: str_errors_def)
  next
    fix v assume "pget st ''precondition'' = Some v"
    with parts show "\<exists>label. precondition_errors label v = []" by blast
  next
    fix v assume "pget st ''call'' = Some v"
    with parts show "\<exists>t. v = PStr t \<and> t \<noteq> []" by (intro call_errors_Nil [of label st]) blast
  qed
qed

lemma escape_no_quote: "dq \<notin> set (escape_label s)"
  by (auto simp: escape_label_def escape_char_def)
lemma quote_char [simp]: "\<not> letter_char dq" "\<not> is_digit dq"
  by (simp_all add: letter_char_def is_digit_def)

lemma number_no_quote: "dq \<notin> set (str_int i)" "dq \<notin> set (dump_float m k)"
proof -
  have [simp]: "dq \<notin> set (str_nat n)" for n using str_nat_digits [of n] by auto
  show "dq \<notin> set (str_int i)" "dq \<notin> set (dump_float m k)"
    by (simp_all add: str_int_def dump_float_def pad_zeros_def Let_def)
qed

lemma as_label_escape [simp]: "escape_label = as_label"
proof -
  have "escape_char = (\<lambda>c. if c = dq then ''&quot;'' else [c])" by (rule ext) (simp add: escape_char_def)
  then show ?thesis by (intro ext) (simp add: escape_label_def as_label_def)
qed

lemma value_label_format [simp]: "format_condition_value = value_label"
  by (rule ext) (simp add: format_condition_value_def value_label_def split: pyval.split)

lemma as_label_no_quote: "dq \<notin> set (as_label t)"
  using escape_no_quote by simp

lemma value_no_quote: "dq \<notin> set (value_label v)"
  by (cases v) (auto simp: value_label_def py_str_def number_no_quote as_label_no_quote)

lemma collect_map: "(\<And>x. x \<in> set xs \<Longrightarrow> f x = Inr (g x)) \<Longrightarrow> collect (map f xs) = Inr (map g xs)"
  by (induction xs) simp_all

lemma drawable_name: "drawable st \<Longrightarrow> \<exists>v. getitem st ''id'' = Inr v \<and> step_name st = py_str v"
  by (auto simp: drawable_def step_name_def)

text \<open>The three kinds of edges of one step.\<close>

lemma edge_lines_drawn:
  assumes st: "drawable st" and nxt: "\<forall>n. nxt = Some n \<longrightarrow> drawable n"
  shows "edge_lines st nxt = Inr (map show_arrow (flow_arrows st nxt))"
proof -
  from drawable_name [OF st] obtain sid where sid: "getitem st ''id'' = Inr sid" "step_name st = py_str sid" by blast
  show ?thesis
  proof (cases "\<exists>x xs. pget st ''branches'' = Some (PList (x # xs))")
    case True
    then obtain x xs where xs: "pget st ''branches'' = Some (PList (x # xs))" by auto
    let ?g = "\<lambda>b. show_arrow (Labelled (step_name st) (as_label (text_of ''condition'' b)) (text_of ''next'' b))"
    have "branch_line sid b = Inr (?g b)" if "b \<in> set (x # xs)" for b
    proof -
      from st xs that obtain n c where "getitem b ''next'' = Inr (PStr n)" "pget b ''next'' = Some (PStr n)"
        "getitem b ''condition'' = Inr (PStr c)" "pget b ''condition'' = Some (PStr c)"
        by (fastforce simp: drawable_def)
      then show ?thesis by (simp add: branch_line_def text_of_def sid(2) py_str_def)
    qed
    note lines = collect_map [of "x # xs" "branch_line sid" ?g, OF this]
    have d: "pget st ''default_branch'' = None \<or> (\<exists>d. pget st ''default_branch'' = Some (PStr d))"
      using st by (cases "pget st ''default_branch''") (auto simp: drawable_def elim: is_str.elims)
    show ?thesis
      using xs sid lines d
      by (auto simp: edge_lines_def flow_arrows_def text_of_def plain_line_def py_str_def)
  next
    case False
    have "\<not> truthy v" if "pget st ''branches'' = Some v" for v
      using st False that by (auto simp: drawable_def neq_Nil_conv)
    then have "edge_lines st nxt = (case nxt of None \<Rightarrow> Inr [] | Some n \<Rightarrow> andThen (getitem n ''id'') (\<lambda>v. Inr [plain_line sid v]))"
      by (simp add: edge_lines_def sid split: option.split)
    moreover have "flow_arrows st nxt = (case nxt of Some n \<Rightarrow> [Plain (step_name st) (step_name n)] | None \<Rightarrow> [])"
      using False by (auto simp: flow_arrows_def split: option.split pyval.split list.split)
    ultimately show ?thesis
      using nxt drawable_name by (cases nxt) (fastforce simp: plain_line_def sid(2))+
  qed
qed

lemma precondition_edge_drawn:
  assumes st: "drawable st"
  shows "\<exists>d. precondition_edge st = Inr d \<and> opt_list d = map show_arrow (gate_arrows st) \<and>
    (\<forall>a\<in>set (gate_arrows st). dq \<notin> set (arrow_label a))"
proof (cases "pget st ''precondition''")
  case None
  then show ?thesis by (simp add: precondition_edge_def gate_arrows_def)
next
  case (Some pre)
  with st obtain label where ok: "precondition_errors label pre = []" by (auto simp: drawable_def)
  then have dict: "is_dict pre" by (cases pre) (simp_all add: precondition_errors_def)
  from precondition_errors_Nil [OF ok] obtain ref where valid: "is_valid_ref_path ref"
    and pre: "(\<exists>we. pget pre ''when_equals'' = Some we \<and> pget we ''ref'' = Some (PStr ref) \<and> phas we ''value'') \<or>
      pget pre ''when_equals'' = None \<and> pget pre ''when_present'' = Some (PStr ref)" by blast
  from valid_ref_parts [OF valid] obtain src segs where
    parts: "split_on (CHR ''.'') ref = ''step_data'' # src # segs" .
  from drawable_name [OF st] obtain sid where sid: "getitem st ''id'' = Inr sid" "step_name st = py_str sid" by blast
  have "last (src # segs) \<in> set (src # segs)" by (rule last_in_set) simp
  then have "ref_segment (last (src # segs))"
    using valid parts by (simp add: is_valid_ref_path_def list_all_iff)
  then have last: "dq \<notin> set (last (src # segs))"
    using ref_segment_char [of "last (src # segs)" dq] by auto
  have line: "dotted_line st tail (PStr ref) = Inr (show_arrow (gate_arrow st ref tail))" for tail
    by (simp add: dotted_line_def parts sid gate_arrow_def)
  have label: "dq \<notin> set (arrow_label (gate_arrow st ref tail))" if "dq \<notin> set tail" for tail
    using last that by (auto simp: gate_arrow_def parts)
  from pre show ?thesis
  proof
    assume "\<exists>we. pget pre ''when_equals'' = Some we \<and> pget we ''ref'' = Some (PStr ref) \<and> phas we ''value''"
    then obtain we v where we: "pget pre ''when_equals'' = Some we" "pget we ''ref'' = Some (PStr ref)" "pget we ''value'' = Some v"
      by (auto simp: phas_def)
    then have items: "getitem pre ''when_equals'' = Inr we" "getitem we ''ref'' = Inr (PStr ref)" "getitem we ''value'' = Inr v"
      using getitem_dict dict by (cases we; simp)+
    have "py_in ''when_equals'' pre = Inr True" "truthy pre"
      using we(1) dict by (cases pre; auto simp: py_in_def)+
    moreover have "dq \<notin> set (''== '' @ value_label v)" using value_no_quote by simp
    ultimately show ?thesis
      using Some items we label by (simp add: precondition_edge_def gate_arrows_def text_of_def line)
  next
    assume wp: "pget pre ''when_equals'' = None \<and> pget pre ''when_present'' = Some (PStr ref)"
    have "py_in ''when_equals'' pre = Inr False" "truthy pre" "getitem pre ''when_present'' = Inr (PStr ref)"
      using wp dict getitem_dict by (cases pre; auto simp: py_in_def)+
    moreover have "dq \<notin> set ''present''" by simp
    ultimately show ?thesis
      using Some wp label by (simp add: precondition_edge_def gate_arrows_def text_of_def line)
  qed
qed

lemma call_edge_drawn:
  assumes st: "drawable st"
  shows "\<exists>c. call_edge_line st = Inr c \<and> opt_list c = map show_arrow (call_arrows st)"
proof (cases "pget st ''call''")
  case None
  then show ?thesis by (simp add: call_edge_line_def call_arrows_def)
next
  case (Some v)
  with st obtain t where t: "v = PStr t" "t \<noteq> []" by (auto simp: drawable_def)
  from drawable_name [OF st] obtain sid where sid: "getitem st ''id'' = Inr sid" "step_name st = py_str sid" by blast
  with Some t show ?thesis by (simp add: call_edge_line_def call_arrows_def py_str_def)
qed

section \<open>The diagram\<close>

lemma all_edges_drawn:
  "\<forall>st\<in>set steps. drawable st \<Longrightarrow> all_edges steps = Inr (map show_arrow (arrows steps)) \<and>
   (\<forall>a\<in>set (arrows steps). dq \<notin> set (arrow_label a))"
proof (induction steps)
  case (Cons st sts)
  let ?nxt = "case sts of [] \<Rightarrow> None | n # _ \<Rightarrow> Some n"
  have st: "drawable st" and sts: "\<forall>x\<in>set sts. drawable x" using Cons.prems by simp_all
  have nxt: "\<forall>n. ?nxt = Some n \<longrightarrow> drawable n" using sts by (cases sts) simp_all
  obtain d where d: "precondition_edge st = Inr d" "opt_list d = map show_arrow (gate_arrows st)"
    "\<forall>a\<in>set (gate_arrows st). dq \<notin> set (arrow_label a)"
    using precondition_edge_drawn [OF st] by blast
  obtain c where c: "call_edge_line st = Inr c" "opt_list c = map show_arrow (call_arrows st)"
    using call_edge_drawn [OF st] by blast
  have "\<forall>a\<in>set (flow_arrows st ?nxt). dq \<notin> set (arrow_label a)"
    using as_label_no_quote
    by (auto simp: flow_arrows_def split: option.split pyval.split list.split)
  moreover have "\<forall>a\<in>set (call_arrows st). dq \<notin> set (arrow_label a)"
    by (auto simp: call_arrows_def split: option.split pyval.split)
  ultimately show ?case
    using Cons.IH [OF sts] d(3) by (simp add: edge_lines_drawn [OF st nxt] d(1,2) c ball_Un)
qed simp

lemma call_targets_drawn:
  "\<forall>st\<in>set steps. drawable st \<Longrightarrow>
   call_targets steps (map PStr seen) =
     Inr (map PStr (fold (\<lambda>t seen. if t \<in> set seen then seen else seen @ [t])
       (concat (map (\<lambda>st. case pget st ''call'' of Some (PStr t) \<Rightarrow> [t] | _ \<Rightarrow> []) steps)) seen))"
proof (induction steps arbitrary: seen)
  case (Cons st sts)
  have seen: "list_ex (py_eq (PStr t)) (map PStr seen) \<longleftrightarrow> t \<in> set seen" for t
    by (auto simp: list_ex_iff)
  show ?case
  proof (cases "pget st ''call''")
    case None
    with Cons show ?thesis by simp
  next
    case (Some v)
    with Cons.prems obtain t where "v = PStr t" "t \<noteq> []" by (auto simp: drawable_def)
    with Some Cons.prems Cons.IH [of seen] Cons.IH [of "seen @ [t]"] seen show ?thesis by simp
  qed
qed simp

lemma firsts_set:
  "distinct seen \<Longrightarrow> distinct (fold (\<lambda>t seen. if t \<in> set seen then seen else seen @ [t]) ts seen) \<and>
   set (fold (\<lambda>t seen. if t \<in> set seen then seen else seen @ [t]) ts seen) = set seen \<union> set ts"
  by (induction ts arbitrary: seen) auto

lemma called_set: "distinct (called steps)"
  "set (called steps) = {t. \<exists>st\<in>set steps. pget st ''call'' = Some (PStr t)}"
proof -
  have "set (concat (map (\<lambda>st. case pget st ''call'' of Some (PStr t) \<Rightarrow> [t] | _ \<Rightarrow> []) steps)) =
      {t. \<exists>st\<in>set steps. pget st ''call'' = Some (PStr t)}"
    by (force split: option.splits pyval.splits)
  then show "distinct (called steps)" "set (called steps) = {t. \<exists>st\<in>set steps. pget st ''call'' = Some (PStr t)}"
    by (simp_all add: called_def firsts_set)
qed

lemma node_line_drawn:
  assumes "drawable st"
  shows "node_line st = Inr (''    '' @ step_name st @ ''['' @ [dq] @ as_label (text_of ''title'' st) @ [dq] @ '']'')"
  using assms drawable_name [OF assms] by (auto simp: node_line_def drawable_def text_of_def)

lemma loaded_without_registry:
  assumes "load_workflow check None path stem file = Inr doc" and steps: "pget doc ''steps'' = Some (PList steps)"
    and titles: "\<forall>st\<in>set steps. is_str_key st ''title''"
  shows "\<forall>st\<in>set steps. drawable st" and "st \<in> set steps \<Longrightarrow> \<forall>n. nxt = Some n \<longrightarrow> n \<in> set steps \<Longrightarrow>
    a \<in> set (flow_arrows st nxt) \<Longrightarrow> arrow_target a \<in> step_name ` set steps"
proof -
  from load_accepts [OF assms(1)] obtain raw steps' where
    raw: "pget raw ''steps'' = Some (PList steps')" "doc = with_schema_version raw"
    and errs: "steps_errors check None stem raw steps' = Inr []" by metis
  with steps have same: "steps' = steps" by (simp add: with_schema_version_pget)
  from steps_errors_Nil [OF errs [unfolded same]] obtain ids nm where
    ids: "all_step_ids steps = Inr ids" and each: "\<forall>k < length steps. step_errors check k (steps ! k) = []"
    and servers: "registry_errors None nm steps = []" and links: "\<forall>st\<in>set steps. branch_refs ids st = []" by metis
  have mcp: "\<not> is_mcp_step st" if "st \<in> set steps" for st
    using mcp_steps_servers [OF servers that] by blast
  show all: "\<forall>st\<in>set steps. drawable st"
  proof
    fix st assume st: "st \<in> set steps"
    with each obtain k where "step_errors check k st = []" by (auto simp: in_set_conv_nth)
    from step_errors_Nil [OF this] mcp [OF st] titles st show "drawable st" by (auto intro: drawable_step)
  qed
  have named: "t \<in> step_name ` set steps" if "t \<in> set ids" for t
    using that all_step_ids_set [OF ids] by (force simp: ids_of_def step_name_def py_str_def)
  assume st: "st \<in> set steps" and nxt: "\<forall>n. nxt = Some n \<longrightarrow> n \<in> set steps" and a: "a \<in> set (flow_arrows st nxt)"
  from branch_refs_linked [of ids st] links st
  have link: "\<And>xs x t. pget st ''branches'' = Some (PList xs) \<Longrightarrow> x \<in> set xs \<Longrightarrow> pget x ''next'' = Some (PStr t) \<Longrightarrow> t \<in> set ids"
    "\<And>t. pget st ''default_branch'' = Some (PStr t) \<Longrightarrow> t \<in> set ids" by blast+
  show "arrow_target a \<in> step_name ` set steps"
  proof (cases "\<exists>x xs. pget st ''branches'' = Some (PList (x # xs))")
    case True
    then obtain x xs where xs: "pget st ''branches'' = Some (PList (x # xs))" by auto
    from a consider b where "b \<in> set (x # xs)" "arrow_target a = text_of ''next'' b"
      | "text_of ''default_branch'' st \<noteq> []" "arrow_target a = text_of ''default_branch'' st"
      by (fastforce simp: flow_arrows_def xs split: if_splits)
    then show ?thesis
    proof cases
      case (1 b)
      with all st xs obtain n where "pget b ''next'' = Some (PStr n)" by (fastforce simp: drawable_def simp del: set_simps)
      with 1 link(1) [OF xs 1(1)] named show ?thesis by (simp add: text_of_def)
    next
      case 2
      then have "pget st ''default_branch'' = Some (PStr (text_of ''default_branch'' st))"
        by (auto simp: text_of_def split: option.splits pyval.splits)
      with link(2) named 2 show ?thesis by simp
    qed
  next
    case False
    then have "flow_arrows st nxt = (case nxt of Some n \<Rightarrow> [Plain (step_name st) (step_name n)] | None \<Rightarrow> [])"
      by (auto simp: flow_arrows_def split: option.split pyval.split list.split)
    with a nxt show ?thesis by (auto split: option.splits)
  qed
qed

text \<open>
  C33. For a workflow the validator accepts without a registry, whose titles are strings, the
  diagram is exactly this text: the heading, one node per step with its title, a block for each
  called workflow, once each, and the arrows in order of the steps: of a step with branches one
  per branch, labelled with its condition, and one to the default branch if there is one; of any
  other step one to the next step, if any; then the dotted arrow from the step the precondition
  refers to, labelled with its test, if there is a precondition, and the arrow to the called
  workflow. No label contains a quote, and every branch, default and next arrow leads to a node.
\<close>

theorem render_draws_the_flow:
  assumes "load_workflow check None path stem file = Inr doc" and "pget doc ''steps'' = Some (PList steps)"
    and "\<forall>st\<in>set steps. is_str_key st ''title''"
  shows "render check path stem file = Inr (join [CHR 0x0A] ([''flowchart TD'', []] @
      map (\<lambda>st. ''    '' @ step_name st @ ''['' @ [dq] @ as_label (text_of ''title'' st) @ [dq] @ '']'') steps @
      concat (map (\<lambda>t. [''subgraph '' @ t, ''end'']) (called steps)) @ map show_arrow (arrows steps))) \<and>
    distinct (called steps) \<and> set (called steps) = {t. \<exists>st\<in>set steps. pget st ''call'' = Some (PStr t)} \<and>
    (\<forall>a\<in>set (arrows steps). dq \<notin> set (arrow_label a)) \<and>
    (\<forall>i < length steps. \<forall>a\<in>set (flow_arrows (steps ! i) (if Suc i < length steps then Some (steps ! Suc i) else None)).
      arrow_target a \<in> step_name ` set steps)"
proof -
  note all = loaded_without_registry(1) [OF assms]
  from assms(1) have "load_doc check path stem file = Inr doc"
    by (auto simp: load_workflow_def load_doc_def split: sum.splits list.splits option.splits)
  moreover have "getitem doc ''steps'' = Inr (PList steps)"
    using assms(2) by (cases doc) (simp_all add: getitem_def)
  moreover have "call_targets steps [] = Inr (map PStr (called steps))"
    using call_targets_drawn [OF all, of "[]"] by (simp add: called_def)
  moreover have "collect (map node_line steps) =
      Inr (map (\<lambda>st. ''    '' @ step_name st @ ''['' @ [dq] @ as_label (text_of ''title'' st) @ [dq] @ '']'') steps)"
    by (rule collect_map) (use all node_line_drawn in blast)
  ultimately have "render check path stem file = Inr (join [CHR 0x0A] ([''flowchart TD'', []] @
      map (\<lambda>st. ''    '' @ step_name st @ ''['' @ [dq] @ as_label (text_of ''title'' st) @ [dq] @ '']'') steps @
      concat (map (\<lambda>t. [''subgraph '' @ t, ''end'']) (called steps)) @ map show_arrow (arrows steps)))"
    using all_edges_drawn [OF all] by (simp add: render_def call_references_def comp_def py_str_def)
  moreover have "\<forall>a\<in>set (arrows steps). dq \<notin> set (arrow_label a)" using all_edges_drawn [OF all] by blast
  moreover have "\<forall>i < length steps. \<forall>a\<in>set (flow_arrows (steps ! i) (if Suc i < length steps then Some (steps ! Suc i) else None)).
      arrow_target a \<in> step_name ` set steps"
  proof (intro allI impI ballI)
    fix i a
    assume i: "i < length steps"
      and a: "a \<in> set (flow_arrows (steps ! i) (if Suc i < length steps then Some (steps ! Suc i) else None))"
    show "arrow_target a \<in> step_name ` set steps"
      by (rule loaded_without_registry(2) [OF assms _ _ a]) (use i in simp_all)
  qed
  ultimately show ?thesis using called_set by blast
qed

section \<open>A concrete workflow\<close>

definition fork_steps :: "pyval list" where
  "fork_steps =
     [llm_step ''ask'' [(''branches'', PList [PDict [(''next'', PStr ''fix''), (''condition'', PStr [dq])]]),
        (''default_branch'', PStr ''done'')],
      llm_step ''fix'' [(''call'', PStr ''sub'')],
      llm_step ''done'' [(''precondition'', PDict [(''when_present'', PStr ''step_data.fix'')])]]"

lemma load_fork: "load_workflow (\<lambda>_. None) None ''w.yaml'' ''w'' (Sized 100 (Loaded (document fork_steps))) =
    Inr (with_schema_version (document fork_steps))"
proof -
  have "is_valid_ref_path ''step_data.fix''" by code_simp
  then show ?thesis
    by (simp add: load_workflow_def validator_eval document_def fork_steps_def llm_step_def YAML_MAX_def Let_def
        call_errors_def nonempty_str_def cong: err_if_cong)
qed

theorem render_draws_the_flow_witness:
  "render (\<lambda>_. None) ''w.yaml'' ''w'' (Sized 100 (Loaded (document fork_steps))) = Inr (join [CHR 0x0A]
     ([''flowchart TD'', [],
       ''    ask['' @ [dq] @ ''ask'' @ [dq] @ '']'', ''    fix['' @ [dq] @ ''fix'' @ [dq] @ '']'',
       ''    done['' @ [dq] @ ''done'' @ [dq] @ '']'',
       ''subgraph sub'', ''end'',
       ''    ask -->|'' @ [dq] @ ''&quot;'' @ [dq] @ ''| fix'', ''    ask --> done'', ''    fix --> done'',
       ''    fix -->|'' @ [dq] @ ''calls'' @ [dq] @ ''| sub'',
       ''    fix -. '' @ [dq] @ ''when fix present'' @ [dq] @ '' .-> done'']))"
proof -
  have steps: "pget (with_schema_version (document fork_steps)) ''steps'' = Some (PList fork_steps)"
    "\<forall>st\<in>set fork_steps. is_str_key st ''title''" by code_simp+
  have "called fork_steps = [''sub'']" by code_simp
  moreover have "arrows fork_steps =
     [Labelled ''ask'' ''&quot;'' ''fix'', Plain ''ask'' ''done'', Plain ''fix'' ''done'', Labelled ''fix'' ''calls'' ''sub'',
      Dotted ''fix'' ''when fix present'' ''done'']" by code_simp
  moreover have "map (\<lambda>st. ''    '' @ step_name st @ ''['' @ [dq] @ as_label (text_of ''title'' st) @ [dq] @ '']'') fork_steps =
     [''    ask['' @ [dq] @ ''ask'' @ [dq] @ '']'', ''    fix['' @ [dq] @ ''fix'' @ [dq] @ '']'',
       ''    done['' @ [dq] @ ''done'' @ [dq] @ '']'']" by code_simp
  ultimately show ?thesis using render_draws_the_flow [OF load_fork steps] by simp
qed

end
