(* ===== verification/Throttle.thy ===== *)
theory Throttle
  imports Prelude Complex_Main
begin

text \<open>
The client-side throttle of the panel, \<^verbatim>\<open>megalos_panel/throttle.py\<close>: the estimate of a
  prompt's tokens, the two rolling windows, one pass of \<^verbatim>\<open>acquire\<close> under the lock and the loop
  around it. Clock readings and waits are rationals. The loop terminates because a sleeper wakes
  up to a shorter window (\<open>sleep_shrinks\<close>); other threads do not run while \<open>acquire\<close> sleeps
  here, their interleaving is in theory \<^verbatim>\<open>ThrottleProps\<close>, by lock section.
\<close>

section \<open>Estimates\<close>

definition RESPONSE_TOKEN_ALLOWANCE :: int where "RESPONSE_TOKEN_ALLOWANCE = 100"
definition CHARS_PER_TOKEN :: nat where "CHARS_PER_TOKEN = 4"

definition estimate_tokens :: "string \<Rightarrow> int \<Rightarrow> int" where
  "estimate_tokens prompt response_allowance =
     max 1 (int (length prompt div CHARS_PER_TOKEN)) + response_allowance"

section \<open>The throttle\<close>

record throttle =
  max_rps :: "rat option"
  max_tpm :: "int option"
  th_calls :: "rat list"
  th_tokens :: "(rat \<times> int) list"

definition new_throttle :: "rat option \<Rightarrow> int option \<Rightarrow> throttle" where
  "new_throttle rps tpm = \<lparr>max_rps = rps, max_tpm = tpm, th_calls = [], th_tokens = []\<rparr>"

definition prune :: "rat \<Rightarrow> throttle \<Rightarrow> throttle" where
  "prune now th = th\<lparr>th_calls := dropWhile (\<lambda>t. 1 < now - t) (th_calls th),
     th_tokens := dropWhile (\<lambda>x. 60 < now - fst x) (th_tokens th)\<rparr>"

definition rps_wait :: "rat \<Rightarrow> throttle \<Rightarrow> exn + rat" where
  "rps_wait now th =
     (case max_rps th of
        None \<Rightarrow> Inr 0
      | Some m \<Rightarrow>
          if m \<le> of_nat (length (th_calls th)) then
            (case th_calls th of
               [] \<Rightarrow> Inl (IndexError ''deque index out of range'')
             | t # _ \<Rightarrow> Inr (max 0 (1 - (now - t) + 1 / 100)))
          else Inr 0)"

definition wait_needed :: "rat \<Rightarrow> int \<Rightarrow> throttle \<Rightarrow> exn + rat" where
  "wait_needed now estimated th =
     (case rps_wait now th of
        Inl x \<Rightarrow> Inl x
      | Inr w \<Rightarrow>
          (case max_tpm th of
             None \<Rightarrow> Inr w
           | Some m \<Rightarrow>
               if estimated \<le> 0 \<or> m < estimated then Inr w
               else if m < sum_list (map snd (th_tokens th)) + estimated then
                 (let oldest = (case th_tokens th of [] \<Rightarrow> now | x # _ \<Rightarrow> fst x)
                  in Inr (max w (60 - (now - oldest) + 1 / 100)))
               else Inr w))"

definition record_event :: "rat \<Rightarrow> int \<Rightarrow> throttle \<Rightarrow> throttle" where
  "record_event now estimated th =
     (let th' = th\<lparr>th_calls := th_calls th @ [now]\<rparr> in
      if 0 < estimated then th'\<lparr>th_tokens := th_tokens th' @ [(now, estimated)]\<rparr> else th')"

text \<open>
  The section under the lock, at the clock reading \<open>now\<close>: the wait it asks for, \<open>None\<close> when it
  admitted the call.
\<close>

definition try_acquire :: "int \<Rightarrow> rat \<Rightarrow> throttle \<Rightarrow> (exn + rat option) \<times> throttle" where
  "try_acquire estimated now th =
     (let th1 = prune now th in
      case wait_needed now estimated th1 of
        Inl x \<Rightarrow> (Inl x, th1)
      | Inr w \<Rightarrow> if w \<le> 0 then (Inr None, record_event now estimated th1) else (Inr (Some w), th1))"

text \<open>
  \<^verbatim>\<open>time.sleep(w)\<close> returns no earlier than asked: \<open>late\<close> is by how much it oversleeps, cut off
  at zero.
\<close>

definition woken :: "(rat \<Rightarrow> rat) \<Rightarrow> rat \<Rightarrow> rat \<Rightarrow> rat" where
  "woken late now w = now + w + max 0 (late now)"

definition th_size :: "throttle \<Rightarrow> nat" where
  "th_size th = length (th_calls th) + length (th_tokens th)"

lemma prune_le: "th_size (prune now th) \<le> th_size th"
  by (simp add: th_size_def prune_def add_mono length_dropWhile_le)

lemma prune_prune: "now \<le> now' \<Longrightarrow> th_size (prune now' (prune now th)) \<le> th_size (prune now th)"
  by (rule prune_le)

text \<open>Whoever sleeps as told wakes up to an event less in the windows.\<close>

lemma wait_prunes:
  assumes w: "wait_needed now estimated th = Inr w" "0 < w" and late: "now + w \<le> now'"
  shows "th_size (prune now' th) < th_size th"
proof -
  have drop: "th_size (prune now' th) < th_size th" if "th_calls th = t # ts" "1 < now' - t" for t ts
    using that by (auto simp: th_size_def prune_def intro!: le_imp_less_Suc add_mono length_dropWhile_le)
  have drop': "th_size (prune now' th) < th_size th" if "th_tokens th = x # xs" "60 < now' - fst x" for x xs
    using that by (auto simp: th_size_def prune_def intro!: le_imp_less_Suc add_mono length_dropWhile_le)
  obtain r where r: "rps_wait now th = Inr r" using w(1) by (auto simp: wait_needed_def split: sum.splits)
  consider "r = w" | m where "estimated \<le> m" "m < sum_list (map snd (th_tokens th)) + estimated"
      "w = max r (60 - (now - (case th_tokens th of [] \<Rightarrow> now | x # _ \<Rightarrow> fst x)) + 1 / 100)"
    using w(1) by (auto simp: wait_needed_def r Let_def not_less split: option.splits if_splits)
  then show ?thesis
  proof cases
    case 1
    with r w(2) obtain t ts where "th_calls th = t # ts" "w = max 0 (1 - (now - t) + 1 / 100)"
      by (auto simp: rps_wait_def split: option.splits if_splits list.splits)
    with late w(2) show ?thesis by (intro drop) auto
  next
    case 2
    then obtain x xs where x: "th_tokens th = x # xs" by (cases "th_tokens th") auto
    with 2(3) have "60 - (now - fst x) + 1 / 100 \<le> w" by simp
    with late show ?thesis by (intro drop' [OF x]) simp
  qed
qed

lemma try_acquire_waits:
  assumes "try_acquire estimated now th = (Inr (Some w), th')"
  shows "th' = prune now th" "0 < w" "wait_needed now estimated th' = Inr w"
  using assms by (auto simp: try_acquire_def Let_def split: sum.splits if_splits)

lemma sleep_shrinks:
  assumes "try_acquire estimated now th = (Inr (Some w), th')"
  shows "th_size (prune (woken late now w) th') < th_size (prune now th)"
  using try_acquire_waits [OF assms] wait_prunes [of now estimated th' w "woken late now w"]
  by (simp add: woken_def)

text \<open>The loop of \<^verbatim>\<open>acquire\<close>, from the clock reading \<open>now\<close>; it returns the reading at admission.\<close>

function acquire :: "(rat \<Rightarrow> rat) \<Rightarrow> int \<Rightarrow> rat \<Rightarrow> throttle \<Rightarrow> (exn + unit) \<times> throttle \<times> rat" where
  "acquire late estimated now th =
     (case try_acquire estimated now th of
        (Inl x, th') \<Rightarrow> (Inl x, th', now)
      | (Inr None, th') \<Rightarrow> (Inr (), th', now)
      | (Inr (Some w), th') \<Rightarrow> acquire late estimated (woken late now w) th')"
  by pat_completeness auto

termination
  by (relation "measure (\<lambda>(late, estimated, now, th). th_size (prune now th))")
    (auto intro: sleep_shrinks dest: sym)

declare acquire.simps [simp del]

end
