(* ===== verification/ThrottleProps.thy ===== *)
theory ThrottleProps
  imports Throttle
begin

text \<open>
What the throttle promises: whatever threads call it, no window of the admitted calls holds
  more than its ceiling allows, and a caller that sleeps as told is admitted.
\<close>

section \<open>Windows of the throttle\<close>

text \<open>
  The lock sections of a process, whichever thread they belong to, are \<open>(reading, estimate)\<close>
  in the order the lock serialises them; the log has those that admitted their call.
\<close>

fun admitted_log :: "throttle \<Rightarrow> (rat \<times> int) list \<Rightarrow> (rat \<times> int) list" where
  "admitted_log th [] = []"
| "admitted_log th ((now, est) # xs) =
     (case try_acquire est now th of
        (r, th') \<Rightarrow> (if r = Inr None then [(now, est)] else []) @ admitted_log th' xs)"

definition calls_in :: "rat \<Rightarrow> (rat \<times> int) list \<Rightarrow> nat" where
  "calls_in t xs = length (filter (\<lambda>x. t \<le> fst x \<and> fst x \<le> t + 1) xs)"

text \<open>An estimate above the whole ceiling is let through on purpose, so it does not count.\<close>

definition tokens_in :: "int \<Rightarrow> rat \<Rightarrow> (rat \<times> int) list \<Rightarrow> int" where
  "tokens_in m t xs =
     sum_list (map snd (filter (\<lambda>x. t \<le> fst x \<and> fst x \<le> t + 60 \<and> 0 < snd x \<and> snd x \<le> m) xs))"

definition windows_ok :: "throttle \<Rightarrow> (rat \<times> int) list \<Rightarrow> bool" where
  "windows_ok th xs \<longleftrightarrow>
     (\<forall>m t. max_rps th = Some m \<longrightarrow> of_nat (calls_in t xs) < m + 1) \<and>
     (\<forall>m t. max_tpm th = Some m \<longrightarrow> tokens_in m t xs \<le> m)"

definition tracks :: "throttle \<Rightarrow> rat \<Rightarrow> (rat \<times> int) list \<Rightarrow> bool" where
  "tracks th seen xs \<longleftrightarrow> sorted (map fst xs) \<and> (\<forall>x\<in>set xs. fst x \<le> seen) \<and>
     th_calls th = filter (\<lambda>t. seen - t \<le> 1) (map fst xs) \<and>
     th_tokens th = filter (\<lambda>x. seen - fst x \<le> 60) (filter (\<lambda>x. 0 < snd x) xs)"

lemma dropWhile_window:
  "sorted (map f xs) \<Longrightarrow> dropWhile (\<lambda>x. c < now - f x) xs = filter (\<lambda>x. now - f x \<le> c) xs"
  for f :: "'a \<Rightarrow> rat"
proof (induction xs)
  case (Cons x xs)
  show ?case
  proof (cases "c < now - f x")
    case False
    have "filter (\<lambda>y. now - f y \<le> c) xs = xs" using False Cons.prems by (fastforce simp: filter_id_conv)
    with False show ?thesis by simp
  qed (use Cons in simp)
qed simp

lemma sorted_filter_map: "sorted (map f xs) \<Longrightarrow> sorted (map f (filter P xs))"
  by (induction xs) auto

lemma tracks_prune:
  assumes t: "tracks th seen xs" and now: "seen \<le> now"
  shows "tracks (prune now th) now xs"
proof -
  have "sorted (map fst (filter (\<lambda>x. seen - fst x \<le> 60) (filter (\<lambda>x. 0 < snd x) xs)))"
    using t by (intro sorted_filter_map) (simp add: tracks_def)
  from dropWhile_window [OF this, of 60 now]
  have tok: "th_tokens (prune now th) = filter (\<lambda>x. now - fst x \<le> 60) (filter (\<lambda>x. 0 < snd x) xs)"
    using t now by (auto simp: tracks_def prune_def filter_filter intro!: filter_cong)
  have "sorted (map (\<lambda>x. x) (filter (\<lambda>t. seen - t \<le> 1) (map fst xs)))"
    using t by (simp add: tracks_def sorted_wrt_filter)
  from dropWhile_window [OF this, of 1 now]
  have "th_calls (prune now th) = filter (\<lambda>t. now - t \<le> 1) (map fst xs)"
    using t now by (auto simp: tracks_def prune_def filter_filter intro!: filter_cong)
  with tok t now show ?thesis by (fastforce simp: tracks_def)
qed

text \<open>What an admission says about the pruned windows.\<close>

lemma rps_admits:
  assumes "tracks th now xs" and "rps_wait now th = Inr w" and "w \<le> 0" and "max_rps th = Some m"
  shows "of_nat (length (th_calls th)) < m"
proof (rule ccontr)
  assume "\<not> of_nat (length (th_calls th)) < m"
  with assms(2-4) obtain t ts where t: "th_calls th = t # ts" "1 - (now - t) + 1 / 100 \<le> 0"
    by (auto simp: rps_wait_def split: list.splits)
  then have "t \<in> set (filter (\<lambda>t. now - t \<le> 1) (map fst xs))"
    using assms(1) by (metis list.set_intros(1) tracks_def)
  with t(2) show False by simp
qed

lemma rps_wait_nonneg: "rps_wait now th = Inr w \<Longrightarrow> 0 \<le> w"
  by (auto simp: rps_wait_def split: option.splits if_splits list.splits)

lemma tpm_admits:
  assumes "tracks th now xs" and w: "wait_needed now est th = Inr w" "w \<le> 0" and m: "max_tpm th = Some m"
    and est: "0 < est" "est \<le> m"
  shows "sum_list (map snd (th_tokens th)) + est \<le> m"
proof (rule ccontr)
  assume "\<not> sum_list (map snd (th_tokens th)) + est \<le> m"
  with w m est obtain r where r: "rps_wait now th = Inr r"
      "w = max r (60 - (now - (case th_tokens th of [] \<Rightarrow> now | x # _ \<Rightarrow> fst x)) + 1 / 100)"
    by (auto simp: wait_needed_def Let_def not_le split: sum.splits)
  show False
  proof (cases "th_tokens th")
    case Nil
    with r w(2) show False by simp
  next
    case (Cons x ts)
    then have "x \<in> set (filter (\<lambda>x. now - fst x \<le> 60) (filter (\<lambda>x. 0 < snd x) xs))"
      using assms(1) by (metis list.set_intros(1) tracks_def)
    with r w(2) Cons show False by auto
  qed
qed

lemma prune_limits [simp]: "max_rps (prune now th) = max_rps th" "max_tpm (prune now th) = max_tpm th"
  by (simp_all add: prune_def)

lemma record_limits [simp]:
  "max_rps (record_event now est th) = max_rps th" "max_tpm (record_event now est th) = max_tpm th"
  by (simp_all add: record_event_def Let_def)

lemma calls_in_window:
  assumes "tracks th now xs" and "t \<le> now" "now \<le> t + 1"
  shows "calls_in t xs \<le> length (th_calls th)"
proof -
  have "th_calls th = map fst (filter (\<lambda>x. now - fst x \<le> 1) xs)"
    using assms(1) by (simp add: tracks_def filter_map o_def)
  moreover have "calls_in t xs \<le> length (filter (\<lambda>x. now - fst x \<le> 1) xs)"
    unfolding calls_in_def by (induction xs) (use assms(2,3) in auto)
  ultimately show ?thesis by simp
qed

lemma sum_list_filter_mono:
  "(\<And>x. x \<in> set xs \<Longrightarrow> P x \<Longrightarrow> Q x) \<Longrightarrow> (\<And>x. x \<in> set xs \<Longrightarrow> Q x \<Longrightarrow> 0 \<le> f x) \<Longrightarrow>
   sum_list (map f (filter P xs)) \<le> sum_list (map f (filter Q xs))" for f :: "'a \<Rightarrow> int"
  by (induction xs) fastforce+

lemma tokens_in_window:
  assumes "tracks th now xs" and "t \<le> now" "now \<le> t + 60"
  shows "tokens_in m t xs \<le> sum_list (map snd (th_tokens th))"
  unfolding tokens_in_def using assms
  by (auto simp: tracks_def filter_filter intro!: sum_list_filter_mono)

lemma windows_record:
  assumes tr: "tracks th now xs" and w: "wait_needed now est th = Inr w" "w \<le> 0"
    and ok: "windows_ok th xs"
  shows "windows_ok th (xs @ [(now, est)])"
proof -
  obtain r where r: "rps_wait now th = Inr r" "r \<le> 0"
    using w by (auto simp: wait_needed_def Let_def split: sum.splits option.splits if_splits)
  have "of_nat (calls_in t (xs @ [(now, est)])) < m + 1" if m: "max_rps th = Some m" for m t
  proof (cases "t \<le> now \<and> now \<le> t + 1")
    case True
    with calls_in_window [OF tr, of t] rps_admits [OF tr r m]
    have "of_nat (calls_in t xs) < m" by (meson le_less_trans of_nat_mono)
    with True show ?thesis by (simp add: calls_in_def)
  next
    case False
    with ok m show ?thesis by (auto simp: windows_ok_def calls_in_def)
  qed
  moreover have "tokens_in m t (xs @ [(now, est)]) \<le> m" if m: "max_tpm th = Some m" for m t
  proof (cases "t \<le> now \<and> now \<le> t + 60 \<and> 0 < est \<and> est \<le> m")
    case True
    with tokens_in_window [OF tr, of t m] tpm_admits [OF tr w m]
    have "tokens_in m t xs + est \<le> m" by simp
    with True show ?thesis by (simp add: tokens_in_def)
  next
    case False
    with ok m show ?thesis by (auto simp: windows_ok_def tokens_in_def)
  qed
  ultimately show ?thesis by (simp add: windows_ok_def)
qed

lemma tracks_record: "tracks th now xs \<Longrightarrow> tracks (record_event now est th) now (xs @ [(now, est)])"
  by (auto simp: tracks_def record_event_def Let_def sorted_append)

lemma windows_run:
  assumes "tracks th seen xs" and "windows_ok th xs" and "sorted (seen # map fst secs)"
  shows "windows_ok th (xs @ admitted_log th secs)"
  using assms
proof (induction secs arbitrary: th seen xs)
  case (Cons sec secs)
  obtain now est where sec: "sec = (now, est)" by (cases sec)
  have now: "seen \<le> now" and rest: "sorted (now # map fst secs)" using Cons.prems(3) sec by auto
  note tr = tracks_prune [OF Cons.prems(1) now]
  have ok: "windows_ok (prune now th) xs" using Cons.prems(2) by (simp add: windows_ok_def)
  have same: "windows_ok (prune now th) ys \<longleftrightarrow> windows_ok th ys"
    "windows_ok (record_event now est (prune now th)) ys \<longleftrightarrow> windows_ok th ys" for ys
    by (simp_all add: windows_ok_def)
  show ?case
  proof (cases "fst (try_acquire est now th) = Inr None")
    case True
    then obtain w where w: "wait_needed now est (prune now th) = Inr w" "w \<le> 0"
      and r: "try_acquire est now th = (Inr None, record_event now est (prune now th))"
      by (auto simp: try_acquire_def Let_def split: sum.splits if_splits)
    have "windows_ok (record_event now est (prune now th)) (xs @ [(now, est)])"
      using windows_record [OF tr w ok] by (simp only: same)
    from Cons.IH [OF tracks_record [OF tr] this rest]
    have "windows_ok th ((xs @ [(now, est)]) @ admitted_log (record_event now est (prune now th)) secs)"
      by (simp only: same)
    then show ?thesis by (simp add: sec r)
  next
    case False
    then have r: "snd (try_acquire est now th) = prune now th"
      by (auto simp: try_acquire_def Let_def split: sum.splits if_splits)
    from Cons.IH [OF tr ok rest]
    have "windows_ok th (xs @ admitted_log (prune now th) secs)" by (simp only: same)
    with False r show ?thesis by (cases "try_acquire est now th") (simp add: sec)
  qed
qed simp

text \<open>
  C31. Whatever threads enter the throttle's lock and at whatever clock readings, no window of a
  second holds more admitted calls than \<open>max_rps\<close>, rounded up, and no window of a
  minute more estimated tokens than \<open>max_tpm\<close>, not counting calls whose own
  estimate is above it.
\<close>

theorem throttle_keeps_windows:
  assumes "sorted (map fst secs)" and "\<forall>m. rps = Some m \<longrightarrow> 0 < m" and "\<forall>m. tpm = Some m \<longrightarrow> 0 \<le> m"
  shows "windows_ok (new_throttle rps tpm) (admitted_log (new_throttle rps tpm) secs)"
proof (cases secs)
  case (Cons sec rest)
  have "tracks (new_throttle rps tpm) (fst sec) []" by (simp add: tracks_def new_throttle_def)
  moreover have "windows_ok (new_throttle rps tpm) []"
    using assms(2,3) by (fastforce simp: windows_ok_def calls_in_def tokens_in_def new_throttle_def)
  moreover have "sorted (fst sec # map fst secs)" using assms(1) Cons by auto
  ultimately have "windows_ok (new_throttle rps tpm) ([] @ admitted_log (new_throttle rps tpm) secs)"
    by (rule windows_run)
  then show ?thesis by simp
next
  case Nil
  show ?thesis using assms(2,3) Nil
    by (fastforce simp: windows_ok_def calls_in_def tokens_in_def new_throttle_def)
qed

text \<open>
  With a positive \<open>max_rps\<close>, acquire returns: a caller that sleeps at least as long
  as told is admitted after finitely many waits, and its call is the newest event of the window.
\<close>

theorem acquire_admits:
  assumes "\<forall>m. max_rps th = Some m \<longrightarrow> 0 < m"
  shows "\<exists>th' t. acquire late est now th = (Inr (), th', t) \<and> now \<le> t \<and> last (th_calls th') = t"
  using assms
proof (induction late est now th rule: acquire.induct)
  case (1 late est now th)
  have total: "\<exists>w. wait_needed now est (prune now th) = Inr w"
    using 1(2) by (cases "th_calls (prune now th)")
      (auto simp: wait_needed_def rps_wait_def Let_def split: sum.splits option.splits)
  then obtain w where "wait_needed now est (prune now th) = Inr w" ..
  then consider (admitted) "try_acquire est now th = (Inr None, record_event now est (prune now th))"
    | (waits) w where "try_acquire est now th = (Inr (Some w), prune now th)"
    by (cases "w \<le> 0") (auto simp: try_acquire_def Let_def)
  then show ?case
  proof cases
    case admitted
    then show ?thesis by (simp add: acquire.simps record_event_def Let_def)
  next
    case (waits w)
    from 1(1) [OF waits [symmetric] refl refl] 1(2) have
      "\<exists>th' t. acquire late est (woken late now w) (prune now th) = (Inr (), th', t) \<and>
        woken late now w \<le> t \<and> last (th_calls th') = t"
      by simp
    moreover have "now \<le> woken late now w"
      using try_acquire_waits(2) [OF waits] by (simp add: woken_def)
    ultimately show ?thesis by (subst acquire.simps) (fastforce simp: waits)
  qed
qed

theorem throttle_keeps_windows_witness:
  "windows_ok (new_throttle (Some 2) (Some 500))
     (admitted_log (new_throttle (Some 2) (Some 500)) [(0, 200), (0, 200), (1 / 2, 10), (2, 200), (61, 300)])"
  by (rule throttle_keeps_windows) simp_all

text \<open>A full window: the caller sleeps once, and oversleeps.\<close>

theorem acquire_admits_witness:
  "\<exists>th' t. acquire (\<lambda>_. 1 / 4) 0 (1 / 2) ((new_throttle (Some 1) None)\<lparr>th_calls := [0]\<rparr>) = (Inr (), th', t) \<and>
     1 / 2 \<le> t \<and> last (th_calls th') = t"
  by (rule acquire_admits) (simp add: new_throttle_def)

end
