(* ===== verification/Panel.thy ===== *)
theory Panel
  imports Throttle SessionBase
begin

text \<open>
The model panel, \<^verbatim>\<open>megalos_panel\<close>: requests and results, the retry loop (\<^verbatim>\<open>retry.py\<close>), the
  thread pool (\<^verbatim>\<open>concurrency.py\<close>), the adapters and their dispatch (\<^verbatim>\<open>adapters/\<close>), the entry point
  \<^verbatim>\<open>panel_query\<close> (\<^verbatim>\<open>panel.py\<close>) and the record files (\<^verbatim>\<open>record.py\<close>).

  The SDKs are parameters (\<open>panel_env\<close>). A worker of the pool runs as one piece; the order of the
  workers is a parameter. The number of workers at a time, SDK clients and file handles are not
  modelled. Code points stay below U+0100, as in theory \<^verbatim>\<open>PyJson\<close>.
\<close>

section \<open>Requests, results, errors\<close>

record panel_request =
  rq_prompt :: string
  rq_model :: string
  rq_id :: string

record panel_result =
  pr_selection :: string
  pr_raw_response :: string
  pr_error :: "string option"

record panel_error =
  pe_model :: string
  pe_attempts :: nat
  pe_last_error :: string

definition panel_error_text :: "panel_error \<Rightarrow> string" where
  "panel_error_text x =
     ''panel provider error: model='' @ pe_model x @ '' attempts='' @ str_nat (pe_attempts x)
       @ '' last_error='' @ pe_last_error x"

text \<open>What a provider call raises, with the text of the exception.\<close>

datatype call_exn = RateLimitError string | TransientError string | OtherError string

section \<open>Retries (retry.py)\<close>

definition RATE_LIMIT_ATTEMPTS :: nat where "RATE_LIMIT_ATTEMPTS = 5"
definition TRANSIENT_ATTEMPTS :: nat where "TRANSIENT_ATTEMPTS = 5"
definition BACKOFF_CAP_SECONDS :: rat where "BACKOFF_CAP_SECONDS = 30"
definition BACKOFF_BASE_SECONDS :: rat where "BACKOFF_BASE_SECONDS = 1"

definition backoff_delay :: "nat \<Rightarrow> rat \<Rightarrow> rat \<Rightarrow> rat" where
  "backoff_delay attempt base cap = min (base * 2 ^ (attempt - 1)) cap"

text \<open>
  The loop of \<^verbatim>\<open>retry_with_backoff\<close>: \<open>ru\<close> and \<open>tu\<close> are the used budgets, \<open>done\<close> the calls so
  far; \<open>slp\<close> is what sleeping does to the state.
\<close>

function backoff_loop ::
  "('s \<Rightarrow> (call_exn + 'a) \<times> 's) \<Rightarrow> (rat \<Rightarrow> 's \<Rightarrow> 's) \<Rightarrow> nat \<Rightarrow> nat \<Rightarrow> rat \<Rightarrow> rat \<Rightarrow> string
   \<Rightarrow> nat \<Rightarrow> nat \<Rightarrow> nat \<Rightarrow> 's \<Rightarrow> (panel_error + 'a) \<times> 's" where
  "backoff_loop fn slp ra ta base cap model ru tu done s =
     (case fn s of
        (Inr v, s') \<Rightarrow> (Inr v, s')
      | (Inl (RateLimitError m), s') \<Rightarrow>
          if ra \<le> Suc ru then
            (Inl \<lparr>pe_model = model, pe_attempts = Suc done, pe_last_error = m\<rparr>, s')
          else backoff_loop fn slp ra ta base cap model (Suc ru) tu (Suc done)
                 (slp (backoff_delay (Suc done) base cap) s')
      | (Inl (TransientError m), s') \<Rightarrow>
          if ta \<le> Suc tu then
            (Inl \<lparr>pe_model = model, pe_attempts = Suc done, pe_last_error = m\<rparr>, s')
          else backoff_loop fn slp ra ta base cap model ru (Suc tu) (Suc done)
                 (slp (backoff_delay (Suc done) base cap) s')
      | (Inl (OtherError m), s') \<Rightarrow>
          (Inl \<lparr>pe_model = model, pe_attempts = 1, pe_last_error = m\<rparr>, s'))"
  by pat_completeness auto

termination
  by (relation "measure (\<lambda>(fn, slp, ra, ta, base, cap, model, ru, tu, done, s). (ra - ru) + (ta - tu))") auto

declare backoff_loop.simps [simp del]

definition retry_with_backoff ::
  "('s \<Rightarrow> (call_exn + 'a) \<times> 's) \<Rightarrow> (rat \<Rightarrow> 's \<Rightarrow> 's) \<Rightarrow> nat \<Rightarrow> nat \<Rightarrow> rat \<Rightarrow> rat \<Rightarrow> string
   \<Rightarrow> 's \<Rightarrow> (panel_error + 'a) \<times> 's" where
  "retry_with_backoff fn slp ra ta cap base model s = backoff_loop fn slp ra ta base cap model 0 0 0 s"

section \<open>Fan-out (concurrency.py)\<close>

text \<open>
  \<open>sched\<close> is the order in which the pool runs the workers, by index of the request; a worker
  runs as one piece here. The results are collected in the order of submission.
\<close>

definition safe_call ::
  "(panel_request \<Rightarrow> 's \<Rightarrow> (string + panel_result) \<times> 's) \<Rightarrow> panel_request \<Rightarrow> 's \<Rightarrow> panel_result \<times> 's" where
  "safe_call fn req s =
     (case fn req s of
        (Inr r, s') \<Rightarrow> (r, s')
      | (Inl m, s') \<Rightarrow> (\<lparr>pr_selection = [], pr_raw_response = [], pr_error = Some m\<rparr>, s'))"

fun run_pool :: "nat list \<Rightarrow> (nat \<Rightarrow> 's \<Rightarrow> 'r \<times> 's) \<Rightarrow> 's \<Rightarrow> (nat \<times> 'r) list \<times> 's" where
  "run_pool [] worker s = ([], s)"
| "run_pool (i # sched) worker s =
     (let (r, s1) = worker i s; (rs, s2) = run_pool sched worker s1 in ((i, r) # rs, s2))"

definition collect_results :: "panel_request list \<Rightarrow> (nat \<times> 'r) list \<Rightarrow> (string, 'r) dict" where
  "collect_results reqs futures =
     fold (\<lambda>i d. case map_of futures i of None \<Rightarrow> d | Some r \<Rightarrow> dput (rq_id (reqs ! i)) r d)
       [0..<length reqs] []"

definition fan_out ::
  "int \<Rightarrow> nat list \<Rightarrow> panel_request list \<Rightarrow> (panel_request \<Rightarrow> 's \<Rightarrow> (string + panel_result) \<times> 's) \<Rightarrow>
   's \<Rightarrow> (exn + (string, panel_result) dict) \<times> 's" where
  "fan_out max_workers sched reqs fn s =
     (if reqs = [] then (Inr [], s)
      else if max_workers \<le> 0 then (Inl (ValueError ''max_workers must be greater than 0''), s)
      else let (futures, s') = run_pool sched (\<lambda>i. safe_call fn (reqs ! i)) s
           in (Inr (collect_results reqs futures), s'))"

section \<open>Adapters\<close>

datatype adapter = ClaudeAdapter | OpenAIAdapter | GroqAdapter

definition ADAPTERS :: "(string \<times> adapter) list" where
  "ADAPTERS = [(''claude-'', ClaudeAdapter), (''gpt-'', OpenAIAdapter), (''groq/'', GroqAdapter)]"

text \<open>\<open>max(matches, key=len)\<close>: the first of the longest.\<close>

fun longest :: "string list \<Rightarrow> string" where
  "longest [] = []"
| "longest [p] = p"
| "longest (p # q # ps) =
     (let best = longest (q # ps) in if length best \<le> length p then p else best)"

definition sdk_module :: "adapter \<Rightarrow> string" where
  "sdk_module ad = (case ad of ClaudeAdapter \<Rightarrow> ''anthropic'' | _ \<Rightarrow> ''openai'')"

text \<open>\<open>installed m\<close>: the SDK module \<open>m\<close> can be imported.\<close>

definition dispatch :: "(string \<Rightarrow> bool) \<Rightarrow> string \<Rightarrow> exn + adapter" where
  "dispatch installed model =
     (case filter (\<lambda>p. starts_with model p) (map fst ADAPTERS) of
        [] \<Rightarrow> Inl (ValueError (''no panel adapter registered for model '' @ repr_str model
                @ ''; known prefixes: '' @ repr_strs (sort (map fst ADAPTERS))))
      | p # ps \<Rightarrow>
          (let prefix = longest (p # ps) in
           case map_of ADAPTERS prefix of
             None \<Rightarrow> Inl (KeyError prefix)
           | Some ad \<Rightarrow>
               if installed (sdk_module ad) then Inr ad
               else Inl (ModuleNotFoundError (''panel adapter for '' @ repr_str prefix @ '' requires the ''
                 @ repr_str (sdk_module ad)
                 @ '' SDK; install with `pip install megalos[panel]` (or `uv sync --extra panel`)''))))"

text \<open>
  What an SDK call raises, by the class the adapters catch, with its text; an
  \<^verbatim>\<open>APITimeoutError\<close> is caught before the \<^verbatim>\<open>APIConnectionError\<close> it derives from.
\<close>

datatype sdk_exn =
    SdkRateLimit string
  | SdkTimeout string
  | SdkConnection string
  | SdkStatus int string
  | SdkOther string

fun classify_sdk :: "sdk_exn \<Rightarrow> call_exn" where
  "classify_sdk (SdkRateLimit m) = RateLimitError m"
| "classify_sdk (SdkTimeout m) = TransientError m"
| "classify_sdk (SdkConnection m) = TransientError m"
| "classify_sdk (SdkStatus code m) = (if 500 \<le> code \<and> code < 600 then TransientError m else OtherError m)"
| "classify_sdk (SdkOther m) = OtherError m"

text \<open>The model the adapter asks for: its own default, but for Groq, which strips the prefix.\<close>

definition requested_model :: "adapter \<Rightarrow> panel_request \<Rightarrow> string" where
  "requested_model ad req =
     (case ad of
        ClaudeAdapter \<Rightarrow> ''claude-opus-4-7''
      | OpenAIAdapter \<Rightarrow> ''gpt-4o''
      | GroqAdapter \<Rightarrow>
          if starts_with (rq_model req) ''groq/'' then drop 5 (rq_model req) else rq_model req)"

text \<open>
  A response is the texts of its blocks (Claude; \<open>None\<close> for a block without text) or the
  contents of its choices (OpenAI, Groq).
\<close>

definition response_text :: "adapter \<Rightarrow> string option list \<Rightarrow> call_exn + string" where
  "response_text ad texts =
     (case ad of
        ClaudeAdapter \<Rightarrow> Inr (case List.map_filter id texts of t # _ \<Rightarrow> t | [] \<Rightarrow> [])
      | _ \<Rightarrow>
          (case texts of
             [] \<Rightarrow> Inl (OtherError ''list index out of range'')
           | Some t # _ \<Rightarrow> Inr t
           | None # _ \<Rightarrow> Inr []))"

text \<open>
  The process around the panel: the SDKs and the network behind them (\<open>pn_sdk\<close>), the
  monotonic clock, the shared throttle, and the metadata of the requests.
\<close>

record 'w panel =
  pn_sdk :: 'w
  pn_clock :: rat
  pn_throttle :: "throttle option"
  pn_meta :: "(string, nat \<times> int) dict"

text \<open>
  \<open>sdk_complete ad model prompt\<close> is one completion of the SDK and how long it took;
  \<open>api_key\<close> the environment variable of an adapter; \<open>late\<close> how much a sleep oversleeps;
  \<open>utc_now\<close> the timestamp of the record of a request.
\<close>

record 'w panel_env =
  sdk_complete :: "adapter \<Rightarrow> string \<Rightarrow> string \<Rightarrow> 'w \<Rightarrow> (sdk_exn + string option list) \<times> rat \<times> 'w"
  sdk_installed :: "string \<Rightarrow> bool"
  api_key :: "adapter \<Rightarrow> string option"
  late :: "rat \<Rightarrow> rat"
  utc_now :: "panel_request \<Rightarrow> string"

definition construct :: "'w panel_env \<Rightarrow> adapter \<Rightarrow> exn + unit" where
  "construct e ad =
     (case api_key e ad of
        Some (_ # _) \<Rightarrow> Inr ()
      | _ \<Rightarrow>
          (let (nm, var) = (case ad of
              ClaudeAdapter \<Rightarrow> (''ClaudeAdapter'', ''ANTHROPIC_API_KEY'')
            | OpenAIAdapter \<Rightarrow> (''OpenAIAdapter'', ''OPENAI_API_KEY'')
            | GroqAdapter \<Rightarrow> (''GroqAdapter'', ''GROQ_API_KEY''))
           in Inl (ValueError (nm @ '' requires an API key: pass api_key=... or set the '' @ var
                @ '' environment variable''))))"

definition invoke ::
  "'w panel_env \<Rightarrow> adapter \<Rightarrow> panel_request \<Rightarrow> 'w panel \<Rightarrow> (call_exn + string) \<times> 'w panel" where
  "invoke e ad req s =
     (case sdk_complete e ad (requested_model ad req) (rq_prompt req) (pn_sdk s) of
        (r, took, w) \<Rightarrow>
          (case r of Inl x \<Rightarrow> Inl (classify_sdk x) | Inr texts \<Rightarrow> response_text ad texts,
           s\<lparr>pn_sdk := w, pn_clock := pn_clock s + max 0 took\<rparr>))"

section \<open>panel\_query (panel.py)\<close>

text \<open>\<open>acquire\<close> raises nothing but an \<^verbatim>\<open>IndexError\<close>; its text.\<close>

fun exn_text :: "exn \<Rightarrow> string" where
  "exn_text (IndexError m) = m"
| "exn_text _ = []"

definition throttled :: "'w panel_env \<Rightarrow> panel_request \<Rightarrow> 'w panel \<Rightarrow> (call_exn + unit) \<times> 'w panel" where
  "throttled e req s =
     (case pn_throttle s of
        None \<Rightarrow> (Inr (), s)
      | Some th \<Rightarrow>
          (case acquire (late e) (estimate_tokens (rq_prompt req) RESPONSE_TOKEN_ALLOWANCE) (pn_clock s) th of
             (r, th', t) \<Rightarrow>
               (map_sum (\<lambda>x. OtherError (exn_text x)) id r, s\<lparr>pn_throttle := Some th', pn_clock := t\<rparr>)))"

text \<open>\<open>call_once\<close>; the number beside the process is the counter \<open>attempts\<close> of the closure.\<close>

definition call_once ::
  "'w panel_env \<Rightarrow> adapter \<Rightarrow> panel_request \<Rightarrow> nat \<times> 'w panel \<Rightarrow> (call_exn + string) \<times> (nat \<times> 'w panel)" where
  "call_once e ad req x =
     (case throttled e req (snd x) of
        (Inl err, s) \<Rightarrow> (Inl err, Suc (fst x), s)
      | (Inr _, s) \<Rightarrow> (case invoke e ad req s of (r, s') \<Rightarrow> (r, Suc (fst x), s')))"

definition sleep_panel :: "'w panel_env \<Rightarrow> rat \<Rightarrow> nat \<times> 'w panel \<Rightarrow> nat \<times> 'w panel" where
  "sleep_panel e w x = (fst x, (snd x)\<lparr>pn_clock := woken (late e) (pn_clock (snd x)) w\<rparr>)"

definition elapsed_ms :: "rat \<Rightarrow> 'w panel \<Rightarrow> int" where
  "elapsed_ms start s = \<lfloor>(pn_clock s - start) * 1000\<rfloor>"

definition per_request ::
  "'w panel_env \<Rightarrow> (string, adapter) dict \<Rightarrow> panel_request \<Rightarrow> 'w panel \<Rightarrow> (string + panel_result) \<times> 'w panel" where
  "per_request e instances req s =
     (case map_of instances (rq_model req) of
        None \<Rightarrow> (Inl (repr_str (rq_model req)), s)
      | Some ad \<Rightarrow>
          (case retry_with_backoff (call_once e ad req) (sleep_panel e) RATE_LIMIT_ATTEMPTS
                  TRANSIENT_ATTEMPTS BACKOFF_CAP_SECONDS BACKOFF_BASE_SECONDS (rq_model req) (0, s) of
             (Inr txt, attempts, s') \<Rightarrow>
               (Inr \<lparr>pr_selection = txt, pr_raw_response = txt, pr_error = None\<rparr>,
                s'\<lparr>pn_meta := dput (rq_id req) (attempts, elapsed_ms (pn_clock s) s') (pn_meta s')\<rparr>)
           | (Inl err, _, s') \<Rightarrow>
               (Inr \<lparr>pr_selection = [], pr_raw_response = [], pr_error = Some (panel_error_text err)\<rparr>,
                s'\<lparr>pn_meta := dput (rq_id req) (pe_attempts err, elapsed_ms (pn_clock s) s') (pn_meta s')\<rparr>)))"

text \<open>Every model is resolved and every adapter built before a worker starts.\<close>

fun resolve_models ::
  "'w panel_env \<Rightarrow> panel_request list \<Rightarrow> (string, adapter) dict \<Rightarrow> exn + (string, adapter) dict" where
  "resolve_models e [] acc = Inr acc"
| "resolve_models e (req # reqs) acc =
     (if dhas acc (rq_model req) then resolve_models e reqs acc
      else (case dispatch (sdk_installed e) (rq_model req) of
         Inl x \<Rightarrow> Inl x
       | Inr ad \<Rightarrow> resolve_models e reqs (dput (rq_model req) ad acc)))"

fun construct_all :: "'w panel_env \<Rightarrow> (string, adapter) dict \<Rightarrow> exn + unit" where
  "construct_all e [] = Inr ()"
| "construct_all e ((m, ad) # ads) =
     (case construct e ad of Inl x \<Rightarrow> Inl x | Inr _ \<Rightarrow> construct_all e ads)"

definition request_record :: "'w panel_env \<Rightarrow> 'w panel \<Rightarrow> panel_request \<Rightarrow> panel_result \<Rightarrow> pyval" where
  "request_record e s req result =
     (let m = dget_or (pn_meta s) (rq_id req) (0, 0) in
      PDict [(''request_id'', PStr (rq_id req)), (''model'', PStr (rq_model req)),
        (''prompt'', PStr (rq_prompt req)), (''selection'', PStr (pr_selection result)),
        (''raw_response'', PStr (pr_raw_response result)),
        (''error'', case pr_error result of None \<Rightarrow> PNone | Some x \<Rightarrow> PStr x),
        (''attempts'', PInt (int (fst m))), (''elapsed_ms'', PInt (snd m)),
        (''timestamp'', PStr (utc_now e req))])"

fun request_records ::
  "'w panel_env \<Rightarrow> 'w panel \<Rightarrow> (string, panel_result) dict \<Rightarrow> panel_request list \<Rightarrow> exn + pyval list" where
  "request_records e s results [] = Inr []"
| "request_records e s results (req # reqs) =
     (case dget results (rq_id req) of
        None \<Rightarrow> Inl (KeyError (rq_id req))
      | Some r \<Rightarrow> map_sum id (\<lambda>vs. request_record e s req r # vs) (request_records e s results reqs))"

text \<open>
  The answer is the dictionary of results and the records a \<^verbatim>\<open>record_writer\<close> is handed, in order
  (nothing is written without one).
\<close>

definition panel_query ::
  "'w panel_env \<Rightarrow> int \<Rightarrow> nat list \<Rightarrow> panel_request list \<Rightarrow> 'w panel
   \<Rightarrow> (exn + (string, panel_result) dict \<times> pyval list) \<times> 'w panel" where
  "panel_query e max_workers sched reqs s =
     (if reqs = [] then (Inr ([], []), s)
      else (case resolve_models e reqs [] of
         Inl x \<Rightarrow> (Inl x, s)
       | Inr instances \<Rightarrow>
           (case construct_all e instances of
              Inl x \<Rightarrow> (Inl x, s)
            | Inr _ \<Rightarrow>
                (case fan_out max_workers sched reqs (per_request e instances) (s\<lparr>pn_meta := []\<rparr>) of
                   (Inl x, s') \<Rightarrow> (Inl x, s')
                 | (Inr results, s') \<Rightarrow>
                     (map_sum id (Pair results) (request_records e s' results reqs), s')))))"

section \<open>Records (record.py)\<close>

definition SCHEMA_LINE_OBJ :: pyval where
  "SCHEMA_LINE_OBJ = PDict [(''schema_version'', PStr ''1'')]"

abbreviation newline :: char where "newline \<equiv> CHR 0x0A"

text \<open>The text of the file after \<^verbatim>\<open>__enter__\<close> and one \<^verbatim>\<open>write\<close> for each record.\<close>

definition record_line :: "pyval \<Rightarrow> string" where
  "record_line v = json_dumps v @ [newline]"

definition record_file :: "pyval list \<Rightarrow> string" where
  "record_file records = record_line SCHEMA_LINE_OBJ @ concat (map record_line records)"

text \<open>
  Iterating a text file: its lines with their ends, \<^verbatim>\<open>\r\<close> and \<^verbatim>\<open>\r\n\<close> read as \<^verbatim>\<open>\n\<close>.
\<close>

fun universal :: "string \<Rightarrow> string" where
  "universal [] = []"
| "universal [c] = [if c = CHR 0x0D then newline else c]"
| "universal (c # d # cs) =
     (if c = CHR 0x0D then newline # (if d = newline then universal cs else universal (d # cs))
      else c # universal (d # cs))"

fun file_lines :: "string \<Rightarrow> string list" where
  "file_lines [] = []"
| "file_lines (c # cs) =
     (if c = newline then [c] # file_lines cs
      else (case file_lines cs of [] \<Rightarrow> [[c]] | l # ls \<Rightarrow> (c # l) # ls))"

text \<open>\<open>not line.strip()\<close>\<close>

abbreviation blank :: "string \<Rightarrow> bool" where
  "blank \<equiv> list_all py_space"

text \<open>What the iterator yields, and the exception that ends it, if any.\<close>

fun read_lines :: "string list \<Rightarrow> pyval list \<times> exn option" where
  "read_lines [] = ([], None)"
| "read_lines (l # ls) =
     (if blank l then read_lines ls
      else (case json_loads l of
         None \<Rightarrow> ([], Some (JSONDecodeError l))
       | Some v \<Rightarrow> (case read_lines ls of (vs, x) \<Rightarrow> (v # vs, x))))"

definition read_records :: "string \<Rightarrow> string \<Rightarrow> pyval list \<times> exn option" where
  "read_records path content =
     (case file_lines (universal content) of
        [] \<Rightarrow> ([], Some (RecordFormatError (''record file '' @ path @ '' is empty; expected schema_version line'')))
      | first # rest \<Rightarrow>
          (case json_loads first of
             None \<Rightarrow> ([], Some (RecordFormatError (''record file '' @ path @ '' line 1 is not valid JSON'')))
           | Some header \<Rightarrow>
               if \<not> py_eq header SCHEMA_LINE_OBJ then
                 ([], Some (RecordFormatError (''record file '' @ path @ '' line 1 schema mismatch: expected ''
                    @ py_repr SCHEMA_LINE_OBJ @ '', got '' @ py_repr header)))
               else read_lines rest))"

end
