(* ===== verification/PanelProps.thy ===== *)
theory PanelProps
  imports Panel JsonProps
begin

text \<open>
The panel: record files read back, the retry budget bounds the calls and the first success
  within it is returned, every request of a batch is answered by its own retries whatever the
  order of the workers, and a batch that cannot be served is refused before the first call.
\<close>

section \<open>Records read back\<close>

lemma loads_dumps_line: "json_value v \<Longrightarrow> json_loads (record_line v) = Some v"
proof -
  assume "json_value v"
  then have "parse_value (2 * length (record_line v) + 2) (json_dumps v @ [newline]) = Some (v, [newline])"
    by (intro reads_backD json_value_reads_back) (simp_all add: stops_def is_digit_def record_line_def)
  then show ?thesis using json_dumps_skip [of v "[newline]"] by (simp add: json_loads_def record_line_def is_ws_def)
qed

definition one_line :: "string \<Rightarrow> bool" where
  "one_line s \<longleftrightarrow> newline \<notin> set s \<and> CHR 0x0D \<notin> set s"

lemma one_line_simps [simp]:
  "one_line []" "one_line (c # s) \<longleftrightarrow> c \<noteq> newline \<and> c \<noteq> CHR 0x0D \<and> one_line s"
  "one_line (s @ t) \<longleftrightarrow> one_line s \<and> one_line t"
  by (auto simp: one_line_def)

lemma one_line_concat: "(\<And>x. x \<in> set xs \<Longrightarrow> one_line (f x)) \<Longrightarrow> one_line (concat (map f xs))"
  by (auto simp: one_line_def)

lemma one_line_join: "one_line sep \<Longrightarrow> (\<And>x. x \<in> set xs \<Longrightarrow> one_line (f x)) \<Longrightarrow> one_line (join sep (map f xs))"
proof (induction xs)
  case (Cons x xs)
  then show ?case by (cases xs) auto
qed simp

lemma one_line_str_nat [simp]: "one_line (str_nat n)"
  using str_nat_digits [of n] by (auto simp: one_line_def is_digit_def)

lemma one_line_hex: "one_line [hex_char (n div 16), hex_char (n mod 16)]" if "n < 256"
proof -
  have "hex_char m \<noteq> newline \<and> hex_char m \<noteq> CHR 0x0D" if "m < 16" for m
    using unhex_hex_char [OF that] by (auto simp: unhex_def)
  moreover have "n div 16 < 16" "n mod 16 < 16" using that by auto
  ultimately show ?thesis by simp
qed

lemma one_line_dump_str [simp]: "one_line (dump_str True s)"
proof -
  have "one_line (esc_char True c)" for c
    using one_line_hex [of "of_char c"] by (auto simp: esc_char_def Let_def)
  then show ?thesis by (simp add: dump_str_def one_line_concat)
qed

lemma one_line_dump_float [simp]: "one_line (dump_float m k)"
proof -
  have "one_line (pad_zeros j (str_nat n))" for j n by (simp add: pad_zeros_def) (simp add: one_line_def)
  then show ?thesis by (simp add: dump_float_def Let_def)
qed

lemma one_line_dumps: "one_line (json_dumps v)"
proof (induction v)
  case (PInt i)
  then show ?case by (simp add: json_dumps_simps str_int_sign)
next
  case (PList xs)
  then show ?case by (auto simp: json_dumps_simps dumps_items_def intro!: one_line_join)
next
  case (PDict d)
  then show ?case by (fastforce simp: json_dumps_simps dumps_members_def intro!: one_line_join)
qed (simp_all add: json_dumps_simps)

lemma universal_one: "CHR 0x0D \<notin> set s \<Longrightarrow> universal s = s"
  by (induction s rule: universal.induct) auto

lemma file_lines_one: "newline \<notin> set s \<Longrightarrow> file_lines (s @ newline # t) = (s @ [newline]) # file_lines t"
  by (induction s) auto

lemma file_lines_records: "file_lines (concat (map record_line vs)) = map record_line vs"
  using one_line_dumps by (induction vs) (auto simp: record_line_def file_lines_one one_line_def)

lemma universal_records: "universal (concat (map record_line vs)) = concat (map record_line vs)"
  using one_line_dumps by (intro universal_one) (auto simp: record_line_def one_line_def)

lemma not_space [simp]:
  "\<not> py_space (CHR ''n'')" "\<not> py_space (CHR ''t'')" "\<not> py_space (CHR ''f'')" "\<not> py_space (CHR ''['')"
  "\<not> py_space (CHR ''{'')" "\<not> py_space dq" "is_digit c \<Longrightarrow> \<not> py_space c"
  by (auto simp: py_space_def is_digit_def Let_def)

lemma not_blank: "c \<in> set s \<Longrightarrow> \<not> py_space c \<Longrightarrow> \<not> blank s"
  by (auto simp: list_all_iff)

lemma not_blank_line: "\<not> blank (record_line v)"
proof -
  have "\<not> blank (json_dumps v)"
  proof (cases v)
    case (PInt i)
    show ?thesis
      by (rule not_blank [of "hd (str_nat (nat \<bar>i\<bar>))"]) (simp_all add: PInt json_dumps_simps str_int_sign str_nat_hd_digit)
  next
    case (PFloat m k)
    show ?thesis
      by (rule not_blank [of "hd (str_nat (nat \<bar>m\<bar> div 10 ^ k))"])
        (simp_all add: PFloat json_dumps_simps dump_float_def Let_def str_nat_hd_digit)
  qed (simp_all add: json_dumps_simps dump_str_def)
  then show ?thesis by (simp add: record_line_def)
qed

lemma read_lines_records:
  "list_all json_value vs \<Longrightarrow> read_lines (map record_line vs) = (vs, None)"
  by (induction vs) (simp_all add: not_blank_line loads_dumps_line)

text \<open>
  Records written by a RecordWriter are read back by a RecordReader, all of them, in order and
  equal, whatever line breaks their strings contain.
\<close>

theorem record_file_round_trip:
  assumes "list_all json_value records"
  shows "read_records path (record_file records) = (records, None)"
proof -
  have "record_file records = concat (map record_line (SCHEMA_LINE_OBJ # records))"
    by (simp add: record_file_def)
  then have "file_lines (universal (record_file records)) = map record_line (SCHEMA_LINE_OBJ # records)"
    by (simp only: universal_records file_lines_records)
  moreover have "json_value SCHEMA_LINE_OBJ" "py_eq SCHEMA_LINE_OBJ SCHEMA_LINE_OBJ"
    by (simp_all add: SCHEMA_LINE_OBJ_def)
  ultimately show ?thesis
    by (simp add: read_records_def loads_dumps_line read_lines_records assms)
qed

section \<open>Retries\<close>

lemma backoff_loop_keeps:
  assumes "\<And>s. I s \<Longrightarrow> I (snd (fn s))" and "\<And>w s. I s \<Longrightarrow> I (slp w s)" and "I s"
  shows "I (snd (backoff_loop fn slp ra ta base cap model ru tu n s))"
  using assms
proof (induction fn slp ra ta base cap model ru tu n s rule: backoff_loop.induct)
  case (1 fn slp ra ta base cap model ru tu n s)
  have "I (snd (fn s))" using 1(3,5) by blast
  then show ?case
    by (subst backoff_loop.simps)
      (auto split: prod.splits sum.splits call_exn.splits intro!: 1(1,2) 1(3,4) simp: not_le)
qed

lemma backoff_loop_counts:
  assumes "\<And>s. cnt (snd (fn s)) = Suc (cnt s)" and "\<And>w s. cnt (slp w s) = cnt s"
    and "backoff_loop fn slp ra ta base cap model ru tu n s = (r, s')" and "cnt s = n"
  shows "n < cnt s' \<and> cnt s' \<le> Suc n + (ra - Suc ru) + (ta - Suc tu) \<and>
    (\<forall>err. r = Inl err \<longrightarrow> pe_model err = model \<and> (pe_attempts err = cnt s' \<or> pe_attempts err = 1))"
  using assms
proof (induction fn slp ra ta base cap model ru tu n s rule: backoff_loop.induct)
  case (1 fn slp ra ta base cap model ru tu n s)
  obtain out s1 where fn: "fn s = (out, s1)" by (cases "fn s")
  have s1: "cnt s1 = Suc n" using 1(3) [of s] 1(6) fn by simp
  note run = 1(5) [unfolded backoff_loop.simps [of fn slp ra ta base cap model ru tu n s] fn, simplified]
  show ?case
  proof (cases out)
    case (Inr v)
    with run s1 show ?thesis by auto
  next
    case (Inl x)
    show ?thesis
    proof (cases x)
      case (RateLimitError m)
      show ?thesis
      proof (cases "ra \<le> Suc ru")
        case False
        with run Inl RateLimitError have "backoff_loop fn slp ra ta base cap model (Suc ru) tu (Suc n)
            (slp (backoff_delay (Suc n) base cap) s1) = (r, s')" by simp
        from 1(1) [OF fn [symmetric] Inl RateLimitError False 1(3,4) this] 1(4) s1 False
        show ?thesis by auto
      qed (use run Inl RateLimitError s1 in auto)
    next
      case (TransientError m)
      show ?thesis
      proof (cases "ta \<le> Suc tu")
        case False
        with run Inl TransientError have "backoff_loop fn slp ra ta base cap model ru (Suc tu) (Suc n)
            (slp (backoff_delay (Suc n) base cap) s1) = (r, s')" by simp
        from 1(2) [OF fn [symmetric] Inl TransientError False 1(3,4) this] 1(4) s1 False
        show ?thesis by auto
      qed (use run Inl TransientError s1 in auto)
    qed (use run Inl s1 in auto)
  qed
qed

lemma call_once_counts [simp]: "fst (snd (call_once e ad req x)) = Suc (fst x)"
  by (cases "throttled e req (snd x)"; cases "fst (throttled e req (snd x))")
    (simp_all add: call_once_def case_prod_beta)

lemma sleep_counts [simp]: "fst (sleep_panel e w x) = fst x"
  by (simp add: sleep_panel_def)

text \<open>
  The retries of one request make at least one call and at most one more than the two budgets
  allow together; an error carries the model and either the number of calls made or, for a
  non-retryable failure, one.
\<close>

theorem retry_calls_bounded:
  assumes "retry_with_backoff (call_once e ad req) (sleep_panel e) ra ta cap base model (0, s) = (r, n, s')"
  shows "1 \<le> n \<and> n \<le> 1 + (ra - 1) + (ta - 1) \<and>
    (\<forall>err. r = Inl err \<longrightarrow> pe_model err = model \<and> (pe_attempts err = n \<or> pe_attempts err = 1))"
proof -
  have "backoff_loop (call_once e ad req) (sleep_panel e) ra ta base cap model 0 0 0 (0, s) = (r, n, s')"
    using assms by (simp only: retry_with_backoff_def)
  note counts = backoff_loop_counts [where cnt = fst, OF call_once_counts sleep_counts this]
  from counts show ?thesis by simp
qed

text \<open>The states before the successive calls, each but the first one after a sleep.\<close>

fun before_call :: "('s \<Rightarrow> (call_exn + 'a) \<times> 's) \<Rightarrow> (rat \<Rightarrow> 's \<Rightarrow> 's) \<Rightarrow> rat \<Rightarrow> rat \<Rightarrow> nat \<Rightarrow> 's \<Rightarrow> nat \<Rightarrow> 's" where
  "before_call fn slp base cap n s 0 = s"
| "before_call fn slp base cap n s (Suc k) =
     before_call fn slp base cap (Suc n) (slp (backoff_delay (Suc n) base cap) (snd (fn s))) k"

definition rate_limited_calls where
  "rate_limited_calls fn st k = length (filter (\<lambda>i. \<exists>m. fst (fn (st i)) = Inl (RateLimitError m)) [0..<k])"

definition transient_calls where
  "transient_calls fn st k = length (filter (\<lambda>i. \<exists>m. fst (fn (st i)) = Inl (TransientError m)) [0..<k])"

lemma upt_shift: "length (filter P [0..<Suc k]) = of_bool (P 0) + length (filter (\<lambda>i. P (Suc i)) [0..<k])"
  by (simp add: upt_conv_Cons map_Suc_upt [symmetric] filter_map o_def del: upt_Suc)

lemma backoff_loop_success:
  assumes "rate_limited_calls fn (before_call fn slp base cap n s) k + ru < ra"
    and "transient_calls fn (before_call fn slp base cap n s) k + tu < ta"
    and "\<And>i m. i < k \<Longrightarrow> fst (fn (before_call fn slp base cap n s i)) \<noteq> Inl (OtherError m)"
    and "\<And>i v. i < k \<Longrightarrow> fst (fn (before_call fn slp base cap n s i)) \<noteq> Inr v"
    and "fn (before_call fn slp base cap n s k) = (Inr v, s')"
  shows "backoff_loop fn slp ra ta base cap model ru tu n s = (Inr v, s')"
  using assms
proof (induction k arbitrary: ru tu n s)
  case 0
  then show ?case by (simp add: backoff_loop.simps)
next
  case (Suc k)
  let ?st = "before_call fn slp base cap n s"
  obtain out s1 where fn: "fn s = (out, s1)" by (cases "fn s")
  let ?next = "slp (backoff_delay (Suc n) base cap) s1"
  have st: "?st (Suc i) = before_call fn slp base cap (Suc n) ?next i" for i by (simp add: fn)
  have rl: "rate_limited_calls fn ?st (Suc k) =
      of_bool (\<exists>m. out = Inl (RateLimitError m)) + rate_limited_calls fn (before_call fn slp base cap (Suc n) ?next) k"
    unfolding rate_limited_calls_def upt_shift by (simp add: fn)
  have tr: "transient_calls fn ?st (Suc k) =
      of_bool (\<exists>m. out = Inl (TransientError m)) + transient_calls fn (before_call fn slp base cap (Suc n) ?next) k"
    unfolding transient_calls_def upt_shift by (simp add: fn)
  have IH: "backoff_loop fn slp ra ta base cap model ru' tu' (Suc n) ?next = (Inr v, s')"
    if "rate_limited_calls fn (before_call fn slp base cap (Suc n) ?next) k + ru' < ra"
      "transient_calls fn (before_call fn slp base cap (Suc n) ?next) k + tu' < ta" for ru' tu'
    by (rule Suc.IH [OF that]) (use Suc.prems(3,4) [of "Suc _"] Suc.prems(5) in \<open>simp_all add: fn\<close>)
  have "out \<noteq> Inl (OtherError m)" "out \<noteq> Inr w" for m w
    using Suc.prems(3,4) [of 0] fn by auto
  then consider (rl) m where "out = Inl (RateLimitError m)" | (tr) m where "out = Inl (TransientError m)"
    by (cases out) (metis call_exn.exhaust, blast)
  then show ?case
  proof cases
    case rl': rl
    have "\<not> ra \<le> Suc ru" using Suc.prems(1) rl rl' by simp
    moreover have "backoff_loop fn slp ra ta base cap model (Suc ru) tu (Suc n) ?next = (Inr v, s')"
      by (rule IH) (use Suc.prems(1,2) rl tr rl' in simp_all)
    ultimately show ?thesis by (subst backoff_loop.simps) (simp add: fn rl')
  next
    case tr': tr
    have "\<not> ta \<le> Suc tu" using Suc.prems(2) tr tr' by simp
    moreover have "backoff_loop fn slp ra ta base cap model ru (Suc tu) (Suc n) ?next = (Inr v, s')"
      by (rule IH) (use Suc.prems(1,2) rl tr tr' in simp_all)
    ultimately show ?thesis by (subst backoff_loop.simps) (simp add: fn tr')
  qed
qed
text \<open>
  If the calls before the k-th fail in retryable ways, fewer of each kind than its budget, and
  the k-th succeeds, then \<open>retry_with_backoff\<close> returns its value: the two budgets
  are independent, and the calls are made in the states the backoff sleeps leave.
\<close>

theorem retry_returns_first_success:
  assumes "rate_limited_calls fn (before_call fn slp base cap 0 s) k < ra"
    and "transient_calls fn (before_call fn slp base cap 0 s) k < ta"
    and "\<forall>i<k. \<forall>m. fst (fn (before_call fn slp base cap 0 s i)) \<noteq> Inl (OtherError m)"
    and "\<forall>i<k. \<forall>v. fst (fn (before_call fn slp base cap 0 s i)) \<noteq> Inr v"
    and "fn (before_call fn slp base cap 0 s k) = (Inr v, s')"
  shows "retry_with_backoff fn slp ra ta cap base model s = (Inr v, s')"
  unfolding retry_with_backoff_def
  by (rule backoff_loop_success [where k = k]) (use assms in simp_all)

text \<open>A rate limit, then another error: two calls, but the error says one.\<close>

definition scripted :: "(sdk_exn + string option list) list panel_env" where
  "scripted =
     \<lparr>sdk_complete = (\<lambda>ad model prompt w. case w of r # w' \<Rightarrow> (r, 1 / 2, w') | [] \<Rightarrow> (Inr [], 1 / 2, [])),
      sdk_installed = (\<lambda>_. True), api_key = (\<lambda>_. Some ''key''), late = (\<lambda>_. 0), utc_now = (\<lambda>_. ''now'')\<rparr>"

definition scripted_panel :: "(sdk_exn + string option list) list \<Rightarrow> (sdk_exn + string option list) list panel" where
  "scripted_panel w = \<lparr>pn_sdk = w, pn_clock = 0, pn_throttle = None, pn_meta = []\<rparr>"

definition ask :: "string \<Rightarrow> string \<Rightarrow> panel_request" where
  "ask ident model = \<lparr>rq_prompt = ''hello'', rq_model = model, rq_id = ident\<rparr>"

lemmas run_defs = retry_with_backoff_def call_once_def throttled_def invoke_def scripted_def scripted_panel_def
  sleep_panel_def backoff_delay_def woken_def ask_def requested_model_def response_text_def

theorem retry_calls_bounded_witness:
  "\<exists>err s'. retry_with_backoff (call_once scripted OpenAIAdapter (ask ''a'' ''gpt-4o'')) (sleep_panel scripted) 5 5 30 1
       ''gpt-4o'' (0, scripted_panel [Inl (SdkRateLimit ''429''), Inl (SdkStatus 404 ''gone'')]) = (Inl err, 2, s') \<and>
     pe_model err = ''gpt-4o'' \<and> pe_attempts err = 1"
proof -
  have run: "retry_with_backoff (call_once scripted OpenAIAdapter (ask ''a'' ''gpt-4o'')) (sleep_panel scripted) 5 5 30 1
      ''gpt-4o'' (0, scripted_panel [Inl (SdkRateLimit ''429''), Inl (SdkStatus 404 ''gone'')]) =
    (Inl \<lparr>pe_model = ''gpt-4o'', pe_attempts = 1, pe_last_error = ''gone''\<rparr>, 2, (scripted_panel [])\<lparr>pn_clock := 2\<rparr>)"
    by (simp add: run_defs backoff_loop.simps)
  from retry_calls_bounded [OF run] run show ?thesis by simp
qed

theorem retry_returns_first_success_witness:
  "retry_with_backoff (\<lambda>s. (hd s, tl s)) (\<lambda>_ s. s) 2 2 30 1 ''gpt-4o''
     [Inl (RateLimitError ''429''), Inl (TransientError ''503''), Inr (7 :: nat), Inr 8] = (Inr 7, [Inr 8])"
  by (rule retry_returns_first_success [where k = 2])
    (simp_all add: rate_limited_calls_def transient_calls_def numeral_2_eq_2 less_Suc_eq all_conj_distrib)

section \<open>The pool\<close>

lemma run_pool_keeps:
  assumes "\<And>i s. i \<in> set sched \<Longrightarrow> I s \<Longrightarrow> I (snd (worker i s))" and "I s"
  shows "I (snd (run_pool sched worker s))"
  using assms
proof (induction sched arbitrary: s)
  case (Cons i sched)
  have "I (snd (worker i s))" by (rule Cons.prems) (use Cons.prems(2) in simp_all)
  from Cons.IH [OF Cons.prems(1) this] show ?case by (simp add: case_prod_beta Let_def)
qed simp

lemma run_pool_finishes:
  assumes "distinct sched"
    and "\<And>i s. i \<in> set sched \<Longrightarrow> P i (fst (worker i s)) (snd (worker i s))"
    and "\<And>i j r s. i \<in> set sched \<Longrightarrow> j \<in> set sched \<Longrightarrow> i \<noteq> j \<Longrightarrow> P j r s \<Longrightarrow> P j r (snd (worker i s))"
  shows "\<forall>i\<in>set sched. \<exists>r. map_of (fst (run_pool sched worker s)) i = Some r \<and> P i r (snd (run_pool sched worker s))"
  using assms
proof (induction sched arbitrary: s)
  case (Cons i sched)
  obtain r s1 where w: "worker i s = (r, s1)" by (cases "worker i s")
  have "P i r (snd (run_pool sched worker s1))"
    by (rule run_pool_keeps) (use Cons.prems(1) Cons.prems(2) [of i s] Cons.prems(3) w in auto)
  moreover have "\<forall>j\<in>set sched. \<exists>r. map_of (fst (run_pool sched worker s1)) j = Some r \<and>
      P j r (snd (run_pool sched worker s1))"
    by (rule Cons.IH) (use Cons.prems in auto)
  ultimately show ?case using Cons.prems(1) by (auto simp: w case_prod_beta Let_def)
qed simp

lemma fold_collect:
  assumes "distinct (map ident is)" and "\<And>i. i \<in> set is \<Longrightarrow> map_of futures i = Some (f i)"
    and "\<And>i. i \<in> set is \<Longrightarrow> map_of d (ident i) = None"
  shows "fold (\<lambda>i d. case map_of futures i of None \<Rightarrow> d | Some r \<Rightarrow> dput (ident i) r d) is d =
    d @ map (\<lambda>i. (ident i, f i)) is"
  using assms
proof (induction "is" arbitrary: d)
  case (Cons i js)
  have "map_of (d @ [(ident i, f i)]) (ident j) = None" if "j \<in> set js" for j
    using Cons.prems(1) Cons.prems(3) [of j] that by (auto simp: map_add_def) (metis imageI)
  from Cons.IH [OF _ _ this] Cons.prems show ?case by (simp add: dput_fresh)
qed simp

lemma collect_all:
  assumes "distinct (map rq_id reqs)" and "\<And>i. i < length reqs \<Longrightarrow> map_of futures i = Some (f i)"
  shows "collect_results reqs futures = map (\<lambda>i. (rq_id (reqs ! i), f i)) [0..<length reqs]"
proof -
  have "map (\<lambda>i. rq_id (reqs ! i)) [0..<length reqs] = map rq_id reqs" by (rule nth_equalityI) simp_all
  then show ?thesis unfolding collect_results_def
    by (subst fold_collect [where f = f]) (use assms in simp_all)
qed

section \<open>The panel\<close>

lemma meta_kept: "pn_meta (snd (throttled e req s)) = pn_meta s" "pn_meta (snd (invoke e ad req s)) = pn_meta s"
  "pn_meta (snd (snd (call_once e ad req x))) = pn_meta (snd x)" "pn_meta (snd (sleep_panel e w x)) = pn_meta (snd x)"
proof -
  show t: "pn_meta (snd (throttled e req s)) = pn_meta s" for s
    by (auto simp: throttled_def split: option.split prod.split)
  show i: "pn_meta (snd (invoke e ad req s)) = pn_meta s" for s
    by (auto simp: invoke_def split: prod.split)
  show "pn_meta (snd (snd (call_once e ad req x))) = pn_meta (snd x)"
    using t [of "snd x"] i by (cases "throttled e req (snd x)"; cases "fst (throttled e req (snd x))")
      (auto simp: call_once_def case_prod_beta)
  show "pn_meta (snd (sleep_panel e w x)) = pn_meta (snd x)" by (simp add: sleep_panel_def)
qed

lemma retry_meta:
  "pn_meta (snd (snd (retry_with_backoff (call_once e ad req) (sleep_panel e) ra ta cap base model x))) = pn_meta (snd x)"
  unfolding retry_with_backoff_def
  by (rule backoff_loop_keeps [where I = "\<lambda>y. pn_meta (snd y) = pn_meta (snd x)"]) (simp_all add: meta_kept)

text \<open>
  What answers a request: the outcome of its own retries, from some state of the process, and
  the number of attempts recorded beside it.
\<close>

definition answered :: "'w panel_env \<Rightarrow> panel_request \<Rightarrow> panel_result \<Rightarrow> nat \<Rightarrow> bool" where
  "answered e req r attempts \<longleftrightarrow>
     (\<exists>ad s out n s'. dispatch (sdk_installed e) (rq_model req) = Inr ad \<and>
        retry_with_backoff (call_once e ad req) (sleep_panel e) RATE_LIMIT_ATTEMPTS TRANSIENT_ATTEMPTS
          BACKOFF_CAP_SECONDS BACKOFF_BASE_SECONDS (rq_model req) (0, s) = (out, n, s') \<and>
        (case out of
           Inr txt \<Rightarrow> r = \<lparr>pr_selection = txt, pr_raw_response = txt, pr_error = None\<rparr> \<and> attempts = n
         | Inl err \<Rightarrow> r = \<lparr>pr_selection = [], pr_raw_response = [], pr_error = Some (panel_error_text err)\<rparr> \<and>
             attempts = pe_attempts err))"

lemma safe_call_answers:
  assumes "map_of instances (rq_model req) = Some ad" "dispatch (sdk_installed e) (rq_model req) = Inr ad"
    and "safe_call (per_request e instances) req s = (r, s')"
  shows "\<exists>n ms. answered e req r n \<and> pn_meta s' = dput (rq_id req) (n, ms) (pn_meta s)"
proof -
  let ?run = "retry_with_backoff (call_once e ad req) (sleep_panel e) RATE_LIMIT_ATTEMPTS TRANSIENT_ATTEMPTS
          BACKOFF_CAP_SECONDS BACKOFF_BASE_SECONDS (rq_model req) (0, s)"
  obtain out n s1 where run: "?run = (out, n, s1)" by (cases ?run) auto
  have "pn_meta s1 = pn_meta s"
    using retry_meta [of e ad req RATE_LIMIT_ATTEMPTS TRANSIENT_ATTEMPTS BACKOFF_CAP_SECONDS BACKOFF_BASE_SECONDS
        "rq_model req" "(0, s)"] run by simp
  moreover have "answered e req r' k" if "case out of
       Inr txt \<Rightarrow> r' = \<lparr>pr_selection = txt, pr_raw_response = txt, pr_error = None\<rparr> \<and> k = n
     | Inl err \<Rightarrow> r' = \<lparr>pr_selection = [], pr_raw_response = [], pr_error = Some (panel_error_text err)\<rparr> \<and>
         k = pe_attempts err" for r' k
    unfolding answered_def using that run assms(2) by blast
  ultimately show ?thesis using assms(1,3) run
    by (cases out) (auto simp: safe_call_def per_request_def, blast+)
qed

lemma resolve_models_step:
  assumes "resolve_models e (req # reqs) acc = Inr insts"
  obtains "dhas acc (rq_model req)" "resolve_models e reqs acc = Inr insts"
  | ad where "dispatch (sdk_installed e) (rq_model req) = Inr ad"
      "resolve_models e reqs (dput (rq_model req) ad acc) = Inr insts"
  using assms by (auto split: if_splits sum.splits)

lemma resolve_models_has:
  "resolve_models e reqs acc = Inr insts \<Longrightarrow> dhas acc m \<or> m \<in> rq_model ` set reqs \<Longrightarrow> dhas insts m"
proof (induction reqs arbitrary: acc)
  case (Cons req reqs)
  show ?case by (rule resolve_models_step [OF Cons.prems(1)]) (use Cons.IH Cons.prems(2) in \<open>auto simp del: resolve_models.simps\<close>)
qed simp

lemma resolve_models_sound:
  "resolve_models e reqs acc = Inr insts \<Longrightarrow> (m, ad) \<in> set insts \<Longrightarrow>
   (m, ad) \<in> set acc \<or> m \<in> rq_model ` set reqs \<and> dispatch (sdk_installed e) m = Inr ad"
proof (induction reqs arbitrary: acc)
  case (Cons req reqs)
  show ?case
  proof (rule resolve_models_step [OF Cons.prems(1)])
    assume "resolve_models e reqs acc = Inr insts"
    from Cons.IH [OF this Cons.prems(2)] show ?thesis by auto
  next
    fix ad' assume ad': "dispatch (sdk_installed e) (rq_model req) = Inr ad'"
      "resolve_models e reqs (dput (rq_model req) ad' acc) = Inr insts"
    from Cons.IH [OF ad'(2) Cons.prems(2)] ad'(1) set_dput [of "rq_model req" ad' acc] show ?thesis by auto
  qed
qed simp

lemma resolve_models_total:
  "\<forall>req\<in>set reqs. \<exists>ad. dispatch (sdk_installed e) (rq_model req) = Inr ad \<Longrightarrow> \<exists>insts. resolve_models e reqs acc = Inr insts"
  by (induction reqs arbitrary: acc) auto

lemma construct_all_Inr: "construct_all e insts = Inr () \<longleftrightarrow> (\<forall>(m, ad)\<in>set insts. construct e ad = Inr ())"
  by (induction e insts rule: construct_all.induct) (auto split: sum.splits)

lemma request_records_ok:
  assumes "\<And>req. req \<in> set reqs \<Longrightarrow> map_of results (rq_id req) \<noteq> None"
  shows "request_records e s results reqs = Inr (map (\<lambda>req. request_record e s req (the (map_of results (rq_id req)))) reqs)"
  using assms by (induction reqs) force+

lemma resolve_models_maps:
  assumes "resolve_models e reqs [] = Inr insts" and "req \<in> set reqs"
  shows "\<exists>ad. map_of insts (rq_model req) = Some ad \<and> dispatch (sdk_installed e) (rq_model req) = Inr ad"
  using resolve_models_has [OF assms(1), of "rq_model req"] resolve_models_sound [OF assms(1)] assms(2)
  by (fastforce simp: dhas_def dest: map_of_SomeD)

text \<open>When the pool is done, each index has its answer, and its attempts are in the metadata.\<close>

lemma pool_answers:
  fixes e :: "'w panel_env"
  assumes ids: "distinct (map rq_id reqs)" and sched: "distinct sched" "set sched = {..<length reqs}"
    and insts: "resolve_models e reqs [] = Inr insts"
    and run: "run_pool sched (\<lambda>i. safe_call (per_request e insts) (reqs ! i)) s = (futures, s')"
    and i: "i < length reqs"
  shows "\<exists>r n ms. map_of futures i = Some r \<and> answered e (reqs ! i) r n \<and>
    dget (pn_meta s') (rq_id (reqs ! i)) = Some (n, ms)"
proof -
  let ?worker = "\<lambda>i. safe_call (per_request e insts) (reqs ! i)"
  let ?P = "\<lambda>i r (s :: 'w panel). \<exists>n ms. answered e (reqs ! i) r n \<and> dget (pn_meta s) (rq_id (reqs ! i)) = Some (n, ms)"
  have step: "\<exists>n ms. answered e (reqs ! i) (fst (?worker i s)) n \<and>
      pn_meta (snd (?worker i s)) = dput (rq_id (reqs ! i)) (n, ms) (pn_meta s)" if "i < length reqs" for i s
    using safe_call_answers resolve_models_maps [OF insts nth_mem [OF that]] by (metis prod.collapse)
  have "\<forall>i\<in>set sched. \<exists>r. map_of (fst (run_pool sched ?worker s)) i = Some r \<and> ?P i r (snd (run_pool sched ?worker s))"
  proof (rule run_pool_finishes [OF sched(1)])
    fix i s assume "i \<in> set sched"
    with step [of i s] sched(2) show "?P i (fst (?worker i s)) (snd (?worker i s))" by fastforce
  next
    fix i j r and s :: "'w panel"
    assume ij: "i \<in> set sched" "j \<in> set sched" "i \<noteq> j" and P: "?P j r s"
    then have "rq_id (reqs ! i) \<noteq> rq_id (reqs ! j)"
      using ids sched(2) by (simp add: distinct_conv_nth)
    with step [of i s] ij(1) P sched(2) show "?P j r (snd (?worker i s))" by fastforce
  qed
  with i sched(2) run show ?thesis by simp
qed

lemma collected_results:
  assumes ids: "distinct (map rq_id reqs)" and all: "\<And>i. i < length reqs \<Longrightarrow> map_of futures i \<noteq> None"
  shows "map fst (collect_results reqs futures) = map rq_id reqs"
    and "i < length reqs \<Longrightarrow> dget (collect_results reqs futures) (rq_id (reqs ! i)) = map_of futures i"
proof -
  have collected: "collect_results reqs futures =
      map (\<lambda>i. (rq_id (reqs ! i), the (map_of futures i))) [0..<length reqs]"
    by (rule collect_all [OF ids]) (use all in auto)
  show keys: "map fst (collect_results reqs futures) = map rq_id reqs"
    unfolding collected by (rule nth_equalityI) simp_all
  assume i: "i < length reqs"
  then have "(rq_id (reqs ! i), the (map_of futures i)) \<in> set (collect_results reqs futures)"
    unfolding collected by auto
  moreover have "distinct (map fst (collect_results reqs futures))" using ids by (simp only: keys)
  ultimately show "dget (collect_results reqs futures) (rq_id (reqs ! i)) = map_of futures i"
    using all [OF i] by auto
qed

text \<open>
  C32. A batch with distinct ids whose models resolve and whose adapters have keys is answered
  completely, whatever the order in which the pool runs the workers: one result per request, in
  request order, each the outcome of that request's own retries, and a record with that
  selection and its attempts.
\<close>

theorem panel_query_answers:
  assumes ids: "distinct (map rq_id reqs)" and sched: "distinct sched" "set sched = {..<length reqs}"
    and workers: "0 < max_workers"
    and models: "\<forall>req\<in>set reqs. \<exists>ad. dispatch (sdk_installed e) (rq_model req) = Inr ad \<and> construct e ad = Inr ()"
  shows "\<exists>results records s'. panel_query e max_workers sched reqs s = (Inr (results, records), s') \<and>
    map fst results = map rq_id reqs \<and> length records = length reqs \<and>
    (\<forall>i<length reqs. \<exists>r n. answered e (reqs ! i) r n \<and> dget results (rq_id (reqs ! i)) = Some r \<and>
       pget (records ! i) ''selection'' = Some (PStr (pr_selection r)) \<and>
       pget (records ! i) ''attempts'' = Some (PInt (int n)))"
proof (cases "reqs = []")
  case True
  then show ?thesis by (simp add: panel_query_def)
next
  case False
  obtain insts where insts: "resolve_models e reqs [] = Inr insts"
    using resolve_models_total models by blast
  have built: "construct_all e insts = Inr ()"
    using resolve_models_sound [OF insts] models by (fastforce simp: construct_all_Inr)
  let ?pool = "run_pool sched (\<lambda>i. safe_call (per_request e insts) (reqs ! i)) (s\<lparr>pn_meta := []\<rparr>)"
  obtain futures s' where run: "?pool = (futures, s')" by (cases ?pool)
  note all = pool_answers [OF ids sched insts run]
  let ?results = "collect_results reqs futures"
  have collected: "map fst ?results = map rq_id reqs"
    "\<And>i. i < length reqs \<Longrightarrow> dget ?results (rq_id (reqs ! i)) = map_of futures i"
    using collected_results [OF ids, of futures] all by fastforce+
  have "map_of ?results (rq_id req) \<noteq> None" if "req \<in> set reqs" for req
    using that collected(2) all by (auto simp: in_set_conv_nth) blast
  note records = request_records_ok [OF this]
  let ?records = "map (\<lambda>req. request_record e s' req (the (map_of ?results (rq_id req)))) reqs"
  have "panel_query e max_workers sched reqs s = (Inr (?results, ?records), s')"
    using False workers by (simp add: panel_query_def insts built fan_out_def run records)
  moreover have "\<exists>r n. answered e (reqs ! i) r n \<and> dget ?results (rq_id (reqs ! i)) = Some r \<and>
      pget (?records ! i) ''selection'' = Some (PStr (pr_selection r)) \<and>
      pget (?records ! i) ''attempts'' = Some (PInt (int n))" if "i < length reqs" for i
    using all [OF that] that by (fastforce simp: collected(2) request_record_def dget_or_def Let_def)
  ultimately show ?thesis using collected(1)
    by (intro exI [of _ ?results] exI [of _ ?records] exI [of _ s']) simp
qed

text \<open>
  When the model of any request has no adapter, or its adapter no SDK or key,
  \<open>panel_query\<close> raises before the first call: no provider is asked and the throttle
  is untouched.
\<close>

theorem panel_query_fails_early:
  assumes "req \<in> set reqs"
    and "(\<exists>x. dispatch (sdk_installed e) (rq_model req) = Inl x) \<or>
      (\<exists>ad x. dispatch (sdk_installed e) (rq_model req) = Inr ad \<and> construct e ad = Inl x)"
  shows "\<exists>x. panel_query e max_workers sched reqs s = (Inl x, s)"
proof (cases "resolve_models e reqs []")
  case (Inl x)
  then show ?thesis using assms(1) by (auto simp: panel_query_def)
next
  case (Inr insts)
  note facts = resolve_models_has [OF Inr] resolve_models_sound [OF Inr]
  from facts assms(1) obtain ad where "map_of insts (rq_model req) = Some ad"
    by (fastforce simp: dhas_def)
  then have "(rq_model req, ad) \<in> set insts" by (rule map_of_SomeD)
  with facts assms(2) have "construct e ad \<noteq> Inr ()" "(rq_model req, ad) \<in> set insts" by auto
  then obtain x where "construct_all e insts = Inl x"
    using construct_all_Inr [of e insts] by (cases "construct_all e insts") auto
  with Inr assms(1) show ?thesis by (auto simp: panel_query_def)
qed

text \<open>
  Two requests for the same model, the second one served first; its first call times out. The
  third one asks for a model of another provider and is refused.
\<close>

definition three_asks :: "panel_request list" where
  "three_asks = [ask ''a'' ''gpt-4o'', ask ''b'' ''gpt-4o'', ask ''c'' ''claude-opus-4-7'']"

theorem panel_query_answers_witness:
  "\<exists>results records s'. panel_query scripted 8 [1, 0, 2] three_asks
       (scripted_panel [Inl (SdkTimeout ''slow''), Inr [Some ''yes''], Inr [Some ''no''], Inl (SdkOther ''key'')]) =
       (Inr (results, records), s') \<and>
     map fst results = [''a'', ''b'', ''c''] \<and> length records = 3"
proof -
  have ids: "distinct (map rq_id three_asks)" and sched: "set [1, 0, 2] = {..<length three_asks}"
    and models: "\<forall>req\<in>set three_asks. \<exists>ad. dispatch (sdk_installed scripted) (rq_model req) = Inr ad \<and>
      construct scripted ad = Inr ()"
    by (auto simp: three_asks_def ask_def scripted_def dispatch_def ADAPTERS_def construct_def)
  show ?thesis
    using panel_query_answers [OF ids _ sched _ models, of 8] by (fastforce simp: three_asks_def ask_def)
qed

theorem panel_query_fails_early_witness:
  "\<exists>x. panel_query scripted 8 [0] [ask ''a'' ''mistral''] (scripted_panel [Inr [Some ''yes'']]) =
     (Inl x, scripted_panel [Inr [Some ''yes'']])"
  by (rule panel_query_fails_early [of "ask ''a'' ''mistral''"])
    (simp_all add: ask_def scripted_def dispatch_def ADAPTERS_def)

theorem record_file_round_trip_witness:
  "read_records ''run.jsonl'' (record_file [PDict [(''prompt'', PStr [CHR ''a'', newline, CHR 0x0D, CHR ''b''])], PInt 3]) =
     ([PDict [(''prompt'', PStr [CHR ''a'', newline, CHR 0x0D, CHR ''b''])], PInt 3], None)"
  by (rule record_file_round_trip) simp

end
