(* ===== verification/Dryrun.thy ===== *)
theory Dryrun
  imports App Tools
begin

text \<open>
  The dry run (\<^verbatim>\<open>src/megalos_server/dryrun.py\<close>): a read-eval-print loop that walks a workflow
  through the tools, from the terminal or from a file of scripted responses. The state is the
  process: the server behind \<open>mcp.call_tool\<close>, what was printed on either stream, the lines still
  to be read, and the script. \<open>sys.exit\<close> raises \<^const>\<open>SystemExit\<close>, as in Python; the loop has no
  other way to end than by an exception, so the model of it takes fuel. The arrows and dashes of the
  printed lines are ASCII here, and an answer of the server and a step are mappings wherever the code
  calls \<^verbatim>\<open>get\<close> on them. The command line itself (\<^verbatim>\<open>argparse\<close>, the existence of files) is read
  into a record.
\<close>

section \<open>The process\<close>

text \<open>
  The script of a scripted run is the module variable \<^verbatim>\<open>_SCRIPTED\<close>; the terminal is what was
  printed to either stream, and the lines still to be read.
\<close>

record script =
  sc_entries :: "pyval list"
  sc_pos :: nat
  sc_step :: pyval
  sc_depth :: nat

record 'w repl =
  rp_server :: 'w
  rp_out :: "string list"
  rp_err :: "string list"
  rp_in :: "string list"
  rp_script :: "script option"

definition say :: "string \<Rightarrow> ('w repl, unit) act" where
  "say msg s = (Inr (), s\<lparr>rp_out := rp_out s @ [msg]\<rparr>)"

definition warn :: "string \<Rightarrow> ('w repl, unit) act" where
  "warn msg s = (Inr (), s\<lparr>rp_err := rp_err s @ [msg]\<rparr>)"

fun each :: "('a \<Rightarrow> ('s, unit) act) \<Rightarrow> 'a list \<Rightarrow> ('s, unit) act" where
  "each f [] = retE ()"
| "each f (x # xs) = seqE (f x) (each f xs)"

definition sys_exit :: "int \<Rightarrow> ('s, 'a) act" where
  "sys_exit code = raiseE (SystemExit code)"

text \<open>\<open>mcp.call_tool(name, args)\<close>: a parameter, the state behind it is the server's.\<close>

type_synonym 'w server = "string \<Rightarrow> (string \<times> pyval) list \<Rightarrow> ('w, pyval) act"

definition call_tool :: "'w server \<Rightarrow> string \<Rightarrow> (string \<times> pyval) list \<Rightarrow> ('w repl, pyval) act" where
  "call_tool server name args s =
     (case server name args (rp_server s) of (r, w) \<Rightarrow> (r, s\<lparr>rp_server := w\<rparr>))"

section \<open>Reading envelopes\<close>

definition is_tag :: "pyval \<Rightarrow> string \<Rightarrow> string \<Rightarrow> bool" where
  "is_tag v k tag \<longleftrightarrow> pget v k = Some (PStr tag)"

definition field_or :: "pyval \<Rightarrow> string \<Rightarrow> string \<Rightarrow> string" where
  "field_or v k d = (case pget v k of Some x \<Rightarrow> py_str x | None \<Rightarrow> d)"

text \<open>\<open>v.get(k) or z\<close>\<close>

definition truthy_or :: "pyval \<Rightarrow> string \<Rightarrow> pyval \<Rightarrow> pyval" where
  "truthy_or v k z = (case pget v k of Some x \<Rightarrow> if truthy x then x else z | None \<Rightarrow> z)"

text \<open>What the server's message holds between its first two single quotes.\<close>

definition quoted_part :: "pyval \<Rightarrow> exn + string" where
  "quoted_part v =
     (let err = truthy_or v ''error'' PNone in
      if err = PNone then Inr ''?''
      else andThen (py_in [sq] err) (\<lambda>b.
        if b then
          (case err of
             PStr s \<Rightarrow> Inr (split_on sq s ! 1)
           | _ \<Rightarrow> Inl (AttributeError (quoted (type_name err) @ '' object has no attribute '' @ quoted ''split'')))
        else Inr ''?''))"

definition joined :: "pyval \<Rightarrow> exn + string" where
  "joined v =
     andThen (iterated v) (\<lambda>xs.
       if list_all is_str xs then Inr (join '', '' (map py_str xs))
       else Inl (TypeError ''sequence item: expected str instance''))"

section \<open>Printing\<close>

definition MAX_DEPTH :: nat where "MAX_DEPTH = 4"

definition TERMINAL_STATUSES :: "string list" where
  "TERMINAL_STATUSES = [''workflow_complete'', ''error'', ''session_escalated'', ''workflow_changed'']"

definition indent_for :: "nat \<Rightarrow> string" where
  "indent_for level = concat (replicate (min level MAX_DEPTH) ''  '')"

definition print_validation_error :: "pyval \<Rightarrow> string \<Rightarrow> ('w repl, unit) act" where
  "print_validation_error v ind =
     seqE (warn (ind @ ''Validation failed:''))
     (bindE (liftE (andThen (getitem v ''errors'') iterated)) (\<lambda>errs.
      seqE (each (\<lambda>x. warn (ind @ ''  - '' @ py_str x)) errs)
        (let hint = truthy_or v ''validation_hint'' PNone in
         if hint = PNone then retE () else warn (ind @ ''Hint: '' @ py_str hint))))"

definition print_escalated :: "pyval \<Rightarrow> ('w repl, unit) act" where
  "print_escalated v =
     (let wrapper = truthy_or v ''called_workflow_error'' (PDict []);
          child_error = truthy_or wrapper ''child_error'' (PDict []) in
      if is_tag child_error ''reason'' ''parent_output_schema_fail'' then
        seqE (warn (''Sub-workflow '' @ quoted (field_or wrapper ''child_workflow_type'' ''?'')
               @ '' completed, but its artifact failed parent's output_schema:''))
        (bindE (liftE (iterated (truthy_or child_error ''errors'' (PList [])))) (\<lambda>errs.
         seqE (each (\<lambda>x. warn (''  - '' @ py_str x)) errs) (warn ''Parent session escalated.'')))
      else
        warn (''Sub-workflow state drift: parent session (fingerprint ''
          @ field_or v ''parent_session_fingerprint'' ''?'' @ '') is no longer at a call-step; child (fingerprint ''
          @ field_or v ''child_session_fingerprint'' ''?'' @ '') retained for inspection.''))"

definition print_generic :: "pyval \<Rightarrow> ('w repl, unit) act" where
  "print_generic v =
     (let line = (\<lambda>k pre. let x = truthy_or v k PNone in if x = PNone then retE () else warn (pre @ py_str x)) in
      seqE (line ''message'' []) (seqE (line ''code'' ''code: '') (line ''error'' ''error: '')))"

definition print_terminal :: "pyval \<Rightarrow> string \<Rightarrow> ('w repl, unit) act" where
  "print_terminal v ind =
     (if is_tag v ''status'' ''workflow_complete'' then
        seqE (say (CHR 0x0A # ind @ ''=== Workflow complete ==='')) (say (ind @ field_or v ''message'' []))
      else if is_tag v ''code'' ''invalid_argument'' \<and> is_tag v ''field'' ''branch'' \<and> truthy_or v ''error'' PNone \<noteq> PNone then
        warn (field_or v ''error'' [])
      else if is_tag v ''code'' ''skipped_predecessor_reference'' then
        warn (''Skipped predecessor reference: step '' @ quoted (field_or v ''step_id'' ''?'')
          @ '' references '' @ quoted (field_or v ''referenced_step'' ''?'') @ '' which was skipped'')
      else if is_tag v ''code'' ''call_step_requires_enter_sub_workflow'' then
        warn (''REPL bug: submit_step was called on call-step '' @ quoted (field_or v ''step_id'' ''?'')
          @ '' (target: '' @ field_or v ''call_target'' ''?'' @ ''). This should not happen.'')
      else if is_tag v ''code'' ''sub_workflow_pending'' then
        warn (''Sub-workflow pending: child session (fingerprint '' @ field_or v ''child_session_fingerprint'' ''?''
          @ '') is in flight. Resolve it before continuing.'')
      else if is_tag v ''code'' ''workflow_not_loaded'' then
        bindE (liftE (quoted_part v)) (\<lambda>target.
        bindE (liftE (joined (truthy_or v ''available_types'' (PList [])))) (\<lambda>available.
          warn (''Sub-workflow '' @ quoted target @ '' not loaded. Available: '' @ available)))
      else if is_tag v ''code'' ''out_of_order_submission'' then
        warn (''Out-of-order: expected step '' @ quoted (field_or v ''expected_step'' ''?'')
          @ '', got '' @ quoted (field_or v ''submitted_step'' ''?'') @ ''.'')
      else if is_tag v ''code'' ''session_escalated'' then print_escalated v
      else if is_tag v ''code'' ''invalid_argument'' \<and> is_tag v ''field'' ''call_context_from'' then
        bindE (liftE (quoted_part v)) (\<lambda>ref.
          warn (''Invalid call_context_from: ref '' @ quoted ref @ '' did not resolve in parent step_data.''))
      else print_generic v)"

definition render_precondition :: "pyval \<Rightarrow> exn + string option" where
  "render_precondition pc =
     andThen (py_in ''when_equals'' pc) (\<lambda>eq.
       if eq then
         andThen (getitem pc ''when_equals'') (\<lambda>we.
           if is_dict we then
             Inr (Some (''Precondition: '' @ field_or we ''ref'' ''?'' @ '' == '' @ [dq] @ field_or we ''value'' ''?'' @ [dq]))
           else Inl (AttributeError (quoted (type_name we) @ '' object has no attribute '' @ quoted ''get'')))
       else andThen (py_in ''when_present'' pc) (\<lambda>present.
         if present then
           andThen (getitem pc ''when_present'') (\<lambda>w. Inr (Some (''Precondition: '' @ py_str w @ '' is present'')))
         else Inr None))"

section \<open>The interactive readers\<close>

definition abort_eof :: "('w repl, 'a) act" where
  "abort_eof = seqE (warn ''Dry-run aborted by user (EOF)'') (sys_exit 1)"

text \<open>\<open>input(prompt)\<close>; both callers answer the end of the input alike.\<close>

definition read_line :: "string \<Rightarrow> ('w repl, string) act" where
  "read_line prompt =
     seqE (say prompt) (bindE (getE rp_in) (\<lambda>lines.
       case lines of
         [] \<Rightarrow> abort_eof
       | l # ls \<Rightarrow> (\<lambda>s. (Inr l, s\<lparr>rp_in := ls\<rparr>))))"

text \<open>\<open>int(s)\<close> of a stripped string: a sign, then digits with single underscores between them.\<close>

definition py_int :: "string \<Rightarrow> int option" where
  "py_int s =
     (let neg = (s \<noteq> [] \<and> hd s = CHR ''-'');
          ds = (if s \<noteq> [] \<and> (hd s = CHR ''-'' \<or> hd s = CHR ''+'') then tl s else s);
          groups = split_on (CHR ''_'') ds in
      if list_all (\<lambda>g. g \<noteq> [] \<and> list_all is_digit g) groups
      then Some ((if neg then - 1 else 1) * int (nat_of_digits 0 (concat groups))) else None)"

definition invalid_selection :: "string \<Rightarrow> nat \<Rightarrow> string" where
  "invalid_selection raw n = ''Invalid branch selection '' @ quoted raw @ ''. Enter 1-'' @ str_nat n @ '' or empty.''"

text \<open>The loop of \<^verbatim>\<open>_prompt_branch\<close>, by the lines it may still read.\<close>

fun choose_branch :: "pyval list \<Rightarrow> pyval \<Rightarrow> string \<Rightarrow> string list \<Rightarrow> ('w repl, pyval) act" where
  "choose_branch branches dflt ind lines =
     seqE (say (''Choose branch [1-'' @ str_nat (length branches) @ '', empty = default]: ''))
       (case lines of
          [] \<Rightarrow> abort_eof
        | l # ls \<Rightarrow>
            seqE (\<lambda>s. (Inr (), s\<lparr>rp_in := ls\<rparr>))
              (let raw = py_strip l in
               if raw = [] then seqE (say (ind @ ''-> '' @ py_str dflt @ '' (default)'')) (retE dflt)
               else (case py_int raw of
                  None \<Rightarrow> seqE (warn (invalid_selection raw (length branches))) (choose_branch branches dflt ind ls)
                | Some i \<Rightarrow>
                    if 1 \<le> i \<and> i \<le> int (length branches) then
                      bindE (liftE (getitem (branches ! nat (i - 1)) ''next'')) (\<lambda>target.
                        seqE (say (ind @ ''-> '' @ py_str target)) (retE target))
                    else seqE (warn (invalid_selection raw (length branches))) (choose_branch branches dflt ind ls))))"

fun branch_rows :: "nat \<Rightarrow> pyval \<Rightarrow> string \<Rightarrow> pyval list \<Rightarrow> ('w repl, unit) act" where
  "branch_rows i dflt ind [] = retE ()"
| "branch_rows i dflt ind (b # branches) =
     bindE (liftE (getitem b ''next'')) (\<lambda>n.
     bindE (liftE (getitem b ''condition'')) (\<lambda>c.
     seqE (say (ind @ ''  '' @ str_nat i @ ''. '' @ py_str n @ '' - '' @ py_str c
             @ (if py_eq n dflt then '' [default]'' else [])))
       (branch_rows (Suc i) dflt ind branches)))"

definition ask_branch :: "pyval list \<Rightarrow> pyval \<Rightarrow> string \<Rightarrow> ('w repl, pyval) act" where
  "ask_branch branches dflt ind =
     seqE (say (ind @ ''Branches:''))
     (seqE (branch_rows 1 dflt ind branches)
       (bindE (getE rp_in) (choose_branch branches dflt ind)))"

section \<open>Scripted runs\<close>

definition SUPPORTED_RESPONSES_VERSIONS :: "int list" where
  "SUPPORTED_RESPONSES_VERSIONS = [1]"

definition scripted_exit :: "string \<Rightarrow> ('w repl, 'a) act" where
  "scripted_exit msg = seqE (warn msg) (sys_exit 1)"

text \<open>The check of one entry: \<open>None\<close> when it passes.\<close>

definition entry_problem :: "nat \<Rightarrow> pyval \<Rightarrow> string option" where
  "entry_problem i x =
     (let at = ''Responses file entry '' @ str_nat i in
      if \<not> is_dict x then Some (at @ '': must be a mapping.'')
      else (case nonempty_str (pget x ''step_id'') of
         None \<Rightarrow> Some (at @ '': '' @ quoted ''step_id'' @ '' field required (string).'')
       | Some sid \<Rightarrow>
           (let at = at @ '' (step_id='' @ sid @ ''): '';
                one = ''must have exactly one of '' @ quoted ''response'' @ '' or '' @ quoted ''branch'' in
            if phas x ''response'' \<and> phas x ''branch'' then Some (at @ one @ '', not both.'')
            else if \<not> phas x ''response'' \<and> \<not> phas x ''branch'' then Some (at @ one @ ''.'')
            else if phas x ''response'' \<and> \<not> is_str_key x ''response'' then
              Some (at @ quoted ''response'' @ '' must be a string.'')
            else if phas x ''branch'' \<and> \<not> is_str_key x ''branch'' then
              Some (at @ quoted ''branch'' @ '' must be a string.'')
            else None)))"

fun check_entries :: "nat \<Rightarrow> pyval list \<Rightarrow> ('w repl, unit) act" where
  "check_entries i [] = retE ()"
| "check_entries i (x # xs) =
     (case entry_problem i x of
        Some msg \<Rightarrow> scripted_exit msg
      | None \<Rightarrow> check_entries (Suc i) xs)"

definition parse_responses_file :: "string \<Rightarrow> yaml_source \<Rightarrow> ('w repl, pyval list) act" where
  "parse_responses_file path src =
     (case src of
        ReadFailed m \<Rightarrow> raiseE (OSError m)
      | YamlFailed m \<Rightarrow> scripted_exit (''Responses file '' @ path @ '' is not valid YAML: '' @ m)
      | Loaded doc \<Rightarrow>
          if \<not> is_dict doc then
            scripted_exit (''Responses file '' @ path @ '' must be a YAML mapping at top level.'')
          else (case pget doc ''version'' of
             None \<Rightarrow> scripted_exit (''Responses file missing required '' @ quoted ''version'' @ '' field. Expected: version: 1'')
           | Some version \<Rightarrow>
               if \<not> list_ex (\<lambda>v. py_eq version (PInt v)) SUPPORTED_RESPONSES_VERSIONS then
                 scripted_exit (''Unknown responses-file version: '' @ py_str version @ ''. Supported: ''
                   @ py_repr (PList (map PInt SUPPORTED_RESPONSES_VERSIONS)))
               else (case pget doc ''entries'' of
                  Some (PList entries) \<Rightarrow> seqE (check_entries 0 entries) (retE entries)
                | _ \<Rightarrow> scripted_exit (''Responses file '' @ quoted ''entries'' @ '' field required and must be a list.''))))"

definition install_scripted_mode :: "string \<Rightarrow> yaml_source \<Rightarrow> ('w repl, unit) act" where
  "install_scripted_mode path src =
     bindE (parse_responses_file path src) (\<lambda>entries s.
       (Inr (), s\<lparr>rp_script := Some \<lparr>sc_entries = entries, sc_pos = 0, sc_step = PStr [], sc_depth = 0\<rparr>\<rparr>))"

text \<open>\<^verbatim>\<open>state["pos"] += 1\<close>\<close>

definition bump :: "('w repl, unit) act" where
  "bump s = (Inr (), s\<lparr>rp_script := map_option (\<lambda>sc. sc\<lparr>sc_pos := Suc (sc_pos sc)\<rparr>) (rp_script s)\<rparr>)"

text \<open>The loop of \<^verbatim>\<open>_scripted_consume\<close>, by the entries left from \<open>pos\<close> on.\<close>

fun walk_entries :: "nat \<Rightarrow> pyval \<Rightarrow> string \<Rightarrow> pyval list \<Rightarrow> ('w repl, pyval) act" where
  "walk_entries level step kind [] =
     scripted_exit (''Responses file exhausted at step '' @ py_str step @ '' (expecting: ''
       @ (if kind = ''response'' then ''step response'' else ''branch selection'') @ '')'')"
| "walk_entries level step kind (x # rest) =
     bindE (liftE (getitem x ''step_id'')) (\<lambda>sid.
       if py_eq sid step then
         (if kind = ''response'' \<and> \<not> phas x ''response'' then
            scripted_exit (''At step '' @ py_str step @ '', expected step response but script provided branch selection'')
          else if kind = ''branch'' \<and> \<not> phas x ''branch'' then
            scripted_exit (''At step '' @ py_str step @ '', expected branch selection but script provided response'')
          else seqE bump (retE x))
       else if 0 < level then seqE bump (walk_entries level step kind rest)
       else scripted_exit (''Script entry expected step_id='' @ py_str sid @ '', REPL at step_id='' @ py_str step))"

definition scripted_consume :: "string \<Rightarrow> ('w repl, pyval) act" where
  "scripted_consume kind =
     bindE (getE rp_script) (\<lambda>script.
       case script of
         None \<Rightarrow> raiseE (AssertionError [])
       | Some sc \<Rightarrow> walk_entries (sc_depth sc) (sc_step sc) kind (drop (sc_pos sc) (sc_entries sc)))"

text \<open>The two readers, as \<^verbatim>\<open>_install_scripted_mode\<close> binds them.\<close>

definition read_response :: "('w repl, string) act" where
  "read_response =
     bindE (getE rp_script) (\<lambda>script.
       if script = None then read_line ''> ''
       else bindE (scripted_consume ''response'') (\<lambda>x.
         bindE (liftE (getitem x ''response'')) (\<lambda>v. retE (py_str v))))"

definition prompt_branch :: "pyval list \<Rightarrow> pyval \<Rightarrow> string \<Rightarrow> ('w repl, pyval) act" where
  "prompt_branch branches dflt ind =
     bindE (getE rp_script) (\<lambda>script.
       if script = None then ask_branch branches dflt ind
       else bindE (scripted_consume ''branch'') (\<lambda>x.
         bindE (liftE (getitem x ''branch'')) (\<lambda>v. retE (PStr (py_str v)))))"

definition check_unused_on_complete :: "('w repl, unit) act" where
  "check_unused_on_complete =
     bindE (getE rp_script) (\<lambda>script.
       case script of
         None \<Rightarrow> retE ()
       | Some sc \<Rightarrow>
           (let remaining = length (sc_entries sc) - sc_pos sc in
            if 0 < remaining then
              scripted_exit (''Responses file had '' @ str_nat remaining @ '' unused entries after workflow completion'')
            else retE ()))"

text \<open>The cursor a scripted reader compares with.\<close>

definition set_cursor :: "pyval \<Rightarrow> nat \<Rightarrow> ('w repl, unit) act" where
  "set_cursor step level s =
     (Inr (), s\<lparr>rp_script := map_option (\<lambda>sc. sc\<lparr>sc_step := step, sc_depth := level\<rparr>) (rp_script s)\<rparr>)"

section \<open>The stack of sessions\<close>

record repl_frame =
  fr_session_id :: pyval
  fr_workflow :: pyval
  fr_prev_step_idx :: int
  fr_call_step_id :: "pyval option"

fun find_call :: "pyval list \<Rightarrow> pyval \<Rightarrow> exn + pyval option" where
  "find_call [] step = Inr None"
| "find_call (st # sts) step =
     andThen (getitem st ''id'') (\<lambda>sid.
       if py_eq sid step then Inr (case pget st ''call'' of Some PNone \<Rightarrow> None | c \<Rightarrow> c)
       else find_call sts step)"

definition detect_call_target :: "pyval \<Rightarrow> pyval list \<Rightarrow> pyval \<Rightarrow> exn + pyval option" where
  "detect_call_target v steps step =
     (let of_step = (\<lambda>k. truthy_or (truthy_or v k (PDict [])) ''call_target'' PNone) in
      if of_step ''next_step'' \<noteq> PNone then Inr (Some (PStr (py_str (of_step ''next_step''))))
      else if of_step ''current_step'' \<noteq> PNone then Inr (Some (PStr (py_str (of_step ''current_step''))))
      else find_call steps step)"

text \<open>The stack is top first. An error envelope comes back with the stack unchanged.\<close>

definition descend ::
  "'w server \<Rightarrow> workflows \<Rightarrow> repl_frame list \<Rightarrow> pyval \<Rightarrow> ('w repl, pyval \<times> repl_frame list) act" where
  "descend server wfs stack csid =
     (case stack of
        [] \<Rightarrow> raiseE (IndexError ''list index out of range'')
      | parent # _ \<Rightarrow>
          bindE (call_tool server ''enter_sub_workflow''
            [(''parent_session_id'', fr_session_id parent), (''call_step_id'', csid)]) (\<lambda>v.
          if is_tag v ''status'' ''error'' then retE (v, stack)
          else
            bindE (liftE (getitem v ''session_id'')) (\<lambda>child_sid.
            bindE (liftE (getitem v ''workflow_type'')) (\<lambda>name.
            bindE (liftE (case dget wfs (py_str name) of Some w \<Rightarrow> Inr w | None \<Rightarrow> Inl (KeyError (py_str name)))) (\<lambda>w.
            let level = length stack; ind = indent_for level; ctx = truthy_or v ''context'' PNone in
            seqE (say (ind @ ''-> Entering sub-workflow '' @ quoted (py_str name)))
            (seqE (if MAX_DEPTH \<le> level then say (ind @ ''[max nesting depth reached]'') else retE ())
            (seqE (if ctx = PNone then retE () else say (ind @ ''  Context: '' @ py_str ctx))
              (retE (v, \<lparr>fr_session_id = child_sid, fr_workflow = w, fr_prev_step_idx = -1,
                         fr_call_step_id = Some csid\<rparr> # stack)))))))))"

text \<open>The pops on the way up: to the session the envelope is about.\<close>

fun ascend :: "pyval \<Rightarrow> repl_frame list \<Rightarrow> ('w repl, repl_frame list) act" where
  "ascend target [] = retE []"
| "ascend target (f # stack) =
     (if py_eq (fr_session_id f) target then retE (f # stack)
      else bindE (liftE (getitem (fr_workflow f) ''name'')) (\<lambda>name.
        seqE (say (indent_for (length stack) @ ''<- Returned from sub-workflow '' @ quoted (py_str name)))
          (ascend target stack)))"

section \<open>One turn\<close>

fun listed_ids :: "pyval list \<Rightarrow> exn + pyval list" where
  "listed_ids [] = Inr []"
| "listed_ids (st # sts) =
     andThen (getitem st ''id'') (\<lambda>v.
       if hashable v then andThen (listed_ids sts) (\<lambda>vs. Inr (v # vs)) else Inl (unhashable v))"

text \<open>\<open>step_index.get(step, dflt)\<close>, the last step of an id winning.\<close>

fun index_in :: "nat \<Rightarrow> pyval list \<Rightarrow> pyval \<Rightarrow> int \<Rightarrow> int" where
  "index_in i [] step dflt = dflt"
| "index_in i (v # vs) step dflt = index_in (Suc i) vs step (if py_eq v step then int i else dflt)"

definition skipped_lines :: "string \<Rightarrow> pyval list \<Rightarrow> ('w repl, unit) act" where
  "skipped_lines ind sts =
     each (\<lambda>st. bindE (liftE (py_in ''precondition'' st)) (\<lambda>b.
       if b then bindE (liftE (getitem st ''id'')) (\<lambda>v. say (ind @ ''Skipped: '' @ py_str v)) else retE ())) sts"

definition banner :: "string \<Rightarrow> pyval \<Rightarrow> ('w repl, unit) act" where
  "banner ind active =
     bindE (liftE (getitem active ''id'')) (\<lambda>v.
     bindE (liftE (getitem active ''title'')) (\<lambda>title.
       say (CHR 0x0A # ind @ ''=== Step: '' @ py_str v @ '' - '' @ py_str title @ '' ==='')))"

definition submit :: "'w server \<Rightarrow> pyval \<Rightarrow> pyval \<Rightarrow> string \<Rightarrow> (string \<times> pyval) list \<Rightarrow> ('w repl, pyval) act" where
  "submit server sid step content extra =
     call_tool server ''submit_step''
       ([(''session_id'', sid), (''step_id'', step), (''content'', PStr content)] @ extra)"

text \<open>A turn has the envelope, the stack and the last step id; a turn that ends the run raises.\<close>

type_synonym turn = "pyval \<times> repl_frame list \<times> pyval"

definition retry_turn ::
  "'w server \<Rightarrow> pyval \<Rightarrow> repl_frame list \<Rightarrow> pyval \<Rightarrow> pyval \<Rightarrow> nat \<Rightarrow> string \<Rightarrow> ('w repl, turn) act" where
  "retry_turn server v stack step sid level ind =
     seqE (print_validation_error v ind)
       (if truthy_or v ''retries_exhausted'' PNone \<noteq> PNone then
          bindE (liftE (getitem v ''message'')) (\<lambda>m. seqE (warn (py_str m)) (sys_exit 1))
        else
          bindE (liftE (getitem v ''retries_remaining'')) (\<lambda>r.
          seqE (warn (''Retries remaining: '' @ py_str r))
          (seqE (set_cursor step level)
          (bindE read_response (\<lambda>response.
           bindE (submit server sid step response []) (\<lambda>v'. retE (v', stack, step)))))))"

definition terminal_turn :: "pyval \<Rightarrow> string \<Rightarrow> ('w repl, 'a) act" where
  "terminal_turn v ind =
     seqE (print_terminal v ind)
       (if is_tag v ''status'' ''workflow_complete''
        then seqE check_unused_on_complete (sys_exit 0) else sys_exit 1)"

text \<open>The branches to ask for: the envelope's, or those of the workflow document.\<close>

definition branch_choice :: "pyval \<Rightarrow> pyval option \<Rightarrow> pyval \<times> pyval" where
  "branch_choice v upcoming =
     (let brs = truthy_or v ''branches'' PNone;
          default_of = (\<lambda>x. case pget x ''default_branch'' of Some d \<Rightarrow> d | None \<Rightarrow> PStr []) in
      case upcoming of
        Some st \<Rightarrow>
          if brs = PNone \<and> truthy_or st ''branches'' PNone \<noteq> PNone
          then (truthy_or st ''branches'' PNone, default_of st) else (brs, default_of v)
      | None \<Rightarrow> (brs, default_of v))"

definition submit_turn ::
  "'w server \<Rightarrow> pyval \<Rightarrow> repl_frame list \<Rightarrow> pyval \<Rightarrow> pyval \<Rightarrow> nat \<Rightarrow> string \<Rightarrow> pyval option \<Rightarrow> ('w repl, turn) act" where
  "submit_turn server v stack step sid level ind upcoming =
     seqE (case upcoming of
             Some st \<Rightarrow>
               bindE (liftE (py_in ''precondition'' st)) (\<lambda>b.
                 if b then bindE (liftE (andThen (getitem st ''precondition'') render_precondition)) (\<lambda>r.
                   case r of Some l \<Rightarrow> say (ind @ l) | None \<Rightarrow> retE ())
                 else retE ())
           | None \<Rightarrow> retE ())
     (bindE (liftE (iterated (truthy_or v ''gates'' (PList [])))) (\<lambda>gates.
      seqE (if gates = [] then retE ()
            else seqE (say (ind @ ''Gates:'')) (each (\<lambda>g. say (ind @ ''  - '' @ py_str g)) gates))
     (bindE (liftE (getitem v ''directive'')) (\<lambda>directive.
      seqE (say (py_str directive))
     (seqE (say [])
     (seqE (set_cursor step level)
     (bindE read_response (\<lambda>response.
      case branch_choice v upcoming of
        (brs, dflt) \<Rightarrow>
          bindE (if brs = PNone then retE []
                 else bindE (liftE (iterated brs)) (\<lambda>xs.
                   bindE (prompt_branch xs dflt ind) (\<lambda>b. retE [(''branch'', b)]))) (\<lambda>extra.
          bindE (submit server sid step response extra) (\<lambda>v'. retE (v', stack, step)))))))))))"

definition advance_turn ::
  "'w server \<Rightarrow> workflows \<Rightarrow> pyval \<Rightarrow> repl_frame \<Rightarrow> repl_frame list \<Rightarrow> pyval list \<Rightarrow> nat \<Rightarrow> string
   \<Rightarrow> ('w repl, turn) act" where
  "advance_turn server wfs v cur rest steps level ind =
     bindE (liftE (let c = truthy_or v ''current_step'' PNone in
                   if c = PNone then getitem v ''next_step'' else Inr c)) (\<lambda>active.
     bindE (liftE (getitem active ''id'')) (\<lambda>step.
     bindE (liftE (listed_ids steps)) (\<lambda>ids.
     if \<not> hashable step then raiseE (unhashable step)
     else
       let prev = fr_prev_step_idx cur;
           curr = index_in 0 ids step (prev + 1);
           stack = cur\<lparr>fr_prev_step_idx := curr\<rparr> # rest in
       seqE (skipped_lines ind (map (\<lambda>j. steps ! nat j) [prev + 1..curr - 1]))
       (bindE (liftE (detect_call_target v steps step)) (\<lambda>target.
        seqE (banner ind active)
          (case target of
             Some _ \<Rightarrow>
               bindE (descend server wfs stack step) (\<lambda>(v', stack').
                 if is_tag v' ''status'' ''error'' then seqE (print_terminal v' ind) (sys_exit 1)
                 else retE (v', stack', step))
           | None \<Rightarrow>
               submit_turn server v stack step (fr_session_id cur) level ind
                 (if 0 \<le> curr \<and> curr < int (length steps) then Some (steps ! nat curr) else None)))))))"

definition repl_turn :: "'w server \<Rightarrow> workflows \<Rightarrow> turn \<Rightarrow> ('w repl, turn) act" where
  "repl_turn server wfs t =
     (case t of (v, stack0, step) \<Rightarrow>
        bindE (if truthy_or v ''propagated_from_sub_workflow'' PNone \<noteq> PNone
               then ascend (case pget v ''session_id'' of Some x \<Rightarrow> x | None \<Rightarrow> PNone) stack0
               else retE stack0) (\<lambda>stack.
        case stack of
          [] \<Rightarrow> raiseE (IndexError ''list index out of range'')
        | cur # rest \<Rightarrow>
            (let level = length rest; ind = indent_for level in
             bindE (liftE (andThen (getitem (fr_workflow cur) ''steps'') iterated)) (\<lambda>steps.
             bindE (liftE (listed_ids steps)) (\<lambda>_.
             if is_tag v ''status'' ''validation_error'' then
               retry_turn server v stack step (fr_session_id cur) level ind
             else if list_ex (is_tag v ''status'') TERMINAL_STATUSES then terminal_turn v ind
             else advance_turn server wfs v cur rest steps level ind)))))"

text \<open>\<^verbatim>\<open>while True\<close>, with fuel.\<close>

fun repl_loop :: "nat \<Rightarrow> 'w server \<Rightarrow> workflows \<Rightarrow> turn \<Rightarrow> ('w repl, unit) act" where
  "repl_loop 0 server wfs t = raiseE NoReturn"
| "repl_loop (Suc n) server wfs t = bindE (repl_turn server wfs t) (repl_loop n server wfs)"

section \<open>The tools behind the server\<close>

text \<open>
  The three tools the loop calls, dispatched by name with the defaults of their parameters.
  \<open>token_of\<close> is the fresh session id a call would draw. The middlewares are not in between here.
\<close>

definition arg_of :: "(string \<times> pyval) list \<Rightarrow> string \<Rightarrow> pyval" where
  "arg_of args k = dget_or args k (PStr [])"

definition server_call :: "'e tool_env_scheme \<Rightarrow> app \<Rightarrow> (world \<Rightarrow> string) \<Rightarrow> world server" where
  "server_call e ap token_of name args s =
     (if name = ''start_workflow'' then
        start_workflow e ap (token_of s) (arg_of args ''workflow_type'') (arg_of args ''context'') s
      else if name = ''enter_sub_workflow'' then
        enter_sub_workflow e ap (token_of s) (arg_of args ''parent_session_id'') (arg_of args ''call_step_id'') s
      else if name = ''submit_step'' then
        submit_step e ap (arg_of args ''session_id'') (arg_of args ''step_id'') (arg_of args ''content'')
          (arg_of args ''branch'') (arg_of args ''artifact_id'') s
      else (Inl (RuntimeError (''Unknown tool: '' @ name)), s))"

section \<open>main\<close>

text \<open>
  The environment and the command line: the database path, the script with its path if one was
  given (no content when the file does not exist), and the workflow file: path, directory, name,
  and its content if it exists.
\<close>

record dryrun_args =
  dr_db_path :: "string option"
  dr_responses :: "(string \<times> yaml_source option) option"
  dr_target :: string
  dr_parent :: string
  dr_file :: string
  dr_source :: "yaml_source option"
  dr_context :: string

text \<open>\<open>str(e)\<close> of the exceptions \<^verbatim>\<open>create_app\<close> raises.\<close>

fun exn_str :: "exn \<Rightarrow> string" where
  "exn_str (KeyError k) = repr_str k"
| "exn_str (IndexError m) = m"
| "exn_str (TypeError m) = m"
| "exn_str (ValueError m) = m"
| "exn_str (AssertionError m) = m"
| "exn_str (RuntimeError m) = m"
| "exn_str (AttributeError m) = m"
| "exn_str (OSError m) = m"
| "exn_str (RegistryLoadError m) = m"
| "exn_str (LibraryError m) = m"
| "exn_str _ = []"

definition NL :: string where "NL = [CHR 0x0A]"

definition db_path_hint :: string where
  "db_path_hint =
     ''dryrun: MEGALOS_DB_PATH must be set to a file path ('' @ quoted '':memory:''
       @ '' is unsupported - session state is invisible across FastMCP worker threads; see issue #41).'' @ NL
       @ ''Hint: export MEGALOS_DB_PATH=$(mktemp -t megalos-dryrun.XXXXXX).db'' @ NL"

definition load_hint :: "dryrun_args \<Rightarrow> exn \<Rightarrow> string" where
  "load_hint a x =
     ''Failed to load workflows from '' @ dr_parent a @ '':'' @ NL @ ''  '' @ exn_str x @ NL @ NL
       @ ''Note: dry-run loads all *.yaml files in the parent directory (required for sub-workflow ''
       @ quoted ''call'' @ '' target resolution). If the error above names a file other than '' @ dr_file a
       @ '', a sibling workflow has a problem - fix it, or move '' @ dr_file a
       @ '' to a directory containing only it and its call targets.''"

definition open_script :: "dryrun_args \<Rightarrow> ('w repl, unit) act" where
  "open_script a =
     (case dr_responses a of
        None \<Rightarrow> retE ()
      | Some (path, None) \<Rightarrow> seqE (warn (''Responses file not found: '' @ path)) (sys_exit 1)
      | Some (path, Some src) \<Rightarrow> install_scripted_mode path src)"

definition target_name :: "dryrun_args \<Rightarrow> ('w repl, pyval) act" where
  "target_name a =
     (case dr_source a of
        None \<Rightarrow> seqE (warn (''Workflow file not found: '' @ dr_target a)) (sys_exit 1)
      | Some (ReadFailed m) \<Rightarrow> raiseE (OSError m)
      | Some (YamlFailed m) \<Rightarrow> seqE (warn (''Target file '' @ dr_target a @ '' is not valid YAML: '' @ m)) (sys_exit 1)
      | Some (Loaded doc) \<Rightarrow>
          (case pget doc ''name'' of
             None \<Rightarrow> seqE (warn (''Target file '' @ dr_target a @ '' has no '' @ quoted ''name'' @ '' field.'')) (sys_exit 1)
           | Some name \<Rightarrow> retE name))"

text \<open>\<open>target_name not in workflows\<close>, then the document.\<close>

definition find_target :: "dryrun_args \<Rightarrow> pyval \<Rightarrow> workflows \<Rightarrow> ('w repl, pyval) act" where
  "find_target a name wfs =
     (if \<not> hashable name then raiseE (unhashable name)
      else (case (case name of PStr n \<Rightarrow> dget wfs n | _ \<Rightarrow> None) of
         Some doc \<Rightarrow> retE doc
       | None \<Rightarrow>
           seqE (warn (''Workflow name '' @ quoted (py_str name) @ '' from '' @ dr_target a @ '' was not loaded. Loaded names: ''
             @ repr_strs (sort (map fst wfs)))) (sys_exit 1)))"

definition run_target ::
  "nat \<Rightarrow> 'w server \<Rightarrow> workflows \<Rightarrow> dryrun_args \<Rightarrow> pyval \<Rightarrow> pyval \<Rightarrow> ('w repl, unit) act" where
  "run_target n server wfs a name doc =
     bindE (call_tool server ''start_workflow'' [(''workflow_type'', name), (''context'', PStr (dr_context a))]) (\<lambda>v.
     bindE (liftE (getitem v ''session_id'')) (\<lambda>sid.
       repl_loop n server wfs
         (v, [\<lparr>fr_session_id = sid, fr_workflow = doc, fr_prev_step_idx = -1, fr_call_step_id = None\<rparr>], PStr [])))"

text \<open>\<open>loaded\<close> is what \<^verbatim>\<open>create_app\<close> returned or raised for the directory of the target.\<close>

definition dryrun_main ::
  "nat \<Rightarrow> 'w server \<Rightarrow> dryrun_args \<Rightarrow> exn + workflows \<times> (string, string) dict \<Rightarrow> ('w repl, unit) act" where
  "dryrun_main n server a loaded =
     (if dr_db_path a \<in> {None, Some [], Some '':memory:''} then seqE (warn db_path_hint) (sys_exit 2)
      else
        seqE (open_script a)
        (bindE (target_name a) (\<lambda>name.
          case loaded of
            Inl x \<Rightarrow> seqE (warn (load_hint a x)) (sys_exit 1)
          | Inr (wfs, _) \<Rightarrow>
              bindE (find_target a name wfs) (run_target n server wfs a name))))"

end
