(* ===== verification/DryrunScript.thy ===== *)
theory DryrunScript
  imports Dryrun
begin

text \<open>
  The responses file of a dry run: which files are accepted, and what a scripted reader takes of
  the entries. Then the triples the loop is proved with, and the operations that only print.
\<close>

section \<open>The responses file\<close>

text \<open>What the loop may rely on: a step id, and exactly one of a response and a branch.\<close>

definition good_entry :: "pyval \<Rightarrow> bool" where
  "good_entry x \<longleftrightarrow> nonempty_str (pget x ''step_id'') \<noteq> None \<and>
     (is_str_key x ''response'' \<and> \<not> phas x ''branch'' \<or> is_str_key x ''branch'' \<and> \<not> phas x ''response'')"

lemma pget_is_dict: "pget x k = Some v \<Longrightarrow> is_dict x"
  by (cases x) simp_all

lemma is_str_key_phas: "is_str_key x k \<Longrightarrow> phas x k"
  by (auto simp: is_str_key_def phas_def split: option.splits)

lemma nonempty_str_pget: "nonempty_str (pget x k) = Some r \<longleftrightarrow> pget x k = Some (PStr r) \<and> r \<noteq> []"
  by (auto simp: nonempty_str_def split: option.splits pyval.splits)

lemma entry_problem_None: "entry_problem i x = None \<longleftrightarrow> good_entry x"
proof (cases "nonempty_str (pget x ''step_id'')")
  case None
  then show ?thesis by (simp add: entry_problem_def good_entry_def Let_def)
next
  case (Some sid)
  then have "is_dict x" by (auto simp: nonempty_str_pget intro: pget_is_dict)
  with Some show ?thesis
    using is_str_key_phas [of x "''response''"] is_str_key_phas [of x "''branch''"]
    by (auto simp: entry_problem_def good_entry_def Let_def)
qed

lemma scripted_exit_apply [simp]: "scripted_exit m s = (Inl (SystemExit 1), s\<lparr>rp_err := rp_err s @ [m]\<rparr>)"
  by (simp add: scripted_exit_def warn_def sys_exit_def seqE_def bindE_def)

lemma check_entries_cases:
  "list_all good_entry xs \<and> check_entries i xs s = (Inr (), s) \<or>
   \<not> list_all good_entry xs \<and> fst (check_entries i xs s) = Inl (SystemExit 1) \<and>
     rp_server (snd (check_entries i xs s)) = rp_server s"
proof (induction xs arbitrary: i)
  case (Cons x xs)
  show ?case
  proof (cases "entry_problem i x")
    case None
    then have "good_entry x" by (simp only: entry_problem_None)
    then show ?thesis using Cons.IH [of "Suc i"] None by simp
  next
    case (Some m)
    then have "\<not> good_entry x" by (metis entry_problem_None option.distinct(1))
    with Some show ?thesis by simp
  qed
qed simp

lemma check_entries_ok: "check_entries i xs s = (Inr u, s') \<longleftrightarrow> list_all good_entry xs \<and> s' = s"
  using check_entries_cases [of xs i s] by auto

lemma parse_accepts:
  "fst (parse_responses_file path src s) = Inr es \<longleftrightarrow>
     (\<exists>doc v. src = Loaded doc \<and> pget doc ''version'' = Some v \<and> py_eq v (PInt 1) \<and>
        pget doc ''entries'' = Some (PList es) \<and> list_all good_entry es)"
proof -
  have "fst (seqE (check_entries 0 xs) (retE xs) s) = Inr es \<longleftrightarrow> xs = es \<and> list_all good_entry es" for xs
    using check_entries_cases [of xs 0 s]
    by (cases "check_entries 0 xs s") (auto simp: seqE_def bindE_def)
  then show ?thesis
    by (cases src)
      (auto simp: parse_responses_file_def SUPPORTED_RESPONSES_VERSIONS_def pget_is_dict
        split: option.splits pyval.splits)
qed

lemma parse_refuses:
  "fst (parse_responses_file path src s) \<in> range Inr \<union> {Inl (SystemExit 1)} \<union> {Inl (OSError m) | m. src = ReadFailed m}"
proof -
  have "fst (seqE (check_entries 0 xs) (retE xs) s) \<in> {Inr xs, Inl (SystemExit 1)}" for xs
    using check_entries_cases [of xs 0 s]
    by (cases "check_entries 0 xs s") (auto simp: seqE_def bindE_def)
  then show ?thesis
    by (cases src)
      (auto simp: parse_responses_file_def SUPPORTED_RESPONSES_VERSIONS_def split: option.splits pyval.splits)
qed

text \<open>
  A responses file is accepted exactly when it is a mapping of version 1 whose entries are a
  list of good entries, which come back as they are; any other readable file ends the process
  with status 1.
\<close>

theorem responses_file_accepted:
  "(fst (parse_responses_file path src s) = Inr es \<longleftrightarrow>
     (\<exists>doc v. src = Loaded doc \<and> pget doc ''version'' = Some v \<and> py_eq v (PInt 1) \<and>
        pget doc ''entries'' = Some (PList es) \<and> list_all good_entry es)) \<and>
   fst (parse_responses_file path src s) \<in>
     range Inr \<union> {Inl (SystemExit 1)} \<union> {Inl (OSError m) | m. src = ReadFailed m}"
  by (intro conjI parse_accepts parse_refuses)

section \<open>Consuming the script\<close>

definition entry_id :: "pyval \<Rightarrow> pyval" where
  "entry_id x = (case pget x ''step_id'' of Some v \<Rightarrow> v | None \<Rightarrow> PNone)"

lemma good_entry_id: "good_entry x \<Longrightarrow> getitem x ''step_id'' = Inr (entry_id x)"
  by (cases x) (auto simp: good_entry_def nonempty_str_def getitem_def entry_id_def split: option.splits)

text \<open>
  The reference: at the root the entry at the position must be for this step; in a sub-workflow
  the entries of other steps are walked past.
\<close>

definition consumed :: "string \<Rightarrow> nat \<Rightarrow> pyval \<Rightarrow> pyval list \<Rightarrow> (pyval \<times> nat) option" where
  "consumed kind level step rest =
     (let k = (if level = 0 then 0 else length (takeWhile (\<lambda>x. \<not> py_eq (entry_id x) step) rest)) in
      if k < length rest \<and> py_eq (entry_id (rest ! k)) step \<and> phas (rest ! k) kind
      then Some (rest ! k, Suc k) else None)"

definition move_on :: "nat \<Rightarrow> 'w repl \<Rightarrow> 'w repl" where
  "move_on n s = s\<lparr>rp_script := map_option (\<lambda>sc. sc\<lparr>sc_pos := sc_pos sc + n\<rparr>) (rp_script s)\<rparr>"

lemma bump_apply [simp]: "bump s = (Inr (), move_on 1 s)"
  by (simp add: bump_def move_on_def)

lemma move_on_add [simp]: "move_on n (move_on k s) = move_on (k + n) s"
  by (simp add: move_on_def option.map_comp comp_def add_ac)

lemma consumed_Cons:
  "consumed kind level step (x # rest) =
     (if py_eq (entry_id x) step then (if phas x kind then Some (x, 1) else None)
      else if level = 0 then None
      else map_option (\<lambda>(y, k). (y, Suc k)) (consumed kind level step rest))"
  by (simp add: consumed_def Let_def)

lemma walk_entries_consumed:
  assumes "list_all good_entry rest" "kind \<in> {''response'', ''branch''}"
  shows "case consumed kind level step rest of
      Some (x, k) \<Rightarrow> walk_entries level step kind rest s = (Inr x, move_on k s)
    | None \<Rightarrow> fst (walk_entries level step kind rest s) = Inl (SystemExit 1)"
  using assms
proof (induction rest arbitrary: s)
  case Nil
  then show ?case by (simp add: consumed_def Let_def)
next
  case (Cons x rest)
  note IH = Cons.IH [of "move_on 1 s"]
  show ?case
  proof (cases "py_eq (entry_id x) step")
    case True
    with Cons.prems show ?thesis by (auto simp: consumed_Cons good_entry_id)
  next
    case False
    with Cons.prems IH show ?thesis
      by (cases "consumed kind level step rest") (auto simp: consumed_Cons good_entry_id)
  qed
qed

lemma good_drop: "list_all good_entry es \<Longrightarrow> list_all good_entry (drop n es)"
  by (auto simp: list_all_iff dest: in_set_dropD)

text \<open>
  What a scripted reader takes is what the reference says: at the root the next entry, which
  must be for the step at hand; inside a sub-workflow the first entry left that is for it. When
  there is none, or it is of the other kind, the run ends with status 1.
\<close>

theorem scripted_consume_matches:
  assumes "rp_script s = Some sc" "list_all good_entry (sc_entries sc)" "kind \<in> {''response'', ''branch''}"
  shows "case consumed kind (sc_depth sc) (sc_step sc) (drop (sc_pos sc) (sc_entries sc)) of
      Some (x, k) \<Rightarrow> scripted_consume kind s = (Inr x, s\<lparr>rp_script := Some (sc\<lparr>sc_pos := sc_pos sc + k\<rparr>)\<rparr>)
    | None \<Rightarrow> fst (scripted_consume kind s) = Inl (SystemExit 1)"
  using walk_entries_consumed [OF good_drop [OF assms(2)] assms(3), of "sc_depth sc" "sc_step sc" "sc_pos sc" s]
    assms(1)
  by (auto simp: scripted_consume_def move_on_def split: option.splits)

section \<open>Triples\<close>

text \<open>
  A precondition, a postcondition of the value, and one of the exception: the dry run ends by
  exceptions, so what holds at its end is the third.
\<close>

definition triple ::
  "('s \<Rightarrow> bool) \<Rightarrow> ('s, 'a) act \<Rightarrow> ('a \<Rightarrow> 's \<Rightarrow> bool) \<Rightarrow> (exn \<Rightarrow> 's \<Rightarrow> bool) \<Rightarrow> bool" where
  "triple P m Q E \<longleftrightarrow>
     (\<forall>s. P s \<longrightarrow> (case m s of (Inr x, s') \<Rightarrow> Q x s' | (Inl e, s') \<Rightarrow> E e s'))"

lemma tripleI:
  "(\<And>s. P s \<Longrightarrow> case m s of (Inr x, s') \<Rightarrow> Q x s' | (Inl e, s') \<Rightarrow> E e s') \<Longrightarrow> triple P m Q E"
  by (simp add: triple_def)

lemma triple_value: "triple P m Q E \<Longrightarrow> P s \<Longrightarrow> m s = (Inr x, s') \<Longrightarrow> Q x s'"
  by (force simp: triple_def)

lemma triple_exn: "triple P m Q E \<Longrightarrow> P s \<Longrightarrow> m s = (Inl e, s') \<Longrightarrow> E e s'"
  by (force simp: triple_def)

lemma triple_bind: "triple P m R E \<Longrightarrow> (\<And>x. triple (R x) (f x) Q E) \<Longrightarrow> triple P (bindE m f) Q E"
  by (fastforce simp: triple_def bindE_def split: prod.splits sum.splits)

lemma triple_seq: "triple P m (\<lambda>_. R) E \<Longrightarrow> triple R k Q E \<Longrightarrow> triple P (seqE m k) Q E"
  unfolding seqE_def by (rule triple_bind)

lemma triple_get: "(\<And>s. P s \<Longrightarrow> \<exists>R. R s \<and> triple R (f (g s)) Q E) \<Longrightarrow> triple P (bindE (getE g) f) Q E"
  by (fastforce simp: triple_def)

lemma triple_ret: "(\<And>s. P s \<Longrightarrow> Q x s) \<Longrightarrow> triple P (retE x) Q E"
  by (simp add: triple_def)

lemma triple_raise: "(\<And>s. P s \<Longrightarrow> E e s) \<Longrightarrow> triple P (raiseE e) Q E"
  by (simp add: triple_def)

lemma triple_lift:
  "(\<And>s e. P s \<Longrightarrow> r = Inl e \<Longrightarrow> E e s) \<Longrightarrow> (\<And>x. r = Inr x \<Longrightarrow> triple P (f x) Q E) \<Longrightarrow>
   triple P (bindE (liftE r) f) Q E"
  by (cases r) (simp_all add: triple_def)

lemma triple_if: "(b \<Longrightarrow> triple P m Q E) \<Longrightarrow> (\<not> b \<Longrightarrow> triple P k Q E) \<Longrightarrow> triple P (if b then m else k) Q E"
  by simp

lemma triple_weaken: "triple R m Q E \<Longrightarrow> (\<And>s. P s \<Longrightarrow> R s) \<Longrightarrow> triple P m Q E"
  by (simp add: triple_def)

lemma triple_post: "triple P m R E \<Longrightarrow> (\<And>x s. R x s \<Longrightarrow> Q x s) \<Longrightarrow> triple P m Q E"
  by (fastforce simp: triple_def split: prod.splits sum.splits)

section \<open>What only prints\<close>

text \<open>Exceptions that say nothing about the end of the run.\<close>

definition ordinary :: "exn \<Rightarrow> bool" where
  "ordinary x \<longleftrightarrow> x \<noteq> NoReturn \<and> x \<noteq> SystemExit 0"

definition mild :: "exn + 'a \<Rightarrow> bool" where
  "mild r \<longleftrightarrow> (\<forall>x. r = Inl x \<longrightarrow> ordinary x)"

lemma mild_simps [simp]:
  "mild (Inr a)"
  "mild (Inl x) = ordinary x"
  "ordinary (KeyError k)" "ordinary (TypeError k)" "ordinary (AttributeError k)" "ordinary (IndexError k)"
  "ordinary (AssertionError k)" "ordinary (OSError k)" "ordinary (RuntimeError k)"
  "ordinary (SystemExit c) \<longleftrightarrow> c \<noteq> 0"
  by (simp_all add: mild_def ordinary_def)

lemma mild_andThen [simp]: "mild r \<Longrightarrow> (\<And>x. mild (f x)) \<Longrightarrow> mild (andThen r f)"
  by (cases r) (simp_all add: mild_def)

lemma mild_if [simp]: "mild x \<Longrightarrow> mild y \<Longrightarrow> mild (if b then x else y)"
  by simp

lemma mild_getitem [simp]: "mild (getitem v k)"
  by (simp add: getitem_def split: pyval.splits option.splits)

lemma mild_py_in [simp]: "mild (py_in k v)"
  by (simp add: py_in_def split: pyval.splits)

lemma mild_iterated [simp]: "mild (iterated v)"
  by (cases v) simp_all

lemma mild_quoted_part [simp]: "mild (quoted_part v)"
  by (auto simp: quoted_part_def Let_def split: pyval.splits intro!: mild_andThen)

lemma mild_joined [simp]: "mild (joined v)"
  by (auto simp: joined_def intro!: mild_andThen)

lemma mild_render_precondition [simp]: "mild (render_precondition v)"
  by (auto simp: render_precondition_def intro!: mild_andThen)

lemma mild_listed_ids [simp]: "mild (listed_ids steps)"
  by (induction steps) (auto simp: unhashable_def intro!: mild_andThen)

lemma mild_find_call [simp]: "mild (find_call steps step)"
  by (induction steps) (auto intro!: mild_andThen)

lemma mild_detect_call_target [simp]: "mild (detect_call_target v steps step)"
  by (simp add: detect_call_target_def Let_def)

definition quiet :: "('w repl, 'a) act \<Rightarrow> bool" where
  "quiet m \<longleftrightarrow> (\<forall>s. rp_script (snd (m s)) = rp_script s \<and> rp_server (snd (m s)) = rp_server s \<and> mild (fst (m s)))"

named_theorems quiet_intros \<open>what leaves the script and the server alone\<close>

lemma quiet_say [quiet_intros]: "quiet (say m)"
  by (simp add: quiet_def say_def)

lemma quiet_warn [quiet_intros]: "quiet (warn m)"
  by (simp add: quiet_def warn_def)

lemma quiet_ret [quiet_intros]: "quiet (retE x)"
  by (simp add: quiet_def)

lemma quiet_lift [quiet_intros]: "mild r \<Longrightarrow> quiet (liftE r)"
  by (simp add: quiet_def)

lemma quiet_raise [quiet_intros]: "ordinary x \<Longrightarrow> quiet (raiseE x)"
  by (simp add: quiet_def)

lemma quiet_exit [quiet_intros]: "c \<noteq> 0 \<Longrightarrow> quiet (sys_exit c)"
  by (simp add: quiet_def sys_exit_def)

lemma quiet_bind [quiet_intros]: "quiet m \<Longrightarrow> (\<And>x. quiet (f x)) \<Longrightarrow> quiet (bindE m f)"
  by (auto simp: quiet_def bindE_def mild_def split: prod.splits sum.splits) (metis fst_conv snd_conv)+

lemma quiet_seq [quiet_intros]: "quiet m \<Longrightarrow> quiet k \<Longrightarrow> quiet (seqE m k)"
  unfolding seqE_def by (rule quiet_bind)

lemma quiet_if [quiet_intros]: "(b \<Longrightarrow> quiet m) \<Longrightarrow> (\<not> b \<Longrightarrow> quiet k) \<Longrightarrow> quiet (if b then m else k)"
  by simp

lemma quiet_option [quiet_intros]:
  "quiet m \<Longrightarrow> (\<And>y. quiet (f y)) \<Longrightarrow> quiet (case x of None \<Rightarrow> m | Some y \<Rightarrow> f y)"
  by (simp split: option.splits)

lemma quiet_Let [quiet_intros]: "quiet (f x) \<Longrightarrow> quiet (let y = x in f y)"
  by simp

lemma quiet_each [quiet_intros]: "(\<And>x. quiet (f x)) \<Longrightarrow> quiet (each f xs)"
  by (induction xs) (auto intro: quiet_intros)

lemma quiet_validation_error [quiet_intros]: "quiet (print_validation_error v ind)"
  unfolding print_validation_error_def Let_def by (intro quiet_intros; simp)

lemma quiet_escalated [quiet_intros]: "quiet (print_escalated v)"
  unfolding print_escalated_def Let_def by (intro quiet_intros; simp)

lemma quiet_generic [quiet_intros]: "quiet (print_generic v)"
  unfolding print_generic_def Let_def by (intro quiet_intros)

lemma quiet_terminal [quiet_intros]: "quiet (print_terminal v ind)"
  unfolding print_terminal_def by (intro quiet_intros; simp)

lemma quiet_banner [quiet_intros]: "quiet (banner ind active)"
  unfolding banner_def by (intro quiet_intros; simp)

lemma quiet_skipped_lines [quiet_intros]: "quiet (skipped_lines ind steps)"
  unfolding skipped_lines_def by (intro quiet_intros; simp)

lemma quiet_ascend [quiet_intros]: "quiet (ascend target stack)"
proof (induction stack)
  case (Cons f stack)
  then show ?case unfolding ascend.simps by (intro quiet_intros; simp)
qed (unfold ascend.simps, rule quiet_ret)

lemma quiet_triple:
  assumes "quiet m"
    and "\<And>s s'. P s \<Longrightarrow> rp_script s' = rp_script s \<Longrightarrow> rp_server s' = rp_server s \<Longrightarrow> P s'"
    and "\<And>e s. P s \<Longrightarrow> ordinary e \<Longrightarrow> E e s"
  shows "triple P m (\<lambda>_. P) E"
proof (rule tripleI)
  fix s assume P: "P s"
  with assms(1) have "P (snd (m s))" "mild (fst (m s))"
    by (auto simp: quiet_def intro: assms(2))
  then show "case m s of (Inr x, s') \<Rightarrow> P s' | (Inl e, s') \<Rightarrow> E e s'"
    using assms(3) by (auto simp: mild_def split: prod.splits sum.splits)
qed

end
