(* ===== verification/DryrunProps.thy ===== *)
theory DryrunProps
  imports DryrunScript "HOL-Library.Sublist"
begin

text \<open>
  Scripted dry runs against any server: the calls are logged, and an invariant relates the log to
  the entries taken (\<open>fits\<close>). Each part of a turn has its triple; the loop counts its turns.
\<close>

section \<open>The calls of a run\<close>

text \<open>The server with a log of its calls: the tool, its arguments, and what it answered or raised.\<close>

type_synonym call_log = "(string \<times> (string \<times> pyval) list \<times> (exn + pyval)) list"

definition logged :: "'w server \<Rightarrow> ('w \<times> call_log) server" where
  "logged server name args w =
     (case server name args (fst w) of (r, w') \<Rightarrow> (r, w', snd w @ [(name, args, r)]))"

abbreviation made :: "('w \<times> call_log) repl \<Rightarrow> call_log" where
  "made s \<equiv> snd (rp_server s)"

text \<open>What the submissions carried: contents, each followed by its branch if it has one.\<close>

definition fed :: "call_log \<Rightarrow> string list" where
  "fed cs = concat (map (\<lambda>(name, args, r). if name = ''submit_step''
     then map (\<lambda>a. py_str (snd a)) (filter (\<lambda>a. fst a \<in> {''content'', ''branch''}) args) else []) cs)"

definition entered :: "call_log \<Rightarrow> nat" where
  "entered cs = length (filter (\<lambda>c. fst c = ''enter_sub_workflow'') cs)"

definition entry_text :: "pyval \<Rightarrow> string" where
  "entry_text x =
     (case pget x ''response'' of Some v \<Rightarrow> py_str v
      | None \<Rightarrow> (case pget x ''branch'' of Some v \<Rightarrow> py_str v | None \<Rightarrow> []))"

lemma fed_simps [simp]: "fed [] = []" "fed (cs @ [c]) = fed cs @ fed [c]"
  by (simp_all add: fed_def)

lemma entered_simps [simp]: "entered [] = 0" "entered (cs @ [c]) = entered cs + entered [c]"
  by (simp_all add: entered_def)

text \<open>
  The script and the log agree: what was submitted, and then \<open>p\<close> that was read and is still to be
  submitted, is in order among the entries taken; it is all of them as long as no sub-workflow was
  entered. \<open>k\<close> counts turns, \<open>d\<close> is the depth of the stack.
\<close>

definition fits :: "pyval list \<Rightarrow> nat \<Rightarrow> nat \<Rightarrow> string list \<Rightarrow> ('w \<times> call_log) repl \<Rightarrow> bool" where
  "fits es k d p s \<longleftrightarrow>
     (\<exists>sc. rp_script s = Some sc \<and> sc_entries sc = es \<and> sc_pos sc \<le> length es \<and>
        subseq (fed (made s) @ p) (map entry_text (take (sc_pos sc) es)) \<and>
        (entered (made s) = 0 \<longrightarrow>
           sc_depth sc = 0 \<and> fed (made s) @ p = map entry_text (take (sc_pos sc) es)) \<and>
        d \<le> entered (made s) \<and> k \<le> sc_pos sc + entered (made s))"

definition answered :: "pyval \<Rightarrow> ('w \<times> call_log) repl \<Rightarrow> bool" where
  "answered v s \<longleftrightarrow> made s \<noteq> [] \<and> snd (snd (last (made s))) = Inr v"

text \<open>The states a run can end in.\<close>

definition in_order :: "pyval list \<Rightarrow> ('w \<times> call_log) repl \<Rightarrow> bool" where
  "in_order es s \<longleftrightarrow>
     (\<exists>sc. rp_script s = Some sc \<and> sc_entries sc = es) \<and> subseq (fed (made s)) (map entry_text es)"

definition finished :: "pyval list \<Rightarrow> ('w \<times> call_log) repl \<Rightarrow> bool" where
  "finished es s \<longleftrightarrow>
     (\<exists>v. answered v s \<and> is_tag v ''status'' ''workflow_complete'') \<and>
     (\<exists>sc. rp_script s = Some sc \<and> sc_entries sc = es \<and> sc_pos sc = length es) \<and>
     (entered (made s) = 0 \<longrightarrow> fed (made s) = map entry_text es)"

definition raised :: "exn \<Rightarrow> ('w \<times> call_log) repl \<Rightarrow> bool" where
  "raised e s \<longleftrightarrow> made s \<noteq> [] \<and> snd (snd (last (made s))) = Inl e"

definition ended :: "pyval list \<Rightarrow> exn \<Rightarrow> ('w \<times> call_log) repl \<Rightarrow> bool" where
  "ended es e s \<longleftrightarrow> in_order es s \<and> (ordinary e \<or> raised e s \<or> e = SystemExit 0 \<and> finished es s)"

lemma fits_in_order: "fits es k d p s \<Longrightarrow> in_order es s"
proof (unfold fits_def in_order_def, elim exE conjE)
  fix sc
  assume sc: "rp_script s = Some sc" "sc_entries sc = es"
    and sub: "subseq (fed (made s) @ p) (map entry_text (take (sc_pos sc) es))"
  have "subseq (fed (made s)) (map entry_text (take (sc_pos sc) es))"
    using prefix_imp_subseq sub by (rule subseq_order.trans) simp
  moreover have "subseq (map entry_text (take (sc_pos sc) es)) (map entry_text es)"
    by (rule prefix_imp_subseq) (simp add: map_mono_prefix take_is_prefix)
  ultimately have "subseq (fed (made s)) (map entry_text es)" by (rule subseq_order.trans)
  with sc show "(\<exists>sc. rp_script s = Some sc \<and> sc_entries sc = es) \<and> subseq (fed (made s)) (map entry_text es)"
    by blast
qed

lemma fits_ended: "fits es k d p s \<Longrightarrow> ordinary e \<Longrightarrow> ended es e s"
  by (simp add: ended_def fits_in_order)

lemma fits_cong:
  "fits es k d p s \<Longrightarrow> rp_script s' = rp_script s \<Longrightarrow> rp_server s' = rp_server s \<Longrightarrow> fits es k d p s'"
  by (simp add: fits_def)

lemma fits_le: "fits es k d p s \<Longrightarrow> k' \<le> k \<Longrightarrow> d' \<le> d \<Longrightarrow> fits es k' d' p s"
  unfolding fits_def by (elim exE conjE, intro exI conjI) (assumption | simp)+

lemma quiet_fits: "quiet m \<Longrightarrow> triple (fits es k d p) m (\<lambda>_. fits es k d p) (ended es)"
  by (rule quiet_triple) (auto intro: fits_cong fits_ended)

section \<open>Reading from the script\<close>

lemma consumed_SomeD:
  assumes "consumed kind level step rest = Some (x, j)"
  shows "0 < j" "j \<le> length rest" "take j rest = take (j - 1) rest @ [x]" "x \<in> set rest" "phas x kind"
    "level = 0 \<Longrightarrow> j = 1"
  using assms
  by (auto simp: consumed_def Let_def take_Suc_conv_app_nth split: if_splits)

lemma walk_entries_server:
  "rp_server (snd (walk_entries level step kind rest s)) = rp_server s \<and>
   map_option sc_entries (rp_script (snd (walk_entries level step kind rest s))) = map_option sc_entries (rp_script s)"
proof (induction rest arbitrary: s)
  case (Cons x rest)
  show ?case
  proof (cases "getitem x ''step_id''")
    case (Inr v)
    with Cons [of "move_on 1 s"] show ?thesis by (auto simp: move_on_def option.map_comp comp_def)
  qed simp
qed simp

lemma fits_take:
  assumes fits: "fits es k d p s" and sc: "rp_script s = Some sc"
    and c: "consumed kind (sc_depth sc) (sc_step sc) (drop (sc_pos sc) es) = Some (x, j)"
  shows "fits es (Suc k) d (p @ [entry_text x]) (s\<lparr>rp_script := Some (sc\<lparr>sc_pos := sc_pos sc + j\<rparr>)\<rparr>)"
proof -
  note c = consumed_SomeD [OF c]
  let ?took = "map entry_text (take (sc_pos sc) es)"
  have split: "take (sc_pos sc + j) es = take (sc_pos sc) es @ take (j - 1) (drop (sc_pos sc) es) @ [x]"
    using c(3) by (simp add: take_add)
  have f: "sc_entries sc = es" "sc_pos sc \<le> length es" "subseq (fed (made s) @ p) ?took"
    "entered (made s) = 0 \<Longrightarrow> sc_depth sc = 0 \<and> fed (made s) @ p = ?took"
    "d \<le> entered (made s)" "k \<le> sc_pos sc + entered (made s)"
    using fits sc by (auto simp: fits_def)
  have "subseq ((fed (made s) @ p) @ [entry_text x])
      (?took @ map entry_text (take (j - 1) (drop (sc_pos sc) es)) @ [entry_text x])"
    using f(3) by (rule list_emb_append_mono) (rule subseq_drop_many, simp)
  moreover have "fed (made s) @ p @ [entry_text x] = map entry_text (take (sc_pos sc + j) es) \<and> sc_depth sc = 0"
    if "entered (made s) = 0"
    using f(4) [OF that] c(6) arg_cong [OF split, of "map entry_text"] by auto
  ultimately show ?thesis
    using f(1,2,5,6) c(1,2) by (simp add: fits_def split)
qed

lemma consume_triple:
  assumes good: "list_all good_entry es" and kind: "kind \<in> {''response'', ''branch''}"
  shows "triple (fits es k d p) (scripted_consume kind)
     (\<lambda>x s. x \<in> set es \<and> phas x kind \<and> fits es (Suc k) d (p @ [entry_text x]) s) (ended es)"
proof (rule tripleI)
  fix s :: "('a \<times> call_log) repl"
  assume fits: "fits es k d p s"
  then obtain sc where sc: "rp_script s = Some sc" "sc_entries sc = es"
    by (auto simp: fits_def)
  let ?rest = "drop (sc_pos sc) es"
  let ?m = "walk_entries (sc_depth sc) (sc_step sc) kind ?rest"
  have run: "scripted_consume kind s = ?m s"
    using sc by (simp add: scripted_consume_def)
  note w = walk_entries_consumed [OF good_drop [OF good] kind, of "sc_depth sc" "sc_step sc" "sc_pos sc" s]
  show "case scripted_consume kind s of
      (Inr x, s') \<Rightarrow> x \<in> set es \<and> phas x kind \<and> fits es (Suc k) d (p @ [entry_text x]) s'
    | (Inl e, s') \<Rightarrow> ended es e s'"
  proof (cases "consumed kind (sc_depth sc) (sc_step sc) ?rest")
    case None
    with w obtain s' where s': "?m s = (Inl (SystemExit 1), s')" by (cases "?m s") auto
    with walk_entries_server [of "sc_depth sc" "sc_step sc" kind ?rest s] fits_in_order [OF fits] sc
    have "in_order es s'" by (auto simp: in_order_def)
    with s' run show ?thesis by (simp add: ended_def)
  next
    case (Some y)
    then obtain x j where y: "consumed kind (sc_depth sc) (sc_step sc) ?rest = Some (x, j)" by (cases y) auto
    with w run sc have "scripted_consume kind s = (Inr x, s\<lparr>rp_script := Some (sc\<lparr>sc_pos := sc_pos sc + j\<rparr>)\<rparr>)"
      by (simp add: move_on_def)
    with fits_take [OF fits sc(1) y] consumed_SomeD(4,5) [OF y] show ?thesis
      by (auto dest: in_set_dropD)
  qed
qed

lemma py_str_PStr [simp]: "py_str (PStr r) = r"
  by (simp add: py_str_def)

lemma entry_text_kind:
  assumes "good_entry x" "kind \<in> {''response'', ''branch''}" "phas x kind"
  shows "\<exists>r. getitem x kind = Inr (PStr r) \<and> entry_text x = r"
  using assms
  by (cases x) (auto simp: good_entry_def is_str_key_def phas_def entry_text_def getitem_def nonempty_str_def
      split: option.splits pyval.splits)

lemma scripted_read:
  assumes good: "list_all good_entry es" and kind: "kind \<in> {''response'', ''branch''}"
  shows "triple (fits es k d p)
     (bindE (scripted_consume kind) (\<lambda>x. bindE (liftE (getitem x kind)) (\<lambda>v. retE (f (py_str v)))))
     (\<lambda>y s. \<exists>r. y = f r \<and> fits es (Suc k) d (p @ [r]) s) (ended es)"
proof (rule triple_bind [OF consume_triple [OF assms]], rule tripleI)
  fix x s
  assume x: "x \<in> set es \<and> phas x kind \<and> fits es (Suc k) d (p @ [entry_text x]) (s :: ('a \<times> call_log) repl)"
  with good entry_text_kind [of x kind] kind
  obtain r where "getitem x kind = Inr (PStr r)" "entry_text x = r" by (auto simp: list_all_iff)
  with x show "case bindE (liftE (getitem x kind)) (\<lambda>v. retE (f (py_str v))) s of
      (Inr y, s') \<Rightarrow> \<exists>r. y = f r \<and> fits es (Suc k) d (p @ [r]) s' | (Inl e, s') \<Rightarrow> ended es e s'"
    by auto
qed

lemma fits_scripted: "fits es k d p s \<Longrightarrow> (rp_script s = None) = False"
  by (auto simp: fits_def)

lemma read_response_triple:
  assumes "list_all good_entry es"
  shows "triple (fits es k d p) read_response (\<lambda>r. fits es (Suc k) d (p @ [r])) (ended es)"
  unfolding read_response_def
proof (rule triple_get, intro exI conjI)
  fix s :: "('a \<times> call_log) repl"
  assume fits: "fits es k d p s"
  then show "fits es k d p s" .
  show "triple (fits es k d p)
     (if rp_script s = None then read_line ''> ''
      else bindE (scripted_consume ''response'') (\<lambda>x. bindE (liftE (getitem x ''response'')) (\<lambda>v. retE (py_str v))))
     (\<lambda>r. fits es (Suc k) d (p @ [r])) (ended es)"
    unfolding fits_scripted [OF fits] if_False
    by (rule triple_post [OF scripted_read [OF assms, where f = "\<lambda>r. r"]]) auto
qed

lemma prompt_branch_triple:
  assumes "list_all good_entry es"
  shows "triple (fits es k d p) (prompt_branch branches dflt ind)
     (\<lambda>y s. \<exists>r. y = PStr r \<and> fits es (Suc k) d (p @ [r]) s) (ended es)"
  unfolding prompt_branch_def
proof (rule triple_get, intro exI conjI)
  fix s :: "('a \<times> call_log) repl"
  assume fits: "fits es k d p s"
  then show "fits es k d p s" .
  show "triple (fits es k d p)
     (if rp_script s = None then ask_branch branches dflt ind
      else bindE (scripted_consume ''branch'') (\<lambda>x. bindE (liftE (getitem x ''branch'')) (\<lambda>v. retE (PStr (py_str v)))))
     (\<lambda>y s. \<exists>r. y = PStr r \<and> fits es (Suc k) d (p @ [r]) s) (ended es)"
    unfolding fits_scripted [OF fits] if_False
    by (rule scripted_read [OF assms]) simp
qed

section \<open>Turns\<close>

lemma mild_then:
  "mild r \<Longrightarrow> (\<And>x. r = Inr x \<Longrightarrow> triple (fits es k d p) (f x) Q (ended es)) \<Longrightarrow>
   triple (fits es k d p) (bindE (liftE r) f) Q (ended es)"
  by (rule triple_lift) (auto simp: mild_def intro: fits_ended)

lemma quiet_then:
  "quiet m \<Longrightarrow> triple (fits es k d p) n Q (ended es) \<Longrightarrow> triple (fits es k d p) (seqE m n) Q (ended es)"
  by (rule triple_seq [OF quiet_fits])

lemma quiet_ends:
  assumes "quiet m" "\<And>s x. fst (m s) \<noteq> Inr x"
  shows "triple (fits es k d p) m Q (ended es)"
proof (rule tripleI)
  fix s :: "('a \<times> call_log) repl"
  assume fits: "fits es k d p s"
  show "case m s of (Inr x, s') \<Rightarrow> Q x s' | (Inl e, s') \<Rightarrow> ended es e s'"
  proof (cases "m s")
    case (Pair r s')
    with assms(2) [of s] obtain e where "r = Inl e" by (cases r) auto
    with Pair triple_exn [OF quiet_fits [OF assms(1)] fits] show ?thesis by simp
  qed
qed

lemma set_cursor_triple:
  "l \<le> d \<Longrightarrow> triple (fits es k d p) (set_cursor step l) (\<lambda>_. fits es k d p) (ended es)"
  by (auto simp: triple_def set_cursor_def fits_def)

lemma fed_answer: "fed [(name, args, r)] = fed [(name, args, Inr PNone)]"
  "entered [(name, args, r)] = entered [(name, args, Inr PNone)]"
  by (simp_all add: fed_def entered_def)

lemma fits_log:
  assumes "fits es k d (fed [c] @ p) s" "rp_script s' = rp_script s" "made s' = made s @ [c]"
  shows "fits es (k + entered [c]) (d + entered [c]) p s'"
  using assms unfolding fits_def by (elim exE conjE) auto

lemma call_triple:
  fixes server :: "'a server"
  assumes "n = fed [(name, args, Inr PNone)] @ p" "e = entered [(name, args, Inr PNone)]"
  shows "triple (fits es k d n) (call_tool (logged server) name args)
     (\<lambda>v s. fits es (k + e) (d + e) p s \<and> answered v s) (ended es)"
proof (rule tripleI)
  fix s :: "('a \<times> call_log) repl"
  assume fits: "fits es k d n s"
  obtain r w where rw: "server name args (fst (rp_server s)) = (r, w)" by fastforce
  let ?s' = "s\<lparr>rp_server := (w, made s @ [(name, args, r)])\<rparr>"
  have run: "call_tool (logged server) name args s = (r, ?s')"
    by (simp add: call_tool_def logged_def rw)
  have "fits es (k + e) (d + e) p ?s'"
    using fits_log [of es k d "(name, args, r)" p s ?s'] fits
    unfolding assms fed_answer [of name args r] by simp
  then show "case call_tool (logged server) name args s of
      (Inr v, s') \<Rightarrow> fits es (k + e) (d + e) p s' \<and> answered v s' | (Inl e, s') \<Rightarrow> ended es e s'"
    unfolding run by (auto simp: answered_def ended_def raised_def dest: fits_in_order split: sum.splits)
qed

lemma submit_triple:
  assumes "p = c # map (\<lambda>a. py_str (snd a)) (filter (\<lambda>a. fst a \<in> {''content'', ''branch''}) extra)"
  shows "triple (fits es k d p) (submit (logged server) sid step c extra)
     (\<lambda>v s. fits es k d [] s \<and> answered v s) (ended es)"
  unfolding submit_def
  by (rule triple_post [OF call_triple [where p = "[]", OF _ refl]]) (auto simp: assms fed_def entered_def)

lemma retry_triple:
  assumes "list_all good_entry es" "level \<le> d"
  shows "triple (fits es k d []) (retry_turn (logged server) v stack step sid level ind)
     (\<lambda>(v', stack', step') s. fits es (Suc k) d [] s \<and> answered v' s \<and> stack' = stack) (ended es)"
  unfolding retry_turn_def
proof (intro quiet_then triple_if)
  show "triple (fits es k d []) (bindE (liftE (getitem v ''message'')) (\<lambda>m. seqE (warn (py_str m)) (sys_exit 1)))
     (\<lambda>(v', stack', step') s. fits es (Suc k) d [] s \<and> answered v' s \<and> stack' = stack) (ended es)"
    by (rule quiet_ends)
      (auto simp: sys_exit_def seqE_def warn_def bindE_def split: sum.splits intro!: quiet_intros)
next
  show "triple (fits es k d []) (bindE (liftE (getitem v ''retries_remaining'')) (\<lambda>r.
      seqE (warn (''Retries remaining: '' @ py_str r))
        (seqE (set_cursor step level) (bindE read_response (\<lambda>response.
           bindE (submit (logged server) sid step response []) (\<lambda>v'. retE (v', stack, step)))))))
     (\<lambda>(v', stack', step') s. fits es (Suc k) d [] s \<and> answered v' s \<and> stack' = stack) (ended es)"
    by (rule mild_then [OF mild_getitem], rule quiet_then [OF quiet_warn], rule triple_seq [OF set_cursor_triple [OF assms(2)]],
        rule triple_bind [OF read_response_triple [OF assms(1)]], rule triple_bind [OF submit_triple])
      (auto intro!: triple_ret)
qed (intro quiet_intros)

lemma unused_triple:
  assumes "is_tag v ''status'' ''workflow_complete''"
  shows "triple (\<lambda>s. fits es k d [] s \<and> answered v s) (seqE check_unused_on_complete (sys_exit 0)) Q (ended es)"
proof (rule tripleI, elim conjE)
  fix s :: "('a \<times> call_log) repl"
  assume fits: "fits es k d [] s" and v: "answered v s"
  then obtain sc where sc: "rp_script s = Some sc" "sc_entries sc = es" "sc_pos sc \<le> length es"
    "entered (made s) = 0 \<longrightarrow> fed (made s) = map entry_text (take (sc_pos sc) es)"
    by (auto simp: fits_def)
  have "ended es (SystemExit 0) s" if "length es \<le> sc_pos sc"
    using that sc v assms fits_in_order [OF fits] by (auto simp: ended_def finished_def)
  moreover have "ended es (SystemExit 1) (s\<lparr>rp_err := m\<rparr>)" for m
    by (rule fits_ended [OF fits_cong [OF fits]]) simp_all
  ultimately show "case seqE check_unused_on_complete (sys_exit 0) s of (Inr x, s') \<Rightarrow> Q x s' | (Inl e, s') \<Rightarrow> ended es e s'"
    using sc by (simp add: check_unused_on_complete_def Let_def sys_exit_def seqE_def bindE_def)
qed

lemma terminal_triple:
  "triple (\<lambda>s. fits es k d [] s \<and> answered v s) (terminal_turn v ind) Q (ended es)"
  unfolding terminal_turn_def
proof (rule triple_seq, rule quiet_triple [OF quiet_terminal], safe)
  show "triple (\<lambda>s. fits es k d [] s \<and> answered v s)
     (if is_tag v ''status'' ''workflow_complete'' then seqE check_unused_on_complete (sys_exit 0) else sys_exit 1)
     Q (ended es)"
    by (rule triple_if, erule unused_triple) (auto simp: triple_def sys_exit_def intro: fits_ended)
qed (auto simp: answered_def intro: fits_cong fits_ended)

text \<open>Between turns the answer of the last call is at hand and nothing is pending.\<close>

definition holding :: "pyval list \<Rightarrow> nat \<Rightarrow> nat \<Rightarrow> pyval \<Rightarrow> ('w \<times> call_log) repl \<Rightarrow> bool" where
  "holding es k d v s \<longleftrightarrow> fits es k d [] s \<and> answered v s"

lemma holding_quiet: "quiet m \<Longrightarrow> triple (holding es k d v) m (\<lambda>_. holding es k d v) (ended es)"
  by (rule quiet_triple) (auto simp: holding_def answered_def intro: fits_cong fits_ended)

lemma holding_lift:
  "mild r \<Longrightarrow> (\<And>x. r = Inr x \<Longrightarrow> triple (holding es k d v) (f x) Q (ended es)) \<Longrightarrow>
   triple (holding es k d v) (bindE (liftE r) f) Q (ended es)"
  by (rule triple_lift) (auto simp: holding_def mild_def intro: fits_ended)

lemmas holding_seq = triple_seq [OF holding_quiet]

lemma holding_ends:
  "quiet m \<Longrightarrow> (\<And>s x. fst (m s) \<noteq> Inr x) \<Longrightarrow> triple (holding es k d v) m Q (ended es)"
  by (rule triple_weaken [OF quiet_ends]) (auto simp: holding_def)

lemma holding_fits:
  "triple (fits es k d []) m Q E \<Longrightarrow> triple (holding es k d v) m Q E"
  by (erule triple_weaken) (simp add: holding_def)

definition level_of :: "repl_frame list \<Rightarrow> nat" where
  "level_of stack = length stack - 1"

lemma level_of_simps [simp]: "level_of [] = 0" "level_of (f # stack) = length stack"
  by (simp_all add: level_of_def)

lemma descend_triple:
  fixes server :: "'a server"
  shows "triple (fits es k (level_of stack) []) (descend (logged server) wfs stack csid)
     (\<lambda>(v, stack'). holding es (Suc k) (level_of stack') v) (ended es)"
proof (cases stack)
  case Nil
  then show ?thesis by (auto simp: descend_def triple_def intro: fits_ended)
next
  case (Cons parent rest)
  have call: "triple (fits es k (length rest) [])
       (call_tool (logged server) ''enter_sub_workflow''
         [(''parent_session_id'', fr_session_id parent), (''call_step_id'', csid)])
       (holding es (Suc k) (Suc (length rest))) (ended es)"
    by (rule triple_post [OF call_triple [where p = "[]", OF _ refl]]) (auto simp: holding_def fed_def entered_def)
  have enter: "holding es k (length rest) v s" if "holding es k (Suc (length rest)) v s" for k v and s :: "('a \<times> call_log) repl"
    using that by (auto simp: holding_def intro: fits_le)
  show ?thesis
    unfolding descend_def Cons
    by (auto simp: Let_def split: option.splits intro!: triple_bind [OF call] triple_if triple_ret enter
        holding_lift holding_seq quiet_intros)
qed

lemma ascend_length: "fst (ascend target stack s) = Inr stack' \<Longrightarrow> length stack' \<le> length stack"
proof (induction stack arbitrary: s)
  case (Cons f stack)
  show ?case
  proof (cases "py_eq (fr_session_id f) target")
    case False
    with Cons show ?thesis
      by (cases "getitem (fr_workflow f) ''name''") (auto simp: seqE_def say_def bindE_def intro: le_SucI)
  qed (use Cons.prems in simp)
qed simp

lemma ascend_triple:
  "triple (holding es k (level_of stack) v) (ascend target stack)
     (\<lambda>stack'. holding es k (level_of stack') v) (ended es)"
proof (rule tripleI)
  fix s :: "('a \<times> call_log) repl"
  assume s: "holding es k (level_of stack) v s"
  show "case ascend target stack s of (Inr stack', s') \<Rightarrow> holding es k (level_of stack') v s' | (Inl e, s') \<Rightarrow> ended es e s'"
  proof (cases "ascend target stack s")
    case (Pair r s')
    show ?thesis
    proof (cases r)
      case (Inl e)
      with Pair triple_exn [OF holding_quiet [OF quiet_ascend] s] show ?thesis by simp
    next
      case (Inr stack')
      with Pair triple_value [OF holding_quiet [OF quiet_ascend] s]
      have "holding es k (level_of stack) v s'" by simp
      moreover have "length stack' \<le> length stack" using ascend_length [of target stack s] Pair Inr by simp
      ultimately show ?thesis using Pair Inr by (auto simp: holding_def level_of_def intro: fits_le)
    qed
  qed
qed

lemma submit_turn_triple:
  fixes server :: "'a server"
  assumes "list_all good_entry es" "level \<le> d"
  shows "triple (fits es k d []) (submit_turn (logged server) v stack step sid level ind upcoming)
     (\<lambda>(v', stack', step') s. holding es (Suc k) d v' s \<and> stack' = stack) (ended es)"
proof -
  have ask: "triple (fits es (Suc k) d [c])
     (if brs = PNone then retE [] else bindE (liftE (iterated brs)) (\<lambda>xs.
        bindE (prompt_branch xs dflt ind) (\<lambda>b. retE [(''branch'', b)])))
     (\<lambda>extra s. fits es (Suc k) d
        (c # map (\<lambda>a. py_str (snd a)) (filter (\<lambda>a. fst a \<in> {''content'', ''branch''}) extra)) s) (ended es)"
    for c brs dflt
    by (auto intro!: triple_if triple_ret mild_then triple_bind [OF prompt_branch_triple [OF assms(1)]]
        intro: fits_le)
  have send: "triple (fits es (Suc k) d
        (c # map (\<lambda>a. py_str (snd a)) (filter (\<lambda>a. fst a \<in> {''content'', ''branch''}) extra)))
     (bindE (submit (logged server) sid step c extra) (\<lambda>v'. retE (v', stack, step)))
     (\<lambda>(v', stack', step') s. holding es (Suc k) d v' s \<and> stack' = stack) (ended es)" for c extra
    by (rule triple_bind [OF submit_triple]) (auto simp: holding_def intro!: triple_ret)
  show ?thesis
    unfolding submit_turn_def
    by (auto split: prod.split option.split split del: if_split
        intro!: quiet_then mild_then triple_seq [OF set_cursor_triple [OF assms(2)]] quiet_intros
        triple_bind [OF read_response_triple [OF assms(1)]] triple_bind [OF ask send])
qed

abbreviation turned :: "pyval list \<Rightarrow> nat \<Rightarrow> turn \<Rightarrow> ('w \<times> call_log) repl \<Rightarrow> bool" where
  "turned es k t \<equiv> case t of (v, stack, step) \<Rightarrow> holding es k (level_of stack) v"

lemma holding_ended: "holding es k d v s \<Longrightarrow> ordinary e \<Longrightarrow> ended es e s"
  by (auto simp: holding_def intro: fits_ended)

lemma advance_triple:
  fixes server :: "'a server"
  assumes "list_all good_entry es"
  shows "triple (holding es k (length rest) v) (advance_turn (logged server) wfs v cur rest steps (length rest) ind)
     (turned es (Suc k)) (ended es)"
proof -
  have enter: "triple (fits es k (length rest) [])
     (bindE (descend (logged server) wfs (f # rest) step) (\<lambda>(v', stack').
        if is_tag v' ''status'' ''error'' then seqE (print_terminal v' ind) (sys_exit 1)
        else retE (v', stack', step))) (turned es (Suc k)) (ended es)" for f step
    using descend_triple [of es k "f # rest" server wfs step]
    by (auto intro!: triple_bind triple_if triple_ret holding_ends quiet_intros
        simp: seqE_def sys_exit_def bindE_def split: prod.splits sum.splits)
  have submit: "triple (fits es k (length rest) [])
     (submit_turn (logged server) v (f # rest) step sid (length rest) ind upcoming) (turned es (Suc k)) (ended es)"
    for f step sid upcoming
    by (rule triple_post [OF submit_turn_triple [OF assms order_refl]]) auto
  show ?thesis
    unfolding advance_turn_def Let_def
    by (rule holding_fits)
      (auto split: option.split split del: if_split
        intro!: mild_then quiet_then quiet_intros triple_if enter submit triple_raise fits_ended simp: unhashable_def)
qed

lemma turn_triple:
  fixes server :: "'a server"
  assumes "list_all good_entry es"
  shows "triple (turned es k t) (repl_turn (logged server) wfs t) (turned es (Suc k)) (ended es)"
proof (cases t)
  case (fields v stack0 step)
  have pop: "triple (holding es k (level_of stack0) v)
     (if truthy_or v ''propagated_from_sub_workflow'' PNone \<noteq> PNone
      then ascend (case pget v ''session_id'' of Some x \<Rightarrow> x | None \<Rightarrow> PNone) stack0 else retE stack0)
     (\<lambda>stack. holding es k (level_of stack) v) (ended es)"
    by (intro triple_if ascend_triple triple_ret)
  have retry: "triple (holding es k (length rest) v)
     (retry_turn (logged server) v (cur # rest) step sid (length rest) ind) (turned es (Suc k)) (ended es)"
    for cur rest sid ind
    by (rule holding_fits, rule triple_post [OF retry_triple [OF assms order_refl]]) (auto simp: holding_def)
  have stop: "triple (holding es k d v) (terminal_turn v ind) Q (ended es)" for d ind Q
    by (rule triple_weaken [OF terminal_triple [of es k d v]]) (simp add: holding_def)
  show ?thesis
    unfolding repl_turn_def fields prod.case Let_def
  proof (rule triple_bind [OF pop])
    fix stack :: "repl_frame list"
    show "triple (holding es k (level_of stack) v)
       (case stack of [] \<Rightarrow> raiseE (IndexError ''list index out of range'')
        | cur # rest \<Rightarrow>
            bindE (liftE (andThen (getitem (fr_workflow cur) ''steps'') iterated)) (\<lambda>steps.
            bindE (liftE (listed_ids steps)) (\<lambda>_.
              if is_tag v ''status'' ''validation_error''
              then retry_turn (logged server) v stack step (fr_session_id cur) (length rest) (indent_for (length rest))
              else if list_ex (is_tag v ''status'') TERMINAL_STATUSES
              then terminal_turn v (indent_for (length rest))
              else advance_turn (logged server) wfs v cur rest steps (length rest) (indent_for (length rest)))))
       (turned es (Suc k)) (ended es)"
      by (cases stack) (auto split del: if_split simp: TERMINAL_STATUSES_def
          intro!: holding_lift triple_if retry stop advance_triple [OF assms] triple_raise
          intro: holding_ended)
  qed
qed

text \<open>A run that used up its fuel after \<open>n\<close> turns has taken an entry or entered a sub-workflow in each.\<close>

definition spent :: "pyval list \<Rightarrow> nat \<Rightarrow> exn \<Rightarrow> ('w \<times> call_log) repl \<Rightarrow> bool" where
  "spent es n e s \<longleftrightarrow> ended es e s \<or>
     e = NoReturn \<and> in_order es s \<and> n \<le> length es + entered (made s)"

lemma spent_weaken: "triple P m Q (ended es) \<Longrightarrow> triple P m Q (spent es n)"
  by (fastforce simp: triple_def spent_def split: prod.splits sum.splits)

lemma loop_triple:
  fixes server :: "'a server"
  assumes "list_all good_entry es"
  shows "triple (turned es k t) (repl_loop n (logged server) wfs t) (\<lambda>_ _. False) (spent es (k + n))"
proof (induction n arbitrary: k t)
  case 0
  have "spent es k NoReturn s" if "holding es k d v s" for d v and s :: "('a \<times> call_log) repl"
  proof -
    from that have "fits es k d [] s" by (simp add: holding_def)
    moreover from this have "k \<le> length es + entered (made s)" by (auto simp: fits_def)
    ultimately show ?thesis by (simp add: spent_def fits_in_order)
  qed
  then show ?case by (cases t) (auto simp: triple_def)
next
  case (Suc n)
  show ?case
    unfolding repl_loop.simps
    by (rule triple_bind [OF spent_weaken [OF turn_triple [OF assms]]]) (use Suc [of "Suc k"] in simp)
qed

section \<open>Whole runs\<close>

text \<open>No script was installed and nothing was called.\<close>

definition untouched :: "('w \<times> call_log) repl \<Rightarrow> bool" where
  "untouched s \<longleftrightarrow> rp_script s = None \<and> made s = []"

text \<open>The entries of the responses file.\<close>

definition script_entries :: "dryrun_args \<Rightarrow> pyval list" where
  "script_entries a =
     (case dr_responses a of
        Some (_, Some (Loaded doc)) \<Rightarrow> (case pget doc ''entries'' of Some (PList es) \<Rightarrow> es | _ \<Rightarrow> [])
      | _ \<Rightarrow> [])"

text \<open>How a scripted run of \<open>n\<close> turns can end.\<close>

definition run_ends :: "dryrun_args \<Rightarrow> nat \<Rightarrow> exn \<Rightarrow> ('w \<times> call_log) repl \<Rightarrow> bool" where
  "run_ends a n e s \<longleftrightarrow>
     untouched s \<and> ordinary e \<or> list_all good_entry (script_entries a) \<and> spent (script_entries a) n e s"

lemma quiet_check_entries [quiet_intros]: "quiet (check_entries i xs)"
proof -
  have "rp_script (snd (check_entries i xs s)) = rp_script s" for s :: "'a repl"
    by (induction i xs rule: check_entries.induct) (auto split: option.splits)
  then show ?thesis
    unfolding quiet_def using check_entries_cases [of xs i]
    by (metis fst_conv mild_simps(1,2,10) snd_conv zero_neq_one)
qed

lemma quiet_scripted_exit [quiet_intros]: "quiet (scripted_exit m)"
  unfolding scripted_exit_def by (intro quiet_intros) simp

lemma quiet_parse [quiet_intros]: "quiet (parse_responses_file path src)"
  unfolding parse_responses_file_def
  by (auto split: yaml_source.split option.split pyval.split split del: if_split
      intro!: quiet_intros)

lemma quiet_target_name [quiet_intros]: "quiet (target_name a)"
  unfolding target_name_def
  by (auto split: yaml_source.split option.split split del: if_split intro!: quiet_intros)

lemma quiet_find_target [quiet_intros]: "quiet (find_target a name wfs)"
  unfolding find_target_def
  by (auto split: option.split simp: unhashable_def split del: if_split intro!: quiet_intros)

lemma untouched_quiet:
  "quiet m \<Longrightarrow> triple untouched m (\<lambda>_. untouched) (run_ends a n)"
  by (rule quiet_triple) (auto simp: untouched_def run_ends_def)

lemma quiet_value:
  assumes "triple P m (\<lambda>_. R) E" "\<And>s x. fst (m s) = Inr x \<Longrightarrow> V x"
  shows "triple P m (\<lambda>x s. R s \<and> V x) E"
proof (rule tripleI)
  fix s assume "P s"
  with assms(1) have "case m s of (Inr x, s') \<Rightarrow> R s' | (Inl e, s') \<Rightarrow> E e s'" by (simp add: triple_def)
  with assms(2) [of s] show "case m s of (Inr x, s') \<Rightarrow> R s' \<and> V x | (Inl e, s') \<Rightarrow> E e s'"
    by (auto split: prod.splits sum.splits)
qed

lemma open_script_triple:
  assumes "dr_responses a = Some (path, src)"
  shows "triple untouched (open_script a) (\<lambda>_ s. list_all good_entry (script_entries a) \<and> fits (script_entries a) 0 0 [] s) (run_ends a n)"
proof (cases src)
  case None
  have "triple untouched (seqE (warn m) (sys_exit 1)) (\<lambda>_ s. list_all good_entry (script_entries a) \<and> fits (script_entries a) 0 0 [] s)
     (run_ends a n)" for m
    by (auto simp: triple_def seqE_def bindE_def warn_def sys_exit_def untouched_def run_ends_def)
  with assms None show ?thesis by (simp add: open_script_def)
next
  case (Some y)
  have "triple untouched (parse_responses_file path y) (\<lambda>es s. untouched s \<and> es = script_entries a \<and> list_all good_entry es) (run_ends a n)"
    by (rule quiet_value [OF untouched_quiet [OF quiet_parse]]) (auto simp: parse_accepts script_entries_def assms Some)
  moreover have "triple (\<lambda>s. untouched s \<and> es = script_entries a \<and> list_all good_entry es)
     (\<lambda>s. (Inr (), s\<lparr>rp_script := Some \<lparr>sc_entries = es, sc_pos = 0, sc_step = PStr [], sc_depth = 0\<rparr>\<rparr>))
     (\<lambda>_ s. list_all good_entry (script_entries a) \<and> fits (script_entries a) 0 0 [] s) (run_ends a n)" for es
    by (auto simp: triple_def untouched_def fits_def)
  ultimately show ?thesis
    using assms Some by (auto simp: open_script_def install_scripted_mode_def intro: triple_bind)
qed

lemma triple_given: "(V \<Longrightarrow> triple P m Q E) \<Longrightarrow> triple (\<lambda>s. V \<and> P s) m Q E"
  by (cases V) (simp_all add: triple_def)

lemma spent_run:
  "list_all good_entry (script_entries a) \<Longrightarrow> triple P m Q (spent (script_entries a) n) \<Longrightarrow> triple P m Q (run_ends a n)"
  by (fastforce simp: triple_def run_ends_def split: prod.splits sum.splits)

lemma run_target_triple:
  fixes server :: "'a server"
  assumes "list_all good_entry es"
  shows "triple (fits es 0 0 []) (run_target n (logged server) wfs a name doc) (\<lambda>_ _. False) (spent es n)"
  unfolding run_target_def
proof (rule triple_bind [OF spent_weaken])
  show "triple (fits es 0 0 [])
     (call_tool (logged server) ''start_workflow'' [(''workflow_type'', name), (''context'', PStr (dr_context a))])
     (holding es 0 0) (ended es)"
    by (rule triple_post [OF call_triple [where p = "[]", OF _ refl]]) (auto simp: holding_def fed_def entered_def)
next
  fix v :: pyval
  let ?t = "\<lambda>sid. (v, [\<lparr>fr_session_id = sid, fr_workflow = doc, fr_prev_step_idx = -1, fr_call_step_id = None\<rparr>], PStr [])"
  have "triple (holding es 0 0 v) (repl_loop n (logged server) wfs (?t sid)) (\<lambda>_ _. False) (spent es n)" for sid
    using loop_triple [OF assms, of 0 "?t sid" n server wfs] by simp
  then show "triple (holding es 0 0 v)
     (bindE (liftE (getitem v ''session_id'')) (\<lambda>sid. repl_loop n (logged server) wfs (?t sid)))
     (\<lambda>_ _. False) (spent es n)"
    using mild_getitem [of v "''session_id''"]
    by (intro triple_lift) (auto simp: mild_def spent_def intro: holding_ended)
qed

lemma scripted_run:
  fixes server :: "'a server"
  assumes "dr_responses a = Some (path, src)"
  shows "triple untouched (dryrun_main n (logged server) a loaded) (\<lambda>_ _. False) (run_ends a n)"
proof -
  have go: "triple (fits es 0 0 []) (bindE (target_name a) (\<lambda>name.
      case loaded of
        Inl x \<Rightarrow> seqE (warn (load_hint a x)) (sys_exit 1)
      | Inr (wfs, _) \<Rightarrow> bindE (find_target a name wfs) (run_target n (logged server) wfs a name)))
      (\<lambda>_ _. False) (spent es n)" if "list_all good_entry es" for es
  proof (rule triple_bind [OF spent_weaken [OF quiet_fits [OF quiet_target_name]]])
    fix name
    have "triple (fits es 0 0 []) (seqE (warn m) (sys_exit 1)) (\<lambda>_ _. False) (ended es)" for m
      by (rule quiet_ends) (auto simp: seqE_def sys_exit_def warn_def bindE_def intro!: quiet_intros)
    then show "triple (fits es 0 0 []) (case loaded of
        Inl x \<Rightarrow> seqE (warn (load_hint a x)) (sys_exit 1)
      | Inr (wfs, _) \<Rightarrow> bindE (find_target a name wfs) (run_target n (logged server) wfs a name))
      (\<lambda>_ _. False) (spent es n)"
      by (auto split: sum.split intro: spent_weaken triple_bind [OF spent_weaken [OF quiet_fits [OF quiet_find_target]]]
          run_target_triple [OF that])
  qed
  show ?thesis
    unfolding dryrun_main_def
  proof (rule triple_if)
    show "triple untouched (seqE (warn db_path_hint) (sys_exit 2)) (\<lambda>_ _. False) (run_ends a n)"
      by (auto simp: triple_def seqE_def bindE_def warn_def sys_exit_def untouched_def run_ends_def)
  qed (auto intro!: triple_seq [OF open_script_triple [OF assms]] triple_given intro: spent_run go)
qed

lemma triple_final:
  fixes server :: "'a server"
  assumes "dr_responses a = Some (path, src)" "rp_script s = None" "made s = []"
    and "dryrun_main n (logged server) a loaded s = (r, s')"
  obtains e where "r = Inl e" "run_ends a n e s'"
proof -
  have u: "untouched s" using assms(2,3) by (simp add: untouched_def)
  show ?thesis
  proof (cases r)
    case (Inl e)
    have "run_ends a n e s'"
      by (rule triple_exn [OF scripted_run [OF assms(1)] u]) (use assms(4) Inl in simp)
    with Inl that show ?thesis by blast
  next
    case (Inr x)
    have False
      by (rule triple_value [OF scripted_run [OF assms(1)] u]) (use assms(4) Inr in simp)
    then show ?thesis by simp
  qed
qed

text \<open>
  C35. Whatever the server answers, a scripted dry run submits only texts of the responses file,
  in the order of the file and each entry at most once.
\<close>

theorem scripted_run_follows_script:
  assumes "dr_responses a = Some (path, src)" "rp_script s = None" "made s = []"
    and "dryrun_main n (logged server) a loaded s = (r, s')"
  shows "subseq (fed (made s')) (map entry_text (script_entries a))"
proof -
  from triple_final [OF assms] obtain e where "r = Inl e" "run_ends a n e s'" .
  then show ?thesis by (auto simp: run_ends_def untouched_def spent_def ended_def in_order_def)
qed

text \<open>
  C34. A scripted dry run that exits with status 0 ended on the server's
  \<open>workflow_complete\<close> and used up the responses file; if it entered no
  sub-workflow, it submitted every entry of the file, in order.
\<close>

theorem exit_zero_means_complete:
  assumes "dr_responses a = Some (path, src)" "rp_script s = None" "made s = []"
    and "dryrun_main n (logged server) a loaded s = (Inl (SystemExit 0), s')"
    and "\<forall>c\<in>set (made s'). snd (snd c) \<noteq> Inl (SystemExit 0)"
  shows "(\<exists>v. answered v s' \<and> is_tag v ''status'' ''workflow_complete'') \<and>
    map_option sc_pos (rp_script s') = Some (length (script_entries a)) \<and>
    (if entered (made s') = 0 then fed (made s') = map entry_text (script_entries a)
     else subseq (fed (made s')) (map entry_text (script_entries a)))"
proof -
  from triple_final [OF assms(1-4)] have "spent (script_entries a) n (SystemExit 0) s'"
    by (auto simp: run_ends_def)
  moreover have "\<not> raised (SystemExit 0) s'"
    using assms(5) last_in_set [of "made s'"] by (auto simp: raised_def)
  ultimately show ?thesis
    by (auto simp: spent_def ended_def finished_def in_order_def)
qed

text \<open>
  A scripted dry run returns: each turn takes an entry of the file or enters a sub-workflow, so
  fuel above their number is enough, whatever the server answers.
\<close>

theorem scripted_run_returns:
  assumes "dr_responses a = Some (path, src)" "rp_script s = None" "made s = []"
    and "dryrun_main n (logged server) a loaded s = (r, s')"
    and "\<forall>c\<in>set (made s'). snd (snd c) \<noteq> Inl NoReturn"
    and "length (script_entries a) + entered (made s') < n"
  shows "\<exists>e. r = Inl e \<and> e \<noteq> NoReturn"
proof -
  from triple_final [OF assms(1-4)] obtain e where e: "r = Inl e" "run_ends a n e s'" .
  moreover have "\<not> raised NoReturn s'"
    using assms(5) last_in_set [of "made s'"] by (auto simp: raised_def)
  ultimately show ?thesis
    using assms(6) by (auto simp: run_ends_def spent_def ended_def ordinary_def)
qed

end
