(* ===== verification/DryrunRuns.thy ===== *)
theory DryrunRuns
  imports DryrunProps Scenario
begin

text \<open>
  Dry runs on the tools of the server: what every call keeps, the dry run keeps
  (locale \<open>kept_by_calls\<close>), and a concrete run.
\<close>

section \<open>The database\<close>

text \<open>The loop reaches the server only through \<open>mcp.call_tool\<close>.\<close>

lemma quiet_abort [quiet_intros]: "quiet abort_eof"
  unfolding abort_eof_def by (intro quiet_intros) simp

lemma quiet_next_line [quiet_intros]: "quiet (\<lambda>s. (Inr x, s\<lparr>rp_in := ls\<rparr>))"
  by (simp add: quiet_def)

lemma quiet_get [quiet_intros]: "(\<And>y. quiet (f y)) \<Longrightarrow> quiet (bindE (getE g) f)"
  by (simp add: quiet_def)

lemma quiet_read_line [quiet_intros]: "quiet (read_line prompt)"
  unfolding read_line_def by (auto split: list.split intro!: quiet_intros)

lemma quiet_choose_branch [quiet_intros]: "quiet (choose_branch branches dflt ind lines)"
proof (induction lines)
  case Nil
  show ?case
    by (subst choose_branch.simps) (simp del: choose_branch.simps, intro quiet_intros)
next
  case (Cons l ls)
  show ?case
    by (subst choose_branch.simps, unfold list.case Let_def, intro quiet_intros Cons; simp)
qed

lemma quiet_branch_rows [quiet_intros]: "quiet (branch_rows i dflt ind branches)"
proof (induction i dflt ind branches rule: branch_rows.induct)
  case (2 i dflt ind b branches)
  then show ?case unfolding branch_rows.simps by (intro quiet_intros; simp)
qed (simp only: branch_rows.simps quiet_ret)

lemma quiet_ask_branch [quiet_intros]: "quiet (ask_branch branches dflt ind)"
  unfolding ask_branch_def by (intro quiet_intros)

abbreviation server_keeps :: "('w \<Rightarrow> bool) \<Rightarrow> ('w repl, 'a) act \<Rightarrow> bool" where
  "server_keeps P \<equiv> keeps (\<lambda>s. P (rp_server s))"

lemma quiet_keeps: "quiet m \<Longrightarrow> server_keeps P m"
  by (simp add: keeps_def quiet_def)

lemma keeps_each [inv_intros]: "(\<And>x. keeps P (f x)) \<Longrightarrow> keeps P (each f xs)"
  by (induction xs) (simp_all add: keeps_retE keeps_seqE del: retE_apply)

lemmas quiet_operations [inv_intros] =
  quiet_say [THEN quiet_keeps] quiet_warn [THEN quiet_keeps] quiet_banner [THEN quiet_keeps]
  quiet_skipped_lines [THEN quiet_keeps] quiet_validation_error [THEN quiet_keeps]
  quiet_terminal [THEN quiet_keeps] quiet_ascend [THEN quiet_keeps] quiet_read_line [THEN quiet_keeps]
  quiet_ask_branch [THEN quiet_keeps] quiet_scripted_exit [THEN quiet_keeps]
  quiet_target_name [THEN quiet_keeps] quiet_find_target [THEN quiet_keeps]

lemma keeps_consume [inv_intros]: "server_keeps P (scripted_consume kind)"
  unfolding scripted_consume_def
  by (auto simp: keeps_def walk_entries_server split: option.splits)

lemma keeps_set_cursor [inv_intros]: "server_keeps P (set_cursor step l)"
  by (simp add: keeps_def set_cursor_def)

lemma keeps_read_response [inv_intros]: "server_keeps P read_response"
  unfolding read_response_def by (intro inv_intros)

lemma keeps_prompt_branch [inv_intros]: "server_keeps P (prompt_branch branches dflt ind)"
  unfolding prompt_branch_def by (intro inv_intros)

lemma keeps_unused [inv_intros]: "server_keeps P check_unused_on_complete"
  unfolding check_unused_on_complete_def Let_def by (intro inv_intros)

lemma keeps_sys_exit [inv_intros]: "server_keeps P (sys_exit c)"
  by (simp add: keeps_def sys_exit_def)

lemma keeps_open_script [inv_intros]: "server_keeps P (open_script a)"
proof -
  have "server_keeps P (install_scripted_mode path src)" for path src
    unfolding install_scripted_mode_def
    by (rule keeps_bindE [OF quiet_keeps [OF quiet_parse]]) (simp add: keeps_def)
  then show ?thesis
    unfolding open_script_def by (auto split: option.split intro!: inv_intros)
qed

text \<open>What every call of the server keeps, the whole dry run keeps.\<close>

locale kept_by_calls =
  fixes server :: "'w server" and P :: "'w \<Rightarrow> bool"
  assumes call: "P w \<Longrightarrow> P (snd (server name args w))"
begin

lemma keeps_call: "server_keeps P (call_tool server name args)"
proof (rule keepsI)
  fix s :: "'w repl"
  assume "P (rp_server s)"
  from call [OF this, of name args] show "P (rp_server (snd (call_tool server name args s)))"
    by (cases "server name args (rp_server s)") (simp add: call_tool_def)
qed

lemma keeps_submit: "server_keeps P (submit server sid step c extra)"
  unfolding submit_def by (rule keeps_call)

lemma keeps_descend: "server_keeps P (descend server wfs stack csid)"
  unfolding descend_def Let_def
  by (auto split: list.split option.split split del: if_split intro!: inv_intros keeps_call)

lemma keeps_retry: "server_keeps P (retry_turn server v stack step sid level ind)"
  unfolding retry_turn_def by (intro inv_intros keeps_submit)

lemma keeps_terminal: "server_keeps P (terminal_turn v ind)"
  unfolding terminal_turn_def by (intro inv_intros)

lemma keeps_submit_turn: "server_keeps P (submit_turn server v stack step sid level ind upcoming)"
  unfolding submit_turn_def
  by (auto split: option.split prod.split split del: if_split intro!: inv_intros keeps_submit)

lemma keeps_advance: "server_keeps P (advance_turn server wfs v cur rest steps level ind)"
  unfolding advance_turn_def Let_def
  by (auto split del: if_split intro!: inv_intros keeps_descend keeps_submit_turn)

lemma keeps_turn: "server_keeps P (repl_turn server wfs t)"
  unfolding repl_turn_def Let_def
  by (auto split: list.split prod.split split del: if_split
      intro!: inv_intros keeps_retry keeps_terminal keeps_advance)

lemma keeps_loop: "server_keeps P (repl_loop n server wfs t)"
proof (induction n arbitrary: t)
  case (Suc n)
  then show ?case unfolding repl_loop.simps by (intro keeps_bindE keeps_turn)
qed (simp only: repl_loop.simps keeps_raiseE)

lemma keeps_target: "server_keeps P (run_target n server wfs a name doc)"
  unfolding run_target_def by (intro inv_intros keeps_call keeps_loop)

lemma keeps_main: "server_keeps P (dryrun_main n server a loaded)"
  unfolding dryrun_main_def
  by (auto split: sum.split split del: if_split intro!: inv_intros keeps_target)

end

section \<open>A concrete run\<close>

definition essay_doc :: pyval where
  "essay_doc = PDict [(''name'', PStr ''essay''),
     (''steps'', PList [PDict [(''id'', PStr ''plan''), (''title'', PStr ''plan'')],
                        PDict [(''id'', PStr ''draft''), (''title'', PStr ''draft'')]])]"

definition essay_script :: "pyval list" where
  "essay_script = [PDict [(''step_id'', PStr ''plan''), (''response'', PStr ''x'')],
     PDict [(''step_id'', PStr ''draft''), (''response'', PStr ''y'')]]"

definition essay_args :: dryrun_args where
  "essay_args = \<lparr>dr_db_path = Some ''db'',
     dr_responses = Some (''r'', Some (Loaded (PDict [(''version'', PInt 1), (''entries'', PList essay_script)]))),
     dr_target = ''w'', dr_parent = ''.'', dr_file = ''w'', dr_source = Some (Loaded essay_doc), dr_context = []\<rparr>"

definition essay_run :: "nat \<Rightarrow> (exn + unit) \<times> (world \<times> call_log) repl" where
  "essay_run n = dryrun_main n (logged (server_call demo_env demo_app (\<lambda>_. ''T''))) essay_args
     (Inr ([(''essay'', essay_doc)], []))
     \<lparr>rp_server = (empty_world, []), rp_out = [], rp_err = [], rp_in = [], rp_script = None\<rparr>"

definition fresh_tokens :: "(world \<Rightarrow> string) \<Rightarrow> bool" where
  "fresh_tokens token_of \<longleftrightarrow> (\<forall>w. fresh (token_of w) w)"

lemma server_call_step:
  assumes "fresh_tokens token_of"
  shows "(tool_step e UNIV)\<^sup>*\<^sup>* w (snd (server_call e ap token_of name args w))"
proof -
  have token: "fresh (token_of w) w" using assms by (simp add: fresh_tokens_def)
  have one: "tool_step e UNIV w w' \<Longrightarrow> (tool_step e UNIV)\<^sup>*\<^sup>* w w'" for w'
    by (rule r_into_rtranclp)
  note steps = tool_step.start [OF token UNIV_I] tool_step.enter [OF token UNIV_I] tool_step.submit
  show ?thesis
    unfolding server_call_def by (simp add: steps [THEN one])
qed

text \<open>The tools are such a server, for what their steps reach from the database of the start.\<close>

interpretation tools: kept_by_calls "server_call e ap token_of"
  "\<lambda>w. fresh_tokens token_of \<longrightarrow> (tool_step e UNIV)\<^sup>*\<^sup>* start w" for e ap token_of start
  by unfold_locales (meson rtranclp_trans server_call_step)

text \<open>
  Run on the tools themselves, a dry run, however it ends, is a run of the tools: it leaves a
  database that a sequence of tool calls reaches from the one it started on, and so a
  well-formed one.
\<close>

theorem dry_run_keeps_tables:
  assumes "fresh_tokens token_of" "db_ok (rp_server s)"
    and "dryrun_main n (server_call e ap token_of) a loaded s = (r, s')"
  shows "(tool_step e UNIV)\<^sup>*\<^sup>* (rp_server s) (rp_server s') \<and> db_ok (rp_server s')"
proof -
  have "(tool_step e UNIV)\<^sup>*\<^sup>* (rp_server s) (rp_server s')"
    using keepsD [OF tools.keeps_main [of token_of e "rp_server s" n ap a loaded] _ assms(3)] assms(1) by simp
  then show ?thesis using tables.reach_inv assms(2) by blast
qed

text \<open>A token longer than every id of the database.\<close>

definition long_token :: "world \<Rightarrow> string" where
  "long_token w = replicate (Suc (sum_list (map (\<lambda>r. length (session_id r)) (sessions w)) +
     sum_list (map (\<lambda>f. length (frame_session_id f) + length (root_session_id f)) (session_stack w)))) (CHR ''t'')"

lemma normalize_replicate: "normalize_session_id (replicate n (CHR ''t'')) = replicate n (CHR ''t'')"
proof -
  have "casefold (replicate n (CHR ''t'')) = replicate n (CHR ''t'')"
    by (rule casefold_id) (simp add: folded_def fold_char_def)
  moreover have "\<not> py_space (CHR ''t'')" by code_simp
  then have "dropWhile py_space (replicate n (CHR ''t'')) = replicate n (CHR ''t'')"
    by (simp add: dropWhile_eq_self_iff)
  ultimately show ?thesis by (simp add: normalize_session_id_def py_strip_def)
qed

lemma long_tokens_fresh: "fresh_tokens long_token"
  unfolding fresh_tokens_def
proof
  fix w :: world
  have "length (session_id r) < length (long_token w)" if "r \<in> set (sessions w)" for r
    using member_le_sum_list [of "length (session_id r)" "map (\<lambda>r. length (session_id r)) (sessions w)"] that
    by (simp add: long_token_def)
  moreover have "length (frame_session_id f) + length (root_session_id f) < length (long_token w)"
    if "f \<in> set (session_stack w)" for f
    using member_le_sum_list [of "length (frame_session_id f) + length (root_session_id f)"
      "map (\<lambda>f. length (frame_session_id f) + length (root_session_id f)) (session_stack w)"] that
    by (simp add: long_token_def)
  moreover have "normalize_session_id (long_token w) = long_token w"
    unfolding long_token_def by (rule normalize_replicate)
  ultimately show "fresh (long_token w) w"
    by (fastforce simp: fresh_def Let_def)
qed

theorem dry_run_keeps_tables_witness:
  "db_ok (rp_server (snd (dryrun_main 4 (server_call demo_env demo_app long_token) essay_args
     (Inr ([(''essay'', essay_doc)], []))
     \<lparr>rp_server = empty_world, rp_out = [], rp_err = [], rp_in = [], rp_script = None\<rparr>)))"
proof -
  let ?s = "\<lparr>rp_server = empty_world, rp_out = [], rp_err = [], rp_in = [], rp_script = None\<rparr>"
  have "db_ok (rp_server ?s)" by (simp add: db_ok_empty empty_world_def)
  from dry_run_keeps_tables [OF long_tokens_fresh this surjective_pairing] show ?thesis by blast
qed

text \<open>The run of the two-step workflow on the tools, with a script of two responses.\<close>

lemma essay_facts:
  "dr_responses essay_args = Some (''r'', Some (Loaded (PDict [(''version'', PInt 1), (''entries'', PList essay_script)])))"
  "script_entries essay_args = essay_script"
  by (simp_all add: essay_args_def script_entries_def)

lemma essay_start:
  "rp_script \<lparr>rp_server = w, rp_out = [], rp_err = [], rp_in = [], rp_script = None\<rparr> = None"
  "made \<lparr>rp_server = (w, []), rp_out = [], rp_err = [], rp_in = [], rp_script = None\<rparr> = []"
  by simp_all

lemma essay_result:
  "fst (essay_run 4) = Inl (SystemExit 0)"
  "list_all (\<lambda>c. snd (snd c) \<noteq> Inl (SystemExit 0) \<and> snd (snd c) \<noteq> Inl NoReturn) (made (snd (essay_run 4)))"
  "entered (made (snd (essay_run 4))) = 0"
  by code_simp+

lemmas essay_ran = essay_run_def [of 4, symmetric, THEN trans, OF surjective_pairing]

theorem scripted_run_follows_script_witness:
  "subseq (fed (made (snd (essay_run 4)))) [''x'', ''y'']"
proof -
  have "map entry_text essay_script = [''x'', ''y'']" by code_simp
  with scripted_run_follows_script [OF essay_facts(1) essay_start essay_ran] show ?thesis
    by (simp add: essay_facts)
qed

theorem exit_zero_means_complete_witness:
  "fed (made (snd (essay_run 4))) = [''x'', ''y'']"
proof -
  have script: "map entry_text essay_script = [''x'', ''y'']" by code_simp
  have "\<forall>c\<in>set (made (snd (essay_run 4))). snd (snd c) \<noteq> Inl (SystemExit 0)"
    using essay_result(2) by (auto simp: list_all_iff)
  with exit_zero_means_complete [OF essay_facts(1) essay_start essay_ran [unfolded essay_result(1)]]
  show ?thesis by (simp add: essay_facts essay_result script)
qed

theorem scripted_run_returns_witness: "\<exists>e. fst (essay_run 4) = Inl e \<and> e \<noteq> NoReturn"
proof -
  have "\<forall>c\<in>set (made (snd (essay_run 4))). snd (snd c) \<noteq> Inl NoReturn"
    using essay_result(2) by (auto simp: list_all_iff)
  moreover have "length (script_entries essay_args) + entered (made (snd (essay_run 4))) < 4"
    by (simp add: essay_facts essay_result essay_script_def)
  ultimately show ?thesis by (rule scripted_run_returns [OF essay_facts(1) essay_start essay_ran])
qed

theorem scripted_consume_matches_witness:
  "scripted_consume ''response'' \<lparr>rp_server = (), rp_out = [], rp_err = [], rp_in = [],
       rp_script = Some \<lparr>sc_entries = essay_script, sc_pos = 0, sc_step = PStr ''draft'', sc_depth = 1\<rparr>\<rparr> =
     (Inr (essay_script ! 1), \<lparr>rp_server = (), rp_out = [], rp_err = [], rp_in = [],
       rp_script = Some \<lparr>sc_entries = essay_script, sc_pos = 2, sc_step = PStr ''draft'', sc_depth = 1\<rparr>\<rparr>)"
proof -
  let ?sc = "\<lparr>sc_entries = essay_script, sc_pos = 0, sc_step = PStr ''draft'', sc_depth = 1\<rparr>"
  have good: "list_all good_entry (sc_entries ?sc)" by code_simp
  have c: "consumed ''response'' 1 (PStr ''draft'') essay_script = Some (essay_script ! 1, 2)" by code_simp
  show ?thesis
    using scripted_consume_matches [OF _ good, of "\<lparr>rp_server = (), rp_out = [], rp_err = [], rp_in = [],
       rp_script = Some ?sc\<rparr>" "''response''"] c by simp
qed

end
