(* ===== verification/Settings.thy ===== *)
theory Settings
  imports RateLimitProps Dryrun
begin

text \<open>
  The configuration of the rate limiter from the environment (\<^verbatim>\<open>from_env\<close>, \<^verbatim>\<open>_pos_float\<close> and
  \<^verbatim>\<open>_pos_int\<close> in \<^verbatim>\<open>ratelimit.py\<close>), with Python's reading of numbers. An environment is a function
  from variables to values.
\<close>

section \<open>Numbers from the environment (ratelimit.py)\<close>

text \<open>\<open>float(s)\<close>: a decimal, an infinity by its sign, or not a number; no rounding, no overflow.\<close>

datatype env_float = Decimal int nat | Infinity bool | NotANumber

text \<open>Digits with single underscores between them.\<close>

definition digit_part :: "string \<Rightarrow> string option" where
  "digit_part s =
     (let groups = split_on (CHR ''_'') s in
      if list_all (\<lambda>g. g \<noteq> [] \<and> list_all is_digit g) groups then Some (concat groups) else None)"

definition optional_part :: "string \<Rightarrow> string option" where
  "optional_part s = (if s = [] then Some [] else digit_part s)"

definition signed :: "string \<Rightarrow> bool \<times> string" where
  "signed s =
     (if s \<noteq> [] \<and> hd s = CHR ''-'' then (True, tl s)
      else if s \<noteq> [] \<and> hd s = CHR ''+'' then (False, tl s) else (False, s))"

definition exponent_part :: "string \<Rightarrow> int option" where
  "exponent_part s =
     (if s = [] then Some 0
      else (case signed (tl s) of (neg, ds) \<Rightarrow>
        map_option (\<lambda>n. (if neg then - 1 else 1) * int (nat_of_digits 0 n)) (digit_part ds)))"

definition unsigned_float :: "bool \<Rightarrow> string \<Rightarrow> env_float option" where
  "unsigned_float neg s =
     (let mant = takeWhile (\<lambda>c. c \<noteq> CHR ''e'') s;
          ip = takeWhile (\<lambda>c. c \<noteq> CHR ''.'') mant;
          fp = tl (dropWhile (\<lambda>c. c \<noteq> CHR ''.'') mant) in
      if s \<in> {''inf'', ''infinity''} then Some (Infinity neg)
      else if s = ''nan'' then Some NotANumber
      else if ip = [] \<and> fp = [] then None
      else (case (optional_part ip, optional_part fp, exponent_part (drop (length mant) s)) of
         (Some i, Some f, Some x) \<Rightarrow>
           (case mk_float ((if neg then - 1 else 1) * int (nat_of_digits 0 (i @ f))) (length f) x of
              PFloat m k \<Rightarrow> Some (Decimal m k) | _ \<Rightarrow> None)
       | _ \<Rightarrow> None))"

definition py_float :: "string \<Rightarrow> env_float option" where
  "py_float raw = (case signed (casefold (py_strip raw)) of (neg, s) \<Rightarrow> unsigned_float neg s)"

fun float_text :: "env_float \<Rightarrow> string" where
  "float_text (Decimal m k) = dump_float m k"
| "float_text (Infinity neg) = (if neg then ''-inf'' else ''inf'')"
| "float_text NotANumber = ''nan''"

text \<open>\<open>value < 0\<close>, which is false of NaN.\<close>

fun below_zero :: "env_float \<Rightarrow> bool" where
  "below_zero (Decimal m k) = (m < 0)"
| "below_zero (Infinity neg) = neg"
| "below_zero NotANumber = False"

definition pos_float :: "(string \<Rightarrow> string option) \<Rightarrow> string \<Rightarrow> env_float \<Rightarrow> exn + env_float" where
  "pos_float src key dflt =
     (case src key of
        None \<Rightarrow> Inr dflt
      | Some raw \<Rightarrow>
          if raw = [] then Inr dflt
          else (case py_float raw of
             None \<Rightarrow> Inl (ValueError (key @ '' must be numeric, got '' @ repr_str raw))
           | Some v \<Rightarrow>
               if below_zero v then Inl (ValueError (key @ '' must be non-negative, got '' @ float_text v))
               else Inr v))"

definition pos_int :: "(string \<Rightarrow> string option) \<Rightarrow> string \<Rightarrow> int \<Rightarrow> exn + int" where
  "pos_int src key dflt =
     (case src key of
        None \<Rightarrow> Inr dflt
      | Some raw \<Rightarrow>
          if raw = [] then Inr dflt
          else (case py_int (py_strip raw) of
             None \<Rightarrow> Inl (ValueError (key @ '' must be integer, got '' @ repr_str raw))
           | Some v \<Rightarrow>
               if v < 0 then Inl (ValueError (key @ '' must be non-negative, got '' @ str_int v))
               else Inr v))"

record env_config =
  ec_session_rate :: env_float
  ec_session_burst :: env_float
  ec_ip_rate :: env_float
  ec_ip_burst :: env_float
  ec_ip_create_rate :: env_float
  ec_ip_create_burst :: env_float
  ec_ip_store_cap :: int
  ec_ip_idle_ttl :: env_float

definition from_env :: "(string \<Rightarrow> string option) \<Rightarrow> exn + env_config" where
  "from_env src =
     andThen (pos_float src ''MEGALOS_RATELIMIT_SESSION_RATE'' (Decimal 2 0)) (\<lambda>sr.
     andThen (pos_float src ''MEGALOS_RATELIMIT_SESSION_BURST'' (Decimal 30 0)) (\<lambda>sb.
     andThen (pos_float src ''MEGALOS_RATELIMIT_IP_RATE'' (Decimal 60 0)) (\<lambda>ir.
     andThen (pos_float src ''MEGALOS_RATELIMIT_IP_BURST'' (Decimal 200 0)) (\<lambda>ib.
     andThen (pos_float src ''MEGALOS_RATELIMIT_IP_CREATE_RATE'' (Decimal 1 0)) (\<lambda>cr.
     andThen (pos_float src ''MEGALOS_RATELIMIT_IP_CREATE_BURST'' (Decimal 10 0)) (\<lambda>cb.
     andThen (pos_int src ''MEGALOS_RATELIMIT_IP_STORE_CAP'' 10000) (\<lambda>sc.
     andThen (pos_float src ''MEGALOS_RATELIMIT_IP_IDLE_TTL_SEC'' (Decimal 600 0)) (\<lambda>it.
       Inr \<lparr>ec_session_rate = sr, ec_session_burst = sb, ec_ip_rate = ir, ec_ip_burst = ib,
         ec_ip_create_rate = cr, ec_ip_create_burst = cb, ec_ip_store_cap = sc, ec_ip_idle_ttl = it\<rparr>))))))))"

text \<open>The configuration of the limiter's model, when every number is finite.\<close>

fun finite_value :: "env_float \<Rightarrow> rat option" where
  "finite_value (Decimal m k) = Some (of_int m / 10 ^ k)"
| "finite_value _ = None"

definition config_of :: "env_config \<Rightarrow> config option" where
  "config_of ec =
     Option.bind (finite_value (ec_session_rate ec)) (\<lambda>sr.
     Option.bind (finite_value (ec_session_burst ec)) (\<lambda>sb.
     Option.bind (finite_value (ec_ip_rate ec)) (\<lambda>ir.
     Option.bind (finite_value (ec_ip_burst ec)) (\<lambda>ib.
     Option.bind (finite_value (ec_ip_create_rate ec)) (\<lambda>cr.
     Option.bind (finite_value (ec_ip_create_burst ec)) (\<lambda>cb.
     map_option (\<lambda>it. \<lparr>session_rate = sr, session_burst = sb, ip_rate = ir, ip_burst = ib, ip_create_rate = cr,
         ip_create_burst = cb, ip_store_cap = nat (ec_ip_store_cap ec), ip_idle_ttl = it\<rparr>)
       (finite_value (ec_ip_idle_ttl ec))))))))"

lemma andThen_Inr: "andThen r f = Inr y \<longleftrightarrow> (\<exists>x. r = Inr x \<and> f x = Inr y)"
  by (cases r) simp_all

lemma pos_float_ok: "pos_float src key dflt = Inr v \<Longrightarrow> \<not> below_zero dflt \<Longrightarrow> \<not> below_zero v"
  by (auto simp: pos_float_def split: option.splits if_splits)

lemma finite_value_nonneg: "\<not> below_zero v \<Longrightarrow> finite_value v = Some q \<Longrightarrow> 0 \<le> q"
  by (cases v) auto

lemma pos_int_ok: "pos_int src key dflt = Inr v \<Longrightarrow> 0 \<le> dflt \<Longrightarrow> 0 \<le> v"
  by (auto simp: pos_int_def split: option.splits if_splits)

lemma from_env_signs:
  assumes "from_env src = Inr ec"
  shows "0 \<le> ec_ip_store_cap ec \<and> \<not> below_zero (ec_ip_idle_ttl ec) \<and> \<not> below_zero (ec_session_rate ec) \<and> \<not> below_zero (ec_session_burst ec) \<and> \<not> below_zero (ec_ip_rate ec) \<and>
    \<not> below_zero (ec_ip_burst ec) \<and> \<not> below_zero (ec_ip_create_rate ec) \<and> \<not> below_zero (ec_ip_create_burst ec)"
  using assms unfolding from_env_def andThen_Inr
proof (elim exE conjE)
  fix sr sb ir ib cr cb sc it
  assume fields: "pos_float src ''MEGALOS_RATELIMIT_SESSION_RATE'' (Decimal 2 0) = Inr sr"
    "pos_float src ''MEGALOS_RATELIMIT_SESSION_BURST'' (Decimal 30 0) = Inr sb"
    "pos_float src ''MEGALOS_RATELIMIT_IP_RATE'' (Decimal 60 0) = Inr ir"
    "pos_float src ''MEGALOS_RATELIMIT_IP_BURST'' (Decimal 200 0) = Inr ib"
    "pos_float src ''MEGALOS_RATELIMIT_IP_CREATE_RATE'' (Decimal 1 0) = Inr cr"
    "pos_float src ''MEGALOS_RATELIMIT_IP_CREATE_BURST'' (Decimal 10 0) = Inr cb"
    "pos_float src ''MEGALOS_RATELIMIT_IP_IDLE_TTL_SEC'' (Decimal 600 0) = Inr it"
    and cap: "pos_int src ''MEGALOS_RATELIMIT_IP_STORE_CAP'' 10000 = Inr sc"
    and ec: "Inr \<lparr>ec_session_rate = sr, ec_session_burst = sb, ec_ip_rate = ir, ec_ip_burst = ib,
      ec_ip_create_rate = cr, ec_ip_create_burst = cb, ec_ip_store_cap = sc, ec_ip_idle_ttl = it\<rparr> =
      (Inr ec :: exn + env_config)"
  from ec have "ec = \<lparr>ec_session_rate = sr, ec_session_burst = sb, ec_ip_rate = ir, ec_ip_burst = ib,
      ec_ip_create_rate = cr, ec_ip_create_burst = cb, ec_ip_store_cap = sc, ec_ip_idle_ttl = it\<rparr>" by simp
  then show ?thesis by (simp add: fields [THEN pos_float_ok] pos_int_ok [OF cap])
qed

lemma config_of_fields:
  assumes "config_of ec = Some c"
  shows "finite_value (ec_session_rate ec) = Some (session_rate c) \<and> finite_value (ec_session_burst ec) = Some (session_burst c) \<and>
    finite_value (ec_ip_rate ec) = Some (ip_rate c) \<and> finite_value (ec_ip_burst ec) = Some (ip_burst c) \<and>
    finite_value (ec_ip_create_rate ec) = Some (ip_create_rate c) \<and>
    finite_value (ec_ip_create_burst ec) = Some (ip_create_burst c)"
  using assms unfolding config_of_def bind_eq_Some_conv map_option_eq_Some by (elim exE conjE) auto

lemma from_env_default:
  "from_env (\<lambda>_. None) = Inr ec \<Longrightarrow> config_of ec = Some default_config"
  by (auto simp: from_env_def pos_float_def pos_int_def config_of_def default_config_def)

text \<open>
  Every finite configuration \<open>from_env\<close> returns has numbers that are not negative,
  which is what the invariants of the limiter are proved for, and with no variable set it is the
  default one.
\<close>

theorem env_config_is_ok:
  assumes "from_env src = Inr ec" and "config_of ec = Some c"
  shows "config_ok c \<and> (src = (\<lambda>_. None) \<longrightarrow> c = default_config)"
proof
  show "config_ok c"
    using from_env_signs [OF assms(1)] config_of_fields [OF assms(2)]
    unfolding config_ok_def by (elim conjE, intro conjI; elim finite_value_nonneg)
  show "src = (\<lambda>_. None) \<longrightarrow> c = default_config"
    using assms from_env_default by auto
qed

text \<open>A NaN passes the check.\<close>

lemma nan_is_accepted: "pos_float (\<lambda>_. Some ''nan'') ''MEGALOS_RATELIMIT_SESSION_RATE'' (Decimal 2 0) = Inr NotANumber"
  by code_simp

theorem env_config_is_ok_witness:
  "\<exists>ec c. from_env (\<lambda>k. if k = ''MEGALOS_RATELIMIT_IP_RATE'' then Some '' 0.5'' else None) = Inr ec \<and>
     config_of ec = Some c \<and> config_ok c \<and> ip_rate c = 1 / 2"
proof -
  let ?src = "\<lambda>k. if k = ''MEGALOS_RATELIMIT_IP_RATE'' then Some '' 0.5'' else None"
  let ?ec = "\<lparr>ec_session_rate = Decimal 2 0, ec_session_burst = Decimal 30 0, ec_ip_rate = Decimal 5 1,
    ec_ip_burst = Decimal 200 0, ec_ip_create_rate = Decimal 1 0, ec_ip_create_burst = Decimal 10 0,
    ec_ip_store_cap = 10000, ec_ip_idle_ttl = Decimal 600 0\<rparr>"
  have "py_float '' 0.5'' = Some (Decimal 5 1)" by code_simp
  then have env: "from_env ?src = Inr ?ec" by (simp add: from_env_def pos_float_def pos_int_def)
  have c: "config_of ?ec = Some (default_config\<lparr>ip_rate := 1 / 2\<rparr>)"
    by (simp add: config_of_def default_config_def)
  from env_config_is_ok [OF env c] env c show ?thesis by auto
qed

end
