(* ===== verification/Commands.thy ===== *)
theory Commands
  imports DryrunScript Diagram App
begin

text \<open>
  The command-line front ends of the validator (\<^verbatim>\<open>validate.py\<close>) and of the diagram
  (\<^verbatim>\<open>diagram.py\<close>), and the loading of the registry file (\<^verbatim>\<open>_load_registry\<close> in \<^verbatim>\<open>__init__.py\<close>). What the
  commands print goes to the terminal of the dry run's model; an empty \<^verbatim>\<open>--registry\<close> counts as none.
\<close>

section \<open>The validator command (validate.py)\<close>

text \<open>
  The command line and the files it names: the registry asked for, the ones found next to the
  workflow and in the working directory (full path, path, content), the workflow, the flag.
\<close>

type_synonym registry_file = "string \<times> string \<times> yaml_source"

record validator_args =
  va_registry :: "registry_file option"
  va_near :: "registry_file option"
  va_cwd :: "registry_file option"
  va_path :: string
  va_stem :: string
  va_file :: workflow_file
  va_diagram :: bool

definition discover_registry :: "validator_args \<Rightarrow> registry_file option" where
  "discover_registry a = (case va_near a of Some f \<Rightarrow> Some f | None \<Rightarrow> va_cwd a)"

definition load_registry :: "registry_file option \<Rightarrow> string + registry option" where
  "load_registry f =
     (case f of
        None \<Rightarrow> Inr None
      | Some (full, path, src) \<Rightarrow>
          (case registry_from_yaml full path src of Inl m \<Rightarrow> Inl m | Inr reg \<Rightarrow> Inr (Some reg)))"

definition registry_of_args :: "validator_args \<Rightarrow> string + registry option" where
  "registry_of_args a =
     (case va_registry a of
        Some f \<Rightarrow> load_registry (Some f)
      | None \<Rightarrow> load_registry (discover_registry a))"

definition validate_main :: "check_schema \<Rightarrow> validator_args \<Rightarrow> ('w repl, unit) act" where
  "validate_main check a =
     (case registry_of_args a of
        Inl m \<Rightarrow> seqE (warn (''ERROR: '' @ m)) (sys_exit 1)
      | Inr reg \<Rightarrow>
          bindE (liftE (validate_workflow check reg (va_path a) (va_stem a) (va_file a))) (\<lambda>(errors, _).
            if errors \<noteq> [] then seqE (each (\<lambda>x. warn (''ERROR: '' @ x)) errors) (sys_exit 1)
            else
              seqE (say ''Valid.'')
              (seqE (if va_diagram a then
                       seqE (say []) (bindE (liftE (render check (va_path a) (va_stem a) (va_file a))) say)
                     else retE ())
                (sys_exit 0))))"

section \<open>The diagram command (diagram.py)\<close>

definition diagram_main :: "check_schema \<Rightarrow> string \<Rightarrow> string \<Rightarrow> workflow_file \<Rightarrow> ('w repl, unit) act" where
  "diagram_main check path stem file =
     catchE (bindE (liftE (render check path stem file)) say)
       (\<lambda>x. case x of ValueError m \<Rightarrow> seqE (warn (''ERROR: '' @ m)) (sys_exit 1) | _ \<Rightarrow> raiseE x)"

section \<open>No exception of the validator is an exit\<close>

lemma mild_value [simp]: "ordinary (ValueError m)"
  by (simp add: ordinary_def)

lemma mild_unhashable [simp]: "ordinary (unhashable v)"
  by (simp add: unhashable_def)

lemma mild_map_sum [simp]: "mild (map_sum id f r) = mild r"
  by (cases r) (simp_all add: mild_def)

lemma mild_all_step_ids [simp]: "mild (all_step_ids steps)"
  by (induction steps) (auto split: option.split pyval.split sum.split simp: mild_def)

lemma mild_inject_refs [simp]: "mild (inject_refs ids steps)"
proof (induction steps)
  case (Cons st steps)
  then show ?case using mild_iterated by (auto split: option.split sum.split simp: mild_def)
qed simp

lemma mild_not_in_names [simp]: "mild (not_in_names v names)"
  by (simp add: not_in_names_def)

lemma mild_guardrail [simp]: "mild (guardrail_errors ids i gr)"
proof -
  have "mild (action_errors lab gr)" "mild (trigger_errors lab gr)" for lab
    by (auto simp: action_errors_def trigger_errors_def split: option.split)
  then show ?thesis
    by (fastforce simp: guardrail_errors_def Let_def mild_def split: sum.split)
qed

lemma mild_guardrails [simp]: "mild (guardrails_errors ids i grs)"
proof (induction grs arbitrary: i)
  case (Cons gr grs)
  then show ?case using mild_guardrail [of ids i gr] by (fastforce simp: mild_def split: sum.split)
qed simp

lemma mild_guardrails_field [simp]: "mild (guardrails_field_errors ids doc)"
  by (simp add: guardrails_field_errors_def split: option.split pyval.split)

lemma mild_steps_errors: "mild (steps_errors check reg stem doc steps)"
  using mild_all_step_ids [of steps] mild_inject_refs [of _ steps] mild_guardrails_field [of _ doc]
  unfolding steps_errors_def mild_def by (auto split: sum.split)

lemma mild_validate_workflow [simp]: "mild (validate_workflow check reg path stem file)"
proof -
  have "mild (validate_document check reg stem doc)" for doc
    using mild_steps_errors [of check reg stem doc]
    by (auto simp: validate_document_def Let_def mild_def split: option.split pyval.split list.split sum.split)
  then show ?thesis
    by (simp add: validate_workflow_def split: workflow_file.split yaml_source.split)
qed

lemma mild_load_doc [simp]: "mild (load_doc check path stem file)"
  by (auto simp: load_doc_def intro!: mild_andThen split: list.split option.split prod.split)

lemma mild_collect: "(\<And>x. x \<in> set xs \<Longrightarrow> mild (f x)) \<Longrightarrow> mild (collect (map f xs))"
proof (induction xs)
  case (Cons x xs)
  then have "mild (f x)" "mild (collect (map f xs))" by simp_all
  then show ?case by (cases "f x"; cases "collect (map f xs)") simp_all
qed simp

lemma mild_escape_value [simp]: "mild (escape_value v)"
  by (cases v) simp_all

lemma mild_node_line [simp]: "mild (node_line st)"
  by (auto simp: node_line_def intro!: mild_andThen)

lemma mild_branch_line [simp]: "mild (branch_line sid b)"
  by (auto simp: branch_line_def intro!: mild_andThen)

lemma mild_edge_lines [simp]: "mild (edge_lines st nxt)"
  by (auto simp: edge_lines_def intro!: mild_andThen mild_collect split: option.split)

lemma mild_dotted_line [simp]: "mild (dotted_line st t ref)"
  by (auto simp: dotted_line_def intro!: mild_andThen split: pyval.split list.split)

lemma mild_precondition_edge [simp]: "mild (precondition_edge st)"
  by (auto simp: precondition_edge_def intro!: mild_andThen split: option.split)

lemma mild_call_targets [simp]: "mild (call_targets steps acc)"
  by (induction steps arbitrary: acc) (auto split: option.split)

lemma mild_call_edge_line [simp]: "mild (call_edge_line st)"
  by (auto simp: call_edge_line_def intro!: mild_andThen split: option.split)

lemma mild_all_edges [simp]: "mild (all_edges steps)"
  by (induction steps) (auto intro!: mild_andThen)

lemma mild_render [simp]: "mild (render check path stem file)"
  by (auto simp: render_def call_references_def intro!: mild_andThen mild_collect)

section \<open>The exit status\<close>

lemma validated_document:
  "validate_workflow check reg path stem file = Inr ([], x) \<Longrightarrow> \<exists>doc. x = Some doc"
  by (auto simp: validate_workflow_def validate_document_def Let_def
      split: workflow_file.splits yaml_source.splits if_splits option.splits pyval.splits list.splits sum.splits)

lemma load_workflow_iff:
  "load_workflow check reg path stem file = Inr doc \<longleftrightarrow> validate_workflow check reg path stem file = Inr ([], Some doc)"
  by (auto simp: load_workflow_def split: sum.splits list.splits option.splits)

lemma each_warn: "each (\<lambda>x. warn (f x)) xs s = (Inr (), s\<lparr>rp_err := rp_err s @ map f xs\<rparr>)"
  by (induction xs arbitrary: s) (simp_all add: seqE_def bindE_def warn_def)

lemma exit_mild: "mild r \<Longrightarrow> r = Inl x \<Longrightarrow> x \<noteq> SystemExit 0"
  by (auto simp: mild_def ordinary_def)

text \<open>
  The validator command exits with status 0 exactly on the workflows the server loads with the
  registry the command finds, when the diagram, if it is asked for, can be drawn.
\<close>

theorem validate_exit_zero:
  "fst (validate_main check a s) = Inl (SystemExit 0) \<longleftrightarrow>
     (\<exists>reg doc. registry_of_args a = Inr reg \<and>
        load_workflow check reg (va_path a) (va_stem a) (va_file a) = Inr doc \<and>
        (if va_diagram a then \<exists>t. render check (va_path a) (va_stem a) (va_file a) = Inr t else True))"
proof (cases "registry_of_args a")
  case (Inl m)
  then show ?thesis by (simp add: validate_main_def seqE_def bindE_def warn_def sys_exit_def)
next
  case (Inr reg)
  let ?v = "validate_workflow check reg (va_path a) (va_stem a) (va_file a)"
  let ?r = "render check (va_path a) (va_stem a) (va_file a)"
  show ?thesis
  proof (cases ?v)
    case (Inl x)
    with exit_mild [OF mild_validate_workflow Inl] Inr show ?thesis
      by (simp add: validate_main_def load_workflow_iff)
  next
    case v: (Inr y)
    show ?thesis
    proof (cases "fst y = []")
      case False
      with Inr v show ?thesis
        by (cases y) (simp add: validate_main_def load_workflow_iff seqE_def bindE_def each_warn sys_exit_def)
    next
      case True
      with v validated_document obtain doc where "y = ([], Some doc)" by (cases y) fastforce
      with Inr v show ?thesis
        using exit_mild [OF mild_render, of check "va_path a" "va_stem a" "va_file a"]
        by (cases ?r) (auto simp: validate_main_def load_workflow_iff seqE_def bindE_def say_def sys_exit_def)
    qed
  qed
qed

end
