(* ===== verification/Boot.thy ===== *)
theory Boot
  imports Commands Settings Middleware ClientProps
begin

text \<open>
  The start of the server: the whole of \<^verbatim>\<open>create_app\<close> (\<^verbatim>\<open>__init__.py\<close>), from the directory and the
  registry file to the configuration of the limiter; the routes and the CORS gate around it
  (\<^verbatim>\<open>static_handler.py\<close>); the process entry (\<^verbatim>\<open>main.py\<close>); the settings read from the environment
  elsewhere. The files of the start are a record of what the file system answers.
\<close>

section \<open>create\_app (\_\_init\_\_.py)\<close>

text \<open>\<open>wf_path.glob("*.yaml")\<close>, and the file at a registry path, if there is one.\<close>

record file_system =
  fs_yaml :: "string \<Rightarrow> workflow_entry list"
  fs_registry :: "string \<Rightarrow> registry_file option"

type_synonym environ = "string \<Rightarrow> string option"

text \<open>\<open>p if p else d\<close> on an optional path.\<close>

definition given_or :: "string option \<Rightarrow> string \<Rightarrow> string" where
  "given_or p d = (case p of Some q \<Rightarrow> if q \<noteq> [] then q else d | None \<Rightarrow> d)"

definition BUNDLED :: string where "BUNDLED = ''megalos_server/workflows''"

definition registry_at :: "file_system \<Rightarrow> string option \<Rightarrow> exn + registry option" where
  "registry_at fs p =
     (case load_registry (fs_registry fs (given_or p ''mcp_servers.yaml'')) of
        Inl m \<Rightarrow> Inl (RegistryLoadError m) | Inr reg \<Rightarrow> Inr reg)"

text \<open>What the application holds: the workflows, their fingerprints, the registry, the limits.\<close>

record server_app =
  srv_workflows :: workflows
  srv_fingerprints :: "(string, string) dict"
  srv_registry :: "registry option"
  srv_limits :: env_config

definition start_server ::
  "'e base_env_scheme \<Rightarrow> check_schema \<Rightarrow> file_system \<Rightarrow> environ \<Rightarrow> string option \<Rightarrow> string option \<Rightarrow>
   exn + server_app" where
  "start_server e check fs env dir reg_path =
     andThen (registry_at fs reg_path) (\<lambda>reg.
     andThen (create_app e check reg (given_or dir BUNDLED) (fs_yaml fs (given_or dir BUNDLED))) (\<lambda>(wfs, fps).
     andThen (from_env env) (\<lambda>lim.
       Inr \<lparr>srv_workflows = wfs, srv_fingerprints = fps, srv_registry = reg, srv_limits = lim\<rparr>)))"

text \<open>
  The first state of the middlewares; the model of the limiter is for finite numbers.
\<close>

definition first_gate :: "server_app \<Rightarrow> 'w \<Rightarrow> 'w gate option" where
  "first_gate srv w =
     map_option (\<lambda>c. \<lparr>gate_limiter = new_limiter c, gate_log = new_dedupe, gate_caller = ANONYMOUS_IDENTITY,
       gate_app = w\<rparr>) (config_of (srv_limits srv))"

lemma load_registry_ok: "load_registry f = Inr (Some reg) \<Longrightarrow> registry_ok reg"
  using registry_from_yaml_ok by (auto simp: load_registry_def split: option.splits sum.splits)

lemma start_server_parts:
  assumes "start_server e check fs env dir reg_path = Inr srv"
  shows "registry_at fs reg_path = Inr (srv_registry srv) \<and>
    create_app e check (srv_registry srv) (given_or dir BUNDLED) (fs_yaml fs (given_or dir BUNDLED)) =
      Inr (srv_workflows srv, srv_fingerprints srv) \<and>
    from_env env = Inr (srv_limits srv)"
  using assms by (auto simp: start_server_def andThen_Inr)

text \<open>A number that is not below zero: an infinity has a sign, and NaN is below nothing.\<close>

definition non_negative :: "env_float \<Rightarrow> bool" where
  "non_negative v = (case v of Decimal m _ \<Rightarrow> 0 \<le> m | Infinity neg \<Rightarrow> \<not> neg | NotANumber \<Rightarrow> True)"

lemma below_zero_sign: "\<not> below_zero v \<Longrightarrow> non_negative v"
  by (cases v) (simp_all add: non_negative_def)

text \<open>
  C36. A server that \<open>create_app\<close> brings up has at least one workflow, each
  accepted by the validator against the registry it holds, under its own name and with a
  fingerprint; all call targets are loaded and the call graph is acyclic; the registry is
  well-formed; every rate, burst and idle time of its limiter configuration is not negative (or
  NaN, which the check lets pass), nor is the store cap; and when all of them are finite the
  limiter starts in its invariant.
\<close>

theorem started_server_is_ready:
  assumes "start_server e check fs env dir reg_path = Inr srv"
  shows "srv_workflows srv \<noteq> [] \<and> distinct (map fst (srv_workflows srv)) \<and>
    dom (dget (srv_fingerprints srv)) = dom (dget (srv_workflows srv)) \<and>
    (\<forall>(name, doc)\<in>set (srv_workflows srv).
       accepted check (srv_registry srv) doc \<and> pget doc ''name'' = Some (PStr name)) \<and>
    calls_closed (srv_workflows srv) \<and> acyclic (calls (srv_workflows srv)) \<and>
    (\<forall>reg. srv_registry srv = Some reg \<longrightarrow> registry_ok reg) \<and>
    (\<forall>number\<in>{ec_session_rate, ec_session_burst, ec_ip_rate, ec_ip_burst, ec_ip_create_rate, ec_ip_create_burst,
       ec_ip_idle_ttl}. non_negative (number (srv_limits srv))) \<and> 0 \<le> ec_ip_store_cap (srv_limits srv) \<and>
    (\<forall>g. first_gate srv w = Some g \<longrightarrow>
       config_ok (cfg (gate_limiter g)) \<and> limiter_ok (cfg (gate_limiter g)) (gate_limiter g))"
proof -
  note parts = start_server_parts [OF assms]
  have reg: "registry_ok reg" if "srv_registry srv = Some reg" for reg
    using parts that load_registry_ok by (auto simp: registry_at_def split: sum.splits)
  have gate: "config_ok (cfg (gate_limiter g)) \<and> limiter_ok (cfg (gate_limiter g)) (gate_limiter g)"
    if "first_gate srv w = Some g" for g
  proof -
    from that obtain c where c: "config_of (srv_limits srv) = Some c" "gate_limiter g = new_limiter c"
      by (auto simp: first_gate_def)
    have "config_ok c" using env_config_is_ok [OF _ c(1)] parts by blast
    moreover have "cfg (new_limiter c) = c" by (simp add: new_limiter_def Let_def)
    ultimately show ?thesis using new_limiter_ok [of c] c(2) by simp
  qed
  have signs: "(\<forall>number\<in>{ec_session_rate, ec_session_burst, ec_ip_rate, ec_ip_burst, ec_ip_create_rate, ec_ip_create_burst,
       ec_ip_idle_ttl}. non_negative (number (srv_limits srv))) \<and> 0 \<le> ec_ip_store_cap (srv_limits srv)"
    using from_env_signs [of env "srv_limits srv"] parts by (simp add: below_zero_sign)
  from created_app_is_checked [OF conjunct1 [OF conjunct2 [OF parts]]] reg gate signs show ?thesis by blast
qed

definition digest_fs :: file_system where
  "digest_fs = \<lparr>fs_yaml = (\<lambda>_. [digest_entry]),
     fs_registry = (\<lambda>p. if p = ''mcp_servers.yaml'' then
       Some (''/srv/mcp_servers.yaml'', p, Loaded (PDict [(''servers'', PList [PDict [
         (''name'', PStr ''search''), (''url'', PStr ''http://search''), (''transport'', PStr ''http''),
         (''auth'', PDict [(''type'', PStr ''bearer''), (''token_env'', PStr ''TOKEN'')])]])])) else None)\<rparr>"

definition plain_base :: base_env where
  "plain_base = \<lparr>sha256_hex = (\<lambda>s. ''#'' @ s), session_cap = 500\<rparr>"

lemma digest_registry: "registry_at digest_fs None = Inr (Some search_server)"
  by code_simp

lemma create_app_any_dir: "create_app e check reg d xs = Inr y \<Longrightarrow> create_app e check reg d' xs = Inr y"
  by (auto simp: create_app_def split: sum.splits list.splits if_splits)

definition digest_server :: server_app where
  "digest_server = \<lparr>srv_workflows = fst digest_app, srv_fingerprints = snd digest_app,
     srv_registry = Some search_server, srv_limits = \<lparr>ec_session_rate = Decimal 2 0, ec_session_burst = Decimal 30 0,
       ec_ip_rate = Decimal 60 0, ec_ip_burst = Decimal 200 0, ec_ip_create_rate = Decimal 1 0,
       ec_ip_create_burst = Decimal 10 0, ec_ip_store_cap = 10000, ec_ip_idle_ttl = Decimal 600 0\<rparr>\<rparr>"

lemma digest_server_starts: "start_server plain_base (\<lambda>_. None) digest_fs (\<lambda>_. None) dir None = Inr digest_server"
proof -
  have "fs_yaml digest_fs d = [digest_entry]" for d by (simp add: digest_fs_def)
  moreover have "create_app plain_base (\<lambda>_. None) (Some search_server) d [digest_entry] =
      Inr (srv_workflows digest_server, srv_fingerprints digest_server)" for d
    using create_app_any_dir [OF create_digest_app] by (simp add: plain_base_def digest_server_def)
  ultimately show ?thesis
    by (simp add: start_server_def digest_registry from_env_def pos_float_def pos_int_def) (simp add: digest_server_def)
qed

theorem started_server_is_ready_witness:
  "\<exists>g. first_gate digest_server () = Some g \<and> limiter_ok (cfg (gate_limiter g)) (gate_limiter g) \<and> registry_ok search_server \<and>
     non_negative (ec_ip_idle_ttl (srv_limits digest_server))"
proof -
  obtain g where "first_gate digest_server () = Some g"
    by (simp add: first_gate_def digest_server_def config_of_def)
  with started_server_is_ready [OF digest_server_starts, of "()"] show ?thesis
    by (fastforce simp: digest_server_def)
qed

section \<open>Routes (static\_handler.py)\<close>

text \<open>
  A route of the application: an exact path or a path pattern with an endpoint (for GET), or a
  mount. \<open>External\<close> is a route that FastMCP has registered itself.
\<close>

datatype endpoint = Healthz | SpaCatchall string | StaticFiles string | External string

datatype route = Route string endpoint | Mount string endpoint

datatype response = Json nat pyval | Html nat string | Plain nat string | Elsewhere string string

definition healthz_endpoint :: response where
  "healthz_endpoint = Json 200 (PDict [(''status'', PStr ''ok'')])"

text \<open>\<open>index_path.is_file()\<close> and its text in one: \<open>read_text\<close> answers for the files there are.\<close>

definition spa_catchall :: "(string \<Rightarrow> string option) \<Rightarrow> string \<Rightarrow> response" where
  "spa_catchall read_text ui =
     (case read_text (ui @ ''/index.html'') of
        None \<Rightarrow> Plain 503 ''UI bundle missing - run scripts/build-agora-ui.sh from the megalos repo root.''
      | Some text \<Rightarrow> Html 200 text)"

definition build_routes :: "(string \<Rightarrow> bool) \<Rightarrow> string \<Rightarrow> route list" where
  "build_routes is_dir ui =
     [Route ''/_/healthz'' Healthz]
       @ (if is_dir (ui @ ''/assets'') then [Mount ''/assets'' (StaticFiles (ui @ ''/assets''))] else [])
       @ [Route ''/{path:path}'' (SpaCatchall ui)]"

definition attach_static_routes :: "(string \<Rightarrow> bool) \<Rightarrow> string \<Rightarrow> route list \<Rightarrow> route list" where
  "attach_static_routes is_dir ui routes = routes @ build_routes is_dir ui"

record cors =
  allow_origins :: "string list"
  allow_methods :: "string list"
  allow_headers :: "string list"

definition VITE_DEV_ORIGIN :: string where "VITE_DEV_ORIGIN = ''http://localhost:5173''"

definition build_cors_middleware :: "environ \<Rightarrow> cors list" where
  "build_cors_middleware env =
     (if lower_ascii (case env ''MEGALOS_DEV_CORS'' of Some v \<Rightarrow> v | None \<Rightarrow> []) \<noteq> ''true'' then []
      else [\<lparr>allow_origins = [VITE_DEV_ORIGIN], allow_methods = [''GET'', ''POST'', ''OPTIONS''],
        allow_headers = [''Content-Type'', ''MCP-Session-Id'', ''Mcp-Protocol-Version'', ''Authorization'']\<rparr>])"

text \<open>
  Which endpoint answers: the router is Starlette's, \<open>matches route path\<close> its matching of a GET
  request, of which the code relies on what \<open>documented_matching\<close> says. Routes are tried in order.
\<close>

definition endpoint_of :: "route \<Rightarrow> endpoint" where
  "endpoint_of r = (case r of Route _ ep \<Rightarrow> ep | Mount _ ep \<Rightarrow> ep)"

definition documented_matching :: "(route \<Rightarrow> string \<Rightarrow> bool) \<Rightarrow> bool" where
  "documented_matching matches \<longleftrightarrow>
     (\<forall>path ep p. CHR ''{'' \<notin> set path \<longrightarrow> matches (Route path ep) p = (p = path)) \<and>
     (\<forall>ep p. starts_with p ''/'' \<longrightarrow> matches (Route ''/{path:path}'' ep) p) \<and>
     (\<forall>pre ep p. starts_with p (pre @ ''/'') \<longrightarrow> matches (Mount pre ep) p) \<and>
     (\<forall>pre ep p. matches (Mount pre ep) p \<longrightarrow> p = pre \<or> starts_with p (pre @ ''/''))"

definition answer_get ::
  "(route \<Rightarrow> string \<Rightarrow> bool) \<Rightarrow> (string \<Rightarrow> string option) \<Rightarrow> route list \<Rightarrow> string \<Rightarrow> response option" where
  "answer_get matches read_text routes p =
     map_option (\<lambda>r. case endpoint_of r of
         Healthz \<Rightarrow> healthz_endpoint
       | SpaCatchall ui \<Rightarrow> spa_catchall read_text ui
       | StaticFiles dir \<Rightarrow> Elsewhere dir p
       | External name \<Rightarrow> Elsewhere name p) (find (\<lambda>r. matches r p) routes)"

lemma answer_append:
  "answer_get matches read_text (rs @ rs') p =
     (case answer_get matches read_text rs p of None \<Rightarrow> answer_get matches read_text rs' p | Some a \<Rightarrow> Some a)"
  by (induction rs) (auto simp: answer_get_def)

text \<open>
  The static routes never shadow a route FastMCP has registered; behind those, every GET of an
  absolute path is answered: the health check by the health check whatever the bundle is, an
  asset by the bundle's directory if there is one, and everything else by the page or, without a
  bundle, by a 503.
\<close>

theorem static_routes_precedence:
  assumes "documented_matching matches" and "starts_with p ''/''"
  shows "answer_get matches read_text (attach_static_routes is_dir ui rs) p =
    (case answer_get matches read_text rs p of
       Some a \<Rightarrow> Some a
     | None \<Rightarrow>
         if p = ''/_/healthz'' then Some healthz_endpoint
         else if is_dir (ui @ ''/assets'') \<and> starts_with p ''/assets/'' then Some (Elsewhere (ui @ ''/assets'') p)
         else if is_dir (ui @ ''/assets'') \<and> p = ''/assets'' \<and>
             matches (Mount ''/assets'' (StaticFiles (ui @ ''/assets''))) p then Some (Elsewhere (ui @ ''/assets'') p)
         else Some (spa_catchall read_text ui))"
proof -
  have m: "\<And>ep. matches (Route ''/_/healthz'' ep) p \<longleftrightarrow> p = ''/_/healthz''"
    "\<And>ep. matches (Route ''/{path:path}'' ep) p"
    "\<And>ep. starts_with p ''/assets/'' \<Longrightarrow> matches (Mount ''/assets'' ep) p"
    "\<And>ep. matches (Mount ''/assets'' ep) p \<Longrightarrow> p = ''/assets'' \<or> starts_with p ''/assets/''"
    using assms unfolding documented_matching_def by (simp, simp, fastforce, fastforce)
  show ?thesis
    unfolding attach_static_routes_def answer_append
    by (cases "answer_get matches read_text rs p")
      (auto simp: answer_get_def build_routes_def endpoint_of_def m dest: m(3, 4))
qed

text \<open>A matching with the documented properties, and a bundle without a page.\<close>

definition plain_matching :: "route \<Rightarrow> string \<Rightarrow> bool" where
  "plain_matching r p =
     (case r of
        Route path _ \<Rightarrow> if path = ''/{path:path}'' then starts_with p ''/'' else p = path
      | Mount pre _ \<Rightarrow> starts_with p (pre @ ''/''))"

lemma plain_matching_documented: "documented_matching plain_matching"
  by (auto simp: documented_matching_def plain_matching_def)

theorem static_routes_precedence_witness:
  "answer_get plain_matching (\<lambda>_. None) (attach_static_routes (\<lambda>_. False) ''ui'' [Route ''/mcp'' (External ''mcp'')])
     ''/index'' = Some (spa_catchall (\<lambda>_. None) ''ui'')"
  using static_routes_precedence [OF plain_matching_documented, of "''/index''" "\<lambda>_. None" "\<lambda>_. False" "''ui''"
    "[Route ''/mcp'' (External ''mcp'')]"]
  by (simp add: answer_get_def plain_matching_def)

section \<open>The process entry (main.py)\<close>

text \<open>
  The application the module creates when it is imported, replaced when a directory is given on the
  command line; its routes, behind those FastMCP registers, and the CORS gate it runs with.
\<close>

record process =
  pr_app :: server_app
  pr_routes :: "route list"
  pr_cors :: "cors list"

definition server_main ::
  "'e base_env_scheme \<Rightarrow> check_schema \<Rightarrow> file_system \<Rightarrow> environ \<Rightarrow> (string \<Rightarrow> bool) \<Rightarrow> string \<Rightarrow> string option \<Rightarrow>
   route list \<Rightarrow> exn + process" where
  "server_main e check fs env is_dir ui dir rs =
     andThen (start_server e check fs env None None) (\<lambda>bundled.
     andThen (if given_or dir [] \<noteq> [] then start_server e check fs env dir None else Inr bundled) (\<lambda>srv.
       Inr \<lparr>pr_app = srv, pr_routes = attach_static_routes is_dir ui rs, pr_cors = build_cors_middleware env\<rparr>))"

text \<open>
  The process runs the workflows of the directory it is given, but only where the bundled ones
  load as well, and it allows no foreign origin unless the development switch is on.
\<close>

theorem server_main_runs:
  assumes "server_main e check fs env is_dir ui dir rs = Inr pr"
  shows "(\<exists>bundled. start_server e check fs env None None = Inr bundled) \<and>
    start_server e check fs env dir None = Inr (pr_app pr) \<and>
    (pr_cors pr \<noteq> [] \<longrightarrow> (\<exists>v. env ''MEGALOS_DEV_CORS'' = Some v \<and> lower_ascii v = ''true''))"
proof -
  have dir: "start_server e check fs env dir None = start_server e check fs env None None"
    if "given_or dir [] = []"
    using that by (auto simp: start_server_def given_or_def split: option.splits if_splits)
  have "lower_ascii [] \<noteq> ''true''" by code_simp
  then show ?thesis
    using assms dir by (auto simp: server_main_def andThen_Inr build_cors_middleware_def
        split: if_splits option.splits)
qed

theorem server_main_runs_witness:
  "\<exists>pr. server_main plain_base (\<lambda>_. None) digest_fs (\<lambda>_. None) (\<lambda>_. False) ''ui'' None [] = Inr pr \<and>
     pr_app pr = digest_server \<and> pr_cors pr = []"
proof -
  have "\<exists>pr. server_main plain_base (\<lambda>_. None) digest_fs (\<lambda>_. None) (\<lambda>_. False) ''ui'' None [] = Inr pr"
    by (simp add: server_main_def given_or_def digest_server_starts)
  then obtain pr where pr: "server_main plain_base (\<lambda>_. None) digest_fs (\<lambda>_. None) (\<lambda>_. False) ''ui'' None [] = Inr pr" ..
  from server_main_runs [OF pr] have "pr_cors pr = []" "pr_app pr = digest_server"
    using digest_server_starts [of None] by auto
  with pr show ?thesis by blast
qed

section \<open>Settings of other modules\<close>

text \<open>\<^verbatim>\<open>get_session_cap\<close> (\<^verbatim>\<open>errors.py\<close>), \<^verbatim>\<open>runs_dir\<close> (\<^verbatim>\<open>config.py\<close>): unlike the limiter, the cap does not
  take an empty value for none, nor refuse a negative number.\<close>

definition get_session_cap :: "environ \<Rightarrow> exn + int" where
  "get_session_cap env =
     (let raw = (case env ''MEGALOS_SESSION_CAP'' of Some v \<Rightarrow> v | None \<Rightarrow> ''500'') in
      case py_int (py_strip raw) of
        None \<Rightarrow> Inl (ValueError (''invalid literal for int() with base 10: '' @ repr_str raw))
      | Some n \<Rightarrow> Inr n)"

definition runs_dir :: "environ \<Rightarrow> string" where
  "runs_dir env = given_or (env ''MEGALOS_PANEL_RUNS_DIR'') ''./runs/''"

lemma session_cap_values:
  "get_session_cap (\<lambda>_. None) = Inr 500" "get_session_cap (\<lambda>_. Some ''-1'') = Inr (- 1)"
  "\<exists>m. get_session_cap (\<lambda>_. Some []) = Inl (ValueError m)"
proof -
  have "py_int (py_strip ''500'') = Some 500" "py_int (py_strip ''-1'') = Some (- 1)" "py_int (py_strip []) = None"
    by code_simp+
  then show "get_session_cap (\<lambda>_. None) = Inr 500" "get_session_cap (\<lambda>_. Some ''-1'') = Inr (- 1)"
    "\<exists>m. get_session_cap (\<lambda>_. Some []) = Inl (ValueError m)"
    by (simp_all add: get_session_cap_def)
qed

end
