(* ===== verification/Database.thy ===== *)
theory Database
  imports Boot
begin

text \<open>
  The connection to the session database (\<^verbatim>\<open>db.py\<close>): which file a thread is connected to, and the
  migration a new connection runs. A database is its tables by name, a table its columns and its
  rows, a row the values by column; of SQL it takes \<^verbatim>\<open>CREATE ... IF NOT EXISTS\<close> and
  \<^verbatim>\<open>ALTER TABLE ... ADD COLUMN\<close>. Pragmas and timeouts are left out. What the tables hold once a
  connection is open is the subject of \<^verbatim>\<open>SessionStore\<close>.
\<close>

section \<open>Tables\<close>

record db_table =
  columns :: "string list"
  table_rows :: "(string, pyval) dict list"

record sqlite_file =
  db_tables :: "(string, db_table) dict"
  db_indexes :: "string list"

definition SESSION_COLUMNS :: "string list" where
  "SESSION_COLUMNS = [''session_id'', ''workflow_type'', ''current_step'', ''step_data'', ''retry_counts'',
     ''step_visit_counts'', ''escalation'', ''artifact_checkpoints'', ''created_at'', ''updated_at'',
     ''completed_at'', ''called_session'', ''parent_session_id'', ''workflow_fingerprint'']"

definition STACK_COLUMNS :: "string list" where
  "STACK_COLUMNS = [''session_id'', ''root_session_id'', ''depth'', ''frame_type'', ''call_step_id'', ''created_at'']"

definition STACK_INDEX :: string where "STACK_INDEX = ''idx_session_stack_root_depth''"

text \<open>\<open>_SELECT_COLS\<close> of \<^verbatim>\<open>state.py\<close>, which every read of a session names.\<close>

definition SELECT_COLS :: "string list" where
  "SELECT_COLS = [''session_id'', ''workflow_type'', ''current_step'', ''step_data'', ''retry_counts'',
     ''step_visit_counts'', ''escalation'', ''artifact_checkpoints'', ''created_at'', ''updated_at'',
     ''called_session'', ''parent_session_id'', ''workflow_fingerprint'']"

text \<open>The columns added to older files, with the value the rows already there get.\<close>

definition ADDED_COLUMNS :: "(string \<times> pyval) list" where
  "ADDED_COLUMNS = [(''called_session'', PNone), (''parent_session_id'', PNone),
     (''workflow_fingerprint'', PStr ''pre-versioning'')]"

definition create_table :: "string \<Rightarrow> string list \<Rightarrow> sqlite_file \<Rightarrow> sqlite_file" where
  "create_table name cs f =
     (if dhas (db_tables f) name then f
      else f\<lparr>db_tables := dput name \<lparr>columns = cs, table_rows = []\<rparr> (db_tables f)\<rparr>)"

definition create_index :: "string \<Rightarrow> sqlite_file \<Rightarrow> sqlite_file" where
  "create_index name f = (if name \<in> set (db_indexes f) then f else f\<lparr>db_indexes := db_indexes f @ [name]\<rparr>)"

definition add_column :: "string \<Rightarrow> pyval \<Rightarrow> db_table \<Rightarrow> db_table" where
  "add_column c v t = \<lparr>columns = columns t @ [c], table_rows = map (\<lambda>r. dput c v r) (table_rows t)\<rparr>"

text \<open>The loop tests every column against the columns read before it.\<close>

definition add_missing :: "db_table \<Rightarrow> db_table" where
  "add_missing t =
     fold (\<lambda>(c, v). add_column c v) (filter (\<lambda>x. fst x \<notin> set (columns t)) ADDED_COLUMNS) t"

definition migrate_sessions :: "sqlite_file \<Rightarrow> sqlite_file" where
  "migrate_sessions f =
     (case dget (db_tables f) ''sessions'' of
        None \<Rightarrow> f
      | Some t \<Rightarrow> f\<lparr>db_tables := dput ''sessions'' (add_missing t) (db_tables f)\<rparr>)"

definition create_stack :: "sqlite_file \<Rightarrow> sqlite_file" where
  "create_stack f = create_index STACK_INDEX (create_table ''session_stack'' STACK_COLUMNS f)"

definition migrate :: "sqlite_file \<Rightarrow> sqlite_file" where
  "migrate f = create_stack (migrate_sessions (create_table ''sessions'' SESSION_COLUMNS f))"

section \<open>Connections\<close>

text \<open>A file by its path, or the private database of one \<^verbatim>\<open>:memory:\<close> connection.\<close>

datatype store = OnDisk string | InMemory nat

record db_process =
  pd_files :: "(store, sqlite_file) dict"
  pd_conns :: "(nat, store) dict"
  pd_opened :: nat

definition empty_file :: sqlite_file where
  "empty_file = \<lparr>db_tables = [], db_indexes = []\<rparr>"

definition resolve_path :: "environ \<Rightarrow> string \<Rightarrow> string" where
  "resolve_path env dflt = (case env ''MEGALOS_DB_PATH'' of Some p \<Rightarrow> p | None \<Rightarrow> dflt)"

text \<open>\<^verbatim>\<open>os.path.dirname\<close>, and \<^verbatim>\<open>os.makedirs(d, exist_ok=True)\<close>, which fails on an empty name.\<close>

definition dirname :: "string \<Rightarrow> string" where
  "dirname p =
     (let head = rev (dropWhile (\<lambda>c. c \<noteq> CHR ''/'') (rev p));
          trimmed = rev (dropWhile (\<lambda>c. c = CHR ''/'') (rev head))
      in if trimmed = [] then head else trimmed)"

definition makedirs :: "(string \<Rightarrow> string option) \<Rightarrow> string \<Rightarrow> ('s, unit) act" where
  "makedirs refuses d =
     (if d = [] then raiseE (OSError (''[Errno 2] No such file or directory: '' @ quoted []))
      else (case refuses d of Some m \<Rightarrow> raiseE (OSError m) | None \<Rightarrow> retE ()))"

definition connect :: "string \<Rightarrow> db_process \<Rightarrow> store" where
  "connect path s = (if path = '':memory:'' then InMemory (pd_opened s) else OnDisk path)"

definition get_conn ::
  "(string \<Rightarrow> string option) \<Rightarrow> environ \<Rightarrow> string \<Rightarrow> nat \<Rightarrow> (db_process, store) act" where
  "get_conn refuses env dflt thread s =
     (case dget (pd_conns s) thread of
        Some c \<Rightarrow> (Inr c, s)
      | None \<Rightarrow>
          let path = resolve_path env dflt in
          seqE (if path \<noteq> '':memory:'' then makedirs refuses (dirname path) else retE ()) (\<lambda>s.
            let c = connect path s in
            (Inr c, s\<lparr>pd_files := dput c (migrate (dget_or (pd_files s) c empty_file)) (pd_files s),
                      pd_conns := dput thread c (pd_conns s), pd_opened := pd_opened s + 1\<rparr>)) s)"

definition init_schema ::
  "(string \<Rightarrow> string option) \<Rightarrow> environ \<Rightarrow> string \<Rightarrow> nat \<Rightarrow> (db_process, unit) act" where
  "init_schema refuses env dflt thread =
     bindE (get_conn refuses env dflt thread) (\<lambda>c s.
       (Inr (), s\<lparr>pd_files := dput c (create_stack (create_table ''sessions'' SESSION_COLUMNS
                    (dget_or (pd_files s) c empty_file))) (pd_files s)\<rparr>))"

definition reset_for_test :: "nat \<Rightarrow> db_process \<Rightarrow> db_process" where
  "reset_for_test thread s = s\<lparr>pd_conns := ddel thread (pd_conns s)\<rparr>"

section \<open>What the migration does\<close>

lemma add_columns:
  "distinct (map fst xs) \<Longrightarrow>
   columns (fold (\<lambda>(c, v). add_column c v) xs t) = columns t @ map fst xs \<and>
   table_rows (fold (\<lambda>(c, v). add_column c v) xs t) = map (\<lambda>r. fold (\<lambda>(c, v). dput c v) xs r) (table_rows t)"
  by (induction xs arbitrary: t) (auto simp: add_column_def)

lemma dget_fold_dput:
  "distinct (map fst xs) \<Longrightarrow> dget (fold (\<lambda>(c, v). dput c v) xs r) k =
     (case map_of xs k of Some v \<Rightarrow> Some v | None \<Rightarrow> dget r k)"
proof (induction xs arbitrary: r)
  case (Cons x xs)
  then have "map_of xs (fst x) = None" by (simp add: map_of_eq_None_iff)
  with Cons show ?case by (cases x) (auto simp: dget_dput split: option.split)
qed simp

lemma missing_distinct: "distinct (map fst (filter P ADDED_COLUMNS))"
proof -
  have "distinct (map fst ADDED_COLUMNS)" by code_simp
  then show ?thesis by (rule distinct_map_filter)
qed

lemma add_missing_columns:
  "set (columns (add_missing t)) = set (columns t) \<union> fst ` set ADDED_COLUMNS"
  using add_columns [OF missing_distinct] by (auto simp: add_missing_def)

lemma add_missing_rows:
  "table_rows (add_missing t) =
     map (\<lambda>r. fold (\<lambda>(c, v). dput c v) (filter (\<lambda>x. fst x \<notin> set (columns t)) ADDED_COLUMNS) r) (table_rows t)"
  using add_columns [OF missing_distinct] by (simp add: add_missing_def)

lemma add_missing_done:
  "fst ` set ADDED_COLUMNS \<subseteq> set (columns t) \<Longrightarrow> add_missing t = t"
proof -
  assume "fst ` set ADDED_COLUMNS \<subseteq> set (columns t)"
  then have "filter (\<lambda>x. fst x \<notin> set (columns t)) ADDED_COLUMNS = []" by (auto simp: filter_empty_conv)
  then show ?thesis by (simp add: add_missing_def)
qed


lemma stack_keeps_sessions: "dget (db_tables (create_stack f)) ''sessions'' = dget (db_tables f) ''sessions''"
  by (simp add: create_stack_def create_index_def create_table_def)

lemma migrated_sessions:
  "dget (db_tables (migrate f)) ''sessions'' = Some (add_missing
     (case dget (db_tables f) ''sessions'' of Some t \<Rightarrow> t | None \<Rightarrow> \<lparr>columns = SESSION_COLUMNS, table_rows = []\<rparr>))"
  by (simp add: migrate_def stack_keeps_sessions migrate_sessions_def create_table_def dhas_def split: option.split)

lemma migrated_stack:
  "dget (db_tables (migrate f)) ''session_stack'' = Some
     (case dget (db_tables f) ''session_stack'' of Some t \<Rightarrow> t | None \<Rightarrow> \<lparr>columns = STACK_COLUMNS, table_rows = []\<rparr>)"
  by (simp add: migrate_def create_stack_def create_index_def migrate_sessions_def create_table_def dhas_def
      split: option.split)

text \<open>
  The columns the statements of \<^verbatim>\<open>state.py\<close> name: those of the first version, those added since, and
  those of a frame. A file with both tables and their index can be read; a connection makes a file
  so if its tables, where it has them, were the program's.
\<close>

definition first_version :: "string set" where
  "first_version = {''session_id'', ''workflow_type'', ''current_step'', ''step_data'', ''retry_counts'',
     ''step_visit_counts'', ''escalation'', ''artifact_checkpoints'', ''created_at'', ''updated_at'', ''completed_at''}"

definition since_added :: "string set" where
  "since_added = {''called_session'', ''parent_session_id'', ''workflow_fingerprint''}"

definition of_frames :: "string set" where
  "of_frames = {''session_id'', ''root_session_id'', ''depth'', ''frame_type'', ''call_step_id'', ''created_at''}"

definition table_with :: "sqlite_file \<Rightarrow> string \<Rightarrow> string set \<Rightarrow> bool" where
  "table_with f name cs \<longleftrightarrow> (case dget (db_tables f) name of Some t \<Rightarrow> cs \<subseteq> set (columns t) | None \<Rightarrow> False)"

definition ready :: "sqlite_file \<Rightarrow> bool" where
  "ready f \<longleftrightarrow> table_with f ''sessions'' (first_version \<union> since_added) \<and> table_with f ''session_stack'' of_frames \<and>
     ''idx_session_stack_root_depth'' \<in> set (db_indexes f)"

definition upgradable :: "sqlite_file \<Rightarrow> bool" where
  "upgradable f \<longleftrightarrow>
     (dhas (db_tables f) ''sessions'' \<longrightarrow> table_with f ''sessions'' first_version) \<and>
     (dhas (db_tables f) ''session_stack'' \<longrightarrow> table_with f ''session_stack'' of_frames)"

lemma added_names: "fst ` set ADDED_COLUMNS = since_added"
  by (simp add: ADDED_COLUMNS_def since_added_def)

lemma fresh_columns: "first_version \<subseteq> set SESSION_COLUMNS" "of_frames \<subseteq> set STACK_COLUMNS"
  by (simp_all add: first_version_def of_frames_def SESSION_COLUMNS_def STACK_COLUMNS_def)

lemma migrate_ready:
  assumes "upgradable f"
  shows "ready (migrate f)"
proof -
  have "table_with (migrate f) ''sessions'' (first_version \<union> since_added)"
    using assms fresh_columns(1)
    by (auto simp: table_with_def upgradable_def dhas_def migrated_sessions add_missing_columns added_names split: option.splits)
  moreover have "table_with (migrate f) ''session_stack'' of_frames"
    using assms fresh_columns(2)
    by (auto simp: table_with_def upgradable_def dhas_def migrated_stack split: option.splits)
  ultimately show ?thesis
    by (simp add: ready_def) (simp add: migrate_def create_stack_def create_index_def STACK_INDEX_def)
qed

lemma ready_upgradable: "ready f \<Longrightarrow> upgradable f"
  by (auto simp: ready_def upgradable_def table_with_def split: option.splits)

lemma dput_same: "dget d k = Some v \<Longrightarrow> dput k v d = d"
  by (induction d) auto

lemma ready_unchanged: "ready f \<Longrightarrow> create_stack (create_table ''sessions'' cs f) = f"
  by (auto simp: ready_def table_with_def create_stack_def create_index_def create_table_def dhas_def STACK_INDEX_def
      split: option.splits)

lemma ready_migrated:
  assumes "ready f"
  shows "migrate f = f"
proof -
  from assms obtain t where t: "dget (db_tables f) ''sessions'' = Some t" "fst ` set ADDED_COLUMNS \<subseteq> set (columns t)"
    by (auto simp: ready_def table_with_def added_names split: option.splits)
  have "create_table ''sessions'' SESSION_COLUMNS f = f" using t by (simp add: create_table_def dhas_def)
  then show ?thesis
    using t ready_unchanged [OF assms, of SESSION_COLUMNS] by (simp add: migrate_def migrate_sessions_def add_missing_done dput_same)
qed

text \<open>
  C37. A new connection to a database whose sessions table, if there is one, has the columns of
  the first version and whose \<open>session_stack\<close> table, if there is one, has those of
  a frame, leaves both tables and the index, with every column that state.py names. An older
  sessions table keeps its rows, in order and with every value, and each missing column reads
  the documented default; a \<open>session_stack\<close> table is kept as it is; a missing table
  is created empty. Migrating twice is migrating once.
\<close>

theorem connection_migrates:
  assumes "upgradable f"
  shows "ready (migrate f) \<and> migrate (migrate f) = migrate f \<and>
    (dget (db_tables f) ''sessions'' = None \<longrightarrow>
      (\<exists>t. dget (db_tables (migrate f)) ''sessions'' = Some t \<and> table_rows t = [])) \<and>
    (\<forall>t. dget (db_tables f) ''sessions'' = Some t \<longrightarrow>
      (\<exists>t'. dget (db_tables (migrate f)) ''sessions'' = Some t' \<and>
         length (table_rows t') = length (table_rows t) \<and>
         (\<forall>i < length (table_rows t). \<forall>k. dget (table_rows t' ! i) k =
            (if k \<in> set (columns t) \<or> k \<notin> since_added then dget (table_rows t ! i) k
             else if k = ''workflow_fingerprint'' then Some (PStr ''pre-versioning'') else Some PNone)))) \<and>
    (\<exists>t. dget (db_tables (migrate f)) ''session_stack'' = Some t \<and>
      (case dget (db_tables f) ''session_stack'' of None \<Rightarrow> table_rows t = [] | Some t0 \<Rightarrow> t = t0))"
proof -
  have val: "dget (fold (\<lambda>(c, v). dput c v) (filter (\<lambda>x. fst x \<notin> set (columns t)) ADDED_COLUMNS) r) k =
      (if k \<in> set (columns t) \<or> k \<notin> since_added then dget r k
       else if k = ''workflow_fingerprint'' then Some (PStr ''pre-versioning'') else Some PNone)" for t r k
  proof -
    have "map_of (filter (\<lambda>x. fst x \<notin> set (columns t)) ADDED_COLUMNS) k =
        (if k \<in> set (columns t) \<or> k \<notin> since_added then None
         else if k = ''workflow_fingerprint'' then Some (PStr ''pre-versioning'') else Some PNone)"
      by (simp add: ADDED_COLUMNS_def since_added_def)
    then show ?thesis by (simp add: dget_fold_dput [OF missing_distinct])
  qed
  have "table_rows (add_missing \<lparr>columns = SESSION_COLUMNS, table_rows = []\<rparr>) = []" by (simp add: add_missing_rows)
  then show ?thesis
    using migrate_ready [OF assms] ready_migrated [OF migrate_ready [OF assms]]
    by (auto simp: migrated_sessions migrated_stack add_missing_rows val split: option.split)
qed

section \<open>Every connected thread\<close>

definition process_ok :: "db_process \<Rightarrow> bool" where
  "process_ok s \<longleftrightarrow>
     (\<forall>c f. dget (pd_files s) c = Some f \<longrightarrow> upgradable f) \<and>
     (\<forall>th c. dget (pd_conns s) th = Some c \<longrightarrow> ready (dget_or (pd_files s) c empty_file)) \<and>
     (\<forall>th n. dget (pd_conns s) th = Some (InMemory n) \<longrightarrow> n < pd_opened s) \<and>
     (\<forall>th th' n. dget (pd_conns s) th = Some (InMemory n) \<and> dget (pd_conns s) th' = Some (InMemory n) \<longrightarrow> th = th')"

inductive conn_step :: "(string \<Rightarrow> string option) \<Rightarrow> environ \<Rightarrow> string \<Rightarrow> db_process \<Rightarrow> db_process \<Rightarrow> bool"
  for refuses env dflt where
  connect: "conn_step refuses env dflt s (snd (get_conn refuses env dflt th s))"
| init: "conn_step refuses env dflt s (snd (init_schema refuses env dflt th s))"
| reset: "conn_step refuses env dflt s (reset_for_test th s)"

lemma upgradable_empty: "upgradable empty_file"
  by (simp add: upgradable_def empty_file_def)

lemma file_upgradable: "process_ok s \<Longrightarrow> upgradable (dget_or (pd_files s) c empty_file)"
  using upgradable_empty by (auto simp: process_ok_def dget_or_def split: option.split)

lemma makedirs_state: "snd (makedirs refuses d s) = s"
  by (simp add: makedirs_def raiseE_def retE_def split: option.split)

lemma get_conn_new:
  assumes "dget (pd_conns s) th = None"
  obtains x where "get_conn refuses env dflt th s = (Inl x, s)"
  | c where "c = connect (resolve_path env dflt) s" "get_conn refuses env dflt th s = (Inr c,
      s\<lparr>pd_files := dput c (migrate (dget_or (pd_files s) c empty_file)) (pd_files s),
        pd_conns := dput th c (pd_conns s), pd_opened := pd_opened s + 1\<rparr>)"
proof -
  let ?m = "if resolve_path env dflt \<noteq> '':memory:'' then makedirs refuses (dirname (resolve_path env dflt)) else retE ()"
  have s: "snd (?m s) = s" by (simp add: makedirs_state retE_def)
  show thesis
    by (cases "fst (?m s)"; cases "?m s")
      (use s assms that in \<open>simp_all add: get_conn_def seqE_def bindE_def Let_def\<close>)
qed

lemma get_conn_ok:
  assumes ok: "process_ok s"
  shows "process_ok (snd (get_conn refuses env dflt th s)) \<and>
    (\<forall>c. fst (get_conn refuses env dflt th s) = Inr c \<longrightarrow>
       ready (dget_or (pd_files (snd (get_conn refuses env dflt th s))) c empty_file))"
proof (cases "dget (pd_conns s) th")
  case (Some c)
  with ok show ?thesis by (simp add: get_conn_def process_ok_def)
next
  case None
  then show ?thesis
  proof (cases rule: get_conn_new [of s th refuses env dflt])
    case (1 x)
    with ok show ?thesis by simp
  next
    case (2 c)
    let ?f = "migrate (dget_or (pd_files s) c empty_file)"
    have f: "ready ?f" using migrate_ready [OF file_upgradable [OF ok]] .
    have fresh: "c = InMemory n \<Longrightarrow> n = pd_opened s" for n using 2(1) by (simp add: connect_def split: if_splits)
    have files: "dget_or (dput c ?f (pd_files s)) c' empty_file = (if c' = c then ?f else dget_or (pd_files s) c' empty_file)" for c'
      by (simp add: dget_or_def)
    have new: "dget (pd_conns s) th' \<noteq> Some (InMemory (pd_opened s))" for th'
      using ok unfolding process_ok_def by blast
    show ?thesis
      using ok f ready_upgradable [OF f] fresh new
      unfolding 2(2) process_ok_def by (auto split: if_splits simp: files less_Suc_eq)
  qed
qed

lemma init_schema_ok:
  assumes ok: "process_ok s"
  shows "process_ok (snd (init_schema refuses env dflt th s))"
proof (cases "get_conn refuses env dflt th s")
  case (Pair r s1)
  note g = get_conn_ok [OF ok, of refuses env dflt th, unfolded Pair]
  show ?thesis
  proof (cases r)
    case (Inr c)
    let ?f = "dget_or (pd_files s1) c empty_file"
    have f: "ready ?f" using g Inr by simp
    have "dget_or (dput c ?f (pd_files s1)) c' empty_file = dget_or (pd_files s1) c' empty_file" for c'
      by (simp add: dget_or_def)
    with g ready_upgradable [OF f] show ?thesis
      by (auto simp: init_schema_def bindE_def Pair Inr ready_unchanged [OF f] process_ok_def split: if_splits)
  qed (use g in \<open>simp add: init_schema_def bindE_def Pair\<close>)
qed

lemma reset_ok: "process_ok s \<Longrightarrow> process_ok (reset_for_test th s)"
  by (auto simp: process_ok_def reset_for_test_def dget_ddel split: if_splits)

interpretation conns: step_invariant "conn_step refuses env dflt" process_ok for refuses env dflt
  by unfold_locales (auto elim!: conn_step.cases simp: get_conn_ok init_schema_ok reset_ok)

text \<open>
  C38. In a process that starts without connections, on files whose sessions and
  \<open>session_stack\<close> tables, where there are any, have the columns of the first
  version and of a frame: however its threads connect, re-initialise and disconnect, every
  connected one has a database with both tables, all the columns state.py names, and the index,
  and no two threads share an in-memory database.
\<close>

theorem connected_threads_ready:
  assumes "(conn_step refuses env dflt)\<^sup>*\<^sup>* s s'" and "pd_conns s = []"
    and "\<forall>c f. dget (pd_files s) c = Some f \<longrightarrow> upgradable f"
  shows "(\<forall>th c. dget (pd_conns s') th = Some c \<longrightarrow> ready (dget_or (pd_files s') c empty_file)) \<and>
    (\<forall>th th' n. dget (pd_conns s') th = Some (InMemory n) \<and> dget (pd_conns s') th' = Some (InMemory n) \<longrightarrow> th = th')"
proof -
  have "process_ok s" using assms(2, 3) by (simp add: process_ok_def)
  from conns.reach_inv [OF assms(1) this] show ?thesis by (simp add: process_ok_def)
qed

text \<open>
  A database path without a directory is refused: os.makedirs is called with the empty name, and
  the thread stays unconnected.
\<close>

theorem bare_path_refused:
  assumes "resolve_path env dflt = p" "p \<noteq> '':memory:''" "CHR ''/'' \<notin> set p"
    and "dget (pd_conns s) th = None"
  shows "\<exists>m. get_conn refuses env dflt th s = (Inl (OSError m), s)"
proof -
  have drop: "dropWhile (\<lambda>c. c \<noteq> CHR ''/'') (rev p) = []" using assms(3) by (auto simp: dropWhile_eq_Nil_conv)
  have "dirname p = []" unfolding dirname_def drop by simp
  with assms show ?thesis by (simp add: get_conn_def makedirs_def seqE_def bindE_def raiseE_def)
qed

text \<open>A file of the first version, two threads, and a bare path.\<close>

definition old_file :: sqlite_file where
  "old_file = \<lparr>db_tables = [(''sessions'', \<lparr>columns = take 11 SESSION_COLUMNS,
     table_rows = [[(''session_id'', PStr ''s1''), (''current_step'', PStr ''plan'')]]\<rparr>)], db_indexes = []\<rparr>"

definition old_process :: db_process where
  "old_process = \<lparr>pd_files = [(OnDisk ''/srv/x.db'', old_file)], pd_conns = [], pd_opened = 0\<rparr>"

lemma old_upgradable: "upgradable old_file"
  by code_simp

theorem connection_migrates_witness:
  "ready (migrate old_file) \<and>
   dget (db_tables (migrate old_file)) ''sessions'' = Some \<lparr>columns = take 11 SESSION_COLUMNS @ drop 11 SESSION_COLUMNS,
     table_rows = [[(''session_id'', PStr ''s1''), (''current_step'', PStr ''plan''), (''called_session'', PNone),
       (''parent_session_id'', PNone), (''workflow_fingerprint'', PStr ''pre-versioning'')]]\<rparr>"
  using connection_migrates [OF old_upgradable] by (rule conjI [OF conjunct1]) code_simp

definition two_threads :: "environ \<Rightarrow> db_process" where
  "two_threads env = snd (get_conn (\<lambda>_. None) env ''/srv/x.db'' 2 (snd (get_conn (\<lambda>_. None) env ''/srv/x.db'' 1 old_process)))"

theorem connected_threads_ready_witness:
  "dget (pd_conns (two_threads (\<lambda>_. None))) 2 = Some (OnDisk ''/srv/x.db'') \<and>
   ready (dget_or (pd_files (two_threads (\<lambda>_. None))) (OnDisk ''/srv/x.db'') empty_file)"
proof -
  have run: "(conn_step (\<lambda>_. None) (\<lambda>_. None) ''/srv/x.db'')\<^sup>*\<^sup>* old_process (two_threads (\<lambda>_. None))"
    unfolding two_threads_def
    by (rule converse_rtranclp_into_rtranclp, rule conn_step.connect, rule r_into_rtranclp, rule conn_step.connect)
  have "\<forall>c f. dget (pd_files old_process) c = Some f \<longrightarrow> upgradable f" "pd_conns old_process = []"
    using old_upgradable by (simp_all add: old_process_def)
  from connected_threads_ready [OF run this(2, 1)]
  have "\<forall>th c. dget (pd_conns (two_threads (\<lambda>_. None))) th = Some c \<longrightarrow>
      ready (dget_or (pd_files (two_threads (\<lambda>_. None))) c empty_file)" by blast
  moreover have "dget (pd_conns (two_threads (\<lambda>_. None))) 2 = Some (OnDisk ''/srv/x.db'')"
    by code_simp
  ultimately show ?thesis by blast
qed

theorem bare_path_refused_witness:
  "\<exists>m. get_conn (\<lambda>_. None) (\<lambda>_. Some ''x.db'') ''/srv/x.db'' 1 old_process = (Inl (OSError m), old_process)"
  by (rule bare_path_refused [of _ _ "''x.db''"]) (simp_all add: resolve_path_def old_process_def)

end
