(* ===== verification/Reading.thy ===== *)
theory Reading
  imports Boot
begin

text \<open>
  From the documents of a started server to the records the tools are modelled on: the reading the
  header of \<^verbatim>\<open>Workflow\<close> speaks of, written out. It is partial: a document whose optional fields have
  other types than the records (which the validator does not always check) is outside the model.
  The main lemma is that what the validator has linked stays linked.
\<close>

section \<open>Readers\<close>

text \<open>The value of a field; a field that may be missing; a list of readable values.\<close>

type_synonym 'a reader = "pyval \<Rightarrow> 'a option"

definition field :: "'a reader \<Rightarrow> string \<Rightarrow> 'a reader" where
  "field rd k v = Option.bind (pget v k) rd"

definition optional :: "'a reader \<Rightarrow> string \<Rightarrow> 'a option reader" where
  "optional rd k v = (case pget v k of None \<Rightarrow> Some None | Some x \<Rightarrow> map_option Some (rd x))"

definition default_to :: "'a \<Rightarrow> 'a reader \<Rightarrow> string \<Rightarrow> 'a reader" where
  "default_to d rd k v = (case pget v k of None \<Rightarrow> Some d | Some x \<Rightarrow> rd x)"

fun read_all :: "'a reader \<Rightarrow> pyval list \<Rightarrow> 'a list option" where
  "read_all rd [] = Some []"
| "read_all rd (v # vs) =
     (case (rd v, read_all rd vs) of (Some x, Some xs) \<Rightarrow> Some (x # xs) | _ \<Rightarrow> None)"

fun read_list :: "'a reader \<Rightarrow> 'a list reader" where
  "read_list rd (PList vs) = read_all rd vs"
| "read_list rd _ = None"

fun read_str :: "string reader" where
  "read_str (PStr s) = Some s" | "read_str _ = None"

fun read_bool :: "bool reader" where
  "read_bool (PBool b) = Some b" | "read_bool _ = None"

fun read_int :: "int reader" where
  "read_int (PInt i) = Some i" | "read_int (PBool b) = Some (of_bool b)" | "read_int _ = None"

fun read_dict :: "(string \<times> pyval) list reader" where
  "read_dict (PDict d) = Some d" | "read_dict _ = None"

section \<open>Steps, guardrails, workflows\<close>

definition read_precondition :: "precondition reader" where
  "read_precondition v =
     (case pget v ''when_equals'' of
        Some we \<Rightarrow>
          Option.bind (field read_str ''ref'' we) (\<lambda>r. map_option (WhenEquals r) (pget we ''value''))
      | None \<Rightarrow> map_option WhenPresent (field read_str ''when_present'' v))"

definition read_branch :: "branch reader" where
  "read_branch v =
     Option.bind (field read_str ''next'' v) (\<lambda>n.
     map_option (\<lambda>c. \<lparr>br_next = n, br_condition = c\<rparr>) (field read_str ''condition'' v))"

definition read_inject :: "inject reader" where
  "read_inject v =
     Option.bind (field read_str ''from'' v) (\<lambda>f.
     Option.bind (default_to [] (read_list read_str) ''fields'' v) (\<lambda>fs.
     map_option (\<lambda>b. \<lparr>ic_from = f, ic_fields = fs, ic_summary = b\<rparr>) (default_to False read_bool ''summary'' v)))"

definition read_artifact :: "artifact_def reader" where
  "read_artifact v =
     Option.bind (field read_str ''id'' v) (\<lambda>i.
     Option.bind (pget v ''schema'') (\<lambda>sch.
     map_option (\<lambda>b. \<lparr>art_id = i, art_schema = sch, art_checkpoint = b\<rparr>)
       (default_to False read_bool ''checkpoint'' v)))"

text \<open>The parts of a step that lead elsewhere, and the rest of it.\<close>

definition read_step :: "step reader" where
  "read_step v =
     Option.bind (field read_str ''id'' v) (\<lambda>i.
     Option.bind (pget v ''title'') (\<lambda>ti.
     Option.bind (default_to [] (read_list read_inject) ''inject_context'' v) (\<lambda>ic.
     Option.bind (default_to [] (read_list read_branch) ''branches'' v) (\<lambda>br.
     Option.bind (optional read_str ''default_branch'' v) (\<lambda>db.
     Option.bind (optional read_precondition ''precondition'' v) (\<lambda>pc.
     Option.bind (default_to [] (read_list read_artifact) ''intermediate_artifacts'' v) (\<lambda>ia.
     Option.bind (optional read_str ''action'' v) (\<lambda>act.
     Option.bind (optional read_int ''max_retries'' v) (\<lambda>mr.
     Option.bind (optional read_str ''validation_hint'' v) (\<lambda>vh.
     Option.bind (optional read_str ''call'' v) (\<lambda>ca.
     Option.bind (optional read_str ''call_context_from'' v) (\<lambda>ccf.
     Option.bind (optional read_str ''output_from'' v) (\<lambda>ofr.
     Option.bind (optional read_str ''server'' v) (\<lambda>srv.
     Option.bind (optional read_str ''tool'' v) (\<lambda>tl.
     map_option (\<lambda>to. \<lparr>st_id = i, st_title = ti, st_action = act,
         st_directive_template = pget v ''directive_template'', st_gates = pget v ''gates'',
         st_anti_patterns = pget v ''anti_patterns'', st_output_schema = pget v ''output_schema'',
         st_max_retries = mr, st_validation_hint = vh, st_inject_context = ic, st_branches = br,
         st_default_branch = db, st_precondition = pc, st_call = ca, st_call_context_from = ccf,
         st_directives = pget v ''directives'', st_intermediate_artifacts = ia, st_output_from = ofr,
         st_server = srv, st_tool = tl, st_args = pget v ''args'', st_timeout = to\<rparr>)
       (optional py_num ''timeout'' v))))))))))))))))"

definition read_trigger :: "trigger reader" where
  "read_trigger v =
     (if is_tag v ''type'' ''keyword_match'' then
        map_option KeywordMatch (default_to [] (read_list read_str) ''patterns'' v)
      else if is_tag v ''type'' ''step_count'' then map_option StepCount (default_to 0 read_int ''max'' v)
      else if is_tag v ''type'' ''step_revisit'' then map_option StepRevisit (default_to 0 read_int ''max_visits'' v)
      else if is_tag v ''type'' ''output_length'' then map_option OutputLength (default_to 0 read_int ''max_chars'' v)
      else None)"

definition read_action :: "guard_action reader" where
  "read_action v =
     (if v = PStr ''warn'' then Some Warn
      else if v = PStr ''force_branch'' then Some ForceBranch
      else if v = PStr ''escalate'' then Some Escalate else None)"

definition read_guardrail :: "guardrail reader" where
  "read_guardrail v =
     Option.bind (field read_str ''id'' v) (\<lambda>i.
     Option.bind (field read_trigger ''trigger'' v) (\<lambda>t.
     Option.bind (field read_action ''action'' v) (\<lambda>a.
     Option.bind (field read_str ''message'' v) (\<lambda>m.
     map_option (\<lambda>s. \<lparr>gr_id = i, gr_trigger = t, gr_action = a, gr_message = m, gr_target_step = s\<rparr>)
       (optional read_str ''target_step'' v)))))"

definition read_workflow :: "workflow reader" where
  "read_workflow v =
     Option.bind (field read_str ''name'' v) (\<lambda>n.
     Option.bind (field (read_list read_step) ''steps'' v) (\<lambda>ss.
     Option.bind (default_to [] (read_list read_guardrail) ''guardrails'' v) (\<lambda>gs.
     Option.bind (default_to [] read_str ''category'' v) (\<lambda>c.
     map_option (\<lambda>rep. \<lparr>wf_name = n, wf_description = (case pget v ''description'' of Some d \<Rightarrow> d | None \<Rightarrow> PStr []),
         wf_category = c, wf_steps = ss, wf_guardrails = gs, wf_conversation_repair = rep, wf_doc = v\<rparr>)
       (default_to [] read_dict ''conversation_repair'' v)))))"

fun read_workflows :: "workflows \<Rightarrow> (string, workflow) dict option" where
  "read_workflows [] = Some []"
| "read_workflows ((name, v) # vs) =
     (case (read_workflow v, read_workflows vs) of (Some w, Some ws) \<Rightarrow> Some ((name, w) # ws) | _ \<Rightarrow> None)"

definition read_app :: "server_app \<Rightarrow> identity \<Rightarrow> app option" where
  "read_app srv caller =
     map_option (\<lambda>ws. \<lparr>app_workflows = ws, app_fingerprints = srv_fingerprints srv,
         app_registry = srv_registry srv, app_caller = caller\<rparr>) (read_workflows (srv_workflows srv))"

section \<open>Links\<close>

text \<open>Every step a workflow can go on to is one of its steps.\<close>

definition step_linked :: "string set \<Rightarrow> step \<Rightarrow> bool" where
  "step_linked ids st \<longleftrightarrow>
     br_next ` set (st_branches st) \<subseteq> ids \<and> set_option (st_default_branch st) \<subseteq> ids \<and>
     ic_from ` set (st_inject_context st) \<subseteq> ids"

definition workflow_linked :: "workflow \<Rightarrow> bool" where
  "workflow_linked w \<longleftrightarrow>
     wf_steps w \<noteq> [] \<and> (\<forall>st\<in>set (wf_steps w). step_linked (set (step_ids w)) st) \<and>
     (\<forall>g\<in>set (wf_guardrails w). gr_action g = ForceBranch \<longrightarrow> set_option (gr_target_step g) \<subseteq> set (step_ids w))"

lemma read_all_mem: "read_all rd vs = Some xs \<Longrightarrow> x \<in> set xs \<Longrightarrow> \<exists>v\<in>set vs. rd v = Some x"
  by (induction vs arbitrary: xs) (auto split: option.splits)

lemma read_all_Nil: "read_all rd vs = Some xs \<Longrightarrow> (xs = []) = (vs = [])"
  by (cases vs) (auto split: option.splits)

lemma read_list_mem: "read_list rd v = Some xs \<Longrightarrow> \<exists>vs. v = PList vs \<and> read_all rd vs = Some xs"
  by (cases v) auto

lemma read_str_Some [simp]: "read_str v = Some s \<longleftrightarrow> v = PStr s"
  by (cases v) auto

lemma field_Some: "field rd k v = Some x \<longleftrightarrow> (\<exists>y. pget v k = Some y \<and> rd y = Some x)"
  by (auto simp: field_def bind_eq_Some_conv)

lemma default_to_mem:
  "default_to [] (read_list rd) k v = Some xs \<Longrightarrow> x \<in> set xs \<Longrightarrow>
   \<exists>vs y. pget v k = Some (PList vs) \<and> y \<in> set vs \<and> rd y = Some x"
  using read_all_mem by (fastforce simp: default_to_def dest: read_list_mem split: option.splits)

lemma optional_Some: "optional rd k v = Some (Some x) \<Longrightarrow> \<exists>y. pget v k = Some y \<and> rd y = Some x"
  by (auto simp: optional_def split: option.splits)

lemma read_step_parts:
  assumes "read_step v = Some st"
  shows "field read_str ''id'' v = Some (st_id st) \<and>
    default_to [] (read_list read_inject) ''inject_context'' v = Some (st_inject_context st) \<and>
    default_to [] (read_list read_branch) ''branches'' v = Some (st_branches st) \<and>
    optional read_str ''default_branch'' v = Some (st_default_branch st)"
  using assms unfolding read_step_def bind_eq_Some_conv map_option_eq_Some by (elim exE conjE) (drule sym, simp)

lemma read_step_linked:
  assumes "read_step v = Some st" and "linked ids v"
  shows "step_linked ids st"
proof -
  note parts = read_step_parts [OF assms(1)]
  have "br_next b \<in> ids" if "b \<in> set (st_branches st)" for b
    using default_to_mem [OF _ that, of read_branch "''branches''" v] parts assms(2)
    by (fastforce simp: linked_def read_branch_def bind_eq_Some_conv field_Some)
  moreover have "t \<in> ids" if "st_default_branch st = Some t" for t
    using optional_Some [of read_str "''default_branch''" v t] parts assms(2) that by (auto simp: linked_def)
  moreover have "ic_from x \<in> ids" if "x \<in> set (st_inject_context st)" for x
    using default_to_mem [OF _ that, of read_inject "''inject_context''" v] parts assms(2)
    by (fastforce simp: linked_def read_inject_def bind_eq_Some_conv field_Some)
  ultimately show ?thesis by (auto simp: step_linked_def)
qed


lemma read_workflow_parts:
  assumes "read_workflow v = Some w"
  shows "\<exists>steps. pget v ''steps'' = Some (PList steps) \<and> read_all read_step steps = Some (wf_steps w) \<and>
    default_to [] (read_list read_guardrail) ''guardrails'' v = Some (wf_guardrails w) \<and>
    pget v ''name'' = Some (PStr (wf_name w))"
proof -
  from assms obtain n ss gs c rep where
    "field read_str ''name'' v = Some n" and ss: "field (read_list read_step) ''steps'' v = Some ss"
    and "default_to [] (read_list read_guardrail) ''guardrails'' v = Some gs"
    and w: "w = \<lparr>wf_name = n, wf_description = (case pget v ''description'' of Some d \<Rightarrow> d | None \<Rightarrow> PStr []),
         wf_category = c, wf_steps = ss, wf_guardrails = gs, wf_conversation_repair = rep, wf_doc = v\<rparr>"
    unfolding read_workflow_def bind_eq_Some_conv map_option_eq_Some by metis
  moreover from ss obtain vs where "pget v ''steps'' = Some (PList vs)" "read_all read_step vs = Some ss"
    by (auto simp: field_Some dest: read_list_mem)
  ultimately show ?thesis by (simp add: field_Some)
qed

lemma read_step_ids:
  "read_all read_step vs = Some ss \<Longrightarrow> ids_of vs = set (map st_id ss)"
proof (induction vs arbitrary: ss)
  case (Cons v vs)
  then obtain st ss' where st: "read_step v = Some st" "read_all read_step vs = Some ss'" "ss = st # ss'"
    by (auto split: option.splits)
  have "pget v ''id'' = Some (PStr (st_id st))" using read_step_parts [OF st(1)] by (simp add: field_Some)
  then have "ids_of (v # vs) = insert (st_id st) (ids_of vs)" by (auto simp: ids_of_def)
  with Cons.IH [OF st(2)] st(3) show ?case by simp
qed (simp add: ids_of_def)

text \<open>An accepted document, read, is linked; this joins the validator to the tools.\<close>

lemma accepted_is_linked:
  assumes load: "load_workflow check reg path stem file = Inr v" and w: "read_workflow v = Some w"
  shows "workflow_linked w"
proof -
  from load_accepts [OF load] obtain raw steps where
    raw: "pget raw ''steps'' = Some (PList steps)" "steps \<noteq> []" "v = with_schema_version raw"
    and errs: "steps_errors check reg stem raw steps = Inr []" .
  from steps_errors_Nil [OF errs] obtain ids where
    ids: "all_step_ids steps = Inr ids" and inj: "inject_refs ids steps = Inr []"
    and grs: "guardrails_field_errors ids raw = Inr []" and branches: "\<forall>st\<in>set steps. branch_refs ids st = []"
    by metis
  have pget: "pget v k = pget raw k" if "k \<noteq> ''schema_version''" for k
    using that raw(3) by (simp add: with_schema_version_pget)
  from read_workflow_parts [OF w] raw(1) have
    ss: "read_all read_step steps = Some (wf_steps w)"
    and gs: "default_to [] (read_list read_guardrail) ''guardrails'' v = Some (wf_guardrails w)"
    by (auto simp: pget)
  have set: "set ids = set (step_ids w)"
    using all_step_ids_set [OF ids] read_step_ids [OF ss] by (simp add: step_ids_def)
  have "step_linked (set (step_ids w)) st" if "st \<in> set (wf_steps w)" for st
  proof -
    from read_all_mem [OF ss that] obtain u where u: "u \<in> set steps" "read_step u = Some st" by blast
    have "linked (set ids) u"
      using branch_refs_linked [of ids u] branches u(1) inject_refs_linked [OF inj u(1)] unfolding linked_def by blast
    with read_step_linked [OF u(2)] set show ?thesis by simp
  qed
  moreover have "t \<in> set (step_ids w)"
    if g: "g \<in> set (wf_guardrails w)" "gr_action g = ForceBranch" "gr_target_step g = Some t" for g t
  proof -
    from default_to_mem [OF gs g(1)] obtain vs u where
      vs: "pget raw ''guardrails'' = Some (PList vs)" "u \<in> set vs" "read_guardrail u = Some g"
      by (auto simp: pget)
    from vs(3) obtain a where "pget u ''action'' = Some a" "read_action a = Some (gr_action g)"
      "optional read_str ''target_step'' u = Some (gr_target_step g)"
      unfolding read_guardrail_def bind_eq_Some_conv map_option_eq_Some field_Some by (elim exE conjE) (drule sym, auto)
    then have "pget u ''action'' = Some (PStr ''force_branch'')" "pget u ''target_step'' = Some (PStr t)"
      using g optional_Some [of read_str "''target_step''" u t] by (auto simp: read_action_def split: if_splits)
    moreover have "guardrails_errors ids 0 vs = Inr []" using grs vs(1) by (simp add: guardrails_field_errors_def)
    ultimately show ?thesis using guardrails_linked vs(2) set by blast
  qed
  moreover have "wf_steps w \<noteq> []" using read_all_Nil [OF ss] raw(2) by simp
  ultimately show ?thesis by (auto simp: workflow_linked_def)
qed

lemma read_workflows_mem:
  "read_workflows vs = Some ws \<Longrightarrow> (name, w) \<in> set ws \<Longrightarrow> \<exists>v. (name, v) \<in> set vs \<and> read_workflow v = Some w"
  by (induction vs arbitrary: ws rule: read_workflows.induct) (auto split: option.splits, blast+)

lemma read_workflows_names: "read_workflows vs = Some ws \<Longrightarrow> map fst ws = map fst vs"
  by (induction vs arbitrary: ws rule: read_workflows.induct) (auto split: option.splits)

definition app_linked :: "app \<Rightarrow> bool" where
  "app_linked ap \<longleftrightarrow> (\<forall>w. w \<in> ran (dget (app_workflows ap)) \<longrightarrow> workflow_linked w)"

text \<open>
  The workflows of a started server, read into the records of the tools, are the ones it loaded,
  and each leads only to steps it has.
\<close>

theorem started_app_is_linked:
  assumes start: "start_server e check fs env dir reg_path = Inr srv" and ap: "read_app srv caller = Some ap"
  shows "app_linked ap \<and> map fst (app_workflows ap) = map fst (srv_workflows srv) \<and> app_workflows ap \<noteq> [] \<and>
    dom (dget (app_fingerprints ap)) = dom (dget (app_workflows ap))"
proof -
  from ap obtain ws where ws: "read_workflows (srv_workflows srv) = Some ws"
    and apw: "app_workflows ap = ws" "app_fingerprints ap = srv_fingerprints srv"
    by (auto simp: read_app_def)
  note app = created_app_is_checked [OF conjunct1 [OF conjunct2 [OF start_server_parts [OF start]]]]
  note names = read_workflows_names [OF ws]
  have "workflow_linked w" if "w \<in> ran (dget (app_workflows ap))" for w
  proof -
    from that obtain name where "(name, w) \<in> set ws" by (auto simp: ran_def apw dest: map_of_SomeD)
    from read_workflows_mem [OF ws this] obtain v where "(name, v) \<in> set (srv_workflows srv)" "read_workflow v = Some w"
      by blast
    with app accepted_is_linked show ?thesis by (fastforce simp: accepted_def)
  qed
  moreover have "dom (dget ws) = dom (dget (srv_workflows srv))"
    using names by (metis dom_map_of_conv_image_fst list.set_map)
  ultimately show ?thesis using app names apw by (auto simp: app_linked_def)
qed


lemma digest_reads: "\<exists>ap. read_app digest_server Anonymous = Some ap \<and> map fst (app_workflows ap) = [''w''] \<and>
    map st_id (wf_steps (snd (hd (app_workflows ap)))) = [''topic'', ''find'', ''digest'']"
proof -
  have "map_option (\<lambda>ap. (map fst (app_workflows ap), map st_id (wf_steps (snd (hd (app_workflows ap))))))
      (read_app digest_server Anonymous) = Some ([''w''], [''topic'', ''find'', ''digest''])"
    by code_simp
  then show ?thesis by auto
qed

theorem started_app_is_linked_witness:
  "\<exists>ap. read_app digest_server Anonymous = Some ap \<and> app_linked ap"
  using digest_reads started_app_is_linked [OF digest_server_starts] by blast

end
