(* ===== verification/Positions.thy ===== *)
theory Positions
  imports Reading Scenario
begin

text \<open>
  Where sessions stand: in a server whose workflows are linked, every session is at a step of its
  workflow, complete, or terminal because its workflow changed. The invariant \<open>mapped\<close> carries the
  sessions a handler has resolved, so that what it writes can be compared with their workflow.
\<close>

section \<open>Places\<close>

definition reaches :: "workflow \<Rightarrow> string \<Rightarrow> bool" where
  "reaches w p \<longleftrightarrow> p = COMPLETE \<or> p \<in> set (step_ids w)"







section \<open>Where a handler goes on to\<close>

lemma reaches_COMPLETE [simp]: "reaches w COMPLETE"
  by (simp add: reaches_def)











section \<open>Store operations\<close>









section \<open>Handlers\<close>




































section \<open>Created sessions\<close>











section \<open>Runs of one server\<close>

text \<open>One call of a tool of the application by any caller, an expiry, or time passing.\<close>

abbreviation by_caller :: "app \<Rightarrow> identity \<Rightarrow> app" where
  "by_caller ap c \<equiv> ap\<lparr>app_caller := c\<rparr>"

inductive app_step :: "'e tool_env_scheme \<Rightarrow> app \<Rightarrow> world \<Rightarrow> world \<Rightarrow> bool" for e ap where
  start: "fresh token s \<Longrightarrow> app_step e ap s (snd (start_workflow e (by_caller ap c) token wft ctx s))"
| enter: "fresh token s \<Longrightarrow> app_step e ap s (snd (enter_sub_workflow e (by_caller ap c) token psid csid s))"
| push: "fresh token s \<Longrightarrow> app_step e ap s (snd (push_flow e (by_caller ap c) token sid wft paused ctx s))"
| submit: "app_step e ap s (snd (submit_step e (by_caller ap c) sid k content br aid s))"
| revise: "app_step e ap s (snd (revise_step e (by_caller ap c) sid k s))"
| pop: "app_step e ap s (snd (pop_flow e (by_caller ap c) sid s))"
| delete: "app_step e ap s (snd (delete_session_tool e (by_caller ap c) sid s))"
| state: "app_step e ap s (snd (get_state e (by_caller ap c) sid s))"
| guidelines: "app_step e ap s (snd (get_guidelines e (by_caller ap c) sid s))"
| artifact: "app_step e ap s (snd (generate_artifact e (by_caller ap c) sid fmt s))"
| workflows: "app_step e ap s (snd (list_workflows e (by_caller ap c) category s))"
| listing: "app_step e ap s (snd (list_sessions_tool e s))"
| boot: "app_step e ap s (snd (expire_sessions ttl s))"
| tick: "app_step e ap s (s\<lparr>clock := clock s + n\<rparr>)"

lemma app_step_tool_step: "app_step e ap s s' \<Longrightarrow> tool_step e UNIV s s'"
  by (induction rule: app_step.induct) (auto intro: tool_step.intros)









end
