(* ===== verification/Polling.thy ===== *)
theory Polling
  imports Reading SubmitProps LoopProps
begin

text \<open>
  A workflow the validator accepts and no call on it ends: its only step is an \<open>mcp_tool_call\<close> that
  names itself as default branch (\<^verbatim>\<open>schema.py\<close> asks only that the target exists, and
  \<^verbatim>\<open>_auto_execute_mcp_steps\<close> has no bound). The document goes through \<open>load_workflow\<close>, the reading of
  \<^verbatim>\<open>Reading\<close> and \<open>start_workflow\<close>.
\<close>

definition poll_steps :: "pyval list" where
  "poll_steps =
     [PDict [(''id'', PStr ''poll''), (''title'', PStr ''Poll''), (''action'', PStr ''mcp_tool_call''),
        (''server'', PStr ''search''), (''tool'', PStr ''find''), (''args'', PDict []),
        (''branches'', PList [PDict [(''next'', PStr ''poll''), (''condition'', PStr ''again'')]]),
        (''default_branch'', PStr ''poll'')]]"

lemma load_poll:
  "load_workflow check (Some search_server) ''w.yaml'' ''w'' (Sized 100 (Loaded (document poll_steps))) =
     Inr (with_schema_version (document poll_steps))"
  by (simp add: load_workflow_def validator_eval document_def poll_steps_def
      search_server_def YAML_MAX_def Let_def cong: err_if_cong)

lemma read_poll:
  "map_option (\<lambda>w. (polls_itself w ''poll'' search_server, map st_id (wf_steps w)))
     (read_workflow (with_schema_version (document poll_steps))) = Some (True, [''poll''])"
  by code_simp

lemma created_row:
  assumes "fresh token s"
  shows "\<exists>s'. create_session e token wft cur None ft csid m fp s = (Inr (normalize_session_id token), s') \<and>
    find_row (normalize_session_id token) s' \<noteq> None"
proof -
  let ?d = "evict_over_cap (session_cap e) s"
  have "find_row (normalize_session_id token) ?d = None"
    using fresh_row [OF fresh_evict [OF assms]] .
  then show ?thesis
    by (simp add: create_session_unfold Let_def find_row_def find_snoc new_row_def)
qed

text \<open>
  C21. The validator accepts a document whose only step is an \<open>mcp_tool_call\<close>,
  without arguments, to a server of the registry, with itself as default branch; and on a server
  that has loaded it and has fewer than five active sessions, \<open>start_workflow\<close> of
  it with a fresh token never returns, whatever the MCP server answers: no amount of fuel gives
  an answer.
\<close>

theorem self_polling_never_returns:
  assumes w: "read_workflow (with_schema_version (document poll_steps)) = Some w"
    and ap: "dget (app_workflows ap) ''w'' = Some w" "app_registry ap = Some search_server"
    and room: "count_active s < ACTIVE_CAP" and token: "fresh token s" and fuel: "0 < fuel e"
  shows "load_workflow check (Some search_server) ''w.yaml'' ''w'' (Sized 100 (Loaded (document poll_steps))) =
      Inr (with_schema_version (document poll_steps)) \<and>
    fst (start_workflow e ap token (PStr ''w'') (PStr ctx) s) = Inl NoReturn"
proof -
  let ?sid = "normalize_session_id token"
  have poll: "polls_itself w ''poll'' search_server" "map st_id (wf_steps w) = [''poll'']"
    using read_poll by (simp_all add: w)
  then obtain st where st: "wf_steps w = [st]" "st_id st = ''poll''" by auto
  obtain s1 where s1: "create_session e token ''w'' ''poll'' None Call None None (fingerprint_for e ap ''w'') s =
      (Inr ?sid, s1)" and row1: "find_row ?sid s1 \<noteq> None"
    using created_row [OF token] by blast
  then obtain r where "find_row (normalize_session_id ?sid) s1 = Some r" by auto
  note visited = visit.present [OF this, of "''poll''"] visit.row_after [OF this, of ?sid "''poll''"]
  define s2 where "s2 = snd (increment_visit ?sid ''poll'' s1)"
  have s2: "\<exists>n. increment_visit ?sid ''poll'' s1 = (Inr n, s2)"
    using visited(1) by (simp add: s2_def)
  have row2: "find_row (normalize_session_id ?sid) s2 \<noteq> None"
    using visited(2) by (simp add: s2_def)
  have "fst (auto_execute_mcp_steps (fuel e) e ap ''poll'' w ?sid [] s2) = Inl NoReturn"
    by (rule polling_loops [OF poll(1) ap(2) row2 fuel])
  then have "fst (start_session e ap token ''w'' ctx w st s) = Inl NoReturn"
    using s1 s2 st(2) by (auto simp: start_session_def bindE_def split: prod.splits)
  then obtain s' where "start_session e ap token ''w'' ctx w st s = (Inl NoReturn, s')" by (metis prod.collapse)
  then have "fst (start_workflow e ap token (PStr ''w'') (PStr ctx) s) = Inl NoReturn"
    using room ap(1) st(1)
    by (simp add: start_workflow_def guard_args_def trap_errors_def first_step_def not_le)
  with load_poll show ?thesis by simp
qed

theorem self_polling_never_returns_witness:
  "fst (start_workflow demo_env (demo_app\<lparr>app_workflows :=
       [(''w'', the (read_workflow (with_schema_version (document poll_steps))))],
     app_registry := Some search_server\<rparr>) ''t'' (PStr ''w'') (PStr []) empty_world) = Inl NoReturn"
proof -
  have w: "read_workflow (with_schema_version (document poll_steps)) =
      Some (the (read_workflow (with_schema_version (document poll_steps))))"
    using read_poll by auto
  have "count_active empty_world < ACTIVE_CAP" "fresh ''t'' empty_world" "0 < fuel demo_env" by code_simp+
  from self_polling_never_returns [OF w _ _ this] show ?thesis by simp
qed

end
