(* ===== verification/Races.thy ===== *)
theory Races
  imports StackProps Scenario
begin

text \<open>
  Calls that overlap (\<^verbatim>\<open>tools.py\<close>). Elsewhere a tool runs in one piece. FastMCP may run handlers on
  several threads, and then a piece is what one transaction protects: \<^verbatim>\<open>start_workflow\<close> counts the
  active sessions in one and creates the session in another. Here the two are separate steps, with
  those of other threads between them.
\<close>

section \<open>A start in two pieces\<close>

text \<open>Up to the count: an answer or an exception, or what the second piece goes on with.\<close>

definition admit_start ::
  "'e tool_env_scheme \<Rightarrow> app \<Rightarrow> pyval \<Rightarrow> pyval \<Rightarrow> world \<Rightarrow> (exn + pyval) + workflow \<times> step" where
  "admit_start e ap wft ctx s =
     (case first_err [check_str wft ''workflow_type'' True, check_str ctx ''context'' False] of
        Some err \<Rightarrow> Inl (Inr err)
      | None \<Rightarrow>
          (case dget (app_workflows ap) (as_str wft) of
             None \<Rightarrow> Inl (Inr (not_loaded_error ap (''Unknown workflow type: '' @ as_str wft)))
           | Some w \<Rightarrow>
               if ACTIVE_CAP \<le> count_active s then Inl (Inr (session_cap_error e s))
               else (case first_step w of Inl x \<Rightarrow> Inl (Inl x) | Inr st \<Rightarrow> Inr (w, st))))"

lemma start_workflow_pieces:
  "start_workflow e ap token wft ctx s =
     trap_errors e ''workflow_type'' None (\<lambda>s. case admit_start e ap wft ctx s of
         Inl r \<Rightarrow> (r, s)
       | Inr (w, st) \<Rightarrow> start_session e ap token (as_str wft) (as_str ctx) w st s) s"
  by (simp add: start_workflow_def admit_start_def guard_args_def trap_errors_def not_le
      split: option.splits sum.splits)

record start_call =
  sc_token :: string
  sc_type :: string
  sc_context :: string
  sc_workflow :: workflow
  sc_first :: step

record race =
  rc_world :: world
  rc_admitted :: "nat \<Rightarrow> start_call option"

definition finish_start :: "'e tool_env_scheme \<Rightarrow> app \<Rightarrow> start_call \<Rightarrow> world \<Rightarrow> world" where
  "finish_start e ap c s =
     snd (start_session e ap (sc_token c) (sc_type c) (sc_context c) (sc_workflow c) (sc_first c) s)"

text \<open>
  Threads below \<open>k\<close>: one is admitted, one that was admitted creates its session, or something else
  happens that makes no session active.
\<close>

inductive race_step :: "'e tool_env_scheme \<Rightarrow> app \<Rightarrow> nat \<Rightarrow> race \<Rightarrow> race \<Rightarrow> bool" for e ap k where
  admit: "t < k \<Longrightarrow> rc_admitted r t = None \<Longrightarrow> admit_start e ap wft ctx (rc_world r) = Inr (w, st) \<Longrightarrow>
    race_step e ap k r (r\<lparr>rc_admitted := (rc_admitted r)(t \<mapsto>
      \<lparr>sc_token = token, sc_type = as_str wft, sc_context = as_str ctx, sc_workflow = w, sc_first = st\<rparr>)\<rparr>)"
| finish: "rc_admitted r t = Some c \<Longrightarrow>
    race_step e ap k r \<lparr>rc_world = finish_start e ap c (rc_world r), rc_admitted = (rc_admitted r)(t := None)\<rparr>"
| other: "distinct (map session_id (sessions s')) \<Longrightarrow> count_active s' \<le> count_active (rc_world r) \<Longrightarrow>
    race_step e ap k r (r\<lparr>rc_world := s'\<rparr>)"

section \<open>One start adds at most one active session\<close>

definition others_active :: "string \<Rightarrow> world \<Rightarrow> nat" where
  "others_active sid s = length (filter (\<lambda>r. session_id r \<noteq> sid \<and> current_step r \<noteq> COMPLETE) (sessions s))"

definition one_more :: "string \<Rightarrow> nat \<Rightarrow> world \<Rightarrow> bool" where
  "one_more sid n s \<longleftrightarrow> distinct (map session_id (sessions s)) \<and> others_active sid s \<le> n"

lemma one_more_count: "one_more sid n s \<Longrightarrow> count_active s \<le> n + 1"
proof -
  have "length (filter (\<lambda>r. current_step r \<noteq> COMPLETE) rs) \<le>
      length (filter (\<lambda>r. session_id r \<noteq> sid \<and> current_step r \<noteq> COMPLETE) rs) + 1"
    if "distinct (map session_id rs)" for rs :: "session_row list"
    using that
  proof (induction rs)
    case (Cons r rs)
    have "filter (\<lambda>r. session_id r \<noteq> sid \<and> current_step r \<noteq> COMPLETE) rs = filter (\<lambda>r. current_step r \<noteq> COMPLETE) rs"
      if "session_id r = sid"
      using Cons.prems that by (intro filter_cong refl) (auto simp: image_iff)
    with Cons show ?case by auto
  qed simp
  then show "one_more sid n s \<Longrightarrow> count_active s \<le> n + 1"
    by (fastforce simp: one_more_def others_active_def count_active_def)
qed

lemma one_more_upd:
  assumes "one_more sid n s" and g: "\<And>r. session_id r = sid \<Longrightarrow> session_id (g r) = sid"
  shows "one_more sid n (upd_row sid g s)"
proof -
  let ?h = "\<lambda>r. if session_id r = sid then g r else r"
  have ids: "map session_id (map ?h rs) = map session_id rs" for rs
    by (induction rs) (auto simp: g)
  have "filter (\<lambda>r. session_id r \<noteq> sid \<and> current_step r \<noteq> COMPLETE) (map ?h rs) =
    filter (\<lambda>r. session_id r \<noteq> sid \<and> current_step r \<noteq> COMPLETE) rs" for rs
    by (induction rs) (auto simp: g)
  moreover have "sessions (upd_row sid g s) = map ?h (sessions s)" by (simp add: upd_row_def)
  ultimately show ?thesis
    using assms(1) unfolding one_more_def others_active_def by (simp only: ids)
qed

lemma one_more_rmw:
  assumes g: "\<And>r. session_id (fst (g r)) = session_id r"
  shows "keeps (one_more sid n) (rmw sid g)"
proof (rule keepsI)
  fix s assume s: "one_more sid n s"
  show "one_more sid n (snd (rmw sid g s))"
  proof (cases "find_row sid s")
    case None
    with s show ?thesis by (simp add: rmw_def transaction_def)
  next
    case (Some r)
    have "session_id r = sid" using Some by (rule find_row_id)
    then have "one_more sid n (upd_row sid (\<lambda>_. (fst (g r))\<lparr>updated_at := clock s\<rparr>) s)"
      using s g by (intro one_more_upd) simp_all
    then show ?thesis using Some by (simp add: rmw_def transaction_def)
  qed
qed

lemma one_more_visit: "keeps (one_more (normalize_session_id sid) n) (increment_visit sid k)"
  unfolding increment_visit_def by (rule one_more_rmw) (simp add: Let_def)

lemma one_more_update: "keeps (one_more (normalize_session_id sid) n) (update_session sid cur data)"
proof (rule keepsI)
  fix s assume s: "one_more (normalize_session_id sid) n s"
  then have "one_more (normalize_session_id sid) n (upd_row (normalize_session_id sid) g s)"
    if "\<And>r. session_id (g r) = session_id r" for g
    using that by (intro one_more_upd) simp_all
  then show "one_more (normalize_session_id sid) n (snd (update_session sid cur data s))"
    using s by (auto simp: update_session_def transaction_def Let_def split: option.splits)
qed

lemma one_more_client: "keeps (one_more sid n) (on_client m)"
  by (rule keepsI) (simp add: on_client_def one_more_def others_active_def split: prod.splits)

lemma one_more_cascade:
  "keeps (one_more (normalize_session_id sid) n) (auto_execute_mcp_steps m e ap nxt w sid data)"
proof (induction m arbitrary: nxt data)
  case 0
  show ?case unfolding auto_execute_mcp_steps.simps by (rule keeps_raiseE)
next
  case (Suc m)
  show ?case
    unfolding auto_execute_mcp_steps.simps by (intro inv_intros one_more_client one_more_visit Suc.IH)
qed

lemma length_filter_filter: "length (filter P (filter Q xs)) \<le> length (filter P xs)"
  by (induction xs) auto

lemma evict_count:
  "count_active (evict_over_cap c s) \<le> count_active s"
  "distinct (map session_id (sessions s)) \<Longrightarrow> distinct (map session_id (sessions (evict_over_cap c s)))"
proof -
  show "count_active (evict_over_cap c s) \<le> count_active s"
    by (rule evict_cases [of c s]) (simp_all del: filter_filter add: del_rows_def count_active_def length_filter_filter)
  show "distinct (map session_id (sessions s)) \<Longrightarrow> distinct (map session_id (sessions (evict_over_cap c s)))"
    by (rule evict_cases [of c s]) (simp_all add: del_rows_def distinct_map_filter)
qed

lemma others_le_active: "others_active sid s \<le> count_active s"
proof -
  have "length (filter (\<lambda>r. session_id r \<noteq> sid \<and> current_step r \<noteq> COMPLETE) rs) \<le>
      length (filter (\<lambda>r. current_step r \<noteq> COMPLETE) rs)" for rs :: "session_row list"
    by (induction rs) auto
  then show ?thesis by (simp add: others_active_def count_active_def)
qed

lemma created_one_more:
  assumes "distinct (map session_id (sessions s))"
    and "create_session e token wft cur None ft csid m fp s = (Inr sid, s')"
  shows "one_more sid (count_active s) s' \<and> normalize_session_id sid = sid"
proof -
  let ?d = "evict_over_cap (session_cap e) s"
  have sid: "sid = normalize_session_id token" and rows: "sessions s' = sessions ?d @ [new_row sid wft cur None fp (clock s)]"
    using create_session_rows [OF assms(2)] by auto
  have new: "find_row sid ?d = None"
    using assms(2) sid by (auto simp: create_session_unfold Let_def split: if_splits)
  then have "sid \<notin> session_id ` set (sessions ?d)" by (auto simp: find_row_None)
  moreover have "distinct (map session_id (sessions ?d))" using evict_count(2) [OF assms(1)] .
  moreover have "others_active sid ?d \<le> count_active s"
    using others_le_active [of sid ?d] evict_count(1) [of "session_cap e" s] by (rule le_trans)
  moreover have "others_active sid s' = others_active sid ?d"
    by (simp add: others_active_def rows new_row_def)
  moreover have "distinct (map session_id (sessions s')) \<longleftrightarrow>
      distinct (map session_id (sessions ?d)) \<and> sid \<notin> session_id ` set (sessions ?d)"
    by (simp add: rows new_row_def)
  ultimately show ?thesis
    using sid by (simp add: one_more_def)
qed

lemma bindE_Inr_step: "m s = (Inr x, s1) \<Longrightarrow> bindE m f s = f x s1"
  by (simp add: bindE_def)

lemma keeps_snd: "keeps P m \<Longrightarrow> P s \<Longrightarrow> P (snd (m s))"
  by (simp add: keeps_def)

lemma start_adds_one:
  assumes "distinct (map session_id (sessions s))"
  shows "distinct (map session_id (sessions (finish_start e ap c s))) \<and>
    count_active (finish_start e ap c s) \<le> count_active s + 1"
proof -
  let ?m = "create_session e (sc_token c) (sc_type c) (st_id (sc_first c)) None Call None None (fingerprint_for e ap (sc_type c))"
  obtain r s1 where m: "?m s = (r, s1)" by fastforce
  show ?thesis
  proof (cases r)
    case (Inl x)
    then have "s1 = s" using m create_session_cases [of e "sc_token c" "sc_type c"] by (metis fst_conv snd_conv sum.distinct(1))
    then show ?thesis using m Inl assms by (simp add: finish_start_def start_session_def bindE_def)
  next
    case (Inr sid)
    from created_one_more [OF assms m [unfolded Inr]] have
      s1: "one_more sid (count_active s) s1" and sid: "normalize_session_id sid = sid" by auto
    note keep = one_more_visit [of sid, unfolded sid] one_more_update [of sid, unfolded sid]
      one_more_cascade [of sid, unfolded sid]
    have "one_more sid (count_active s) (finish_start e ap c s)"
      unfolding finish_start_def start_session_def bindE_Inr_step [of ?m s sid s1, OF m [unfolded Inr]]
      by (rule keeps_snd [where P = "one_more sid (count_active s)", OF _ s1]) (intro inv_intros keep)
    then show ?thesis using one_more_count by (auto simp: one_more_def)
  qed
qed

section \<open>The bound\<close>

definition within_race_bound :: "nat \<Rightarrow> race \<Rightarrow> bool" where
  "within_race_bound k r \<longleftrightarrow> distinct (map session_id (sessions (rc_world r))) \<and> dom (rc_admitted r) \<subseteq> {..<k} \<and>
     count_active (rc_world r) + card (dom (rc_admitted r)) < ACTIVE_CAP + k"

lemma within_race_bound_step:
  assumes "race_step e ap k r r'" "within_race_bound k r"
  shows "within_race_bound k r'"
  using assms
proof (cases rule: race_step.cases)
  case (admit t wft ctx w st token)
  have "count_active (rc_world r) < ACTIVE_CAP"
    using admit(4) by (auto simp: admit_start_def split: option.splits if_splits sum.splits)
  moreover have sub: "insert t (dom (rc_admitted r)) \<subseteq> {..<k}"
    using assms(2) admit(2) by (auto simp: within_race_bound_def)
  moreover have "card (insert t (dom (rc_admitted r))) \<le> k"
    using card_mono [OF finite_lessThan sub] by simp
  ultimately show ?thesis
    using assms(2) admit(1) by (auto simp: within_race_bound_def)
next
  case (finish t c)
  have fin: "finite (dom (rc_admitted r))" and t: "t \<in> dom (rc_admitted r)"
    using assms(2) finish(2) by (auto simp: within_race_bound_def intro: finite_subset)
  have "card (dom (rc_admitted r) - {t}) + 1 = card (dom (rc_admitted r))"
    using fin t by (metis Suc_eq_plus1 card_Suc_Diff1)
  moreover have "distinct (map session_id (sessions (rc_world r)))"
    using assms(2) by (simp add: within_race_bound_def)
  note start_adds_one [OF this, of e ap c]
  ultimately show ?thesis
    using assms(2) finish(1) by (auto simp: within_race_bound_def)
next
  case (other s')
  with assms(2) show ?thesis by (auto simp: within_race_bound_def)
qed

interpretation races: step_invariant "race_step e ap k" "within_race_bound k"
  for e :: "'e tool_env_scheme" and ap k
  by unfold_locales (rule within_race_bound_step)

definition race_start :: "world \<Rightarrow> race" where
  "race_start s = \<lparr>rc_world = s, rc_admitted = Map.empty\<rparr>"

text \<open>
  C5. Handlers run on threads, and \<open>start_workflow\<close> counts the active sessions in
  one transaction and creates the session in another: with k threads calling it, and anything
  else that makes no session active in between, at most four plus k sessions are ever active or
  about to be. The witness reaches the bound.
\<close>

theorem overlapping_starts_bounded:
  assumes "(race_step e ap k)\<^sup>*\<^sup>* (race_start s) r" "0 < k"
    and "distinct (map session_id (sessions s))" "count_active s \<le> ACTIVE_CAP"
  shows "count_active (rc_world r) + card (dom (rc_admitted r)) \<le> ACTIVE_CAP - 1 + k"
proof -
  have "within_race_bound k (race_start s)"
    using assms(2-4) by (simp add: within_race_bound_def race_start_def)
  with assms(1) have "within_race_bound k r" by (rule races.reach_inv)
  then show ?thesis by (simp add: within_race_bound_def ACTIVE_CAP_def)
qed

text \<open>Four sessions are active, and three threads are admitted before one of them creates its session.\<close>

definition race_env :: tool_env where
  "race_env = demo_env\<lparr>session_cap := 500\<rparr>"

definition four_active :: world where
  "four_active = demo_world (map (\<lambda>i. demo_row i ''essay'' ''plan'') [''s1'', ''s2'', ''s3'', ''s4'']) []"

definition racer :: "string \<Rightarrow> start_call" where
  "racer token = \<lparr>sc_token = token, sc_type = ''essay'', sc_context = [], sc_workflow = essay,
     sc_first = plain_step ''plan''\<rparr>"

lemma racer_admitted:
  "admit_start race_env demo_app (PStr ''essay'') (PStr []) four_active = Inr (essay, plain_step ''plan'')"
  by code_simp

lemma raced_count: "count_active (finish_start race_env demo_app (racer ''c'')
    (finish_start race_env demo_app (racer ''b'') (finish_start race_env demo_app (racer ''a'') four_active))) = 7"
  by code_simp

lemma admit_racer:
  assumes "t < k" "m t = None"
  shows "race_step race_env demo_app k \<lparr>rc_world = four_active, rc_admitted = m\<rparr>
    \<lparr>rc_world = four_active, rc_admitted = m(t \<mapsto> racer token)\<rparr>"
  using race_step.admit [of t k "\<lparr>rc_world = four_active, rc_admitted = m\<rparr>" race_env demo_app "PStr ''essay''" "PStr []"
      essay "plain_step ''plan''" token] assms racer_admitted
  by (simp add: racer_def as_str_def)

lemma finish_racer:
  assumes "m t = Some c"
  shows "race_step race_env demo_app k \<lparr>rc_world = s, rc_admitted = m\<rparr>
    \<lparr>rc_world = finish_start race_env demo_app c s, rc_admitted = m(t := None)\<rparr>"
  using race_step.finish [of "\<lparr>rc_world = s, rc_admitted = m\<rparr>" t c race_env demo_app k] assms by simp

lemma race_reaches_seven:
  "\<exists>r. (race_step race_env demo_app 3)\<^sup>*\<^sup>* (race_start four_active) r \<and> count_active (rc_world r) = 7 \<and>
     rc_admitted r = Map.empty"
proof -
  let ?R = "race_step race_env demo_app 3"
  let ?m = "[0 \<mapsto> racer ''a'', 1 \<mapsto> racer ''b'', 2 \<mapsto> racer ''c'']"
  let ?s = "\<lambda>t s. finish_start race_env demo_app (racer t) s"
  note more = converse_rtranclp_into_rtranclp [of ?R]
  have a: "?R (race_start four_active)
      (\<lparr>rc_world = four_active, rc_admitted = [0 \<mapsto> racer ''a'']\<rparr>)"
    unfolding race_start_def by (rule admit_racer) simp_all
  have b: "?R (\<lparr>rc_world = four_active, rc_admitted = [0 \<mapsto> racer ''a'']\<rparr>)
      (\<lparr>rc_world = four_active, rc_admitted = [0 \<mapsto> racer ''a'', 1 \<mapsto> racer ''b'']\<rparr>)"
    by (rule admit_racer) simp_all
  have c: "?R (\<lparr>rc_world = four_active, rc_admitted = [0 \<mapsto> racer ''a'', 1 \<mapsto> racer ''b'']\<rparr>)
      (\<lparr>rc_world = four_active, rc_admitted = ?m\<rparr>)"
    by (rule admit_racer) simp_all
  have d: "?R (\<lparr>rc_world = four_active, rc_admitted = ?m\<rparr>)
      (\<lparr>rc_world = ?s ''a'' four_active, rc_admitted = ?m(0 := None)\<rparr>)"
    by (rule finish_racer) simp
  have e: "?R (\<lparr>rc_world = ?s ''a'' four_active, rc_admitted = ?m(0 := None)\<rparr>)
      (\<lparr>rc_world = ?s ''b'' (?s ''a'' four_active), rc_admitted = ?m(0 := None, 1 := None)\<rparr>)"
    by (rule finish_racer) simp
  have f: "?R (\<lparr>rc_world = ?s ''b'' (?s ''a'' four_active), rc_admitted = ?m(0 := None, 1 := None)\<rparr>)
      (\<lparr>rc_world = ?s ''c'' (?s ''b'' (?s ''a'' four_active)), rc_admitted = ?m(0 := None, 1 := None, 2 := None)\<rparr>)"
    by (rule finish_racer) simp
  have "?R\<^sup>*\<^sup>* (race_start four_active) (\<lparr>rc_world = ?s ''c'' (?s ''b'' (?s ''a'' four_active)), rc_admitted = ?m(0 := None, 1 := None, 2 := None)\<rparr>)"
    by (rule more [OF a more [OF b more [OF c more [OF d more [OF e more [OF f rtranclp.rtrancl_refl]]]]]])
  then show ?thesis using raced_count by (intro exI conjI) (auto simp: fun_eq_iff)
qed

text \<open>The bound is reached: two sessions above the cap, which the same calls one after another never exceed.\<close>

theorem overlapping_starts_bounded_witness:
  "\<exists>r. (race_step race_env demo_app 3)\<^sup>*\<^sup>* (race_start four_active) r \<and>
     count_active (rc_world r) + card (dom (rc_admitted r)) \<le> ACTIVE_CAP - 1 + 3 \<and>
     count_active (rc_world r) = ACTIVE_CAP - 1 + 3"
proof -
  obtain r where r: "(race_step race_env demo_app 3)\<^sup>*\<^sup>* (race_start four_active) r" "count_active (rc_world r) = 7"
    using race_reaches_seven by blast
  have "distinct (map session_id (sessions four_active))" "count_active four_active \<le> ACTIVE_CAP"
    by code_simp+
  from overlapping_starts_bounded [OF r(1) _ this] r show ?thesis
    by (intro exI [of _ r]) (simp add: ACTIVE_CAP_def)
qed

section \<open>Pushes that overlap\<close>













end
