(* ===== verification/Recorder.thy ===== *)
theory Recorder
  imports PanelProps
begin

text \<open>
  \<^verbatim>\<open>RecordWriter\<close> (\<^verbatim>\<open>record.py\<close>) as the state machine it is: entered, written to, left. A text file of
  Python keeps what was written in a buffer and passes it on when it likes, which is the parameter
  \<open>spill\<close>: how much of the buffer goes to the file at a write.
\<close>

section \<open>The writer\<close>

record writer =
  wr_run_dir :: string
  wr_path :: "string option"
  wr_open :: bool
  wr_buffer :: string
  wr_disk :: "(string, string) dict"

definition new_writer :: "string \<Rightarrow> (string, string) dict \<Rightarrow> writer" where
  "new_writer dir files = \<lparr>wr_run_dir = dir, wr_path = None, wr_open = False, wr_buffer = [], wr_disk = files\<rparr>"

text \<open>Characters moved from the buffer to the end of the open file.\<close>

definition pass_on :: "nat \<Rightarrow> writer \<Rightarrow> writer" where
  "pass_on n s =
     (case wr_path s of
        None \<Rightarrow> s
      | Some p \<Rightarrow> s\<lparr>wr_buffer := drop n (wr_buffer s),
          wr_disk := dput p (dget_or (wr_disk s) p [] @ take n (wr_buffer s)) (wr_disk s)\<rparr>)"

definition flush :: "writer \<Rightarrow> writer" where
  "flush s = pass_on (length (wr_buffer s)) s"

definition writer_enter :: "(string \<Rightarrow> string option) \<Rightarrow> string \<Rightarrow> (writer, unit) act" where
  "writer_enter refuses timestamp s =
     (let p = wr_run_dir s @ ''/'' @ timestamp @ ''.jsonl'' in
      case refuses p of
        Some m \<Rightarrow> (Inl (OSError m), s)
      | None \<Rightarrow>
          (Inr (), flush (s\<lparr>wr_path := Some p, wr_open := True, wr_disk := dput p [] (wr_disk s),
             wr_buffer := record_line SCHEMA_LINE_OBJ\<rparr>)))"

definition writer_write :: "(string \<Rightarrow> nat) \<Rightarrow> pyval \<Rightarrow> (writer, unit) act" where
  "writer_write spill v s =
     (if \<not> wr_open s then (Inl (RuntimeError ''RecordWriter.write() called outside context manager''), s)
      else let b = wr_buffer s @ record_line v in (Inr (), pass_on (spill b) (s\<lparr>wr_buffer := b\<rparr>)))"

definition writer_exit :: "writer \<Rightarrow> writer" where
  "writer_exit s = (if wr_open s then (flush s)\<lparr>wr_open := False\<rparr> else s)"

text \<open>\<open>with RecordWriter(dir) as w:\<close> a body that writes records and may then raise.\<close>

definition with_writer ::
  "(string \<Rightarrow> string option) \<Rightarrow> string \<Rightarrow> (writer, 'a) act \<Rightarrow> (writer, 'a) act" where
  "with_writer refuses timestamp body =
     seqE (writer_enter refuses timestamp) (\<lambda>s. case body s of (r, s') \<Rightarrow> (r, writer_exit s'))"

fun write_all :: "(string \<Rightarrow> nat) \<Rightarrow> pyval list \<Rightarrow> (writer, unit) act" where
  "write_all spill [] = retE ()"
| "write_all spill (v # vs) = seqE (writer_write spill v) (write_all spill vs)"

section \<open>What is in the file\<close>

text \<open>The file and the buffer together are the text written so far.\<close>

definition holds_text :: "string \<Rightarrow> string \<Rightarrow> (string, string) dict \<Rightarrow> writer \<Rightarrow> bool" where
  "holds_text p t files s \<longleftrightarrow> wr_open s \<and> wr_path s = Some p \<and>
     (\<exists>c. dget (wr_disk s) p = Some c \<and> c @ wr_buffer s = t) \<and>
     (\<forall>q. q \<noteq> p \<longrightarrow> dget (wr_disk s) q = dget files q)"

lemma holds_text_pass_on: "holds_text p t files s \<Longrightarrow> holds_text p t files (pass_on n s)"
  by (auto simp: holds_text_def pass_on_def dget_or_def)

lemma write_holds:
  assumes "holds_text p t files s"
  shows "\<exists>s'. writer_write spill v s = (Inr (), s') \<and> holds_text p (t @ record_line v) files s'"
proof -
  let ?s = "s\<lparr>wr_buffer := wr_buffer s @ record_line v\<rparr>"
  have "holds_text p (t @ record_line v) files ?s"
    using assms by (auto simp: holds_text_def)
  from holds_text_pass_on [OF this, of "spill (wr_buffer s @ record_line v)"] assms show ?thesis
    by (intro exI [of _ "pass_on (spill (wr_buffer s @ record_line v)) ?s"])
      (simp add: writer_write_def Let_def holds_text_def)
qed

lemma write_all_holds:
  "holds_text p t files s \<Longrightarrow>
   \<exists>s'. write_all spill vs s = (Inr (), s') \<and> holds_text p (t @ concat (map record_line vs)) files s'"
proof (induction vs arbitrary: t s)
  case (Cons v vs)
  obtain s1 where s1: "writer_write spill v s = (Inr (), s1)" "holds_text p (t @ record_line v) files s1"
    using write_holds [OF Cons.prems] by blast
  from Cons.IH [OF s1(2)] s1(1) show ?case by (auto simp: seqE_def bindE_def)
qed simp

definition record_path :: "string \<Rightarrow> string \<Rightarrow> string" where
  "record_path dir timestamp = dir @ ''/'' @ timestamp @ ''.jsonl''"

lemma enter_holds:
  assumes "refuses (record_path dir timestamp) = None"
  shows "\<exists>s'. writer_enter refuses timestamp (new_writer dir files) = (Inr (), s') \<and>
    holds_text (record_path dir timestamp) (record_line SCHEMA_LINE_OBJ) files s'"
  using assms
  by (simp add: writer_enter_def new_writer_def record_path_def holds_text_def flush_def pass_on_def Let_def dget_or_def)

lemma exit_flushes:
  assumes "holds_text p t files s"
  shows "\<not> wr_open (writer_exit s) \<and> dget (wr_disk (writer_exit s)) p = Some t \<and>
    (\<forall>q. q \<noteq> p \<longrightarrow> dget (wr_disk (writer_exit s)) q = dget files q)"
  using assms by (auto simp: holds_text_def writer_exit_def flush_def pass_on_def dget_or_def)

text \<open>
  C39. Records written inside the with block of a RecordWriter are read back by a RecordReader,
  all of them, in order and equal, whether the block ends or raises and however the operating
  system buffers the file; other files are untouched, and a write after the block raises and
  changes nothing.
\<close>

theorem writer_file_reads_back:
  assumes "refuses (record_path dir timestamp) = None" and "list_all json_value vs"
  shows "\<exists>s'. with_writer refuses timestamp (seqE (write_all spill vs) (\<lambda>s. (r, s))) (new_writer dir files) = (r, s') \<and>
    \<not> wr_open s' \<and> (\<forall>q. q \<noteq> record_path dir timestamp \<longrightarrow> dget (wr_disk s') q = dget files q) \<and>
    (\<exists>c. dget (wr_disk s') (record_path dir timestamp) = Some c \<and>
       read_records (record_path dir timestamp) c = (vs, None)) \<and>
    fst (writer_write spill v s') = Inl (RuntimeError ''RecordWriter.write() called outside context manager'') \<and>
    snd (writer_write spill v s') = s'"
proof -
  let ?p = "record_path dir timestamp"
  obtain s1 where s1: "writer_enter refuses timestamp (new_writer dir files) = (Inr (), s1)"
    "holds_text ?p (record_line SCHEMA_LINE_OBJ) files s1" using enter_holds [where refuses = refuses, OF assms(1)] by blast
  obtain s2 where s2: "write_all spill vs s1 = (Inr (), s2)" "holds_text ?p (record_file vs) files s2"
    using write_all_holds [OF s1(2)] unfolding record_file_def by blast
  from exit_flushes [OF s2(2)] have "\<not> wr_open (writer_exit s2)"
    "dget (wr_disk (writer_exit s2)) ?p = Some (record_file vs)"
    "\<forall>q. q \<noteq> ?p \<longrightarrow> dget (wr_disk (writer_exit s2)) q = dget files q" by blast+
  with s1(1) s2(1) record_file_round_trip [OF assms(2), of ?p] show ?thesis
    by (simp add: with_writer_def seqE_def bindE_def writer_write_def)
qed

text \<open>A process that stops between two writes leaves the beginning of that text.\<close>

lemma stopped_file_is_a_prefix:
  assumes "refuses (record_path dir timestamp) = None"
  shows "\<exists>s' c rest. seqE (writer_enter refuses timestamp) (write_all spill vs) (new_writer dir files) = (Inr (), s') \<and>
    dget (wr_disk s') (record_path dir timestamp) = Some c \<and> c @ rest = record_file vs"
proof -
  obtain s1 where s1: "writer_enter refuses timestamp (new_writer dir files) = (Inr (), s1)"
    "holds_text (record_path dir timestamp) (record_line SCHEMA_LINE_OBJ) files s1" using enter_holds [where refuses = refuses, OF assms] by blast
  from write_all_holds [OF s1(2), of spill vs] s1(1) show ?thesis
    by (auto simp: holds_text_def record_file_def seqE_def bindE_def)
qed

theorem writer_file_reads_back_witness:
  "\<exists>s'. with_writer (\<lambda>_. None) ''t'' (seqE (write_all (\<lambda>_. 3) [PInt 1, PNone]) (\<lambda>s. (Inl NoReturn, s))) (new_writer ''runs'' [(''a'', ''x'')]) =
      (Inl NoReturn :: exn + unit, s') \<and>
    (\<exists>c. dget (wr_disk s') ''runs/t.jsonl'' = Some c \<and> read_records ''runs/t.jsonl'' c = ([PInt 1, PNone], None))"
proof -
  have p: "record_path ''runs'' ''t'' = ''runs/t.jsonl''" by (simp add: record_path_def)
  have "list_all json_value [PInt 1, PNone]" by simp
  from writer_file_reads_back [where refuses = "\<lambda>_. None" and dir = "''runs''" and timestamp = "''t''" and
      spill = "\<lambda>_. 3" and r = "Inl NoReturn :: exn + unit" and files = "[(''a'', ''x'')]" and v = PNone, OF refl this]
  show ?thesis unfolding p by (elim exE conjE) (intro exI conjI, assumption+)
qed

end
