(* ===== verification/Smoke.thy ===== *)
theory Smoke
  imports Reading Scenario
begin

text \<open>
  The smoke tests: \<^verbatim>\<open>scripts/smoke_endpoint.py\<close> against a URL or a server started in the process,
  \<^verbatim>\<open>ci/mcp_smoke.py\<close> with the MCP client against the stub of \<^verbatim>\<open>mcp_stub\<close>, and the text scan of
  \<^verbatim>\<open>benchmarks/conftest.py\<close>. Their output goes to the terminal of the dry run's model, whose
  server is whatever they talk to; the result is the exit status.
\<close>

section \<open>smoke\_endpoint.py\<close>

fun entry_names :: "pyval list \<Rightarrow> exn + pyval list" where
  "entry_names [] = Inr []"
| "entry_names (w # ws) =
     (case (is_dict w, pget w ''name'') of
        (True, Some n) \<Rightarrow> map_sum id (\<lambda>ns. n # ns) (entry_names ws)
      | _ \<Rightarrow> Inl (ValueError (''workflow entry missing '' @ quoted ''name'')))"

definition extract_names :: "pyval \<Rightarrow> exn + pyval list" where
  "extract_names payload =
     (if \<not> is_dict payload then Inl (ValueError (''expected dict, got '' @ type_name payload))
      else (case pget payload ''workflows'' of
         Some (PList wfs) \<Rightarrow> entry_names wfs
       | _ \<Rightarrow> Inl (ValueError (''missing or non-list '' @ quoted ''workflows'' @ '' field''))))"

text \<open>
  What a call of \<open>list_workflows\<close> gives back: the two attributes of the result the script reads, in
  this order.
\<close>

record call_result =
  res_data :: pyval
  res_structured :: pyval

definition fetch_names_http :: "(string \<Rightarrow> exn + call_result) \<Rightarrow> string \<Rightarrow> exn + pyval list" where
  "fetch_names_http endpoint u =
     andThen (endpoint u) (\<lambda>r. extract_names (if res_data r = PNone then res_structured r else res_data r))"

text \<open>Local mode: \<open>create_app\<close> on the directory, then the tool, called in the process.\<close>

definition fetch_names_local ::
  "(string option \<Rightarrow> exn + server_app) \<Rightarrow> (server_app \<Rightarrow> exn + pyval) \<Rightarrow> string option \<Rightarrow> exn + pyval list" where
  "fetch_names_local start tool dir = andThen (start dir) (\<lambda>srv. andThen (tool srv) extract_names)"

record smoke_args =
  sm_target :: string
  sm_expected :: "string list"
  sm_dir :: "string option"

definition is_http_target :: "string \<Rightarrow> bool" where
  "is_http_target t \<longleftrightarrow> starts_with t ''http://'' \<or> starts_with t ''https://''"

text \<open>\<open>', '.join(sorted(names)) or 'none'\<close>: names of other types raise, in one of the two calls.\<close>

definition sorted_names :: "pyval list \<Rightarrow> exn + string" where
  "sorted_names names =
     (if names = [] then Inr ''none''
      else if list_all is_str names then
        Inr (let t = join '', '' (sort (map py_str names)) in if t = [] then ''none'' else t)
      else Inl (TypeError ''names are not all strings''))"

definition smoke_main ::
  "(string \<Rightarrow> exn + call_result) \<Rightarrow> (string option \<Rightarrow> exn + server_app) \<Rightarrow> (server_app \<Rightarrow> exn + pyval) \<Rightarrow>
   smoke_args \<Rightarrow> ('w repl, int) act" where
  "smoke_main endpoint start tool a =
     (case (if is_http_target (sm_target a) then fetch_names_http endpoint (sm_target a)
            else fetch_names_local start tool (case sm_dir a of Some d \<Rightarrow> if d \<noteq> [] then Some d else None | None \<Rightarrow> None)) of
        Inl x \<Rightarrow> seqE (warn (''ERROR: '' @ sm_target a @ '': '' @ Dryrun.exn_str x)) (retE 1)
      | Inr names \<Rightarrow>
          (let missing = filter (\<lambda>n. \<not> list_ex (\<lambda>v. py_eq v (PStr n)) names) (sm_expected a) in
           if missing \<noteq> [] then
             bindE (liftE (sorted_names names)) (\<lambda>present.
               seqE (warn (''ERROR: missing expected workflow(s) at '' @ sm_target a @ '': '' @ join '', '' missing
                  @ '' (present: '' @ present @ '')''))
                 (retE 1))
           else
             seqE (say (''OK: all '' @ str_nat (length (sm_expected a)) @ '' expected workflow(s) present at '' @ sm_target a))
               (retE 0)))"

text \<open>The tool in the process: the application of the started server, without a caller.\<close>

definition list_in_process :: "'e tool_env_scheme \<Rightarrow> server_app \<Rightarrow> exn + pyval" where
  "list_in_process e srv =
     (case read_app srv ANONYMOUS_IDENTITY of
        None \<Rightarrow> Inl NoReturn
      | Some ap \<Rightarrow> fst (list_workflows e ap (PStr []) empty_world))"

lemma entry_names_items: "entry_names (map workflow_item ws) = Inr (map (\<lambda>x. PStr (fst x)) ws)"
  by (induction ws) (simp_all add: workflow_item_def)

lemma listed_names:
  assumes "read_app srv ANONYMOUS_IDENTITY = Some ap"
  shows "andThen (list_in_process e srv) extract_names = Inr (map (\<lambda>x. PStr (fst x)) (srv_workflows srv))"
proof -
  from assms have ws: "read_workflows (srv_workflows srv) = Some (app_workflows ap)" by (auto simp: read_app_def)
  have "map (\<lambda>x. PStr (fst x)) (app_workflows ap) = map (\<lambda>x. PStr (fst x)) (srv_workflows srv)"
    using arg_cong [OF read_workflows_names [OF ws], of "map PStr"] by (simp add: comp_def)
  then show ?thesis
    using assms by (simp add: list_in_process_def list_workflows_def trap_errors_def guard_args_def check_str_def
        as_str_def extract_names_def entry_names_items retE_def)
qed

lemma py_eq_str: "py_eq v (PStr n) \<longleftrightarrow> v = PStr n"
  by (cases v) (auto split: option.splits)

definition smoke_in_process ::
  "'e tool_env_scheme \<Rightarrow> check_schema \<Rightarrow> file_system \<Rightarrow> environ \<Rightarrow> (string \<Rightarrow> exn + call_result) \<Rightarrow>
   smoke_args \<Rightarrow> ('w repl, int) act" where
  "smoke_in_process e check fs env endpoint =
     smoke_main endpoint (\<lambda>dir. start_server e check fs env dir None) (list_in_process e)"

text \<open>
  In local mode the smoke test succeeds exactly when the server starts on the directory and has
  a workflow of every expected name, and it prints to one stream only.
\<close>

theorem smoke_local_verdict:
  assumes target: "\<not> is_http_target (sm_target a)"
    and reads: "\<And>srv. start_server e check fs env (sm_dir a) None = Inr srv \<Longrightarrow> read_app srv ANONYMOUS_IDENTITY \<noteq> None"
    and result: "smoke_in_process e check fs env endpoint a s = (r, s')"
  shows "r \<in> {Inr 0, Inr 1} \<and>
    (r = Inr 0 \<longleftrightarrow> (\<exists>srv. start_server e check fs env (sm_dir a) None = Inr srv \<and>
       set (sm_expected a) \<subseteq> fst ` set (srv_workflows srv))) \<and>
    (if r = Inr 0 then rp_err s' = rp_err s else rp_out s' = rp_out s)"
proof -
  let ?start = "\<lambda>dir. start_server e check fs env dir None"
  have dir: "?start (case sm_dir a of Some d \<Rightarrow> if d \<noteq> [] then Some d else None | None \<Rightarrow> None) = ?start (sm_dir a)"
    by (auto simp: start_server_def given_or_def split: option.split)
  show ?thesis
  proof (cases "?start (sm_dir a)")
    case (Inl x)
    then have "r = Inr 1 \<and> rp_out s' = rp_out s"
      using target result
      by (auto simp: smoke_in_process_def smoke_main_def fetch_names_local_def dir seqE_def bindE_def warn_def)
    with Inl show ?thesis by simp
  next
    case (Inr srv)
    with reads obtain ap where "read_app srv ANONYMOUS_IDENTITY = Some ap" by blast
    then have fetched: "fetch_names_local ?start (list_in_process e)
        (case sm_dir a of Some d \<Rightarrow> if d \<noteq> [] then Some d else None | None \<Rightarrow> None) =
        Inr (map (\<lambda>x. PStr (fst x)) (srv_workflows srv))"
      using Inr listed_names by (simp add: fetch_names_local_def dir)
    have miss: "filter (\<lambda>n. \<not> list_ex (\<lambda>v. py_eq v (PStr n)) (map (\<lambda>x. PStr (fst x)) (srv_workflows srv))) (sm_expected a) = []
        \<longleftrightarrow> set (sm_expected a) \<subseteq> fst ` set (srv_workflows srv)"
      by (auto simp: filter_empty_conv list_ex_iff py_eq_str)
    have "\<exists>t. sorted_names (map (\<lambda>x. PStr (fst x)) (srv_workflows srv)) = Inr t"
      by (auto simp: sorted_names_def list_all_iff Let_def)
    then show ?thesis
      using target fetched Inr result
      by (auto simp: smoke_in_process_def smoke_main_def Let_def miss [symmetric] seqE_def bindE_def warn_def say_def
          split: if_splits)
  qed
qed

definition smoke_digest :: "string list \<Rightarrow> (exn + int) \<times> unit repl" where
  "smoke_digest names = smoke_in_process demo_env (\<lambda>_. None) digest_fs (\<lambda>_. None) (\<lambda>_. Inl NoReturn)
     \<lparr>sm_target = ''local'', sm_expected = names, sm_dir = None\<rparr>
     \<lparr>rp_server = (), rp_out = [], rp_err = [], rp_in = [], rp_script = None\<rparr>"

text \<open>Of its environment a start uses the hash only.\<close>

lemma load_all_env:
  "sha256_hex e = sha256_hex e' \<Longrightarrow> load_all e check reg xs wfs fps = load_all e' check reg xs wfs fps"
  by (induction xs arbitrary: wfs fps) (auto simp: workflow_fingerprint_of_def split: sum.split option.split pyval.split)

lemma start_server_env:
  "sha256_hex e = sha256_hex e' \<Longrightarrow>
   start_server e check fs env dir reg_path = start_server e' check fs env dir reg_path"
  unfolding start_server_def create_app_def by (simp add: load_all_env [of e e'])

lemma digest_starts_demo: "start_server demo_env (\<lambda>_. None) digest_fs (\<lambda>_. None) dir None = Inr digest_server"
  using digest_server_starts start_server_env [of demo_env plain_base] by (simp add: demo_env_def plain_base_def)

theorem smoke_local_verdict_witness:
  "fst (smoke_digest [''w'']) = Inr 0 \<and> fst (smoke_digest [''v'']) = Inr 1"
proof -
  have reads: "read_app srv ANONYMOUS_IDENTITY \<noteq> None"
    if "start_server demo_env (\<lambda>_. None) digest_fs (\<lambda>_. None) dir None = Inr srv" for srv dir
    using that digest_reads by (auto simp: digest_starts_demo)
  have names: "fst ` set (srv_workflows digest_server) = {''w''}"
    by (simp add: digest_server_def digest_app_def)
  have target: "\<not> is_http_target (sm_target \<lparr>sm_target = ''local'', sm_expected = names, sm_dir = None\<rparr>)" for names
    by (simp add: is_http_target_def)
  have "fst (smoke_digest ns) \<in> {Inr 0, Inr 1} \<and> (fst (smoke_digest ns) = Inr 0 \<longleftrightarrow> set ns \<subseteq> {''w''})" for ns
    using smoke_local_verdict [OF target [of ns] reads surjective_pairing, where endpoint = "\<lambda>_. Inl NoReturn" and e = demo_env
        and check = "\<lambda>_. None" and fs = digest_fs and env = "\<lambda>_. None"
        and s = "\<lparr>rp_server = (), rp_out = [], rp_err = [], rp_in = [], rp_script = None\<rparr>"]
    by (auto simp: smoke_digest_def digest_starts_demo names)
  from this [of "[''w'']"] this [of "[''v'']"] show ?thesis by auto
qed

section \<open>The stub (mcp\_stub/tools.py)\<close>

definition stub_echo :: "string \<Rightarrow> exn + string" where
  "stub_echo value = Inr value"

definition stub_fail :: "string \<Rightarrow> exn + string" where
  "stub_fail message = Inl (LibraryError message)"

definition stub_schema_required :: "int \<Rightarrow> exn + string" where
  "stub_schema_required n = Inr (''count='' @ str_int n)"

definition stub_sleep :: "decimal \<Rightarrow> exn + string" where
  "stub_sleep seconds = Inr (''slept='' @ dump_float (fst seconds) (snd seconds))"

text \<open>
  Serving a tool is FastMCP's: a returned text is one text block, a \<^verbatim>\<open>ToolError\<close> an error result.
\<close>

definition served_result :: "exn + string \<Rightarrow> tool_result" where
  "served_result r =
     (case r of
        Inr t \<Rightarrow> \<lparr>is_error = False, content_blocks = [Some t]\<rparr>
      | Inl x \<Rightarrow> \<lparr>is_error = True, content_blocks = [Some (Dryrun.exn_str x)]\<rparr>)"

definition stub_serves :: "'e net_env_scheme \<Rightarrow> bool" where
  "stub_serves e \<longleftrightarrow>
     (\<forall>n sv tok t v. net_call e n sv tok t ''echo'' (PDict [(''value'', PStr v)]) = Inr (served_result (stub_echo v))) \<and>
     (\<forall>n sv tok t v. net_call e n sv tok t ''fail'' (PDict [(''message'', PStr v)]) = Inr (served_result (stub_fail v))) \<and>
     (\<forall>n sv tok t. \<exists>tools schema. net_list e n sv tok t = Inr tools \<and> find_input_schema ''echo'' tools = Inr schema \<and>
        draft7_compile e schema = None \<and> (\<forall>v. draft7_validate e schema (PDict [(''value'', PStr v)]) = None))"

section \<open>mcp\_smoke.py\<close>

definition TOKEN_ENV :: string where "TOKEN_ENV = ''MCP_STUB_TOKEN_UNUSED''"

text \<open>\<open>os.environ.setdefault(_TOKEN_ENV, "unused")\<close>\<close>

definition with_token :: "'e net_env_scheme \<Rightarrow> 'e net_env_scheme" where
  "with_token e =
     e\<lparr>getenv := (\<lambda>k. if k = TOKEN_ENV \<and> getenv e k = None then Some ''unused'' else getenv e k)\<rparr>"

definition stub_registry :: "string \<Rightarrow> registry" where
  "stub_registry u = [(''stub'', \<lparr>server_name = ''stub'', url = u, transport = ''http'',
     auth = \<lparr>auth_type = ''bearer'', token_env = TOKEN_ENV\<rparr>, timeout_default = Some (10, 0)\<rparr>)]"

definition load_stub_registry :: "'e net_env_scheme \<Rightarrow> ('w repl, registry) act" where
  "load_stub_registry e =
     (case given_or (getenv e ''MCP_STUB_URL'') [] of
        [] \<Rightarrow> seqE (warn (''error: MCP_STUB_URL env var is required. Set the GitHub secret MCP_STUB_URL to the deployed ''
            @ ''Horizon URL, e.g. https://<stub>.fastmcp.app/mcp'')) (sys_exit 2)
      | u \<Rightarrow> retE (stub_registry u))"

definition outcome_kind :: "call_outcome \<Rightarrow> string" where
  "outcome_kind out =
     (case out of
        Ok _ \<Rightarrow> ''ok'' | ToolExecutionError _ \<Rightarrow> ''tool_execution_error'' | TransportError _ \<Rightarrow> ''transport_error''
      | ProtocolError _ \<Rightarrow> ''protocol_error'' | SchemaValidationError _ \<Rightarrow> ''schema_validation_error''
      | TimeoutError \<Rightarrow> ''timeout'')"

text \<open>\<open>{"kind": outcome.kind, **asdict(outcome)}\<close>, with the measured duration, and \<open>json.dumps(..., indent=2)\<close> of it.\<close>

definition outcome_envelope :: "pyval \<Rightarrow> call_outcome \<Rightarrow> (string \<times> pyval) list" where
  "outcome_envelope duration out =
     (''kind'', PStr (outcome_kind out)) #
     (case out of
        Ok v \<Rightarrow> [(''value'', PStr v)] | ToolExecutionError m \<Rightarrow> [(''message'', PStr m)]
      | TransportError d \<Rightarrow> [(''detail'', PStr d)] | ProtocolError d \<Rightarrow> [(''detail'', PStr d)]
      | SchemaValidationError d \<Rightarrow> [(''detail'', PStr d)] | TimeoutError \<Rightarrow> [])
     @ [(''duration_ms'', duration)]"

definition dumps_indent2 :: "(string \<times> pyval) list \<Rightarrow> string" where
  "dumps_indent2 fs =
     ''{'' @ [CHR 0x0A] @ join ('','' @ [CHR 0x0A])
       (map (\<lambda>x. ''  '' @ dump_str True (fst x) @ '': '' @ json_dumps (snd x)) fs) @ [CHR 0x0A] @ ''}''"

definition call_client :: "(client, 'a) act \<Rightarrow> (client repl, 'a) act" where
  "call_client m s = (case m (rp_server s) of (r, c) \<Rightarrow> (r, s\<lparr>rp_server := c\<rparr>))"

definition mcp_smoke_main :: "'e net_env_scheme \<Rightarrow> pyval \<Rightarrow> (client repl, int) act" where
  "mcp_smoke_main e duration =
     bindE (load_stub_registry e) (\<lambda>reg.
     bindE (call_client (mcp_call (with_token e) ''stub'' ''echo'' (PDict [(''value'', PStr ''ci-smoke'')]) reg None)) (\<lambda>out.
     seqE (say (dumps_indent2 (outcome_envelope duration out)))
       (case out of
          Ok v \<Rightarrow>
            if v \<noteq> ''ci-smoke'' then
              seqE (say (''RESULT: FAIL (ok but value mismatch: '' @ repr_str v @ '')'')) (retE 1)
            else seqE (say ''RESULT: PASS (ok)'') (retE 0)
        | _ \<Rightarrow> seqE (say (''RESULT: FAIL ('' @ outcome_kind out @ '')'')) (retE 1))))"

lemma stub_answers:
  assumes stub: "stub_serves e" and token: "getenv e (token_env (auth sv)) \<noteq> None"
    and cache: "map_of (validator_cache c) (''stub'', ''echo'') = None"
  shows "\<exists>c'. call_with_validation_async e ''stub'' sv ''echo'' (PDict [(''value'', PStr v)]) t c = (Inr (Ok v), c') \<and>
    net_ops c' = net_ops c + 2"
proof -
  from token obtain tok where tok: "getenv e (token_env (auth sv)) = Some tok" by auto
  from stub obtain tools schema where list: "net_list e (net_ops c) sv tok t = Inr tools"
    "find_input_schema ''echo'' tools = Inr schema" "draft7_compile e schema = None"
    "draft7_validate e schema (PDict [(''value'', PStr v)]) = None"
    unfolding stub_serves_def by metis
  have "net_call e n sv tok t ''echo'' (PDict [(''value'', PStr v)]) = Inr (served_result (stub_echo v))" for n
    using stub unfolding stub_serves_def by blast
  then show ?thesis
    by (simp add: call_with_validation_async_def cache fetch_input_schema_def tok list Let_def validated_call_def
        validate_args_def call_async_def served_result_def stub_echo_def classify_result_def flatten_text_blocks_def
        List.map_filter_def)
qed

text \<open>
  Against the stub, as FastMCP serves it, the nightly smoke passes: the value echoed comes back
  through schema fetch, validation, call and classification, in one attempt of two requests.
\<close>

theorem mcp_smoke_passes:
  assumes stub: "stub_serves e" and u: "getenv e ''MCP_STUB_URL'' = Some u" "u \<noteq> []"
    and fresh: "validator_cache (rp_server s) = []"
  shows "\<exists>s'. mcp_smoke_main e duration s = (Inr 0, s') \<and> net_ops (rp_server s') = net_ops (rp_server s) + 2 \<and>
    last (rp_out s') = ''RESULT: PASS (ok)''"
proof -
  have served: "stub_serves (with_token e)" using stub by (simp add: stub_serves_def with_token_def)
  let ?sv = "snd (hd (stub_registry u))"
  have token: "getenv (with_token e) (token_env (auth ?sv)) \<noteq> None"
    by (simp add: with_token_def stub_registry_def)
  from stub_answers [OF served token, of "rp_server s" "''ci-smoke''" "client_timeout None ?sv"] fresh obtain c' where
    once: "call_with_validation_async (with_token e) ''stub'' ?sv ''echo'' (PDict [(''value'', PStr ''ci-smoke'')])
      (client_timeout None ?sv) (rp_server s) = (Inr (Ok ''ci-smoke''), c')" "net_ops c' = net_ops (rp_server s) + 2"
    by auto
  have "mcp_call (with_token e) ''stub'' ''echo'' (PDict [(''value'', PStr ''ci-smoke'')]) (stub_registry u) None (rp_server s) =
      (Inr (Ok ''ci-smoke''), c')"
    using once(1) by (simp add: mcp_call_def registry_get_def stub_registry_def call_with_retry_async_def
        retry_loop.simps)
  moreover have "load_stub_registry e s = (Inr (stub_registry u), s)"
    using u by (cases u) (simp_all add: load_stub_registry_def given_or_def retE_def)
  ultimately show ?thesis
    using once(2) by (simp add: mcp_smoke_main_def bindE_def seqE_def call_client_def say_def)
qed

theorem mcp_smoke_passes_witness:
  "\<exists>s'. mcp_smoke_main (demo_env\<lparr>getenv := (\<lambda>_. Some ''https://stub''),
      net_call := (\<lambda>n sv tok t tool args.
        (case (tool = ''echo'', pget args ''value'', pget args ''message'') of
           (True, Some (PStr v), _) \<Rightarrow> Inr (served_result (stub_echo v))
         | (_, _, Some (PStr m)) \<Rightarrow> Inr (served_result (stub_fail m))
         | _ \<Rightarrow> Inl (ToolErrorExc ''Unknown tool'')))\<rparr>) (PFloat 5 1)
      \<lparr>rp_server = \<lparr>validator_cache = [], net_ops = 0\<rparr>, rp_out = [], rp_err = [], rp_in = [], rp_script = None\<rparr> = (Inr 0, s')"
proof -
  let ?e = "demo_env\<lparr>getenv := (\<lambda>_. Some ''https://stub''),
      net_call := (\<lambda>n sv tok t tool args.
        (case (tool = ''echo'', pget args ''value'', pget args ''message'') of
           (True, Some (PStr v), _) \<Rightarrow> Inr (served_result (stub_echo v))
         | (_, _, Some (PStr m)) \<Rightarrow> Inr (served_result (stub_fail m))
         | _ \<Rightarrow> Inl (ToolErrorExc ''Unknown tool'')))\<rparr>"
  have "stub_serves ?e"
    by (simp add: stub_serves_def demo_env_def find_input_schema_def phas_def)
  from mcp_smoke_passes [OF this, where u = "''https://stub''" and duration = "PFloat 5 1"
      and s = "\<lparr>rp_server = \<lparr>validator_cache = [], net_ops = 0\<rparr>, rp_out = [], rp_err = [], rp_in = [], rp_script = None\<rparr>"]
  show ?thesis by (simp add: demo_env_def) blast
qed

section \<open>The scan of the benchmarks (benchmarks/conftest.py)\<close>

definition FORBIDDEN :: "string list" where
  "FORBIDDEN = [''fastmcp.client'', ''from fastmcp import Client'']"

definition scan_for_forbidden :: "string \<Rightarrow> (string \<times> string) list \<Rightarrow> (string \<times> string) list" where
  "scan_for_forbidden self sources =
     concat (map (\<lambda>(path, text). if path = self then []
       else map (Pair path) (filter (contains text) FORBIDDEN)) sources)"

lemma scan_finds:
  "(path, needle) \<in> set (scan_for_forbidden self sources) \<longleftrightarrow>
     path \<noteq> self \<and> needle \<in> set FORBIDDEN \<and> (\<exists>text. (path, text) \<in> set sources \<and> contains text needle)"
  by (auto simp: scan_for_forbidden_def)

text \<open>A client reached through the module is not seen.\<close>

lemma scan_misses_attribute:
  "scan_for_forbidden ''conftest.py'' [(''bench.py'', ''import fastmcp; fastmcp.Client(u)'')] = []"
  by code_simp

end
