(* ===== verification/Logs.thy ===== *)
theory Logs
  imports StackProps Smoke "HOL-Library.Multiset"
begin

text \<open>
  What the server writes to its logs about sessions and calls: the eviction line of \<^verbatim>\<open>state.py\<close> and
  the line that ends a client call (\<^verbatim>\<open>mcp_client.py\<close>). Identifiers and arguments appear as prefixes
  of a hash only.
\<close>

section \<open>Evictions\<close>

definition log_eviction :: "'e base_env_scheme \<Rightarrow> string \<Rightarrow> string list \<Rightarrow> (string \<times> pyval) list \<Rightarrow> pyval" where
  "log_eviction e reason ids extra =
     PDict ([(''event'', PStr ''session_eviction''), (''reason'', PStr reason), (''count'', PInt (int (length ids))),
       (''session_fingerprints'', PList (map (PStr \<circ> compute_fingerprint e) (take 10 ids)))] @ extra)"

text \<open>The ids \<^verbatim>\<open>create_session\<close> evicts; the line is written after the commit, if there are any.\<close>

definition evicted_ids :: "int \<Rightarrow> 'a db_scheme \<Rightarrow> string list" where
  "evicted_ids most d =
     (let n = int (length (sessions d)) in
      if most \<le> n then map session_id (take (nat (n - (most - 1))) (sort_key eviction_key (sessions d))) else [])"

definition create_log :: "'e base_env_scheme \<Rightarrow> 'a db_scheme \<Rightarrow> exn + string \<Rightarrow> pyval list" where
  "create_log e d r =
     (case r of
        Inl _ \<Rightarrow> []
      | Inr _ \<Rightarrow>
          if evicted_ids (session_cap e) d = [] then []
          else [log_eviction e ''cap_exceeded'' (evicted_ids (session_cap e) d) [(''session_cap'', PInt (session_cap e))]])"

definition expire_log :: "'e base_env_scheme \<Rightarrow> int \<Rightarrow> string list \<Rightarrow> pyval list" where
  "expire_log e ttl_hours ids =
     (if ids = [] then [] else [log_eviction e ''ttl_expired'' ids [(''ttl_hours'', PInt ttl_hours)]])"

lemma evict_is_logged: "evict_over_cap most d = del_rows (evicted_ids most d) d"
  by (auto simp: evict_over_cap_def evicted_ids_def Let_def del_rows_def)

text \<open>The line counts the rows that went, and every fingerprint on it is that of a row that went.\<close>

lemma create_logs_what_it_evicts:
  assumes "rows_ok d" and "create_session e token wft cur None ft csid m fp d = (Inr sid, d')" and "1 \<le> session_cap e"
  shows "int (length (sessions d')) + int (length (evicted_ids (session_cap e) d)) = int (length (sessions d)) + 1 \<and>
    set (evicted_ids (session_cap e) d) \<subseteq> session_id ` set (sessions d)"
proof -
  let ?cap = "session_cap e"
  have rows: "length (sessions d') = Suc (length (sessions (evict_over_cap ?cap d)))"
    using create_session_rows(1) [OF assms(2)] by simp
  have "int (length (sessions (evict_over_cap ?cap d))) + int (length (evicted_ids ?cap d)) = int (length (sessions d))"
  proof (cases "?cap \<le> int (length (sessions d))")
    case True
    with evict_survivors(2) [OF assms(1) True] assms(3) show ?thesis
      by (simp add: survivors_def evicted_ids_def Let_def)
  next
    case False
    then show ?thesis by (simp add: evict_over_cap_def evicted_ids_def)
  qed
  moreover have "set (evicted_ids ?cap d) \<subseteq> session_id ` set (sessions d)"
    by (auto simp: evicted_ids_def Let_def dest!: in_set_takeD split: if_splits)
  ultimately show ?thesis using rows by simp
qed

section \<open>Client calls\<close>

definition arg_fingerprint :: "'e base_env_scheme \<Rightarrow> pyval \<Rightarrow> string" where
  "arg_fingerprint e args = take 8 (sha256_hex e (dump (default_format\<lparr>sort_keys := True\<rparr>) args))"

text \<open>The fingerprint does not depend on the order of the arguments.\<close>

lemma arg_fingerprint_order:
  assumes "mset xs = mset ys" "distinct (map fst xs)"
  shows "arg_fingerprint e (PDict xs) = arg_fingerprint e (PDict ys)"
proof -
  let ?f = "default_format\<lparr>sort_keys := True\<rparr>"
  let ?items = "map (\<lambda>x. (fst x, dump ?f (snd x)))"
  have "mset (?items xs) = mset (?items ys)" using assms(1) by simp
  moreover have "inj_on fst (set (?items xs))"
    using assms(2) by (auto simp: distinct_map inj_on_def)
  ultimately have "sort_key fst (?items xs) = sort_key fst (?items ys)"
    by (intro sort_key_inj_key_eq) simp_all
  then show ?thesis by (simp add: arg_fingerprint_def default_format_def)
qed

text \<open>The line that ends a call: its level, its message and its fields.\<close>

definition terminal_log ::
  "'e base_env_scheme \<Rightarrow> string \<Rightarrow> string \<Rightarrow> pyval \<Rightarrow> call_outcome \<Rightarrow> pyval \<Rightarrow> nat \<Rightarrow> pyval \<Rightarrow>
   string \<times> string \<times> (string \<times> pyval) list" where
  "terminal_log e server_name' tool args out duration attempts total_ms =
     (let fs = [(''server'', PStr server_name'), (''tool'', PStr tool), (''duration_ms'', duration),
          (''outcome'', PStr (outcome_kind out)), (''arg_fingerprint'', PStr (arg_fingerprint e args)),
          (''attempt'', PInt (int attempts)), (''total_ms'', total_ms)] in
      case out of
        Ok _ \<Rightarrow> (''info'', ''mcp call terminal success'', fs)
      | TransportError d \<Rightarrow>
          if RETRY_MAX_ATTEMPTS \<le> attempts then
            (''warning'', ''mcp call terminal failure'', fs @ [(''detail'', PStr d)])
          else (''info'', ''mcp call'', fs)
      | TimeoutError \<Rightarrow>
          if RETRY_MAX_ATTEMPTS \<le> attempts then
            (''warning'', ''mcp call terminal failure'', fs @ [(''detail'', PStr ''timeout'')])
          else (''info'', ''mcp call'', fs)
      | _ \<Rightarrow> (''info'', ''mcp call'', fs))"

end
