(* ===== verification/Bench.thy ===== *)
theory Bench
  imports StackProps Smoke
begin

text \<open>
  The benchmark bodies (\<^verbatim>\<open>benchmarks\<close>): programs over the tools that assert on the answers. Timing,
  rounds and fixtures are the harness's; here one round is run on the model of the tools.
\<close>

section \<open>Calls that assert\<close>

text \<open>\<open>assert r.get("code") is None, r\<close>\<close>

definition assert_no_code :: "pyval \<Rightarrow> (world, unit) act" where
  "assert_no_code r =
     (case pget r ''code'' of
        None \<Rightarrow> retE ()
      | Some v \<Rightarrow> if v = PNone then retE () else raiseE (AssertionError (py_repr r)))"

section \<open>bench\_subworkflow.py\<close>

definition bench_step :: "string \<Rightarrow> string \<Rightarrow> step" where
  "bench_step i title = (plain_step i)\<lparr>st_title := PStr title, st_directive_template := Some (PStr i),
     st_gates := Some (PList [PStr ''done''])\<rparr>"

definition bench_workflow :: "string \<Rightarrow> string \<Rightarrow> step list \<Rightarrow> workflow" where
  "bench_workflow name description ss =
     (plain_workflow name ss)\<lparr>wf_description := PStr description, wf_category := ''bench''\<rparr>"

definition OUTER :: string where "OUTER = ''bench_push_outer''"

definition DIGRESSION :: string where "DIGRESSION = ''bench_push_digression''"

definition outer_wf :: workflow where
  "outer_wf = bench_workflow OUTER ''bench outer linear workflow'' [bench_step ''o1'' ''O1'', bench_step ''o2'' ''O2'']"

definition digression_wf :: workflow where
  "digression_wf = bench_workflow DIGRESSION ''bench digression workflow'' [bench_step ''d1'' ''D1'']"

definition register_push_fixtures :: "app \<Rightarrow> app" where
  "register_push_fixtures ap =
     ap\<lparr>app_workflows := dput DIGRESSION digression_wf (dput OUTER outer_wf (app_workflows ap))\<rparr>"

definition start_outer :: "'e tool_env_scheme \<Rightarrow> app \<Rightarrow> string \<Rightarrow> (world, pyval) act" where
  "start_outer e ap token =
     seqE clear_sessions
       (bindE (start_workflow e ap token (PStr OUTER) (PStr ''bench'')) (\<lambda>r. liftE (getitem r ''session_id'')))"

definition bench_push ::
  "'e tool_env_scheme \<Rightarrow> app \<Rightarrow> string \<Rightarrow> pyval \<Rightarrow> string \<Rightarrow> string \<Rightarrow> (world, pyval) act" where
  "bench_push e ap token sid paused context =
     bindE (push_flow e ap token sid (PStr DIGRESSION) (PStr paused) (PStr context)) (\<lambda>r.
       seqE (assert_no_code r) (liftE (getitem r ''session_id'')))"

definition bench_pop :: "'e tool_env_scheme \<Rightarrow> app \<Rightarrow> pyval \<Rightarrow> (world, unit) act" where
  "bench_pop e ap sid = bindE (pop_flow e ap sid) assert_no_code"

definition push_pop_once :: "'e tool_env_scheme \<Rightarrow> app \<Rightarrow> string \<Rightarrow> pyval \<Rightarrow> (world, unit) act" where
  "push_pop_once e ap token outer_sid =
     bindE (bench_push e ap token outer_sid ''o1'' ''bench-digress'') (bench_pop e ap)"

definition push3_pop3 :: "'e tool_env_scheme \<Rightarrow> app \<Rightarrow> string \<times> string \<times> string \<Rightarrow> pyval \<Rightarrow> (world, unit) act" where
  "push3_pop3 e ap ids outer_sid =
     bindE (bench_push e ap (fst ids) outer_sid ''o1'' ''bench-d1'') (\<lambda>sid1.
     bindE (bench_push e ap (fst (snd ids)) sid1 ''d1'' ''bench-d2'') (\<lambda>sid2.
     bindE (bench_push e ap (snd (snd ids)) sid2 ''d1'' ''bench-d3'') (\<lambda>sid3.
       seqE (bench_pop e ap sid3) (seqE (bench_pop e ap sid2) (bench_pop e ap sid1)))))"

definition bench_env :: tool_env where
  "bench_env = demo_env\<lparr>session_cap := 500\<rparr>"

text \<open>Three pushes reach the depth cap and are admitted; three pops leave the outer session alone.\<close>

lemma depth_3_round:
  "(case bindE (start_outer bench_env (register_push_fixtures demo_app) ''o'')
      (push3_pop3 bench_env (register_push_fixtures demo_app) (''a'', ''b'', ''c'')) empty_world of
     (r, s) \<Rightarrow> r = Inr () \<and> map session_id (sessions s) = [''o''] \<and> session_stack s = [])"
  by code_simp

lemma depth_1_round:
  "(case bindE (start_outer bench_env (register_push_fixtures demo_app) ''o'')
      (push_pop_once bench_env (register_push_fixtures demo_app) ''a'') empty_world of
     (r, s) \<Rightarrow> r = Inr () \<and> map session_id (sessions s) = [''o''] \<and> session_stack s = [])"
  by code_simp

section \<open>bench\_hot\_path.py\<close>

definition start_canonical_session :: "'e tool_env_scheme \<Rightarrow> app \<Rightarrow> string \<Rightarrow> (world, pyval) act" where
  "start_canonical_session e ap token =
     seqE clear_sessions
       (bindE (start_workflow e ap token (PStr ''canonical'') (PStr ''bench'')) (\<lambda>r. liftE (getitem r ''session_id'')))"

definition bench_submit :: "'e tool_env_scheme \<Rightarrow> app \<Rightarrow> pyval \<Rightarrow> (world, unit) act" where
  "bench_submit e ap sid =
     bindE (submit_step e ap sid (PStr ''alpha'') (PStr ''bench-payload'') (PStr []) (PStr [])) assert_no_code"

definition bench_read :: "'e tool_env_scheme \<Rightarrow> app \<Rightarrow> pyval \<Rightarrow> (world, unit) act" where
  "bench_read e ap sid = bindE (get_state e ap sid) assert_no_code"

text \<open>One coroutine of the gather.\<close>

definition one_pair :: "'e tool_env_scheme \<Rightarrow> app \<Rightarrow> string \<Rightarrow> int \<Rightarrow> (world, pyval) act" where
  "one_pair e ap token i =
     bindE (start_workflow e ap token (PStr ''canonical'') (PStr (''gather-'' @ str_int i))) (\<lambda>r.
     bindE (liftE (getitem r ''session_id'')) (\<lambda>sid.
       submit_step e ap sid (PStr ''alpha'') (PStr ''gather-payload'') (PStr []) (PStr [])))"

fun all_pairs :: "'e tool_env_scheme \<Rightarrow> app \<Rightarrow> int \<Rightarrow> string list \<Rightarrow> (world, pyval list) act" where
  "all_pairs e ap i [] = retE []"
| "all_pairs e ap i (t # ts) =
     bindE (one_pair e ap t i) (\<lambda>r. bindE (all_pairs e ap (i + 1) ts) (\<lambda>rs. retE (r # rs)))"

definition canonical_app :: app where
  "canonical_app = demo_app\<lparr>app_workflows := [(''canonical'',
     plain_workflow ''canonical'' [plain_step ''alpha'', plain_step ''bravo'', plain_step ''charlie''])]\<rparr>"

lemma hot_path_rounds:
  "fst (bindE (start_canonical_session bench_env canonical_app ''o'') (bench_submit bench_env canonical_app) empty_world) = Inr ()"
  "fst (bindE (start_canonical_session bench_env canonical_app ''o'') (bench_read bench_env canonical_app) empty_world) = Inr ()"
  by code_simp+

text \<open>
  One pair after the other, the gather fails at the sixth: five sessions are active, and the
  refusal has no session id. It succeeds only where starts overlap.
\<close>

lemma pair_over_cap:
  assumes "ACTIVE_CAP \<le> count_active s" "dget (app_workflows ap) ''canonical'' = Some w"
  shows "one_pair e ap token i s = (Inl (KeyError ''session_id''), s)"
  using assms
  by (simp add: one_pair_def start_workflow_def guard_args_def check_str_def trap_errors_def as_str_def
      session_cap_error_def error_response_def getitem_def bindE_def)

lemma gather_of_ten:
  "fst (all_pairs bench_env canonical_app 0 [''a'', ''b'', ''c'', ''d'', ''e'', ''f'', ''g'', ''h'', ''i'', ''j''] empty_world) =
     Inl (KeyError ''session_id'')"
  by code_simp

section \<open>bench\_mcp\_client\_cold\_start.py\<close>

definition registry_for_stub :: "string \<Rightarrow> registry" where
  "registry_for_stub stub_url = [(''stub'', \<lparr>server_name = ''stub'', url = stub_url, transport = ''http'',
     auth = \<lparr>auth_type = ''bearer'', token_env = ''STUB_TOKEN''\<rparr>, timeout_default = None\<rparr>)]"

definition call_cold :: "'e net_env_scheme \<Rightarrow> string \<Rightarrow> (client, unit) act" where
  "call_cold e stub_url =
     bindE (\<lambda>c. mcp_call e ''stub'' ''echo'' (PDict [(''value'', PStr ''hello'')]) (registry_for_stub stub_url) None
         (c\<lparr>validator_cache := []\<rparr>))
       (\<lambda>out. case out of Ok _ \<Rightarrow> retE () | _ \<Rightarrow> raiseE (AssertionError (outcome_kind out)))"

text \<open>Every round against the stub is cold: two requests, the list of tools and the call.\<close>

lemma cold_call_requests:
  assumes "stub_serves e" "getenv e ''STUB_TOKEN'' \<noteq> None"
  shows "\<exists>c'. call_cold e u c = (Inr (), c') \<and> net_ops c' = net_ops c + 2"
proof -
  let ?sv = "snd (hd (registry_for_stub u))"
  have token: "getenv e (token_env (auth ?sv)) \<noteq> None" using assms(2) by (simp add: registry_for_stub_def)
  from stub_answers [OF assms(1) token, of "c\<lparr>validator_cache := []\<rparr>" "''hello''" "client_timeout None ?sv"] obtain c' where
    "call_with_validation_async e ''stub'' ?sv ''echo'' (PDict [(''value'', PStr ''hello'')])
      (client_timeout None ?sv) (c\<lparr>validator_cache := []\<rparr>) = (Inr (Ok ''hello''), c')" "net_ops c' = net_ops c + 2"
    by auto
  then show ?thesis
    by (simp add: call_cold_def mcp_call_def registry_get_def registry_for_stub_def call_with_retry_async_def
        retry_loop.simps bindE_def)
qed

end
