(* ===== verification/Snapshot.thy ===== *)
theory Snapshot
  imports Complex_Main DryrunScript
begin

text \<open>
  The perf snapshot (\<^verbatim>\<open>scripts/perf/horizon_snapshot.py\<close>): timed calls of four tools over the wire of a
  client, a sanity floor, and a table. The endpoint is a parameter: connecting, one call with what
  the clock measured around it (milliseconds), sleeping, closing. Times are rationals, and the square
  root of the standard deviation is taken to nine decimals; the em dash and the minus sign of the
  table are ASCII here.
\<close>

section \<open>Numbers\<close>











section \<open>The run\<close>

record wire_result =
  wr_data :: pyval
  wr_structured :: pyval


















section \<open>What it reports\<close>











definition is_exception :: "exn \<Rightarrow> bool" where
  "is_exception x \<longleftrightarrow> (case x of SystemExit _ \<Rightarrow> False | NoReturn \<Rightarrow> False | _ \<Rightarrow> True)"



section \<open>What a run does\<close>

text \<open>The same endpoint, keeping a record of what was done on it.\<close>

datatype wire_event = Opened | Called string "(string \<times> pyval) list" wire_result rat | CallFailed string
  | Slept rat | Closed


text \<open>Repeated calls, with a pause after each: what each answered and how long it took.\<close>

definition paced ::
  "string \<Rightarrow> (string \<times> pyval) list \<Rightarrow> rat \<Rightarrow> (wire_result \<times> rat) list \<Rightarrow> wire_event list" where
  "paced name args gap rs = concat (map (\<lambda>(r, t). [Called name args r t, Slept gap]) rs)"

text \<open>The calls of one complete run, in order, with their arguments.\<close>

definition submission :: "pyval \<Rightarrow> pyval \<Rightarrow> (string \<times> pyval) list" where
  "submission sid step =
     [(''session_id'', sid), (''step_id'', step), (''content'', PStr ''{\"goal\": \"perf snapshot measurement\"}'')]"

definition session_calls :: "rat \<Rightarrow> pyval \<Rightarrow> pyval \<Rightarrow> (wire_result \<times> rat) list \<Rightarrow> (wire_result \<times> rat) list \<Rightarrow>
    wire_result \<Rightarrow> rat \<Rightarrow> wire_event list" where
  "session_calls gap sid step gs ss cr ct =
     paced ''get_state'' [(''session_id'', sid)] gap gs @ paced ''submit_step'' (submission sid step) gap ss @
     [Called ''delete_session'' [(''session_id'', sid)] cr ct]"

definition full_run :: "rat \<Rightarrow> string \<Rightarrow> pyval \<Rightarrow> pyval \<Rightarrow> (wire_result \<times> rat) list \<Rightarrow> wire_result \<Rightarrow> rat \<Rightarrow>
    (wire_result \<times> rat) list \<Rightarrow> wire_result \<Rightarrow> rat \<Rightarrow> (wire_result \<times> rat) list \<Rightarrow> (wire_result \<times> rat) list \<Rightarrow>
    wire_result \<Rightarrow> rat \<Rightarrow> wire_event list" where
  "full_run gap wft sid step rtt ar at' lw br bt gs ss cr ct =
     paced ''list_workflows'' [] gap rtt @ [Called ''list_workflows'' [] ar at'] @ paced ''list_workflows'' [] gap lw @
     [Called ''start_workflow'' [(''workflow_type'', PStr wft), (''context'', PStr ''perf snapshot'')] br bt] @
     session_calls gap sid step gs ss cr ct"






definition inner :: "wire_event list \<Rightarrow> bool" where
  "inner tr \<longleftrightarrow> Opened \<notin> set tr \<and> Closed \<notin> set tr"



lemma inner_simps [simp]: "inner []" "inner (Called n as r t # tr) = inner tr" "inner (CallFailed n # tr) = inner tr"
    "inner (Slept t # tr) = inner tr" "inner (tr @ tr') \<longleftrightarrow> inner tr \<and> inner tr'"
  by (auto simp: inner_def)

lemma paced_simps [simp]: "paced name args gap [] = []"
    "paced name args gap ((r, t) # rs) = Called name args r t # Slept gap # paced name args gap rs"
  by (simp_all add: paced_def)

lemma inner_paced [simp]: "inner (paced name args gap rs)"
  by (induction rs) auto

lemma inner_session_calls [simp]: "inner (session_calls gap sid step gs ss cr ct)"
  by (simp add: session_calls_def)

lemma inner_full_run [simp]: "inner (full_run gap wft sid step rtt ar at' lw br bt gs ss cr ct)"
  by (simp add: full_run_def)











lemma is_exception_simps [simp]: "is_exception (KeyError k)" "is_exception (TypeError k)"
    "is_exception (AttributeError k)" "is_exception (LibraryError k)"
  by (simp_all add: is_exception_def)










section \<open>All or nothing\<close>



























end
