(* ===== verification/Spec2Isabelle.thy ===== *)
theory Spec2Isabelle
  imports StackProps LoopProps RateLimitProps StoreProps ClientProps MiddlewareProps App DiagramProps
    ThrottleProps PanelProps DryrunRuns Settings Commands Database Positions Polling Races Recorder Logs Bench Snapshot
begin

text \<open>
  This development models megalos, a server that walks language models through multi-step
  workflows (Python, \<^verbatim>\<open>src/megalos_server\<close>), and its measurement client, the model panel
  (\<^verbatim>\<open>src/megalos_panel\<close>). Definitions keep the names of the functions they translate.

  \<^bold>\<open>The program.\<close> \<^verbatim>\<open>create_app\<close> reads a directory of YAML workflows, validates each and the
  calls between them, and registers a set of tools behind three middlewares. The tools start,
  advance, revise, nest and delete sessions; a session is a row of a SQLite table, the nesting a
  second table of frames. A step may be answered by the model (\<open>submit_step\<close>), by a sub-workflow
  (\<open>enter_sub_workflow\<close>) or by an external MCP server (\<open>mcp_tool_call\<close> steps, executed in
  line). Around each tool a rate limiter consults up to three token buckets.

  \<^bold>\<open>Theories and sources.\<close>

  \<^item> \<^verbatim>\<open>Prelude\<close>: exceptions as values, computations that keep their state when they raise,
    dictionaries in insertion order, strings, and the locales \<open>step_invariant\<close> and
    \<open>invariant_machine\<close> for invariants of step relations. \<^verbatim>\<open>PyJson\<close>, \<^verbatim>\<open>JsonProps\<close>: document values,
    \<^verbatim>\<open>json.dumps\<close> and \<^verbatim>\<open>json.loads\<close> and their round trip.
  \<^item> \<^verbatim>\<open>SessionBase\<close> (\<^verbatim>\<open>session_canon.py\<close>, \<^verbatim>\<open>identity.py\<close>, \<^verbatim>\<open>errors.py\<close>), \<^verbatim>\<open>SessionStore\<close>
    (\<^verbatim>\<open>state.py\<close>, \<^verbatim>\<open>db.py\<close>): the two tables and every operation on them. \<^verbatim>\<open>SessionProps\<close> has the
    invariant \<open>db_ok\<close> of the tables and the locale \<open>row_update\<close>, the contract of the
    read-modify-write operations, interpreted on each; \<^verbatim>\<open>StoreProps\<close> the abstract view of the
    store: a map from canonical ids to rows, and a stack of frames per root (locale \<open>list_stack\<close>).
  \<^item> \<^verbatim>\<open>Workflow\<close>, \<^verbatim>\<open>ToolsCore\<close>, \<^verbatim>\<open>ToolsSubmit\<close>, \<^verbatim>\<open>Tools\<close> (\<^verbatim>\<open>tools.py\<close>): the pure functions on
    workflows, the helpers of the tools, and the tools. \<^verbatim>\<open>ToolInvariants\<close> walks every handler once,
    in the locale \<open>tool_invariant\<close>, for whatever property the store operations keep; it is
    interpreted for the tables, the session cap and the evolution of one row. \<^verbatim>\<open>Scenario\<close> is
    a concrete process for the witnesses. \<^verbatim>\<open>SubmitProps\<close>, \<^verbatim>\<open>LifecycleProps\<close>, \<^verbatim>\<open>StackProps\<close> say what
    the tools do on each branch, \<^verbatim>\<open>LoopProps\<close> when the two loops over steps end.
  \<^item> \<^verbatim>\<open>McpRegistry\<close>, \<^verbatim>\<open>McpClient\<close>, \<^verbatim>\<open>McpExecutor\<close> (the modules of the same names): the registry of
    external servers, the client with its retries (locale \<open>metered_attempt\<close>), the executor of
    \<open>mcp_tool_call\<close> steps; \<^verbatim>\<open>ClientProps\<close> bounds their traffic and reads stored results back.
  \<^item> \<^verbatim>\<open>RateLimit\<close> (\<^verbatim>\<open>ratelimit.py\<close>), \<^verbatim>\<open>Middleware\<close> (\<^verbatim>\<open>middleware.py\<close>) with \<^verbatim>\<open>RateLimitProps\<close> and
    \<^verbatim>\<open>MiddlewareProps\<close>: buckets, stores and log dedupe; the stack around a tool.
  \<^item> \<^verbatim>\<open>Schema\<close>, \<^verbatim>\<open>CallGraph\<close> (\<^verbatim>\<open>schema.py\<close>), \<^verbatim>\<open>App\<close> (\<^verbatim>\<open>__init__.py\<close>) with \<^verbatim>\<open>SchemaProps\<close>: every check of
    the validator with its message, the search for call cycles, the start of the server.
  \<^item> \<^verbatim>\<open>Diagram\<close> (\<^verbatim>\<open>diagram.py\<close>) with \<^verbatim>\<open>DiagramProps\<close>: the rendering of a workflow, which draws
    exactly the arrows of an abstract graph read off the document. \<^verbatim>\<open>Commands\<close> (\<^verbatim>\<open>validate.py\<close>, the registry file): the commands and their exit status.
    \<^verbatim>\<open>Settings\<close>: the limiter's configuration from the environment.
  \<^item> \<^verbatim>\<open>Boot\<close> (\<^verbatim>\<open>__init__.py\<close>, \<^verbatim>\<open>main.py\<close>, \<^verbatim>\<open>static_handler.py\<close>): \<^verbatim>\<open>create_app\<close> as a whole, the process entry,
    the static routes and what they answer. \<^verbatim>\<open>Database\<close> (\<^verbatim>\<open>db.py\<close>): connections of threads and the
    migration of older files. \<^verbatim>\<open>Reading\<close> turns the documents the validator accepted into the records
    the tools run on, and \<^verbatim>\<open>Positions\<close> joins both sides: in a started server every session stands on a
    step of its workflow or where the database it started from left it. \<^verbatim>\<open>Polling\<close> is one that never
    answers: a validated workflow whose only step goes on to itself.
  \<^item> \<^verbatim>\<open>Races\<close>: calls that overlap on several threads, between the transactions that check and those
    that create. \<^verbatim>\<open>Logs\<close>: the eviction and client-call log lines, which carry hashes only.
  \<^item> \<^verbatim>\<open>Dryrun\<close> (\<^verbatim>\<open>dryrun.py\<close>): the read-eval-print loop over the tools. \<^verbatim>\<open>DryrunScript\<close> has the
    responses file, the scripted readers and triples for computations that end by an exception;
    \<^verbatim>\<open>DryrunProps\<close> the invariant between the script and the calls made, for any server;
    \<^verbatim>\<open>DryrunRuns\<close> runs on the tools themselves (locale \<open>kept_by_calls\<close>).
  \<^item> \<^verbatim>\<open>Recorder\<close> (\<^verbatim>\<open>record.py\<close>): the record writer as a state machine over files with a buffer.
  \<^item> \<^verbatim>\<open>Smoke\<close> (\<^verbatim>\<open>smoke_endpoint.py\<close>, \<^verbatim>\<open>mcp_smoke.py\<close>, the stub), \<^verbatim>\<open>Snapshot\<close> (\<^verbatim>\<open>horizon_snapshot.py\<close>), \<^verbatim>\<open>Bench\<close>
    (\<^verbatim>\<open>benchmarks\<close>): the tools around the server, as programs over its model or over an endpoint that
    is a parameter.
  \<^item> \<^verbatim>\<open>Throttle\<close>, \<^verbatim>\<open>Panel\<close> (\<^verbatim>\<open>megalos_panel\<close>) with \<^verbatim>\<open>ThrottleProps\<close> and \<^verbatim>\<open>PanelProps\<close>: the throttle,
    retries, the thread pool, the adapters, the query and its record files.
  \<^item> This theory: what holds in every state a sequence of tool calls can reach.

  \<^bold>\<open>State and effects.\<close> The state of the server is the \<open>world\<close>: the
  database and the MCP client of the process. A tool is a computation over it that returns the
  response or raises; \<open>tool_step\<close> is one call of one tool, and interleavings of callers
  are sequences of such steps: each tool runs in one piece. FastMCP may run handlers on threads,
  where a transaction is the piece; \<^verbatim>\<open>Races\<close> models what this changes for
  \<^verbatim>\<open>start_workflow\<close> and \<^verbatim>\<open>push_flow\<close>. Everything
  outside the sources is a parameter of an environment record: the hash function, the JSON Schema
  and regular-expression engines, the network (an oracle that answers the n-th operation), the
  vendor SDKs, the clock. A fresh session token is an argument.

  \<^bold>\<open>Bounds and fuel.\<close> The skip loop and the cascade of \<open>mcp_tool_call\<close> steps may not end in the
  code, so they take fuel; \<open>skip_loop_terminates\<close> and \<open>auto_execute_terminates\<close> show that one more
  than the number of steps is enough where ids are distinct and execution moves forward, and
  \<open>self_polling_never_returns\<close> (\<^verbatim>\<open>Polling\<close>) that no fuel is enough for a step that polls itself. The JSON reader takes fuel
  linear in its text; the dry run takes one unit per turn, and \<open>scripted_run_returns\<close> says how
  much is enough. Every other loop is a terminating function: the cycle search by white nodes,
  the retry loops by their budgets, the throttle by the size of its windows. Integers are
  unbounded, as in Python; floats are exact decimals or rationals; characters are the code points
  below U+0100; dictionary keys of documents are strings.

  \<^bold>\<open>Not modelled.\<close> Measured durations, debug logs and their formatting; pragmas and timeouts of
  SQLite; \<^verbatim>\<open>argparse\<close>; FastMCP, Starlette, pydantic, jsonschema, the YAML parser and the vendor SDKs
  themselves, which are parameters; the timing harness of the benchmarks, shell scripts and the
  test suite. They are input and output, libraries, or tooling with no logic of the server.
\<close>

section \<open>Reachable states\<close>

lemma tool_step_any_token: "tool_step e drawn s s' \<Longrightarrow> tool_step e UNIV s s'"
  by (induction rule: tool_step.induct) (auto intro: tool_step.intros)

lemma tool_steps_any_token: "(tool_step e drawn)\<^sup>*\<^sup>* s s' \<Longrightarrow> (tool_step e UNIV)\<^sup>*\<^sup>* s s'"
  by (induction rule: rtranclp_induct) (auto intro: rtranclp.rtrancl_into_rtrancl tool_step_any_token)

lemma empty_world_ok: "db_ok empty_world"
  by (simp add: db_ok_empty empty_world_def)

text \<open>
  C1. In every database that any sequence of the state-changing tools (start, submit, revise,
  enter, push, pop, delete, expiry) can build from the empty one, session ids are canonical and
  unique, every frame has a session row and a unique (root, depth) position, and
  \<open>parent_of\<close> and \<open>top_frame_for\<close> are inverse to each other on the
  frames that have a parent.
\<close>

theorem reachable_tables_ok:
  assumes "(tool_step e drawn)\<^sup>*\<^sup>* empty_world s"
  shows "db_ok s \<and>
    (\<forall>f\<in>set (session_stack s). parent_of (frame_session_id f) s = None \<or>
      (\<exists>p. parent_of (frame_session_id f) s = Some p \<and> top_frame_for p s = Some f)) \<and>
    (\<forall>p f. normalize_session_id p = p \<and> top_frame_for p s = Some f \<longrightarrow>
      parent_of (frame_session_id f) s = Some p)"
proof -
  have ok: "db_ok s"
    using tables.reach_inv [OF tool_steps_any_token [OF assms] empty_world_ok] .
  have "parent_of (frame_session_id f) s = None \<or>
      (\<exists>p. parent_of (frame_session_id f) s = Some p \<and> top_frame_for p s = Some f)"
    if f: "f \<in> set (session_stack s)" for f
  proof (cases "parent_of (frame_session_id f) s")
    case (Some p)
    from top_frame_of_parent [OF ok Some] obtain g
      where g: "find_frame (normalize_session_id (frame_session_id f)) s = Some g" "top_frame_for p s = Some g" .
    then have "g = f" using find_frame_unique [OF ok f] frame_canonical(1) [OF ok f] by simp
    with g Some show ?thesis by blast
  qed simp
  moreover have "parent_of (frame_session_id f) s = Some p"
    if "normalize_session_id p = p" "top_frame_for p s = Some f" for p f
    using parent_of_top_frame [OF ok that] .
  ultimately show ?thesis using ok by blast
qed

text \<open>
  No run of the tools from the empty database ever holds more sessions than the configured cap,
  provided the cap is positive.
\<close>

theorem reachable_within_session_cap:
  assumes "(tool_step e drawn)\<^sup>*\<^sup>* empty_world s" and "1 \<le> session_cap e"
  shows "int (length (sessions s)) \<le> session_cap e"
proof -
  have "within_cap e empty_world" by (simp add: within_cap_def db_ok_empty empty_world_def)
  from cap.reach_inv [OF tool_steps_any_token [OF assms(1)] this] assms(2)
  show ?thesis by (simp add: within_cap_def)
qed

text \<open>
  C12. Along any run of the tools, a session that exists before and after (its id not drawn
  again as a fresh token) keeps its identity fields, never loses an escalation, and its retry
  and visit counters never decrease.
\<close>

theorem sessions_only_evolve:
  assumes run: "(tool_step e drawn)\<^sup>*\<^sup>* s s'" and other: "\<forall>t\<in>drawn. normalize_session_id t \<noteq> x"
    and rows: "find_row x s = Some r" "find_row x s' = Some r'"
  shows "same_identity r r' \<and> (escalation r \<noteq> None \<longrightarrow> escalation r' \<noteq> None) \<and>
     (\<forall>k. dget_or (retry_counts r) k 0 \<le> dget_or (retry_counts r') k 0) \<and>
     (\<forall>k. dget_or (step_visit_counts r) k 0 \<le> dget_or (step_visit_counts r') k 0)"
proof -
  have "(tool_step e {t. normalize_session_id t \<noteq> x})\<^sup>*\<^sup>* s s'"
    using run
  proof (induction rule: rtranclp_induct)
    case (step s1 s2)
    have "tool_step e {t. normalize_session_id t \<noteq> x} s1 s2"
      using step.hyps(2) other by (cases rule: tool_step.cases) (auto intro: tool_step.intros)
    with step.IH show ?case by (rule rtranclp.rtrancl_into_rtrancl)
  qed simp
  moreover have "lives x r s" using rows(1) by (simp add: lives_def)
  ultimately have "lives x r s'" by (rule row.reach_inv)
  then show ?thesis using rows(2) by (simp add: lives_def evolves_def)
qed

text \<open>A run of two calls: a start and a submission.\<close>

definition two_calls :: world where
  "two_calls = snd (submit_step demo_env demo_app (PStr ''t'') (PStr ''plan'') (PStr ''x'') (PStr []) (PStr [])
     (snd (start_workflow demo_env demo_app ''T'' (PStr ''essay'') (PStr []) empty_world)))"

lemma two_calls_run:
  "tool_step demo_env {''T''} empty_world
     (snd (start_workflow demo_env demo_app ''T'' (PStr ''essay'') (PStr []) empty_world))"
  "(tool_step demo_env {''T''})\<^sup>*\<^sup>* empty_world two_calls"
proof -
  have f: "fresh ''T'' empty_world" by code_simp
  show s: "tool_step demo_env {''T''} empty_world
     (snd (start_workflow demo_env demo_app ''T'' (PStr ''essay'') (PStr []) empty_world))"
    by (rule tool_step.start [OF f]) simp
  show "(tool_step demo_env {''T''})\<^sup>*\<^sup>* empty_world two_calls"
    unfolding two_calls_def
    by (rule rtranclp.rtrancl_into_rtrancl [OF r_into_rtranclp [where r = "tool_step demo_env {''T''}", OF s]]) (rule tool_step.submit)
qed

theorem reachable_tables_ok_witness: "db_ok two_calls"
  using reachable_tables_ok [OF two_calls_run(2)] by blast

theorem reachable_within_session_cap_witness:
  "int (length (sessions two_calls)) \<le> 4 \<and> map session_id (sessions two_calls) = [''t'']"
proof -
  have v: "1 \<le> session_cap demo_env" "session_cap demo_env = 4"
    "map session_id (sessions two_calls) = [''t'']"
    by code_simp+
  from reachable_within_session_cap [OF two_calls_run(2) v(1)] v show ?thesis by simp
qed

theorem sessions_only_evolve_witness:
  "\<exists>r'. find_row ''s1'' (snd (submit_step demo_env demo_app (PStr ''s1'') (PStr ''form'')
      (PStr ''{\"mayday\": 1}'') (PStr []) (PStr []) (solo ''strict'' ''form''))) = Some r' \<and>
    same_identity (demo_row ''s1'' ''strict'' ''form'') r' \<and>
    escalation r' = Some (''g1'', ''stop'')"
proof -
  let ?s = "solo ''strict'' ''form''"
  let ?s' = "snd (submit_step demo_env demo_app (PStr ''s1'') (PStr ''form'')
      (PStr ''{\"mayday\": 1}'') (PStr []) (PStr []) ?s)"
  have v: "find_row ''s1'' ?s = Some (demo_row ''s1'' ''strict'' ''form'')"
    "map_option escalation (find_row ''s1'' ?s') = Some (Some (''g1'', ''stop''))"
    by code_simp+
  then obtain r' where r': "find_row ''s1'' ?s' = Some r'" "escalation r' = Some (''g1'', ''stop'')"
    by auto
  have "(tool_step demo_env {})\<^sup>*\<^sup>* ?s ?s'" by (rule r_into_rtranclp) (rule tool_step.submit)
  from sessions_only_evolve [OF this _ v(1) r'(1)] r' show ?thesis by simp
qed

end
